(* ===== verification/Prelude.thy ===== *)
theory Prelude
  imports Main "HOL-Library.Word" "HOL-Library.Char_ord" "HOL-Library.List_Lexorder"
begin

unbundle bit_operations_syntax

text \<open>
  Types, automation and generic lemmas shared by every theory of the development:
  the byte and integer types of the C++ code, \<open>std::map\<close> as a key-sorted
  association list, and the small facts on lists and words that the components' proofs use.
\<close>

section \<open>Types\<close>

type_synonym byte = "8 word"
type_synonym u16 = "16 word"
type_synonym u32 = "32 word"
type_synonym u64 = "64 word"
type_synonym i32 = "32 word"

text \<open>Facts about states that a proof of a step needs: invariants and frame properties.\<close>

named_theorems inv_rules "preservation of component invariants"
named_theorems frame_rules "fields an operation leaves alone"
named_theorems xor_rules "cancellation of exclusive or"

section \<open>Words\<close>

lemma xor_cancel_right [xor_rules, simp]: "(a XOR k) XOR k = (a :: 'a::len word)"
  by (simp add: xor.assoc)

lemma xor_cancel_left [xor_rules, simp]: "k XOR (k XOR a) = (a :: 'a::len word)"
  by (simp flip: xor.assoc)

lemma xor_cancel_mid [xor_rules]: "(a XOR j XOR k) XOR j XOR k = (a :: 'a::len word)"
  by (simp add: xor.assoc xor.left_commute)

lemma unat_less: "unat (w :: 'a::len word) < 2 ^ LENGTH('a)"
  by (rule unsigned_less)

lemma unat_take_bit: "unat (take_bit n w) = unat w mod 2 ^ n" for w :: "'a::len word"
  by (simp only: unsigned_take_bit_eq take_bit_eq_mod [where 'a = nat])

lemma unat_drop_bit: "unat (drop_bit n w) = unat w div 2 ^ n" for w :: "'a::len word"
  by (simp only: unat_drop_bit_eq drop_bit_eq_div [where 'a = nat])

lemma unat_byte_less [simp]: "unat (b :: byte) < 256"
  using unsigned_less [of b] by simp

lemma unat_word_of_nat_byte: "n < 256 \<Longrightarrow> unat (word_of_nat n :: byte) = n"
  by (simp add: unat_of_nat)

section \<open>Lists\<close>

text \<open>Exchange of two cells of an array, the step of every card shuffle of the ciphers.\<close>

definition swap :: "nat \<Rightarrow> nat \<Rightarrow> 'a list \<Rightarrow> 'a list" where
  "swap i j xs = xs[i := xs ! j, j := xs ! i]"

lemma length_swap [simp]: "length (swap i j xs) = length xs"
  by (simp add: swap_def)

lemma distinct_swap_cells [simp]:
  "i < length xs \<Longrightarrow> j < length xs \<Longrightarrow> distinct (swap i j xs) = distinct xs"
  by (simp add: swap_def)

lemma set_swap_cells [simp]:
  "i < length xs \<Longrightarrow> j < length xs \<Longrightarrow> set (swap i j xs) = set xs"
  by (simp add: swap_def)

section \<open>\<open>std::map\<close>\<close>

text \<open>
  \<open>std::map\<close> keeps its entries sorted by key and iterates in that order; it is an
  association list with strictly increasing keys. \<open>std::string\<close> keys compare as unsigned
  bytes, which is the order \<open>HOL-Library.List_Lexorder\<close> gives to \<open>string\<close>.
\<close>

type_synonym ('k, 'v) smap = "('k \<times> 'v) list"

definition smap_ok :: "('k::linorder, 'v) smap \<Rightarrow> bool" where
  "smap_ok m \<longleftrightarrow> sorted_wrt (<) (map fst m)"

definition smap_find :: "('k, 'v) smap \<Rightarrow> 'k \<Rightarrow> 'v option" where
  "smap_find m k = map_of m k"

text \<open>\<open>m[k] = v\<close>: replaces the value of a present key, or inserts in order.\<close>

fun smap_put :: "'k::linorder \<Rightarrow> 'v \<Rightarrow> ('k, 'v) smap \<Rightarrow> ('k, 'v) smap" where
  "smap_put k v [] = [(k, v)]"
| "smap_put k v ((k', v') # m) =
     (if k < k' then (k, v) # (k', v') # m
      else if k = k' then (k, v) # m
      else (k', v') # smap_put k v m)"

text \<open>
  The read \<open>m[k]\<close> inserts a default value for a missing key, so it returns the map too.
\<close>

definition smap_index :: "'v \<Rightarrow> 'k::linorder \<Rightarrow> ('k, 'v) smap \<Rightarrow> 'v \<times> ('k, 'v) smap" where
  "smap_index d k m =
     (case smap_find m k of Some v \<Rightarrow> (v, m) | None \<Rightarrow> (d, smap_put k d m))"

lemma fst_set_smap_put: "fst ` set (smap_put k v m) = insert k (fst ` set m)"
  by (induction k v m rule: smap_put.induct) auto

lemma smap_ok_Nil [simp]: "smap_ok []"
  by (simp add: smap_ok_def)

lemma smap_ok_Cons:
  "smap_ok ((k, v) # m) \<longleftrightarrow> (\<forall>x \<in> fst ` set m. k < x) \<and> smap_ok m"
  by (auto simp: smap_ok_def)

lemma smap_ok_put [inv_rules]: "smap_ok m \<Longrightarrow> smap_ok (smap_put k v m)"
  by (induction k v m rule: smap_put.induct)
    (auto simp: smap_ok_Cons fst_set_smap_put)

lemma smap_find_above:
  "(\<forall>x \<in> fst ` set m. k < x) \<Longrightarrow> map_of m k = (None :: 'v option)"
  for k :: "'k::linorder"
  by (force simp: map_of_eq_None_iff)

lemma smap_find_put:
  "smap_ok m \<Longrightarrow> smap_find (smap_put k v m) = (smap_find m)(k \<mapsto> v)"
  unfolding smap_find_def
proof (induction k v m rule: smap_put.induct)
  case (2 k v k' v' m)
  have above: "map_of m k = None" if "k < k'"
    using that 2(2) by (intro smap_find_above) (auto simp: smap_ok_Cons dest: less_trans)
  show ?case
    using 2 above by (auto simp: smap_ok_Cons fun_eq_iff split: if_splits)
qed simp

lemma smap_find_empty: "smap_find [] = Map.empty"
  by (simp add: smap_find_def fun_eq_iff)

text \<open>Two well-formed maps with the same lookups are the same list.\<close>

lemma smap_ext:
  assumes "smap_ok m" and "smap_ok n" and "smap_find m = smap_find n"
  shows "m = n"
proof -
  have sorted: "sorted (map fst m)" "distinct (map fst m)" "sorted (map fst n)" "distinct (map fst n)"
    using assms(1,2) by (auto simp: smap_ok_def strict_sorted_iff)
  then have "set m = set n"
    using assms(3) unfolding smap_find_def by (metis map_of_inject_set)
  moreover have "inj_on fst (set m)" using sorted(2) by (simp add: distinct_map)
  ultimately show ?thesis
    using sorted by (intro map_sorted_distinct_set_unique [of fst]) auto
qed

lemma smap_index_result:
  "smap_index d k m = (v, m') \<Longrightarrow> v = (case smap_find m k of Some x \<Rightarrow> x | None \<Rightarrow> d)"
  by (auto simp: smap_index_def split: option.splits)

lemma smap_index_find:
  "smap_ok m \<Longrightarrow> smap_index d k m = (v, m') \<Longrightarrow>
    smap_ok m' \<and> smap_find m' = (smap_find m)(k \<mapsto> v)"
  by (auto simp: smap_index_def smap_find_put smap_ok_put fun_eq_iff split: option.splits)

subsection \<open>The map interface\<close>

text \<open>
  What the code relies on when it builds and reads a \<open>std::map\<close>: a store replaces, other
  keys are untouched, and a map is determined by its lookups.
\<close>

locale std_map =
  fixes emp :: 'm and put :: "'k \<Rightarrow> 'v \<Rightarrow> 'm \<Rightarrow> 'm"
    and find :: "'m \<Rightarrow> 'k \<Rightarrow> 'v option" and ok :: "'m \<Rightarrow> bool"
  assumes find_emp: "find emp = Map.empty"
    and find_put: "ok m \<Longrightarrow> find (put k v m) = (find m)(k \<mapsto> v)"
    and ok_emp: "ok emp"
    and ok_put: "ok m \<Longrightarrow> ok (put k v m)"
    and ext: "ok m \<Longrightarrow> ok n \<Longrightarrow> find m = find n \<Longrightarrow> m = n"
begin

lemma put_put: "ok m \<Longrightarrow> put k v (put k v' m) = put k v m"
  by (rule ext) (auto simp: ok_put find_put)

lemma put_commute: "ok m \<Longrightarrow> k \<noteq> k' \<Longrightarrow> put k v (put k' v' m) = put k' v' (put k v m)"
  by (rule ext) (auto simp: ok_put find_put fun_upd_twist)

lemma put_same: "ok m \<Longrightarrow> find m k = Some v \<Longrightarrow> put k v m = m"
  by (rule ext) (auto simp: ok_put find_put)

lemma fold_put:
  "ok m \<Longrightarrow> ok (foldl (\<lambda>m (k, v). put k v m) m kvs) \<and>
     find (foldl (\<lambda>m (k, v). put k v m) m kvs) = find m ++ map_of (rev kvs)"
  by (induction kvs arbitrary: m) (auto simp: ok_put find_put map_add_def fun_eq_iff split: option.splits)

end

interpretation smap: std_map "[]" smap_put smap_find smap_ok
  by unfold_locales (auto simp: smap_find_empty smap_find_put smap_ok_put intro: smap_ext)

text \<open>Storing the entries of a map one after another rebuilds it.\<close>

lemma smap_rebuild:
  assumes "smap_ok m"
  shows "foldl (\<lambda>m (k, v). smap_put k v m) [] m = m"
proof -
  have "distinct (map fst m)" using assms by (simp add: smap_ok_def strict_sorted_iff)
  then have "map_of (rev m) = map_of m"
    by (subst map_of_inject_set) (simp_all add: rev_map [symmetric])
  with smap.fold_put [of "[]" m] show ?thesis
    by (intro smap_ext assms) (auto simp: smap_find_empty smap_find_def)
qed

end
