(* ===== verification/CLib.thy ===== *)
theory CLib
  imports Prelude "HOL-Library.Signed_Division"
begin

text \<open>
  What the sources use of the C and C++ libraries: character classes of the C locale,
  \<open>tolower\<close>, \<open>atoi\<close>, decimal output of integers, C strings, and the tokens a
  \<open>std::getline\<close> loop reads from a string stream. A \<open>std::string\<close> is a \<open>string\<close>
  whose characters are the bytes.
\<close>

section \<open>Characters\<close>

abbreviation code :: "char \<Rightarrow> nat" where "code c \<equiv> of_char c"

definition isspace :: "char \<Rightarrow> bool" where
  "isspace c \<longleftrightarrow> (9 \<le> code c \<and> code c \<le> 13) \<or> code c = 32"

definition isdigit :: "char \<Rightarrow> bool" where
  "isdigit c \<longleftrightarrow> 48 \<le> code c \<and> code c \<le> 57"

definition isupper :: "char \<Rightarrow> bool" where
  "isupper c \<longleftrightarrow> 65 \<le> code c \<and> code c \<le> 90"

definition islower :: "char \<Rightarrow> bool" where
  "islower c \<longleftrightarrow> 97 \<le> code c \<and> code c \<le> 122"

definition isalnum :: "char \<Rightarrow> bool" where
  "isalnum c \<longleftrightarrow> isdigit c \<or> isupper c \<or> islower c"

definition tolower :: "char \<Rightarrow> char" where
  "tolower c = (if isupper c then char_of (code c + 32) else c)"

definition toupper :: "char \<Rightarrow> char" where
  "toupper c = (if islower c then char_of (code c - 32) else c)"

lemmas char_class_defs = isspace_def isdigit_def isupper_def islower_def isalnum_def tolower_def

lemma code_less [simp]: "code c < 256"
  by (cases c) (simp add: of_char_def horner_sum_simps split: bool.splits)

lemma code_tolower: "code (tolower c) = (if isupper c then code c + 32 else code c)"
  by (auto simp: tolower_def isupper_def)

lemma tolower_tolower [simp]: "tolower (tolower c) = tolower c"
  by (auto simp: tolower_def isupper_def)

lemma isspace_not_alnum: "isspace c \<Longrightarrow> \<not> isalnum c"
  by (auto simp: char_class_defs)

lemma isdigit_not_space: "isdigit c \<Longrightarrow> \<not> isspace c"
  by (auto simp: char_class_defs)

section \<open>C strings\<close>

text \<open>\<open>c_str\<close> read as a C string: the bytes before the first NUL.\<close>

definition nul :: char where "nul = CHR 0x00"

definition c_string :: "string \<Rightarrow> string" where
  "c_string s = takeWhile (\<lambda>c. c \<noteq> nul) s"

lemma c_string_Nil [simp]: "c_string [] = []"
  by (simp add: c_string_def)

lemma c_string_Cons: "c_string (c # s) = (if c = nul then [] else c # c_string s)"
  by (simp add: c_string_def)

lemma c_string_id [simp]: "nul \<notin> set s \<Longrightarrow> c_string s = s"
  by (induction s) (auto simp: c_string_Cons)

lemma c_string_idem [simp]: "c_string (c_string s) = c_string s"
  by (induction s) (auto simp: c_string_Cons)

lemma nul_notin_c_string [simp]: "nul \<notin> set (c_string s)"
  by (induction s) (auto simp: c_string_Cons)

text \<open>\<open>strncmp(s, t, length t) = 0\<close> for a literal \<open>t\<close>; \<open>strncasecmp\<close> likewise.\<close>

definition starts_with :: "string \<Rightarrow> string \<Rightarrow> bool" where
  "starts_with t s \<longleftrightarrow> take (length t) s = t"

definition starts_with_i :: "string \<Rightarrow> string \<Rightarrow> bool" where
  "starts_with_i t s \<longleftrightarrow> map tolower (take (length t) s) = map tolower t"

section \<open>Numbers in decimal\<close>

definition digit_val :: "char \<Rightarrow> nat" where
  "digit_val c = code c - 48"

fun digits_val :: "nat \<Rightarrow> string \<Rightarrow> nat" where
  "digits_val a [] = a"
| "digits_val a (c # s) = (if isdigit c then digits_val (10 * a + digit_val c) s else a)"

definition strtol10 :: "string \<Rightarrow> int" where
  "strtol10 s =
     (let t = dropWhile isspace s;
          v = (case t of
                 [] \<Rightarrow> 0
               | c # r \<Rightarrow>
                   (if c = CHR ''-'' then - int (digits_val 0 r)
                    else if c = CHR ''+'' then int (digits_val 0 r)
                    else int (digits_val 0 t)))
      in max (- (2 ^ 63)) (min (2 ^ 63 - 1) v))"

text \<open>\<open>atoi\<close> is \<open>(int) strtol(s, NULL, 10)\<close>: the 64-bit result cut to 32 bits.\<close>

definition atoi :: "string \<Rightarrow> i32" where
  "atoi s = word_of_int (strtol10 (c_string s))"

definition digit_char :: "nat \<Rightarrow> char" where
  "digit_char d = char_of (48 + d)"

fun dec_nat :: "nat \<Rightarrow> string" where
  "dec_nat n = (if n < 10 then [digit_char n] else dec_nat (n div 10) @ [digit_char (n mod 10)])"

declare dec_nat.simps [simp del]

text \<open>\<open>ss << i\<close> for an \<open>int\<close>.\<close>

definition dec_int :: "i32 \<Rightarrow> string" where
  "dec_int w = (let i = sint w in if i < 0 then CHR ''-'' # dec_nat (nat (- i)) else dec_nat (nat i))"

lemma code_digit_char: "d < 10 \<Longrightarrow> code (digit_char d) = 48 + d"
  by (simp add: digit_char_def)

lemma isdigit_digit_char [simp]: "d < 10 \<Longrightarrow> isdigit (digit_char d)"
  by (simp add: isdigit_def code_digit_char)

lemma digit_val_digit_char [simp]: "d < 10 \<Longrightarrow> digit_val (digit_char d) = d"
  by (simp add: digit_val_def code_digit_char)

lemma dec_nat_digits: "c \<in> set (dec_nat n) \<Longrightarrow> isdigit c"
  by (induction n rule: dec_nat.induct) (subst (asm) (2) dec_nat.simps, auto split: if_splits)

lemma dec_nat_nonempty [simp]: "dec_nat n \<noteq> []"
  by (subst dec_nat.simps) simp

lemma digits_val_append:
  "(\<And>c. c \<in> set s \<Longrightarrow> isdigit c) \<Longrightarrow> digits_val a (s @ t) = digits_val (digits_val a s) t"
  by (induction s arbitrary: a) auto

lemma digits_val_dec_nat: "digits_val 0 (dec_nat n) = n"
proof (induction n rule: dec_nat.induct)
  case (1 n)
  show ?case
  proof (cases "n < 10")
    case True
    then show ?thesis by (subst dec_nat.simps) simp
  next
    case False
    then have "digits_val 0 (dec_nat n) = digits_val (digits_val 0 (dec_nat (n div 10))) [digit_char (n mod 10)]"
      by (subst dec_nat.simps) (simp add: digits_val_append dec_nat_digits)
    also have "\<dots> = n"
      using 1 [OF False] by simp
    finally show ?thesis .
  qed
qed

section \<open>Token streams\<close>

text \<open>
  The tokens of \<open>while (std::getline(ss, token, d))\<close>: the pieces between delimiters; a
  delimiter that ends the input gives no further empty token.
\<close>

function getlines :: "char \<Rightarrow> string \<Rightarrow> string list" where
  "getlines d s =
     (if s = [] then []
      else takeWhile (\<lambda>c. c \<noteq> d) s #
             (case dropWhile (\<lambda>c. c \<noteq> d) s of [] \<Rightarrow> [] | _ # r \<Rightarrow> getlines d r))"
  by pat_completeness auto
termination
proof (relation "measure (\<lambda>(d, s). length s)", goal_cases)
  case (2 d s c r)
  then have "length (c # r) \<le> length s" by (metis length_dropWhile_le)
  then show ?case by simp
qed simp

declare getlines.simps [simp del]

lemma getlines_Nil [simp]: "getlines d [] = []"
  by (simp add: getlines.simps)

lemma getlines_unfold:
  "s \<noteq> [] \<Longrightarrow> getlines d s =
     takeWhile (\<lambda>c. c \<noteq> d) s #
       (case dropWhile (\<lambda>c. c \<noteq> d) s of [] \<Rightarrow> [] | _ # r \<Rightarrow> getlines d r)"
  by (subst getlines.simps) simp

lemma getlines_single: "d \<notin> set t \<Longrightarrow> t \<noteq> [] \<Longrightarrow> getlines d t = [t]"
proof -
  assume t: "d \<notin> set t" "t \<noteq> []"
  then have "dropWhile (\<lambda>c. c \<noteq> d) t = []" by auto
  moreover from t have "takeWhile (\<lambda>c. c \<noteq> d) t = t" by (auto simp: takeWhile_eq_all_conv)
  ultimately show ?thesis using getlines_unfold [OF t(2)] by (simp only: list.case)
qed

lemma getlines_token: "d \<notin> set t \<Longrightarrow> getlines d (t @ d # r) = t # getlines d r"
  by (subst getlines.simps) (auto simp: takeWhile_append dropWhile_append)

lemma getlines_delim: "getlines d (d # r) = [] # getlines d r"
  using getlines_token [of d "[]" r] by simp

lemma getlines_no_delim: "t \<in> set (getlines d s) \<Longrightarrow> d \<notin> set t"
proof (induction d s rule: getlines.induct)
  case (1 d s)
  then have s: "s \<noteq> []" by auto
  with 1(2) consider "t = takeWhile (\<lambda>c. c \<noteq> d) s"
    | c r where "dropWhile (\<lambda>c. c \<noteq> d) s = c # r" "t \<in> set (getlines d r)"
    by (cases "dropWhile (\<lambda>c. c \<noteq> d) s") (auto simp: getlines_unfold [OF s])
  then show ?case
  proof cases
    case 1
    then show ?thesis by (auto dest: set_takeWhileD)
  next
    case 2
    with "1.IH" s show ?thesis by blast
  qed
qed

lemma strtol10_dec_nat: "n < 2 ^ 63 \<Longrightarrow> strtol10 (dec_nat n) = int n"
proof -
  assume n: "n < 2 ^ 63"
  obtain c r where cr: "dec_nat n = c # r" by (cases "dec_nat n") auto
  have dig: "isdigit c" using dec_nat_digits [of c n] cr by simp
  have "max (- (2 ^ 63)) (min (2 ^ 63 - 1) (int n)) = int n" using n by simp
  then show ?thesis
    using dig isdigit_not_space [OF dig] digits_val_dec_nat [of n] cr
    by (auto simp: strtol10_def isdigit_def)
qed

lemma strtol10_neg_dec_nat: "n \<le> 2 ^ 63 \<Longrightarrow> strtol10 (CHR ''-'' # dec_nat n) = - int n"
  using digits_val_dec_nat [of n] by (simp add: strtol10_def isspace_def)

lemma nul_notin_dec_nat: "nul \<notin> set (dec_nat n)"
  using dec_nat_digits [of nul n] by (auto simp: nul_def isdigit_def)

lemma nul_notin_dec_int [simp]: "nul \<notin> set (dec_int w)"
  by (auto simp: dec_int_def Let_def nul_notin_dec_nat nul_def) (use nul_notin_dec_nat in \<open>auto simp: nul_def\<close>)

lemma atoi_dec_int [simp]: "atoi (dec_int w) = w"
proof -
  have b: "- (2 ^ 31) \<le> sint w" "sint w < 2 ^ 31"
    using sint_greater_eq [of w] sint_less [of w] by simp_all
  have "strtol10 (dec_int w) = sint w"
    using b by (auto simp: dec_int_def Let_def strtol10_dec_nat strtol10_neg_dec_nat)
  then show ?thesis by (simp add: atoi_def)
qed

end
