(* ===== verification/Match.thy ===== *)
theory Match
  imports CLib
begin

text \<open>
  The wildcard matcher of \<open>core/OS/OpenSpy.cpp\<close> (\<open>OS::match2\<close>, \<open>OS::match\<close>) and its
  copy in \<open>peerchat/match.cpp\<close>: a single loop that backtracks to the last wildcard.
  Pointers into the two C strings are positions, and reading at the end gives NUL. The
  specification \<open>glob\<close> is the usual recursive meaning of a mask; the matcher is shown to
  end and to decide exactly that.
\<close>

section \<open>The loop\<close>

definition at :: "string \<Rightarrow> nat \<Rightarrow> char" where
  "at s i = (if i < length s then s ! i else nul)"

record match_state =
  mp :: nat           \<comment> \<open>\<open>m\<close>\<close>
  np :: nat           \<comment> \<open>\<open>n\<close>\<close>
  ma :: "nat option"  \<comment> \<open>\<open>ma\<close>, None for NULL\<close>
  na :: nat           \<comment> \<open>\<open>na\<close>\<close>
  count :: nat        \<comment> \<open>\<open>match_count\<close>\<close>

text \<open>\<open>while (*m == wildcard_char) m++\<close>\<close>

definition skip_wild :: "char \<Rightarrow> string \<Rightarrow> nat \<Rightarrow> nat" where
  "skip_wild w msk i = i + length (takeWhile (\<lambda>c. c = w) (drop i msk))"

text \<open>\<open>(m > msk) && (*m == '?')\<close>, with \<open>m--\<close> in the body; \<open>i\<close> is \<open>m\<close> after the first \<open>m--\<close>.\<close>

fun back_scan :: "string \<Rightarrow> nat \<Rightarrow> nat" where
  "back_scan msk 0 = 0"
| "back_scan msk (Suc i) = (if at msk (Suc i) = CHR ''?'' then back_scan msk i else Suc i)"

definition char_match :: "char \<Rightarrow> char \<Rightarrow> bool" where
  "char_match c d \<longleftrightarrow> tolower c = tolower d \<or> (c = CHR ''_'' \<and> d = CHR '' '') \<or> c = CHR ''?''"

text \<open>The comparison at the end of the loop body.\<close>

definition match2_compare ::
  "string \<Rightarrow> string \<Rightarrow> match_state \<Rightarrow> (int \<times> nat) + match_state" where
  "match2_compare msk name s =
     (if \<not> char_match (at msk (mp s)) (at name (np s)) then
        (case ma s of
           None \<Rightarrow> Inl (1, count s)
         | Some a \<Rightarrow> Inr (s\<lparr>mp := a, np := na s + 1, na := na s + 1\<rparr>))
      else Inr (s\<lparr>mp := mp s + 1, np := np s + 1, count := count s + 1\<rparr>))"

text \<open>One turn of \<open>while (1)\<close>: \<open>Inl\<close> is a \<open>return\<close>, with the final \<open>match_count\<close>.\<close>

definition match2_collapse :: "char \<Rightarrow> string \<Rightarrow> match_state \<Rightarrow> match_state" where
  "match2_collapse w msk s =
     (if mp s < length msk \<and> at msk (mp s) = w
      then (let k = skip_wild w msk (mp s) in s\<lparr>mp := k, ma := Some k, na := np s\<rparr>)
      else s)"

definition match2_step ::
  "char \<Rightarrow> string \<Rightarrow> string \<Rightarrow> match_state \<Rightarrow> (int \<times> nat) + match_state" where
  "match2_step w msk name s0 =
     (let s = match2_collapse w msk s0 in
      if at msk (mp s) = nul then
        if at name (np s) = nul then Inl (0, count s)
        else (case ma s of
                None \<Rightarrow> Inl (1, count s)
              | Some a \<Rightarrow>
                  if at msk (back_scan msk (mp s - 1)) = w then Inl (0, count s)
                  else match2_compare msk name (s\<lparr>mp := a, np := na s + 1, na := na s + 1\<rparr>))
      else if at name (np s) = nul then
        Inl (if at msk (skip_wild w msk (mp s)) \<noteq> nul then 1 else 0, count s)
      else match2_compare msk name s)"

text \<open>
  Termination, for every state: once the last wildcard lies behind \<open>m\<close> and \<open>na\<close> behind
  \<open>n\<close> (which every turn but a plain advance establishes), a wildcard moves \<open>ma\<close> on, a
  backtrack moves \<open>na\<close> on, and an advance moves \<open>n\<close> on.
\<close>

definition settled :: "match_state \<Rightarrow> bool" where
  "settled s \<longleftrightarrow> (case ma s of None \<Rightarrow> True | Some a \<Rightarrow> a \<le> mp s) \<and> na s \<le> np s"

definition ma_rank :: "string \<Rightarrow> match_state \<Rightarrow> nat" where
  "ma_rank msk s = (case ma s of None \<Rightarrow> length msk + 1 | Some a \<Rightarrow> length msk - a)"

abbreviation match2_measures :: "(char \<times> string \<times> string \<times> match_state) rel" where
  "match2_measures \<equiv> measures
     [\<lambda>(w, msk, name, s). if settled s then 0 else 1,
      \<lambda>(w, msk, name, s). ma_rank msk s,
      \<lambda>(w, msk, name, s). length name - na s,
      \<lambda>(w, msk, name, s). length name - np s]"

lemma skip_wild_bounds: "i \<le> length msk \<Longrightarrow> i \<le> skip_wild w msk i \<and> skip_wild w msk i \<le> length msk"
  using length_takeWhile_le [of "\<lambda>c. c = w" "drop i msk"] by (simp add: skip_wild_def)

lemma skip_wild_gt: "i < length msk \<Longrightarrow> at msk i = w \<Longrightarrow> i < skip_wild w msk i"
  by (simp add: skip_wild_def at_def Cons_nth_drop_Suc [symmetric])

lemma at_not_nul: "at s i \<noteq> nul \<Longrightarrow> i < length s"
  by (auto simp: at_def split: if_splits)

lemma compare_Inr:
  "match2_compare msk name s = Inr t \<Longrightarrow>
     ma t = ma s \<and>
     ((\<exists>a. ma s = Some a \<and> mp t = a \<and> np t = na s + 1 \<and> na t = na s + 1) \<or>
      (mp t = mp s + 1 \<and> np t = np s + 1 \<and> na t = na s))"
  by (auto simp: match2_compare_def split: if_splits option.splits)

lemma collapse_cases:
  obtains "match2_collapse w msk s = s"
  | k where "mp s < length msk" "mp s < k" "k \<le> length msk" "k = skip_wild w msk (mp s)"
      "match2_collapse w msk s = s\<lparr>mp := k, ma := Some k, na := np s\<rparr>"
  using skip_wild_gt [of "mp s" msk w] skip_wild_bounds [of "mp s" msk w]
  unfolding match2_collapse_def Let_def by (cases "mp s < length msk \<and> at msk (mp s) = w") auto

lemma step_Inr:
  assumes "match2_step w msk name s0 = Inr t"
  obtains s where "s = match2_collapse w msk s0" "np s < length name"
      "match2_compare msk name s = Inr t"
  | s a where "s = match2_collapse w msk s0" "ma s = Some a" "np s < length name"
      "match2_compare msk name (s\<lparr>mp := a, np := na s + 1, na := na s + 1\<rparr>) = Inr t"
  using assms unfolding match2_step_def Let_def
  by (auto dest: at_not_nul split: if_splits option.splits)

lemma measuresI:
  assumes "settled s \<longrightarrow> settled t"
    and "\<not> settled s \<and> settled t \<or> ma_rank msk t < ma_rank msk s \<or>
         (ma_rank msk t = ma_rank msk s \<and>
          (length name - na t < length name - na s \<or>
           (na t = na s \<and> length name - np t < length name - np s)))"
  shows "((w, msk, name, t), (w, msk, name, s)) \<in> match2_measures"
  using assms by auto

lemma compare_settled:
  assumes "match2_compare msk name s = Inr t"
  shows "settled s \<longrightarrow> settled t" and "ma_rank msk t = ma_rank msk s"
  using compare_Inr [OF assms] by (auto simp: settled_def ma_rank_def split: option.splits)

lemma collapse_rank:
  assumes "s = match2_collapse w msk s0"
  shows "s = s0 \<or> (settled s \<and> (settled s0 \<longrightarrow> ma_rank msk s < ma_rank msk s0))"
  by (rule collapse_cases [of w msk s0])
    (use assms in \<open>auto simp: settled_def ma_rank_def split: option.splits\<close>)

lemma compare_progress:
  assumes "match2_compare msk name s = Inr t" and "np s < length name"
  shows "\<not> settled s \<and> settled t \<or> length name - na t < length name - na s \<or>
         (na t = na s \<and> length name - np t < length name - np s)"
  using compare_Inr [OF assms(1)] assms(2) by (auto simp: settled_def)

lemma step_decreases:
  assumes "match2_step w msk name s0 = Inr t"
  shows "((w, msk, name, t), (w, msk, name, s0)) \<in> match2_measures"
  using assms
proof (cases rule: step_Inr)
  case (1 s)
  show ?thesis
    using collapse_rank [OF 1(1)] compare_settled [OF 1(3)] compare_progress [OF 1(3,2)]
    by (intro measuresI) auto
next
  case (2 s a)
  let ?s = "s\<lparr>mp := a, np := na s + 1, na := na s + 1\<rparr>"
  have s: "settled ?s" "ma_rank msk ?s = ma_rank msk s"
    using 2(2) by (auto simp: settled_def ma_rank_def)
  with compare_settled [OF 2(4)] have t: "settled t" "ma_rank msk t = ma_rank msk s"
    by auto
  moreover have "na s + 1 \<le> na t"
    using compare_Inr [OF 2(4)] by auto
  moreover have "na s < length name" if "settled s"
    using that 2(3) by (simp add: settled_def)
  ultimately show ?thesis
    using collapse_rank [OF 2(1)] by (intro measuresI) auto
qed

function match2_loop :: "char \<Rightarrow> string \<Rightarrow> string \<Rightarrow> match_state \<Rightarrow> int \<times> nat" where
  "match2_loop w msk name s =
     (case match2_step w msk name s of Inl r \<Rightarrow> r | Inr t \<Rightarrow> match2_loop w msk name t)"
  by pat_completeness auto
termination
  by (relation match2_measures) (simp, rule step_decreases)

declare match2_loop.simps [simp del]

text \<open>\<open>OS::match2(mask, name, match_count, wildcard_char)\<close>: the result and \<open>match_count\<close>.\<close>

definition match2 :: "char \<Rightarrow> string \<Rightarrow> string \<Rightarrow> int \<times> nat" where
  "match2 w msk name =
     match2_loop w (c_string msk) (c_string name)
       \<lparr>mp = 0, np = 0, ma = None, na = 0, count = 0\<rparr>"

lemma at_length [simp]: "at s (length s) = nul"
  by (simp add: at_def)

lemma in_set_drop_nth: "x \<in> set (drop a xs) \<longleftrightarrow> (\<exists>j \<ge> a. j < length xs \<and> xs ! j = x)"
proof
  assume "x \<in> set (drop a xs)"
  then obtain i where "i < length xs - a" "xs ! (a + i) = x" by (auto simp: in_set_conv_nth)
  then show "\<exists>j \<ge> a. j < length xs \<and> xs ! j = x" by (intro exI [of _ "a + i"]) auto
next
  assume "\<exists>j \<ge> a. j < length xs \<and> xs ! j = x"
  then obtain j where j: "a \<le> j" "j < length xs" "xs ! j = x" by blast
  then have "drop a xs ! (j - a) = x" "j - a < length (drop a xs)" by auto
  then show "x \<in> set (drop a xs)" by (metis nth_mem)
qed

section \<open>Specification\<close>

fun glob :: "char \<Rightarrow> string \<Rightarrow> string \<Rightarrow> bool" where
  "glob w [] s = (s = [])"
| "glob w (c # p) [] = (c = w \<and> glob w p [])"
| "glob w (c # p) (d # s) =
     (if c = w then glob w p (d # s) \<or> glob w (c # p) s else char_match c d \<and> glob w p s)"

lemma glob_wild_Nil [simp]: "glob w (w # p) [] = glob w p []"
  by simp

lemma glob_wild: "glob w (w # p) s \<longleftrightarrow> (\<exists>k \<le> length s. glob w p (drop k s))"
proof (induction s)
  case (Cons d s)
  have "(\<exists>k \<le> length (d # s). glob w p (drop k (d # s))) \<longleftrightarrow>
        glob w p (d # s) \<or> (\<exists>k \<le> length s. glob w p (drop k s))"
    (is "?l = ?r")
  proof
    assume ?l
    then obtain k where "k \<le> length (d # s)" "glob w p (drop k (d # s))" by blast
    then show ?r by (cases k) auto
  next
    assume ?r
    then show ?l by (metis Suc_le_mono drop0 drop_Suc_Cons le0 length_Cons)
  qed
  with Cons show ?case by simp
qed simp

lemma glob_wild_drop: "glob w (w # p) (drop k s) \<Longrightarrow> glob w (w # p) s"
  unfolding glob_wild by (metis drop_all drop_drop linorder_linear le_refl)

lemma glob_wild_wild [simp]: "glob w (w # w # p) s = glob w (w # p) s"
proof
  assume "glob w (w # w # p) s"
  then obtain k where "glob w (w # p) (drop k s)" by (auto simp: glob_wild [of w "w # p"])
  then show "glob w (w # p) s" by (rule glob_wild_drop)
next
  assume "glob w (w # p) s"
  then show "glob w (w # w # p) s" unfolding glob_wild [of w "w # p"] by (metis drop0 le0)
qed

lemma glob_segment:
  "w \<notin> set p \<Longrightarrow>
     glob w (p @ r) s \<longleftrightarrow>
       length p \<le> length s \<and> list_all2 char_match p (take (length p) s) \<and>
       glob w r (drop (length p) s)"
proof (induction p arbitrary: s)
  case (Cons c p)
  then show ?case by (cases s) auto
qed simp

lemma glob_length: "glob w p s \<Longrightarrow> length (filter (\<lambda>c. c \<noteq> w) p) \<le> length s"
  by (induction w p s rule: glob.induct) (auto split: if_splits)

lemma glob_all_any: "w \<noteq> CHR ''?'' \<Longrightarrow> set p \<subseteq> {CHR ''?''} \<Longrightarrow> length p \<le> length s \<Longrightarrow>
  glob w (w # p) s"
proof -
  assume w: "w \<noteq> CHR ''?''" and p: "set p \<subseteq> {CHR ''?''}" and l: "length p \<le> length s"
  have "glob w p t" if "length t = length p" for t
    using that p w
  proof (induction p arbitrary: t)
    case (Cons c p)
    then show ?case by (cases t) (auto simp: char_match_def)
  qed simp
  moreover have "length (drop (length s - length p) s) = length p" using l by simp
  ultimately show ?thesis unfolding glob_wild by (metis diff_le_self)
qed


section \<open>Correctness of the loop\<close>

text \<open>
  The text between the last wildcard and \<open>m\<close> has matched the text from \<open>na\<close>, and the
  whole problem is equivalent to matching the last wildcard and what follows it at \<open>na\<close>.
\<close>

abbreviation seg :: "string \<Rightarrow> nat \<Rightarrow> match_state \<Rightarrow> string" where
  "seg msk a s \<equiv> take (mp s - a) (drop a msk)"

definition match_inv :: "char \<Rightarrow> string \<Rightarrow> string \<Rightarrow> match_state \<Rightarrow> bool" where
  "match_inv w msk name s \<longleftrightarrow>
     mp s \<le> length msk \<and> np s \<le> length name \<and>
     (case ma s of
        None \<Rightarrow> glob w msk name = glob w (drop (mp s) msk) (drop (np s) name)
      | Some a \<Rightarrow>
          0 < a \<and> a \<le> mp s \<and> np s = na s + (mp s - a) \<and>
          at msk (a - 1) = w \<and> at msk a \<noteq> w \<and> w \<notin> set (seg msk a s) \<and>
          list_all2 char_match (seg msk a s) (take (mp s - a) (drop (na s) name)) \<and>
          glob w msk name = glob w (w # drop a msk) (drop (na s) name))"

lemma match_inv_None:
  "ma s = None \<Longrightarrow> match_inv w msk name s \<longleftrightarrow>
     mp s \<le> length msk \<and> np s \<le> length name \<and>
     glob w msk name = glob w (drop (mp s) msk) (drop (np s) name)"
  by (simp add: match_inv_def)

lemma seg_append: "a \<le> mp s \<Longrightarrow> drop a msk = seg msk a s @ drop (mp s) msk"
  by (metis append_take_drop_id drop_drop le_add_diff_inverse2)

lemma glob_from_segment:
  assumes "ma s = Some a" and "match_inv w msk name s" and "na s \<le> k" "k \<le> length name"
    and "glob w (drop a msk) (drop k name)"
  shows "k + (mp s - a) \<le> length name \<and> glob w (drop (mp s) msk) (drop (k + (mp s - a)) name)"
proof -
  from assms(1,2) have a: "a \<le> mp s" "w \<notin> set (seg msk a s)" "length (seg msk a s) = mp s - a"
    by (auto simp: match_inv_def)
  from assms(5) have "glob w (seg msk a s @ drop (mp s) msk) (drop k name)"
    using seg_append [OF a(1), of msk] by simp
  then show ?thesis
    using a(3) assms(4) unfolding glob_segment [OF a(2)] by (auto simp: add.commute)
qed

lemma glob_here:
  assumes "ma s = Some a" and "match_inv w msk name s"
  shows "glob w (drop a msk) (drop (na s) name) = glob w (drop (mp s) msk) (drop (np s) name)"
proof -
  from assms have a: "a \<le> mp s" "w \<notin> set (seg msk a s)" "length (seg msk a s) = mp s - a"
    "np s = na s + (mp s - a)" "np s \<le> length name"
    "list_all2 char_match (seg msk a s) (take (mp s - a) (drop (na s) name))"
    by (auto simp: match_inv_def)
  have "glob w (drop a msk) (drop (na s) name) =
        glob w (seg msk a s @ drop (mp s) msk) (drop (na s) name)"
    using seg_append [OF a(1), of msk] by simp
  also have "\<dots> = glob w (drop (mp s) msk) (drop (np s) name)"
    unfolding glob_segment [OF a(2)] using a(3-) by (auto simp: add.commute)
  finally show ?thesis .
qed

text \<open>Giving up at \<open>na\<close>: the last wildcard takes one more character.\<close>

lemma backtrack_inv:
  assumes s: "ma s = Some a" "match_inv w msk name s"
    and n: "np s < length name" and no: "\<not> glob w (drop (mp s) msk) (drop (np s) name)"
  shows "match_inv w msk name (s\<lparr>mp := a, np := na s + 1, na := na s + 1\<rparr>)"
proof -
  from s n have lt: "na s < length name" by (auto simp: match_inv_def)
  have "glob w (w # drop a msk) (drop (na s) name) = glob w (w # drop a msk) (drop (na s + 1) name)"
    using no glob_here [OF s] lt by (simp add: Cons_nth_drop_Suc [symmetric])
  with s lt show ?thesis by (auto simp: match_inv_def)
qed

lemma compare_correct:
  assumes inv: "match_inv w msk name s"
    and m: "mp s < length msk" "at msk (mp s) \<noteq> w" and n: "np s < length name"
  shows "match2_compare msk name s = Inl (r, c) \<Longrightarrow> r = 0 \<longleftrightarrow> glob w msk name"
    and "match2_compare msk name s = Inr t \<Longrightarrow> match_inv w msk name t"
proof -
  let ?c = "msk ! mp s" and ?d = "name ! np s"
  have dm: "drop (mp s) msk = ?c # drop (Suc (mp s)) msk"
    and dn: "drop (np s) name = ?d # drop (Suc (np s)) name"
    and at: "at msk (mp s) = ?c" "at name (np s) = ?d"
    using m(1) n by (simp_all add: Cons_nth_drop_Suc at_def)
  have step: "glob w (drop (mp s) msk) (drop (np s) name) \<longleftrightarrow>
      char_match ?c ?d \<and> glob w (drop (Suc (mp s)) msk) (drop (Suc (np s)) name)"
    unfolding dm dn using m(2) at by simp
  show "r = 0 \<longleftrightarrow> glob w msk name" if "match2_compare msk name s = Inl (r, c)"
    using that inv step at by (auto simp: match2_compare_def match_inv_def split: if_splits option.splits)
  assume t: "match2_compare msk name s = Inr t"
  show "match_inv w msk name t"
  proof (cases "char_match ?c ?d")
    case False
    then obtain a where "ma s = Some a" "t = s\<lparr>mp := a, np := na s + 1, na := na s + 1\<rparr>"
      using t at by (auto simp: match2_compare_def split: if_splits option.splits)
    with backtrack_inv [OF _ inv n] False step show ?thesis by simp
  next
    case True
    then have t: "t = s\<lparr>mp := mp s + 1, np := np s + 1, count := count s + 1\<rparr>"
      using t at by (auto simp: match2_compare_def)
    show ?thesis
    proof (cases "ma s")
      case None
      with inv step True t m n show ?thesis by (auto simp: match_inv_def)
    next
      case (Some a)
      with inv have a: "a \<le> mp s" "np s = na s + (mp s - a)" by (auto simp: match_inv_def)
      with m have len: "take (Suc (mp s) - a) (drop a msk) = seg msk a s @ [?c]"
        by (simp add: Suc_diff_le take_Suc_conv_app_nth)
      have len': "take (Suc (mp s) - a) (drop (na s) name) = take (mp s - a) (drop (na s) name) @ [?d]"
        using a n by (simp add: Suc_diff_le take_Suc_conv_app_nth)
      show ?thesis
        using inv Some t m n at True len len' a
        by (auto simp: match_inv_def list_all2_appendI)
    qed
  qed
qed


lemma glob_wilds: "set ws \<subseteq> {w} \<Longrightarrow> ws \<noteq> [] \<Longrightarrow> glob w (ws @ p) s = glob w (w # p) s"
proof (induction ws)
  case (Cons c ws)
  then show ?case by (cases ws) auto
qed simp

lemma collapse_correct:
  assumes inv: "match_inv w msk name s" and w: "w \<noteq> nul"
  shows "match_inv w msk name (match2_collapse w msk s)"
    and "at msk (mp (match2_collapse w msk s)) \<noteq> w"
proof -
  let ?k = "skip_wild w msk (mp s)" and ?ws = "takeWhile (\<lambda>c. c = w) (drop (mp s) msk)"
  have k: "at msk ?k \<noteq> w"
  proof (cases "?k < length msk")
    case True
    then have "length ?ws < length (drop (mp s) msk)" by (simp add: skip_wild_def)
    then have "drop (mp s) msk ! length ?ws \<noteq> w" by (rule nth_length_takeWhile)
    with True show ?thesis by (simp add: at_def skip_wild_def)
  qed (use w in \<open>simp add: at_def\<close>)
  have split: "drop (mp s) msk = ?ws @ drop ?k msk"
    by (metis dropWhile_eq_drop drop_drop skip_wild_def takeWhile_dropWhile_id add.commute)
  have eq: "glob w (drop (mp s) msk) x = glob w (w # drop ?k msk) x" if "?ws \<noteq> []" for x
    using glob_wilds [OF _ that, of w "drop ?k msk" x] split by (auto dest: set_takeWhileD)
  show "at msk (mp (match2_collapse w msk s)) \<noteq> w"
    using k w by (auto simp: match2_collapse_def Let_def at_def split: if_splits)
  show "match_inv w msk name (match2_collapse w msk s)"
  proof (cases "mp s < length msk \<and> at msk (mp s) = w")
    case True
    then have t: "match2_collapse w msk s = s\<lparr>mp := ?k, ma := Some ?k, na := np s\<rparr>"
      by (simp add: match2_collapse_def Let_def)
    have gt: "mp s < ?k" "?k \<le> length msk"
      using True skip_wild_gt [of "mp s" msk w] skip_wild_bounds [of "mp s" msk w] by auto
    then have ws: "?ws \<noteq> []" by (auto simp: skip_wild_def)
    have "at msk (?k - 1) = w"
    proof -
      have l: "length ?ws - 1 < length ?ws" using ws by (cases ?ws) auto
      have "?ws ! (length ?ws - 1) = w" using set_takeWhileD [OF nth_mem [OF l]] by simp
      moreover have "?ws ! (length ?ws - 1) = drop (mp s) msk ! (length ?ws - 1)"
        by (rule takeWhile_nth [OF l])
      moreover have "mp s + (length ?ws - 1) = ?k - 1"
        using l unfolding skip_wild_def by linarith
      moreover have "?k - 1 < length msk" using gt by linarith
      ultimately show ?thesis using gt by (simp add: at_def)
    qed
    moreover have "glob w msk name = glob w (w # drop ?k msk) (drop (np s) name)"
    proof (cases "ma s")
      case None
      with inv eq [OF ws] show ?thesis by (simp add: match_inv_def)
    next
      case (Some a)
      with inv have g: "glob w msk name = glob w (w # drop a msk) (drop (na s) name)"
        "na s \<le> np s" "np s \<le> length name" "np s = na s + (mp s - a)"
        by (auto simp: match_inv_def)
      show ?thesis
      proof
        assume "glob w msk name"
        then obtain j where j: "j \<le> length name - na s" "glob w (drop a msk) (drop (na s + j) name)"
          unfolding g(1) glob_wild by (auto simp: add.commute)
        then have "glob w (drop (mp s) msk) (drop (na s + j + (mp s - a)) name)"
          using glob_from_segment [OF Some inv, of "na s + j"] g(2,3) by auto
        moreover have "na s + j + (mp s - a) = j + np s" using g(4) by simp
        ultimately have "glob w (w # drop ?k msk) (drop j (drop (np s) name))"
          using eq [OF ws] by simp
        then show "glob w (w # drop ?k msk) (drop (np s) name)" by (rule glob_wild_drop)
      next
        assume "glob w (w # drop ?k msk) (drop (np s) name)"
        then have "glob w (drop a msk) (drop (na s) name)"
          using glob_here [OF Some inv] eq [OF ws] by simp
        then show "glob w msk name" unfolding g(1) glob_wild by (metis drop0 le0)
      qed
    qed
    ultimately show ?thesis
      using t gt k inv by (simp add: match_inv_def)
  next
    case False
    then have "match2_collapse w msk s = s" by (auto simp: match2_collapse_def)
    with inv show ?thesis by simp
  qed
qed

lemma back_scan_le: "back_scan msk i \<le> i"
  by (induction i) auto

lemma back_scan_any: "back_scan msk i < j \<Longrightarrow> j \<le> i \<Longrightarrow> at msk j = CHR ''?''"
  by (induction i) (auto simp: le_Suc_eq split: if_splits)

lemma back_scan_stop: "at msk i \<noteq> CHR ''?'' \<Longrightarrow> back_scan msk i = i"
  by (cases i) auto


text \<open>The two ways out at the end of the mask, and the way out at the end of the name.\<close>

lemma end_of_mask_wild:
  assumes s: "ma s = Some a" "match_inv w msk name s" and m: "mp s = length msk"
    and w: "w \<noteq> CHR ''?''" "w \<noteq> nul" and p: "at msk (back_scan msk (mp s - 1)) = w"
  shows "glob w msk name"
proof -
  let ?p = "back_scan msk (mp s - 1)"
  from s have a: "0 < a" "a \<le> mp s" "w \<notin> set (drop a msk)" "np s = na s + (mp s - a)"
    "np s \<le> length name" "glob w msk name = glob w (w # drop a msk) (drop (na s) name)"
    using m by (auto simp: match_inv_def)
  have plt: "?p < length msk" using p w(2) by (metis at_not_nul)
  then have "?p < a"
  proof (rule_tac ccontr)
    assume "\<not> ?p < a"
    then have "msk ! ?p \<in> set (drop a msk)"
      using plt unfolding in_set_drop_nth by (intro exI [of _ ?p]) simp
    then show False using a(3) p plt by (simp add: at_def)
  qed
  have "c = CHR ''?''" if cin: "c \<in> set (drop a msk)" for c
  proof -
    obtain j where "a \<le> j" "j < length msk" "msk ! j = c"
      using cin unfolding in_set_drop_nth by blast
    then show ?thesis
      using back_scan_any [of msk "mp s - 1" j] \<open>?p < a\<close> m by (simp add: at_def)
  qed
  then show ?thesis
    unfolding a(6) using a m by (intro glob_all_any w) auto
qed

lemma end_of_mask_backtrack:
  assumes s: "ma s = Some a" "match_inv w msk name s" and m: "mp s = length msk"
    and n: "np s < length name" and w: "w \<noteq> CHR ''?''"
    and p: "at msk (back_scan msk (mp s - 1)) \<noteq> w"
  shows "match_inv w msk name (s\<lparr>mp := a, np := na s + 1, na := na s + 1\<rparr>)"
    and "a < length msk" and "at msk a \<noteq> w" and "na s + 1 < length name"
proof -
  from s have a: "0 < a" "a \<le> mp s" "at msk (a - 1) = w" "at msk a \<noteq> w" "np s = na s + (mp s - a)"
    by (auto simp: match_inv_def)
  have "\<not> glob w (drop (mp s) msk) (drop (np s) name)" using m n by simp
  with backtrack_inv [OF s n] show "match_inv w msk name (s\<lparr>mp := a, np := na s + 1, na := na s + 1\<rparr>)"
    by simp
  show "at msk a \<noteq> w" by (rule a)
  show lt: "a < length msk"
  proof (rule ccontr)
    assume "\<not> a < length msk"
    then have "back_scan msk (mp s - 1) = a - 1" using a(2,3) m w by (simp add: back_scan_stop)
    with a(3) p show False by simp
  qed
  show "na s + 1 < length name" using a(5) lt m n by simp
qed

lemma end_of_name:
  assumes inv: "match_inv w msk name s" and n: "np s = length name"
    and m: "mp s < length msk" "at msk (mp s) \<noteq> w"
  shows "\<not> glob w msk name"
proof (cases "ma s")
  case None
  with inv n m show ?thesis
    by (simp add: match_inv_def at_def Cons_nth_drop_Suc [symmetric])
next
  case (Some a)
  show ?thesis
  proof
    assume "glob w msk name"
    with inv Some have a: "a \<le> mp s" "np s = na s + (mp s - a)"
      "\<exists>j \<le> length name - na s. glob w (drop a msk) (drop (na s + j) name)"
      by (auto simp: match_inv_def glob_wild add.commute)
    then obtain j where j: "glob w (drop a msk) (drop (na s + j) name)" "na s + j \<le> length name"
      using n by auto
    with glob_from_segment [OF Some inv, of "na s + j"] n a have "j = 0" by auto
    with j have "glob w (drop (mp s) msk) (drop (np s) name)"
      using glob_here [OF Some inv] by simp
    then show False using n m by (simp add: at_def Cons_nth_drop_Suc [symmetric])
  qed
qed

lemma step_correct:
  assumes inv0: "match_inv w msk name s0"
    and nul: "nul \<notin> set msk" "nul \<notin> set name" and w: "w \<noteq> nul" "w \<noteq> CHR ''?''"
  shows "match2_step w msk name s0 = Inl (r, c) \<Longrightarrow> r = 0 \<longleftrightarrow> glob w msk name"
    and "match2_step w msk name s0 = Inr t \<Longrightarrow> match_inv w msk name t"
proof -
  define s where "s = match2_collapse w msk s0"
  have inv: "match_inv w msk name s" and m: "at msk (mp s) \<noteq> w"
    using collapse_correct [OF inv0 w(1)] by (auto simp: s_def)
  have lens: "mp s \<le> length msk" "np s \<le> length name" using inv by (auto simp: match_inv_def)
  have msk_end: "at msk (mp s) = nul \<longleftrightarrow> mp s = length msk"
    and name_end: "at name (np s) = nul \<longleftrightarrow> np s = length name"
    using lens nul by (auto simp: at_def) (metis nth_mem)+
  note step = match2_step_def Let_def s_def [symmetric]
  consider (both) "mp s = length msk" "np s = length name"
    | (mask0) "mp s = length msk" "np s < length name" "ma s = None"
    | (wild) a where "mp s = length msk" "np s < length name" "ma s = Some a"
        "at msk (back_scan msk (mp s - 1)) = w"
    | (retry) a where "mp s = length msk" "np s < length name" "ma s = Some a"
        "at msk (back_scan msk (mp s - 1)) \<noteq> w"
    | (name0) "mp s < length msk" "np s = length name"
    | (cmp) "mp s < length msk" "np s < length name"
    using lens by (cases "ma s") (auto simp: le_less)
  then have "(\<forall>r c. match2_step w msk name s0 = Inl (r, c) \<longrightarrow> r = 0 \<longleftrightarrow> glob w msk name) \<and>
    (\<forall>t. match2_step w msk name s0 = Inr t \<longrightarrow> match_inv w msk name t)"
  proof cases
    case both
    have "glob w msk name"
    proof (cases "ma s")
      case None
      with inv both show ?thesis by (simp add: match_inv_def)
    next
      case (Some a)
      with both glob_here [OF Some inv] have "glob w (drop a msk) (drop (na s) name)" by simp
      with Some inv show ?thesis by (auto simp: match_inv_def glob_wild intro: exI [of _ 0])
    qed
    with both show ?thesis by (simp add: step msk_end name_end)
  next
    case mask0
    then have "\<not> glob w msk name" using inv by (simp add: match_inv_def)
    with mask0 show ?thesis by (simp add: step msk_end name_end)
  next
    case (wild a)
    with end_of_mask_wild [OF wild(3) inv wild(1) w(2,1) wild(4)] show ?thesis
      by (simp add: step msk_end name_end)
  next
    case (retry a)
    note b = end_of_mask_backtrack [OF retry(3) inv retry(1,2) w(2) retry(4)]
    from compare_correct [OF b(1)] b(2-4) retry show ?thesis
      by (auto simp: step msk_end name_end)
  next
    case name0
    then have "\<not> glob w msk name" by (intro end_of_name [OF inv] m)
    moreover have "skip_wild w msk (mp s) = mp s"
      using m name0 by (simp add: skip_wild_def at_def Cons_nth_drop_Suc [symmetric])
    ultimately show ?thesis using name0 msk_end name_end by (simp add: step)
  next
    case cmp
    from compare_correct [OF inv cmp(1) m cmp(2)] cmp show ?thesis
      by (auto simp: step msk_end name_end)
  qed
  then show "match2_step w msk name s0 = Inl (r, c) \<Longrightarrow> r = 0 \<longleftrightarrow> glob w msk name"
    and "match2_step w msk name s0 = Inr t \<Longrightarrow> match_inv w msk name t" by blast+
qed

lemma match2_loop_correct:
  assumes "match_inv w msk name s" "nul \<notin> set msk" "nul \<notin> set name" "w \<noteq> nul" "w \<noteq> CHR ''?''"
  shows "fst (match2_loop w msk name s) = 0 \<longleftrightarrow> glob w msk name"
  using assms
proof (induction w msk name s rule: match2_loop.induct)
  case (1 w msk name s)
  show ?case
  proof (cases "match2_step w msk name s")
    case (Inl r)
    then show ?thesis
      using step_correct(1) [OF 1(2-), of "fst r" "snd r"] by (subst match2_loop.simps) simp
  next
    case (Inr t)
    then show ?thesis
      using 1(1) [OF Inr] step_correct(2) [OF 1(2-) Inr] 1(3-) by (subst match2_loop.simps) simp
  qed
qed

lemma match2_glob:
  assumes "w \<noteq> nul" "w \<noteq> CHR ''?''"
  shows "fst (match2 w msk name) = 0 \<longleftrightarrow> glob w (c_string msk) (c_string name)"
  unfolding match2_def
  by (rule match2_loop_correct) (simp_all add: assms match_inv_def)

section \<open>\<open>OS::match\<close> and the copy in peerchat\<close>

text \<open>
  A mask \<open>*!rest\<close> (and then \<open>*@rest\<close>) drops the name up to and including the first \<open>!\<close>
  (\<open>@\<close>); a name without one does not match.
\<close>

definition match_skip :: "char \<Rightarrow> string \<times> string \<Rightarrow> (string \<times> string) option" where
  "match_skip sep = (\<lambda>(msk, name).
     if at msk 0 = CHR ''*'' \<and> at msk 1 = sep then
       (case dropWhile (\<lambda>c. c \<noteq> sep) name of [] \<Rightarrow> None | _ # rest \<Rightarrow> Some (drop 2 msk, rest))
     else Some (msk, name))"

definition match_with :: "(string \<Rightarrow> string \<Rightarrow> int) \<Rightarrow> string \<Rightarrow> string \<Rightarrow> int" where
  "match_with m2 msk name =
     (case match_skip (CHR ''!'') (c_string msk, c_string name) of
        None \<Rightarrow> 1
      | Some p \<Rightarrow>
          (case match_skip (CHR ''@'') p of
             None \<Rightarrow> 1
           | Some (msk', name') \<Rightarrow> m2 msk' name'))"

definition OS_match :: "string \<Rightarrow> string \<Rightarrow> int" where
  "OS_match = match_with (\<lambda>msk name. fst (match2 (CHR ''*'') msk name))"

text \<open>The loop of \<open>peerchat/match.cpp\<close> is the one above at \<open>'*'\<close>, without the counter.\<close>

definition peerchat_match2 :: "string \<Rightarrow> string \<Rightarrow> int" where
  "peerchat_match2 msk name = fst (match2 (CHR ''*'') msk name)"

definition peerchat_match :: "string \<Rightarrow> string \<Rightarrow> int" where
  "peerchat_match = match_with peerchat_match2"

section \<open>The interface of a matcher\<close>

text \<open>
  What the callers (ban masks, the filter's LIKE, \<open>FindBestMatch\<close>) rely on: result 0 is
  exactly a match in the sense of \<open>glob\<close>.
\<close>

locale glob_matcher =
  fixes w :: char and m2 :: "string \<Rightarrow> string \<Rightarrow> int"
  assumes wildcard: "w \<noteq> nul" "w \<noteq> CHR ''?''"
    and decides: "m2 msk name = 0 \<longleftrightarrow> glob w (c_string msk) (c_string name)"
begin

lemma any: "m2 [w] name = 0"
  using wildcard by (simp add: decides c_string_Cons glob_wild) (metis drop_all le_refl)

lemma empty_mask: "m2 [] name = 0 \<longleftrightarrow> c_string name = []"
  by (simp add: decides)

lemma literal:
  assumes "w \<notin> set msk"
  shows "m2 msk name = 0 \<longleftrightarrow> list_all2 char_match (c_string msk) (c_string name)"
proof -
  have "w \<notin> set (c_string msk)" using assms by (auto simp: c_string_def dest: set_takeWhileD)
  from glob_segment [OF this, of "[]" "c_string name"] show ?thesis
    by (auto simp: decides) (metis list_all2_lengthD order_refl take_all)+
qed

lemma self:
  assumes "w \<notin> set msk"
  shows "m2 msk msk = 0"
  using assms by (simp add: literal list_all2_same char_match_def)

lemma leading_wild: "m2 (w # msk) name = 0 \<longleftrightarrow>
    (\<exists>k \<le> length (c_string name). glob w (c_string msk) (drop k (c_string name)))"
  using wildcard by (simp add: decides c_string_Cons glob_wild)

end

interpretation os_star: glob_matcher "CHR ''*''" "\<lambda>msk name. fst (match2 (CHR ''*'') msk name)"
  by unfold_locales (simp_all add: nul_def match2_glob)

interpretation os_percent: glob_matcher "CHR ''%''" "\<lambda>msk name. fst (match2 (CHR ''%'') msk name)"
  by unfold_locales (simp_all add: nul_def match2_glob)

interpretation peerchat_star: glob_matcher "CHR ''*''" peerchat_match2
  by unfold_locales (simp_all add: nul_def peerchat_match2_def match2_glob)

section \<open>\<open>FindBestMatch\<close>\<close>

definition best_step :: "string \<Rightarrow> string \<times> nat \<Rightarrow> string \<Rightarrow> string \<times> nat" where
  "best_step name = (\<lambda>(best_result, best_score) s.
     (let (r, match_result) = match2 (CHR ''*'') s name in
      if r = 0 \<and> match_result > best_score then (s, match_result)
      else (best_result, best_score)))"

definition FindBestMatch :: "string list \<Rightarrow> string \<Rightarrow> string" where
  "FindBestMatch matches name = fst (foldl (best_step name) ([], 0) matches)"

definition match_score :: "string \<Rightarrow> string \<Rightarrow> nat" where
  "match_score s name = (if glob (CHR ''*'') (c_string s) (c_string name)
                         then snd (match2 (CHR ''*'') s name) else 0)"

lemma best_step_score:
  "best_step name (b, n) s = (if match_score s name > n then (s, match_score s name) else (b, n))"
  using os_star.decides [of s name]
  by (auto simp: best_step_def match_score_def Let_def split: prod.splits)

lemma best_fold:
  "foldl (best_step name) (b, n) matches = (r, k) \<Longrightarrow>
     n \<le> k \<and> (\<forall>s \<in> set matches. match_score s name \<le> k) \<and>
     ((r, k) = (b, n) \<or> (r \<in> set matches \<and> k = match_score r name \<and> n < k))"
proof (induction matches arbitrary: b n)
  case (Cons s ms)
  show ?case
  proof (cases "match_score s name > n")
    case True
    with Cons.prems have "foldl (best_step name) (s, match_score s name) ms = (r, k)"
      by (simp add: best_step_score)
    from Cons.IH [OF this] True show ?thesis by auto
  next
    case False
    with Cons.prems have "foldl (best_step name) (b, n) ms = (r, k)"
      by (simp add: best_step_score)
    from Cons.IH [OF this] False show ?thesis by auto
  qed
qed simp


section \<open>Properties\<close>

text \<open>C21. The wildcard matchers end and return 0 exactly when the name matches the mask in the
  sense of the recursive specification, with \<open>*\<close> or \<open>%\<close> as the wildcard.\<close>

theorem match2_decides_glob:
  "(fst (match2 (CHR ''*'') msk name) = 0 \<longleftrightarrow> glob (CHR ''*'') (c_string msk) (c_string name)) \<and>
   (fst (match2 (CHR ''%'') msk name) = 0 \<longleftrightarrow> glob (CHR ''%'') (c_string msk) (c_string name)) \<and>
   (peerchat_match2 msk name = 0 \<longleftrightarrow> glob (CHR ''*'') (c_string msk) (c_string name))"
  using os_star.decides os_percent.decides peerchat_star.decides by blast

text \<open>FindBestMatch returns a mask of the list that matches the name and whose match count
  no matching mask of the list exceeds, or the empty string when no mask matches with a
  positive count.\<close>

theorem FindBestMatch_best:
  assumes "FindBestMatch matches name = r"
  shows "(r \<in> set matches \<and> glob (CHR ''*'') (c_string r) (c_string name) \<and>
          (\<forall>s \<in> set matches. match_score s name \<le> match_score r name)) \<or>
         (r = [] \<and> (\<forall>s \<in> set matches. match_score s name = 0))"
proof -
  obtain k where k: "foldl (best_step name) ([], 0) matches = (r, k)"
    using assms by (cases "foldl (best_step name) ([], 0) matches") (auto simp: FindBestMatch_def)
  from best_fold [OF k] consider "r = []" "k = 0" "\<forall>s \<in> set matches. match_score s name \<le> k"
    | "r \<in> set matches" "k = match_score r name" "0 < k" "\<forall>s \<in> set matches. match_score s name \<le> k"
    by auto
  then show ?thesis
    by cases (auto simp: match_score_def split: if_splits)
qed

theorem FindBestMatch_best_witness:
  "FindBestMatch [''ab*'', ''abc*''] ''abcd'' = ''abc*'' \<and>
   match_score ''ab*'' ''abcd'' \<le> match_score ''abc*'' ''abcd''"
proof -
  have h: "FindBestMatch [''ab*'', ''abc*''] ''abcd'' = ''abc*''" by code_simp
  from FindBestMatch_best [OF h] h show ?thesis by simp
qed

end
