(* ===== verification/Strings.thy ===== *)
theory Strings
  imports Match "HOL-Library.Monad_Syntax"
begin

text \<open>
  The string helpers of \<open>core/OS/OpenSpy.cpp\<close>: key-value strings, JSON escaping, quote and
  whitespace stripping, splitting and the random token. A result \<open>None\<close> is an exception or
  undefined behaviour of the C++ code (\<open>std::out_of_range\<close> from \<open>substr(1)\<close> of an empty
  string, a remainder by zero).
\<close>

definition bslash :: char where "bslash = CHR 0x5C"

lemma bslash_neq [simp]: "bslash \<noteq> nul" "nul \<noteq> bslash"
  by (simp_all add: bslash_def nul_def)

definition str_tolower :: "string \<Rightarrow> string" where
  "str_tolower s = map tolower s"

section \<open>Key-value strings\<close>

fun KeyStringToMap_loop ::
  "string list \<Rightarrow> nat \<Rightarrow> string \<Rightarrow> (string, string) smap \<Rightarrow> (string, string) smap" where
  "KeyStringToMap_loop [] i key ret = ret"
| "KeyStringToMap_loop (token # ts) i key ret =
     (if token = [] then KeyStringToMap_loop ts (i + 1) key ret
      else if i mod 2 \<noteq> 0 then KeyStringToMap_loop ts (i + 1) token ret
      else KeyStringToMap_loop ts (i + 1) key (smap_put key token ret))"

definition KeyStringToMap :: "string \<Rightarrow> (string, string) smap" where
  "KeyStringToMap input = KeyStringToMap_loop (getlines bslash input) 0 [] []"

definition KeyStringToVector :: "string \<Rightarrow> bool \<Rightarrow> char \<Rightarrow> string list option" where
  "KeyStringToVector input skip_null delimator =
     (if skip_null \<and> input = [] then None
      else (let inp = (if skip_null then drop 1 input else input) in
            Some (filter (\<lambda>token. token \<noteq> [] \<or> skip_null) (getlines delimator inp))))"

fun MapToKVString :: "(string, string) smap \<Rightarrow> string" where
  "MapToKVString [] = []"
| "MapToKVString ((k, v) # m) = bslash # k @ bslash # v @ MapToKVString m"

text \<open>The loop keeps \<open>idx\<close>, \<open>skip_next\<close>, \<open>temp_map\<close> and \<open>ret\<close>.\<close>

record mapar_state =
  idx :: nat
  skip_next :: bool
  temp_map :: "(string, string) smap"
  mapar_ret :: "(string, string) smap list"

fun mapar_loop :: "nat \<Rightarrow> string list \<Rightarrow> mapar_state \<Rightarrow> mapar_state option" where
  "mapar_loop field_count [] s = Some s"
| "mapar_loop field_count (token # ts) s =
     (if skip_next s then mapar_loop field_count ts (s\<lparr>skip_next := False\<rparr>)
      else if field_count = 0 then None
      else if idx s mod field_count = 0 \<and> idx s \<noteq> 0 then
        mapar_loop field_count ts
          (s\<lparr>idx := 0, mapar_ret := mapar_ret s @ [temp_map s], temp_map := [], skip_next := True\<rparr>)
      else mapar_loop field_count ts s)"

definition ValueStringToMapArray ::
  "string list \<Rightarrow> string \<Rightarrow> (string, string) smap list option" where
  "ValueStringToMapArray flds values =
     (if values = [] then None
      else map_option mapar_ret
        (mapar_loop (length flds) (getlines bslash (drop 1 values))
          \<lparr>idx = 0, skip_next = False, temp_map = [], mapar_ret = []\<rparr>))"

section \<open>Quotes, whitespace, JSON escapes, splitting\<close>

text \<open>\<open>s[s.length()-1]\<close> is only read when the first character is a quote, so \<open>s\<close> is not empty;
  for the one-character string the length \<open>size() - 2\<close> wraps and \<open>substr\<close> takes the rest.\<close>

definition strip_quotes :: "string \<Rightarrow> string" where
  "strip_quotes s =
     (if s = [] \<or> hd s \<noteq> CHR 0x22 \<or> last s \<noteq> CHR 0x22 then s
      else if length s = 1 then drop 1 s
      else take (length s - 2) (drop 1 s))"

definition escape_char :: "char \<Rightarrow> string" where
  "escape_char c =
     (if c = CHR 0x22 then [bslash, CHR 0x22]
      else if c = CHR ''/'' then [bslash, CHR ''/'']
      else if c = CHR 0x08 then [bslash, CHR ''b'']
      else if c = CHR 0x0C then [bslash, CHR ''f'']
      else if c = CHR 0x0A then [bslash, CHR ''n'']
      else if c = CHR 0x0D then [bslash, CHR ''r'']
      else if c = CHR 0x09 then [bslash, CHR ''t'']
      else if c = bslash then [bslash, bslash]
      else [c])"

definition escapeJSON :: "string \<Rightarrow> string" where
  "escapeJSON input = concat (map escape_char input)"

definition unescape_char :: "char \<Rightarrow> char" where
  "unescape_char c =
     (if c = CHR 0x22 then CHR 0x22
      else if c = CHR ''/'' then CHR ''/''
      else if c = CHR ''b'' then CHR 0x08
      else if c = CHR ''f'' then CHR 0x0C
      else if c = CHR ''n'' then CHR 0x0A
      else if c = CHR ''r'' then CHR 0x0D
      else if c = CHR ''t'' then CHR 0x09
      else if c = bslash then bslash
      else c)"

text \<open>
  The \<open>break\<close> after \<open>escaped = false\<close> stands outside the inner \<open>switch\<close>, so it leaves the
  \<open>for\<close> loop: nothing after the first escape sequence is read.
\<close>

fun unescapeJSON_loop :: "bool \<Rightarrow> string \<Rightarrow> string \<Rightarrow> string" where
  "unescapeJSON_loop escaped output [] = output"
| "unescapeJSON_loop escaped output (c # s) =
     (if escaped then output @ [unescape_char c]
      else if c = bslash then unescapeJSON_loop True output s
      else unescapeJSON_loop False (output @ [c]) s)"

definition unescapeJSON :: "string \<Rightarrow> string" where
  "unescapeJSON input = unescapeJSON_loop False [] input"

definition strip_whitespace :: "string \<Rightarrow> bool \<Rightarrow> string" where
  "strip_whitespace s skip_spaces =
     filter (\<lambda>ch. \<not> (isspace ch \<and> (ch \<noteq> CHR '' '' \<or> (skip_spaces \<and> ch = CHR '' '')))) s"

definition split :: "string \<Rightarrow> char \<Rightarrow> string list" where
  "split s delim = getlines delim s"

definition alphanum :: string where
  "alphanum = ''0123456789ABCDEFGHIJKLMNOPQRSTUVWXYZabcdefghijklmnopqrstuvwxyz''"

text \<open>\<open>rand()\<close> is outside the sources: its successive results are an argument.\<close>

definition gen_random :: "(nat \<Rightarrow> nat) \<Rightarrow> nat \<Rightarrow> string" where
  "gen_random rnd len = map (\<lambda>i. alphanum ! (rnd i mod length alphanum)) [0..<len]"

section \<open>Lemmas\<close>

lemma tokens_MapToKVString:
  assumes "\<And>k v. (k, v) \<in> set m \<Longrightarrow> k \<noteq> [] \<and> v \<noteq> [] \<and> bslash \<notin> set k \<and> bslash \<notin> set v"
  shows "getlines bslash (MapToKVString m) =
    (if m = [] then [] else [] # concat (map (\<lambda>(k, v). [k, v]) m))"
  using assms
proof (induction m rule: MapToKVString.induct)
  case (2 k v m)
  have kv: "k \<noteq> []" "v \<noteq> []" "bslash \<notin> set k" "bslash \<notin> set v" using 2(2)[of k v] by auto
  have "getlines bslash (v @ MapToKVString m) = v # concat (map (\<lambda>(k, v). [k, v]) m)"
  proof (cases m)
    case Nil
    then show ?thesis using getlines_single [OF kv(4,2)] by simp
  next
    case (Cons p m')
    obtain k' v' where p: "p = (k', v')" by (cases p)
    have "getlines bslash (MapToKVString m) = [] # concat (map (\<lambda>(k, v). [k, v]) m)"
      using 2 Cons by auto
    then show ?thesis
      using getlines_token [OF kv(4)] kv(4) Cons p by (simp add: getlines_delim)
  qed
  then show ?case
    using getlines_token [OF kv(3), of "v @ MapToKVString m"] by (simp add: getlines_delim)
qed simp

lemma KeyStringToMap_pairs:
  "(\<And>k v. (k, v) \<in> set kvs \<Longrightarrow> k \<noteq> [] \<and> v \<noteq> []) \<Longrightarrow> i mod 2 = 1 \<Longrightarrow>
   KeyStringToMap_loop (concat (map (\<lambda>(k, v). [k, v]) kvs)) i key ret =
     foldl (\<lambda>m (k, v). smap_put k v m) ret kvs"
proof (induction kvs arbitrary: i key ret)
  case (Cons p kvs)
  obtain k v where p: "p = (k, v)" by (cases p)
  from Cons.prems(1) [of k v] p have "k \<noteq> []" "v \<noteq> []" by auto
  moreover have odd: "Suc i mod 2 = 0" "Suc (Suc i) mod 2 = 1" using Cons.prems(2) by presburger+
  moreover have "KeyStringToMap_loop (concat (map (\<lambda>(k, v). [k, v]) kvs)) (Suc (Suc i)) k
      (smap_put k v ret) = foldl (\<lambda>m (k, v). smap_put k v m) (smap_put k v ret) kvs"
    using Cons.prems(1) by (intro Cons.IH odd) auto
  ultimately show ?case using Cons.prems(2) p by simp
qed simp

lemma mapar_loop_idle:
  "idx s = 0 \<Longrightarrow> \<not> skip_next s \<Longrightarrow> mapar_loop n ts s = Some t \<Longrightarrow> mapar_ret t = mapar_ret s"
  by (induction n ts s rule: mapar_loop.induct) (auto split: if_splits)

definition json_special :: "char \<Rightarrow> bool" where
  "json_special c \<longleftrightarrow> length (escape_char c) = 2"

lemma escape_special:
  "json_special c \<Longrightarrow> \<exists>d. escape_char c = [bslash, d] \<and> unescape_char d = c"
  by (auto simp: json_special_def escape_char_def unescape_char_def bslash_def split: if_splits)

lemma escape_plain: "\<not> json_special c \<Longrightarrow> escape_char c = [c]"
  by (auto simp: json_special_def escape_char_def split: if_splits)

lemma not_special_bslash: "\<not> json_special c \<Longrightarrow> c \<noteq> bslash"
  by (auto simp: json_special_def escape_char_def bslash_def)

lemma unescape_loop_escape:
  "unescapeJSON_loop False acc (concat (map escape_char s)) =
     acc @ takeWhile (\<lambda>c. \<not> json_special c) s @ take 1 (dropWhile (\<lambda>c. \<not> json_special c) s)"
proof (induction s arbitrary: acc)
  case (Cons c s)
  show ?case
  proof (cases "json_special c")
    case True
    with escape_special [OF True] show ?thesis by auto
  next
    case False
    with not_special_bslash [OF False] Cons show ?thesis by (simp add: escape_plain)
  qed
qed simp

lemma split_tokens:
  "ts \<noteq> [] \<Longrightarrow> (\<And>t. t \<in> set ts \<Longrightarrow> d \<notin> set t) \<Longrightarrow> last ts \<noteq> [] \<Longrightarrow>
   getlines d (foldr (\<lambda>t r. t @ (if r = [] then [] else d # r)) ts []) = ts"
proof (induction ts)
  case (Cons t ts)
  show ?case
  proof (cases "ts = []")
    case True
    with Cons.prems show ?thesis by (simp add: getlines_single)
  next
    case False
    let ?r = "foldr (\<lambda>t r. t @ (if r = [] then [] else d # r)) ts []"
    have r: "getlines d ?r = ts" using Cons False by simp
    then have "?r \<noteq> []" using False by auto
    with r Cons.prems(2) [of t] show ?thesis by (simp add: getlines_token)
  qed
qed simp

section \<open>Properties\<close>

text \<open>A map printed as a key-value string and parsed again is the same map, for non-empty
  keys and values without a backslash.\<close>

theorem KeyString_roundtrip:
  assumes "smap_ok m"
    and "\<And>k v. (k, v) \<in> set m \<Longrightarrow> k \<noteq> [] \<and> v \<noteq> [] \<and> bslash \<notin> set k \<and> bslash \<notin> set v"
  shows "KeyStringToMap (MapToKVString m) = m"
proof (cases "m = []")
  case False
  have "KeyStringToMap (MapToKVString m) =
      KeyStringToMap_loop (concat (map (\<lambda>(k, v). [k, v]) m)) 1 [] []"
    using False tokens_MapToKVString [OF assms(2)] by (simp add: KeyStringToMap_def)
  also have "\<dots> = m"
    using KeyStringToMap_pairs [of m 1] assms smap_rebuild by simp
  finally show ?thesis .
qed (simp add: KeyStringToMap_def)

theorem KeyString_roundtrip_witness:
  "KeyStringToMap (MapToKVString [(''a'', ''1''), (''b'', ''x'')]) = [(''a'', ''1''), (''b'', ''x'')]"
  by (rule KeyString_roundtrip) (auto simp: smap_ok_def bslash_def less_char_def)

text \<open>Unescaping an escaped JSON string gives back only the text up to and including the
  first character that needed an escape: the rest of the input is lost.\<close>

theorem unescapeJSON_escapeJSON:
  "unescapeJSON (escapeJSON s) =
     takeWhile (\<lambda>c. \<not> json_special c) s @ take 1 (dropWhile (\<lambda>c. \<not> json_special c) s)"
  by (simp add: unescapeJSON_def escapeJSON_def unescape_loop_escape)

text \<open>Whatever the fields and values, \<open>ValueStringToMapArray\<close> returns no map at all when it
  returns: its field counter is never advanced.\<close>

theorem ValueStringToMapArray_empty:
  "ValueStringToMapArray flds values \<in> {None, Some []}"
  using mapar_loop_idle [of "\<lparr>idx = 0, skip_next = False, temp_map = [], mapar_ret = []\<rparr>"]
  by (auto simp: ValueStringToMapArray_def)

end
