(* ===== verification/Buffer.thy ===== *)
theory Buffer
  imports CLib "HOL-Library.Monad_Syntax"
begin

text \<open>
  \<open>OS::Buffer\<close> of \<open>core/OS/Buffer.cpp\<close>: one memory block with a read and a write cursor that
  grows when it is written past its size, if it owns the block. Cursors are offsets from
  \<open>_head\<close>. A cell of the block is \<open>None\<close> while it is indeterminate (fresh memory). An operation
  returns \<open>None\<close> where the code has undefined behaviour: an access outside the block or the
  value of an indeterminate cell. Words are stored little-endian, as on the hosts the
  services run on; a float is its 32 bits and a double its 64 bits.
\<close>

section \<open>Little-endian encoding\<close>

primrec le_bytes :: "nat \<Rightarrow> nat \<Rightarrow> byte list" where
  "le_bytes 0 v = []"
| "le_bytes (Suc n) v = word_of_nat (v mod 256) # le_bytes n (v div 256)"

primrec le_val :: "byte list \<Rightarrow> nat" where
  "le_val [] = 0"
| "le_val (b # bs) = unat b + 256 * le_val bs"

lemma length_le_bytes [simp]: "length (le_bytes n v) = n"
  by (induction n arbitrary: v) auto

lemma le_val_le_bytes: "le_val (le_bytes n v) = v mod 256 ^ n"
proof (induction n arbitrary: v)
  case (Suc n)
  have "v mod (256 * 256 ^ n) = 256 * (v div 256 mod 256 ^ n) + v mod 256"
    by (rule mod_mult2_eq)
  with Suc show ?case by (simp add: unat_word_of_nat_byte)
qed simp

lemma le_val_bound: "le_val bs < 256 ^ length bs"
proof (induction bs)
  case (Cons b bs)
  then have "le_val bs + 1 \<le> 256 ^ length bs" by simp
  then have "256 * le_val bs + 256 \<le> 256 * 256 ^ length bs" by linarith
  moreover have "unat b < 256" by simp
  ultimately show ?case by (simp only: le_val.simps length_Cons power_Suc)
qed simp

lemma le_bytes_le_val: "le_bytes (length bs) (le_val bs) = bs"
  by (induction bs) auto

section \<open>The buffer\<close>

record buffer =
  mem :: "byte option list"   \<comment> \<open>\<open>_head\<close>, of \<open>alloc_size\<close> cells\<close>
  pointer_owner :: bool
  rd :: nat                   \<comment> \<open>\<open>_read_cursor - _head\<close>\<close>
  wr :: nat                   \<comment> \<open>\<open>_write_cursor - _head\<close>\<close>
  wr_last :: nat              \<comment> \<open>\<open>_write_cursor_last - _head\<close>\<close>

definition REALLOC_ADD_SIZE :: nat where "REALLOC_ADD_SIZE = 512"

definition allocSize :: "buffer \<Rightarrow> nat" where
  "allocSize b = length (mem b)"

definition resetCursors :: "buffer \<Rightarrow> buffer" where
  "resetCursors b = b\<lparr>wr := 0, wr_last := 0, rd := 0\<rparr>"

definition resetReadCursor :: "buffer \<Rightarrow> buffer" where
  "resetReadCursor b = b\<lparr>rd := 0\<rparr>"

definition resetWriteCursor :: "buffer \<Rightarrow> buffer" where
  "resetWriteCursor b = b\<lparr>wr := 0, wr_last := 0\<rparr>"

text \<open>The constructors: over given memory, and over a fresh block (1492 bytes by default).\<close>

definition Buffer_of :: "byte list \<Rightarrow> buffer" where
  "Buffer_of addr = \<lparr>mem = map Some addr, pointer_owner = False, rd = 0, wr = 0, wr_last = 0\<rparr>"

definition Buffer_alloc :: "nat \<Rightarrow> buffer" where
  "Buffer_alloc alloc_size =
     \<lparr>mem = replicate alloc_size None, pointer_owner = True, rd = 0, wr = 0, wr_last = 0\<rparr>"

definition Buffer_new :: buffer where
  "Buffer_new = Buffer_alloc 1492"

definition SetReadCursor :: "nat \<Rightarrow> buffer \<Rightarrow> buffer" where
  "SetReadCursor len b = (if len > allocSize b then b else b\<lparr>rd := len\<rparr>)"

definition SetWriteCursor :: "nat \<Rightarrow> buffer \<Rightarrow> buffer" where
  "SetWriteCursor len b = (if len > allocSize b then b else b\<lparr>wr := len\<rparr>)"

definition bytesWritten :: "buffer \<Rightarrow> nat" where
  "bytesWritten b = wr b"

text \<open>\<open>(_head - _read_cursor) + end\<close> in \<open>size_t\<close>: it wraps when the read cursor is past the end.\<close>

definition readRemaining :: "buffer \<Rightarrow> nat" where
  "readRemaining b = unat (word_of_nat (bytesWritten b) - word_of_nat (rd b) :: u64)"

definition IncReadCursor :: "nat \<Rightarrow> buffer \<Rightarrow> buffer" where
  "IncReadCursor len b = b\<lparr>rd := rd b + len\<rparr>"

definition SkipRead :: "nat \<Rightarrow> buffer \<Rightarrow> buffer" where
  "SkipRead len b = IncReadCursor len b"

definition realloc_buffer :: "nat \<Rightarrow> buffer \<Rightarrow> buffer" where
  "realloc_buffer new_size b =
     (if \<not> pointer_owner b then b
      else
        (let write_offset = bytesWritten b; read_offset = readRemaining b;
             m = take (write_offset + new_size) (mem b) @
                 replicate (write_offset + new_size - length (mem b)) None
         in SetReadCursor read_offset (SetWriteCursor write_offset (resetCursors (b\<lparr>mem := m\<rparr>)))))"

definition IncWriteCursor :: "nat \<Rightarrow> buffer \<Rightarrow> buffer" where
  "IncWriteCursor len b0 =
     (let b = (if bytesWritten b0 + len \<ge> allocSize b0
               then realloc_buffer (REALLOC_ADD_SIZE + len) b0 else b0)
      in b\<lparr>wr_last := wr b, wr := wr b + len\<rparr>)"

section \<open>Writing\<close>

text \<open>The store at \<open>_write_cursor_last\<close>: outside the block it is undefined behaviour.\<close>

definition store_last :: "byte list \<Rightarrow> buffer \<Rightarrow> buffer option" where
  "store_last bs b =
     (if wr_last b + length bs \<le> allocSize b
      then Some (b\<lparr>mem := take (wr_last b) (mem b) @ map Some bs @ drop (wr_last b + length bs) (mem b)\<rparr>)
      else None)"

definition WriteBuffer :: "byte list \<Rightarrow> buffer \<Rightarrow> buffer option" where
  "WriteBuffer bs b = store_last bs (IncWriteCursor (length bs) b)"

definition WriteByte :: "byte \<Rightarrow> buffer \<Rightarrow> buffer option" where
  "WriteByte v b = store_last [v] (IncWriteCursor 1 b)"

definition WriteShort :: "u16 \<Rightarrow> buffer \<Rightarrow> buffer option" where
  "WriteShort v b = store_last (le_bytes 2 (unat v)) (IncWriteCursor 2 b)"

definition WriteInt :: "u32 \<Rightarrow> buffer \<Rightarrow> buffer option" where
  "WriteInt v b = store_last (le_bytes 4 (unat v)) (IncWriteCursor 4 b)"

definition WriteLong :: "u64 \<Rightarrow> buffer \<Rightarrow> buffer option" where
  "WriteLong v b = store_last (le_bytes 8 (unat v)) (IncWriteCursor 8 b)"

definition WriteFloat :: "u32 \<Rightarrow> buffer \<Rightarrow> buffer option" where
  "WriteFloat bits b = store_last (le_bytes 4 (unat bits)) (IncWriteCursor 4 b)"

definition WriteDouble :: "u64 \<Rightarrow> buffer \<Rightarrow> buffer option" where
  "WriteDouble bits b = store_last (le_bytes 8 (unat bits)) (IncWriteCursor 8 b)"

definition WriteNTS :: "byte list \<Rightarrow> buffer \<Rightarrow> buffer option" where
  "WriteNTS str b =
     (if length str \<noteq> 0 then store_last (str @ [0]) (IncWriteCursor (length str + 1) b)
      else WriteByte 0 b)"

section \<open>Reading\<close>

text \<open>The cells from an offset on, all of them defined and inside the block.\<close>

definition load :: "nat \<Rightarrow> nat \<Rightarrow> buffer \<Rightarrow> byte list option" where
  "load i n b =
     (if i + n \<le> allocSize b \<and> None \<notin> set (take n (drop i (mem b)))
      then Some (map the (take n (drop i (mem b)))) else None)"

definition read_num :: "nat \<Rightarrow> buffer \<Rightarrow> (nat \<times> buffer) option" where
  "read_num n b =
     (if readRemaining b < n then Some (0, b)
      else do { bs \<leftarrow> load (rd b) n b; Some (le_val bs, IncReadCursor n b) })"

definition ReadByte :: "buffer \<Rightarrow> (byte \<times> buffer) option" where
  "ReadByte b = map_option (map_prod word_of_nat id) (read_num 1 b)"

definition ReadShort :: "buffer \<Rightarrow> (u16 \<times> buffer) option" where
  "ReadShort b = map_option (map_prod word_of_nat id) (read_num 2 b)"

definition ReadInt :: "buffer \<Rightarrow> (u32 \<times> buffer) option" where
  "ReadInt b = map_option (map_prod word_of_nat id) (read_num 4 b)"

definition ReadLong :: "buffer \<Rightarrow> (u64 \<times> buffer) option" where
  "ReadLong b = map_option (map_prod word_of_nat id) (read_num 8 b)"

definition ReadFloat :: "buffer \<Rightarrow> (u32 \<times> buffer) option" where
  "ReadFloat b = map_option (map_prod word_of_nat id) (read_num 4 b)"

definition ReadDouble :: "buffer \<Rightarrow> (u64 \<times> buffer) option" where
  "ReadDouble b = map_option (map_prod word_of_nat id) (read_num 8 b)"

definition ReadBuffer :: "nat \<Rightarrow> buffer \<Rightarrow> (byte list option \<times> buffer) option" where
  "ReadBuffer len b =
     (if readRemaining b < len then Some (None, b)
      else do { bs \<leftarrow> load (rd b) len b; Some (Some bs, IncReadCursor len b) })"

text \<open>
  The scan of \<open>ReadNTS\<close> stops at a NUL only: \<open>readRemaining()\<close> does not change inside the
  loop, so the end of the written data does not stop it.
\<close>

fun nts_scan :: "byte option list \<Rightarrow> byte list option" where
  "nts_scan [] = None"
| "nts_scan (None # cs) = None"
| "nts_scan (Some c # cs) = (if c = 0 then Some [] else map_option ((#) c) (nts_scan cs))"

definition ReadNTS :: "buffer \<Rightarrow> (byte list \<times> buffer) option" where
  "ReadNTS b =
     (if readRemaining b < 1 then Some ([], b)
      else do { ret \<leftarrow> nts_scan (drop (rd b) (mem b)); Some (ret, IncReadCursor (length ret + 1) b) })"

section \<open>What a buffer promises\<close>

text \<open>
  Abstractly a buffer that owns its block is an append-only sequence of bytes (\<open>contents\<close>)
  with a reading position. Writes to it never fail.
\<close>

definition contents :: "buffer \<Rightarrow> byte option list" where
  "contents b = take (wr b) (mem b)"

definition sink_ok :: "buffer \<Rightarrow> bool" where
  "sink_ok b \<longleftrightarrow> pointer_owner b \<and> wr b \<le> allocSize b"

locale byte_sink =
  fixes put :: "byte list \<Rightarrow> 's \<Rightarrow> 's option" and out :: "'s \<Rightarrow> byte option list"
    and ok :: "'s \<Rightarrow> bool"
  assumes put_ok: "ok s \<Longrightarrow> \<exists>t. put bs s = Some t \<and> ok t \<and> out t = out s @ map Some bs"
begin

lemma put_all: "ok s \<Longrightarrow> \<exists>t. foldl (\<lambda>r bs. Option.bind r (put bs)) (Some s) bss = Some t \<and> ok t \<and>
    out t = out s @ map Some (concat bss)"
proof (induction bss arbitrary: s)
  case (Cons bs bss)
  obtain t where t: "put bs s = Some t" "ok t" "out t = out s @ map Some bs"
    using put_ok [OF Cons.prems] by blast
  with Cons.IH [OF t(2)] show ?case by auto
qed simp

end

lemma IncWriteCursor_sink:
  assumes "sink_ok b" and "b' = IncWriteCursor len b"
  shows "sink_ok b'" and "wr_last b' = wr b" and "wr b' = wr b + len"
    and "take (wr b) (mem b') = take (wr b) (mem b)" and "wr b + len \<le> length (mem b')"
  using assms
  by (auto simp: sink_ok_def IncWriteCursor_def realloc_buffer_def SetReadCursor_def
      SetWriteCursor_def resetCursors_def allocSize_def bytesWritten_def REALLOC_ADD_SIZE_def Let_def
      min_def)

lemma store_last_sink:
  assumes "sink_ok b"
  shows "\<exists>b'. store_last bs (IncWriteCursor (length bs) b) = Some b' \<and> sink_ok b' \<and>
    contents b' = contents b @ map Some bs \<and> wr b' = wr b + length bs"
proof -
  let ?c = "IncWriteCursor (length bs) b"
  note c = IncWriteCursor_sink [OF assms refl, of "length bs"]
  have store: "store_last bs ?c =
      Some (?c\<lparr>mem := take (wr b) (mem ?c) @ map Some bs @ drop (wr b + length bs) (mem ?c)\<rparr>)"
    using c by (simp add: store_last_def allocSize_def)
  show ?thesis
    unfolding store using c assms by (auto simp: sink_ok_def allocSize_def contents_def min_def)
qed

interpretation buf: byte_sink WriteBuffer contents sink_ok
  by unfold_locales (metis WriteBuffer_def store_last_sink)

text \<open>Every typed write is a write of its bytes.\<close>

lemma Write_as_bytes:
  "WriteByte v b = WriteBuffer [v] b"
  "WriteShort s b = WriteBuffer (le_bytes 2 (unat s)) b"
  "WriteInt i b = WriteBuffer (le_bytes 4 (unat i)) b"
  "WriteLong l b = WriteBuffer (le_bytes 8 (unat l)) b"
  "WriteFloat f b = WriteBuffer (le_bytes 4 (unat f)) b"
  "WriteDouble d b = WriteBuffer (le_bytes 8 (unat d)) b"
  "WriteNTS str b = WriteBuffer (str @ [0]) b"
  by (simp_all add: WriteByte_def WriteShort_def WriteInt_def WriteLong_def WriteFloat_def
      WriteDouble_def WriteNTS_def WriteBuffer_def)

section \<open>Reading back\<close>

definition readable :: "byte list \<Rightarrow> buffer \<Rightarrow> bool" where
  "readable data b \<longleftrightarrow> contents b = map Some data \<and> wr b = length data \<and> rd b \<le> wr b \<and>
     wr b \<le> allocSize b \<and> length data < 2 ^ 64"

lemma readRemaining_readable: "readable data b \<Longrightarrow> readRemaining b = length data - rd b"
  by (simp add: readable_def readRemaining_def bytesWritten_def unat_sub_if_size unat_of_nat
      word_size)

lemma load_readable:
  assumes "readable data b" and "i + n \<le> length data"
  shows "load i n b = Some (take n (drop i data))"
proof -
  have "take n (drop i (mem b)) = take n (drop i (contents b))"
    using assms by (simp add: readable_def contents_def drop_take take_take min_def)
  also have "\<dots> = map Some (take n (drop i data))"
    using assms by (simp add: readable_def drop_map take_map)
  finally have "take n (drop i (mem b)) = map Some (take n (drop i data))" .
  moreover have "i + n \<le> allocSize b" using assms by (simp add: readable_def)
  ultimately show ?thesis by (simp add: load_def map_idI)
qed

lemma readable_IncReadCursor [inv_rules]:
  "readable data b \<Longrightarrow> rd b + n \<le> length data \<Longrightarrow> readable data (IncReadCursor n b)"
  by (auto simp: readable_def IncReadCursor_def contents_def allocSize_def)

lemma rd_IncReadCursor [simp]: "rd (IncReadCursor n b) = rd b + n"
  by (simp add: IncReadCursor_def)

lemma read_num_readable:
  assumes "readable data b" and "rd b + n \<le> length data"
  shows "read_num n b = Some (le_val (take n (drop (rd b) data)), IncReadCursor n b)"
  using assms load_readable [OF assms(1), of "rd b" n] readRemaining_readable [OF assms(1)]
  by (simp add: read_num_def)

text \<open>A read that does not fit returns 0 and does not move the cursor.\<close>

lemma read_num_short:
  "readable data b \<Longrightarrow> length data < rd b + n \<Longrightarrow> read_num n b = Some (0, b)"
  using readRemaining_readable [of data b] by (auto simp: read_num_def readable_def)

lemma nts_scan_stop: "0 \<notin> set s \<Longrightarrow> nts_scan (map Some s @ Some 0 # r) = Some s"
  by (induction s) auto

lemma ReadNTS_readable:
  assumes r: "readable data b" and d: "drop (rd b) data = s @ 0 # rest" and s: "0 \<notin> set s"
  shows "ReadNTS b = Some (s, IncReadCursor (length s + 1) b)"
proof -
  have len: "length data - rd b = length s + 1 + length rest"
    using arg_cong [OF d, of length] by simp
  have "drop (rd b) (mem b) = drop (rd b) (contents b) @ drop (wr b) (mem b)"
    using r by (metis append_take_drop_id contents_def drop_append diff_is_0_eq drop0
        length_take min.absorb2 readable_def allocSize_def)
  also have "\<dots> = map Some s @ Some 0 # (map Some rest @ drop (wr b) (mem b))"
    using r d by (simp add: readable_def drop_map)
  finally have "nts_scan (drop (rd b) (mem b)) = Some s" using nts_scan_stop [OF s] by simp
  then show ?thesis using readRemaining_readable [OF r] len by (simp add: ReadNTS_def)
qed

text \<open>Messages as sequences of typed fields, as the packet writers and readers use them.\<close>

datatype field = FByte byte | FShort u16 | FInt u32 | FLong u64 | FNTS "byte list"

fun encode_field :: "field \<Rightarrow> byte list" where
  "encode_field (FByte v) = [v]"
| "encode_field (FShort v) = le_bytes 2 (unat v)"
| "encode_field (FInt v) = le_bytes 4 (unat v)"
| "encode_field (FLong v) = le_bytes 8 (unat v)"
| "encode_field (FNTS s) = s @ [0]"

fun write_field :: "field \<Rightarrow> buffer \<Rightarrow> buffer option" where
  "write_field (FByte v) b = WriteByte v b"
| "write_field (FShort v) b = WriteShort v b"
| "write_field (FInt v) b = WriteInt v b"
| "write_field (FLong v) b = WriteLong v b"
| "write_field (FNTS s) b = WriteNTS s b"

text \<open>Reads the next field of the kind of the given one.\<close>

fun read_field :: "field \<Rightarrow> buffer \<Rightarrow> (field \<times> buffer) option" where
  "read_field (FByte _) b = map_option (map_prod FByte id) (ReadByte b)"
| "read_field (FShort _) b = map_option (map_prod FShort id) (ReadShort b)"
| "read_field (FInt _) b = map_option (map_prod FInt id) (ReadInt b)"
| "read_field (FLong _) b = map_option (map_prod FLong id) (ReadLong b)"
| "read_field (FNTS _) b = map_option (map_prod FNTS id) (ReadNTS b)"

fun write_fields :: "field list \<Rightarrow> buffer \<Rightarrow> buffer option" where
  "write_fields [] b = Some b"
| "write_fields (f # fs) b = Option.bind (write_field f b) (write_fields fs)"

fun read_fields :: "field list \<Rightarrow> buffer \<Rightarrow> (field list \<times> buffer) option" where
  "read_fields [] b = Some ([], b)"
| "read_fields (f # fs) b =
     do { (g, b') \<leftarrow> read_field f b; (gs, b'') \<leftarrow> read_fields fs b'; Some (g # gs, b'') }"

definition field_ok :: "field \<Rightarrow> bool" where
  "field_ok f = (case f of FNTS s \<Rightarrow> 0 \<notin> set s | _ \<Rightarrow> True)"

lemma write_field_bytes: "write_field f b = WriteBuffer (encode_field f) b"
  by (cases f) (simp_all add: Write_as_bytes)

lemma write_fields_sink:
  "sink_ok b \<Longrightarrow> \<exists>b'. write_fields fs b = Some b' \<and> sink_ok b' \<and>
     contents b' = contents b @ map Some (concat (map encode_field fs))"
proof (induction fs arbitrary: b)
  case (Cons f fs)
  obtain c where c: "write_field f b = Some c" "sink_ok c"
      "contents c = contents b @ map Some (encode_field f)"
    using buf.put_ok [OF Cons.prems, of "encode_field f"] by (auto simp: write_field_bytes)
  with Cons.IH [OF c(2)] show ?case by auto
qed simp

lemma le_val_word:
  "word_of_nat (le_val (le_bytes 1 (unat (a :: byte)))) = a"
  "word_of_nat (le_val (le_bytes 2 (unat (s :: u16)))) = s"
  "word_of_nat (le_val (le_bytes 4 (unat (i :: u32)))) = i"
  "word_of_nat (le_val (le_bytes 8 (unat (l :: u64)))) = l"
  using unat_less [of s] unat_less [of i] unat_less [of l] unat_less [of a]
  by (simp_all add: le_val_le_bytes del: le_bytes.simps)

lemma read_field_readable:
  assumes r: "readable data b" and f: "field_ok f"
    and d: "drop (rd b) data = encode_field f @ rest"
  shows "\<exists>b'. read_field f b = Some (f, b') \<and> readable data b' \<and> drop (rd b') data = rest"
proof -
  have len: "length data - rd b = length (encode_field f) + length rest"
    using arg_cong [OF d, of length] by simp
  then have fit: "rd b + length (encode_field f) \<le> length data"
    using r by (cases "length (encode_field f) = 0") (auto simp: readable_def)
  have take: "take (length (encode_field f)) (drop (rd b) data) = encode_field f" using d by simp
  let ?b = "IncReadCursor (length (encode_field f)) b"
  have nx: "readable data ?b" "drop (rd ?b) data = rest"
    using readable_IncReadCursor [OF r fit] arg_cong [OF d, of "drop (length (encode_field f))"]
    by (simp_all add: add.commute)
  have "read_field f b = Some (f, ?b)"
  proof (cases f)
    case (FNTS s)
    with ReadNTS_readable [OF r, of s rest] d f show ?thesis by (simp add: field_ok_def)
  next
    case (FByte v)
    with read_num_readable [OF r fit] take le_val_word(1) [of v] show ?thesis
      by (simp add: ReadByte_def)
  next
    case (FShort v)
    with read_num_readable [OF r fit] take le_val_word(2) [of v] show ?thesis
      by (simp add: ReadShort_def)
  next
    case (FInt v)
    with read_num_readable [OF r fit] take le_val_word(3) [of v] show ?thesis
      by (simp add: ReadInt_def)
  next
    case (FLong v)
    with read_num_readable [OF r fit] take le_val_word(4) [of v] show ?thesis
      by (simp add: ReadLong_def)
  qed
  with nx show ?thesis by blast
qed

lemma read_fields_readable:
  "readable data b \<Longrightarrow> list_all field_ok fs \<Longrightarrow>
   drop (rd b) data = concat (map encode_field fs) @ rest \<Longrightarrow>
   \<exists>b'. read_fields fs b = Some (fs, b') \<and> readable data b' \<and> drop (rd b') data = rest"
proof (induction fs arbitrary: b)
  case (Cons f fs)
  obtain c where c: "read_field f b = Some (f, c)" "readable data c"
      "drop (rd c) data = concat (map encode_field fs) @ rest"
    using read_field_readable [OF Cons.prems(1), of f "concat (map encode_field fs) @ rest"]
      Cons.prems by auto
  from Cons.IH [OF c(2) _ c(3)] Cons.prems c(1) show ?case by auto
qed simp


section \<open>Properties\<close>

lemma sink_ok_alloc: "sink_ok (Buffer_alloc n)" "contents (Buffer_alloc n) = []"
  by (simp_all add: sink_ok_def Buffer_alloc_def allocSize_def contents_def)

text \<open>The bytes of a message written field by field to a new buffer.\<close>

definition message_bytes :: "field list \<Rightarrow> byte list option" where
  "message_bytes fs = map_option (\<lambda>b. map the (contents b)) (write_fields fs Buffer_new)"

lemma message_bytes [simp]: "message_bytes fs = Some (concat (map encode_field fs))"
  using write_fields_sink [OF sink_ok_alloc(1) [of 1492], of fs] sink_ok_alloc(2)
  by (auto simp: message_bytes_def Buffer_new_def comp_def)

text \<open>A datagram's buffer, for reading it and for sending it.\<close>

lemma datagram_buffer:
  assumes "length data < 2 ^ 64"
  shows "\<exists>b. WriteBuffer data (Buffer_alloc n) = Some b \<and> map the (contents b) = data \<and>
    readable data (resetReadCursor b) \<and> rd (resetReadCursor b) = 0"
proof -
  obtain b where b: "WriteBuffer data (Buffer_alloc n) = Some b" "sink_ok b"
      "contents b = map Some data"
    using buf.put_ok [OF sink_ok_alloc(1) [of n], of data] sink_ok_alloc(2) by auto
  have "length (contents b) = wr b" using b(2) by (simp add: contents_def sink_ok_def allocSize_def)
  then have len: "wr b = length data" using b(3) by (simp only: length_map)
  with b assms have "readable data (resetReadCursor b)"
    by (simp add: readable_def resetReadCursor_def contents_def sink_ok_def allocSize_def)
  with b show ?thesis by (simp add: comp_def resetReadCursor_def)
qed

lemma ReadBuffer_readable:
  assumes "readable data b" and "rd b + n \<le> length data"
  shows "ReadBuffer n b = Some (Some (take n (drop (rd b) data)), IncReadCursor n b)"
  using assms load_readable [OF assms(1), of "rd b" n] readRemaining_readable [OF assms(1)]
  by (simp add: ReadBuffer_def)

lemma ReadBuffer_short:
  "readable data b \<Longrightarrow> length data < rd b + n \<Longrightarrow> ReadBuffer n b = Some (None, b)"
  using readRemaining_readable [of data b] by (auto simp: ReadBuffer_def readable_def)

lemma le_bytes_word: "length bs = 4 \<Longrightarrow> le_bytes 4 (unat (word_of_nat (le_val bs) :: u32)) = bs"
  using le_val_bound [of bs] le_bytes_le_val [of bs] by (simp add: unat_of_nat)

lemma le_bytes_cells:
  "le_bytes 2 v = [word_of_nat (v mod 256), word_of_nat (v div 256 mod 256)]"
  "le_bytes 4 v = [word_of_nat (v mod 256), word_of_nat (v div 256 mod 256),
     word_of_nat (v div 256 div 256 mod 256), word_of_nat (v div 256 div 256 div 256 mod 256)]"
proof -
  have "(2 :: nat) = Suc (Suc 0)" "(4 :: nat) = Suc (Suc (Suc (Suc 0)))" by simp_all
  then show "le_bytes 2 v = [word_of_nat (v mod 256), word_of_nat (v div 256 mod 256)]"
    "le_bytes 4 v = [word_of_nat (v mod 256), word_of_nat (v div 256 mod 256),
     word_of_nat (v div 256 div 256 mod 256), word_of_nat (v div 256 div 256 div 256 mod 256)]"
    by (simp_all only: le_bytes.simps)
qed

text \<open>C26. Any sequence of typed values written to a fresh buffer, which grows as needed, is read
  back unchanged from the start in the same order.\<close>

theorem fields_roundtrip:
  assumes "list_all field_ok fs" and "length (concat (map encode_field fs)) < 2 ^ 64"
  shows "\<exists>b b'. write_fields fs (Buffer_alloc n) = Some b \<and>
           read_fields fs (resetReadCursor b) = Some (fs, b')"
proof -
  let ?data = "concat (map encode_field fs)"
  obtain b where b: "write_fields fs (Buffer_alloc n) = Some b" "sink_ok b"
      "contents b = map Some ?data"
    using write_fields_sink [OF sink_ok_alloc(1) [of n], of fs] sink_ok_alloc(2) by auto
  have "length (contents b) = wr b" using b(2) by (simp add: contents_def sink_ok_def allocSize_def)
  then have len: "wr b = length ?data" using b(3) by (simp only: length_map)
  with b assms(2) len have "readable ?data (resetReadCursor b)"
    by (simp add: readable_def resetReadCursor_def contents_def sink_ok_def allocSize_def)
  from read_fields_readable [OF this assms(1), of "[]"] b(1) show ?thesis
    by (auto simp: resetReadCursor_def)
qed

theorem fields_roundtrip_witness:
  "\<exists>b b'. write_fields [FByte 7, FNTS [104, 105], FInt 3735928559] (Buffer_alloc 4) = Some b \<and>
     read_fields [FByte 7, FNTS [104, 105], FInt 3735928559] (resetReadCursor b) =
       Some ([FByte 7, FNTS [104, 105], FInt 3735928559], b')"
  by (rule fields_roundtrip) (simp_all add: field_ok_def)

text \<open>When a write makes the block grow, the read cursor does not stay at its offset \<open>r\<close>: it
  is set to the number of bytes that were left to read, \<open>w - r\<close>.\<close>

theorem realloc_moves_read_cursor:
  assumes "pointer_owner b" and "rd b \<le> wr b" and "wr b \<le> allocSize b" and "wr b < 2 ^ 64"
    and "bytesWritten b + len \<ge> allocSize b"
  shows "rd (IncWriteCursor len b) = wr b - rd b"
  using assms
  by (auto simp: IncWriteCursor_def realloc_buffer_def SetReadCursor_def SetWriteCursor_def
      resetCursors_def allocSize_def bytesWritten_def readRemaining_def REALLOC_ADD_SIZE_def
      Let_def unat_sub_if_size unat_of_nat word_size)

theorem realloc_moves_read_cursor_witness:
  "rd (IncWriteCursor 2 ((Buffer_alloc 4)\<lparr>wr := 3, rd := 1\<rparr>)) = 2"
  by (subst realloc_moves_read_cursor) (simp_all add: Buffer_alloc_def allocSize_def bytesWritten_def)

text \<open>Reading a string whose terminator was never written runs past the written data: on a
  block that holds no NUL from the cursor on, the scan leaves the block.\<close>

theorem ReadNTS_unterminated:
  assumes "readRemaining b \<ge> 1" and "Some 0 \<notin> set (drop (rd b) (mem b))"
  shows "ReadNTS b = None"
proof -
  have "nts_scan cs = None" if "Some 0 \<notin> set cs" for cs
    using that by (induction cs rule: nts_scan.induct) auto
  with assms show ?thesis by (simp add: ReadNTS_def)
qed

theorem ReadNTS_unterminated_witness:
  "ReadNTS ((Buffer_of [104, 105])\<lparr>wr := 2\<rparr>) = None"
  by (rule ReadNTS_unterminated) (simp_all add: Buffer_of_def readRemaining_def bytesWritten_def)

end
