(* ===== verification/KVReader.thy ===== *)
theory KVReader
  imports Strings
begin

text \<open>
  \<open>OS::KVReader\<close> (\<open>core/OS/KVReader.cpp\<close>), the parser and printer of the backslash-separated
  key-value messages, and \<open>KVProcessor\<close>, which cuts a TCP stream into such messages at
  \<open>\final\\<close>. The constructor's \<open>std::stringstream\<close> is its unread text and whether it is
  still good; \<open>std::getline\<close>, \<open>read\<close> and \<open>seekg\<close> follow the standard on those.
\<close>

section \<open>Streams\<close>

record stream =
  rest :: string
  good :: bool

definition open_stream :: "string \<Rightarrow> stream" where
  "open_stream s = \<lparr>rest = s, good = True\<rparr>"

text \<open>
  \<open>std::getline(ss, token, d)\<close>: success, the token (unchanged when the stream is already bad,
  emptied when nothing is left) and the stream.
\<close>

definition getline_s :: "char \<Rightarrow> string \<Rightarrow> stream \<Rightarrow> bool \<times> string \<times> stream" where
  "getline_s d token ss =
     (if \<not> good ss then (False, token, ss)
      else if rest ss = [] then (False, [], ss\<lparr>good := False\<rparr>)
      else (case dropWhile (\<lambda>c. c \<noteq> d) (rest ss) of
              [] \<Rightarrow> (True, rest ss, \<lparr>rest = [], good = False\<rparr>)
            | _ # r \<Rightarrow> (True, takeWhile (\<lambda>c. c \<noteq> d) (rest ss), ss\<lparr>rest := r\<rparr>)))"

text \<open>
  \<open>read(p, n)\<close> followed by \<open>seekg(1, cur)\<close>. A short read leaves cells of the fresh memory
  unset, so the value is \<open>None\<close>; the stream is bad after it, and after a seek past the end.
\<close>

definition read_skip :: "nat \<Rightarrow> stream \<Rightarrow> string option \<times> stream" where
  "read_skip n ss =
     ((if n = 0 then Some [] else if good ss \<and> n \<le> length (rest ss) then Some (take n (rest ss)) else None),
      (if good ss \<and> n < length (rest ss) then ss\<lparr>rest := drop (n + 1) (rest ss)\<rparr>
       else \<lparr>rest = [], good = False\<rparr>))"

section \<open>The constructor\<close>

type_synonym kv_pairs = "(string \<times> string) list"

definition signed_code :: "char \<Rightarrow> int" where
  "signed_code c = (if code c < 128 then int (code c) else int (code c) - 256)"

text \<open>\<open>char\<close> is signed on the hosts the services run on, so \<open>ch <= 127\<close> compares this.\<close>

definition cleanup_string :: "string \<Rightarrow> string" where
  "cleanup_string input = filter (\<lambda>ch. signed_code ch \<le> 127) input"

definition FindKey :: "kv_pairs \<Rightarrow> string \<Rightarrow> string option" where
  "FindKey m key = map_of m key"

definition HasKey :: "kv_pairs \<Rightarrow> string \<Rightarrow> bool" where
  "HasKey m key \<longleftrightarrow> FindKey m key \<noteq> None"

definition GetValue :: "kv_pairs \<Rightarrow> string \<Rightarrow> string" where
  "GetValue m key = (case FindKey m key of None \<Rightarrow> [] | Some v \<Rightarrow> v)"

definition GetValueInt :: "kv_pairs \<Rightarrow> string \<Rightarrow> i32" where
  "GetValueInt m key = (case FindKey m key of None \<Rightarrow> 0 | Some v \<Rightarrow> atoi v)"

text \<open>The loop's variables: \<open>token\<close>, \<open>key\<close>, \<open>value\<close>, \<open>i\<close>, \<open>line_ss\<close> and \<open>m_kv_map\<close>.\<close>

record kv_state =
  token :: string
  kv_key :: string
  kv_value :: string
  ki :: nat
  line_ss :: stream
  kv_map :: kv_pairs

definition IsDataKey :: "(string, string) smap \<Rightarrow> string \<Rightarrow> bool" where
  "IsDataKey data_map key \<longleftrightarrow> smap_find data_map key \<noteq> None"

text \<open>The value of a data key: \<open>None\<close> on the \<open>break\<close>, else the value and the stream.\<close>

definition read_data ::
  "nat \<Rightarrow> (string, string) smap \<Rightarrow> kv_state \<Rightarrow> (string option \<times> stream) option" where
  "read_data kv_len data_map s =
     (let len_key = (case smap_find data_map (kv_key s) of Some k \<Rightarrow> k | None \<Rightarrow> []);
          data_len = unat (scast (GetValueInt (kv_map s) len_key) :: u64)
      in if data_len > kv_len then None else Some (read_skip data_len (line_ss s)))"

datatype 'a outcome = Done 'a | Undefined

text \<open>
  The body of the inner loop at an odd \<open>i\<close>: \<open>Inl\<close> leaves the loop. \<open>Undefined\<close> is a value made
  of unset memory.
\<close>

definition kv_odd ::
  "nat \<Rightarrow> (string, string) smap \<Rightarrow> kv_state \<Rightarrow> (kv_state + kv_state) outcome" where
  "kv_odd kv_len data_map s0 =
     (let s = s0\<lparr>kv_value := token s0\<rparr> in
      if HasKey (kv_map s) (kv_key s) then Done (Inr (s\<lparr>kv_key := [], ki := ki s + 1\<rparr>))
      else if IsDataKey data_map (kv_key s) then
        (case read_data kv_len data_map s of
           None \<Rightarrow> Done (Inl s)
         | Some (None, ss) \<Rightarrow> Undefined
         | Some (Some v, ss) \<Rightarrow>
             Done (Inr (s\<lparr>kv_value := v, line_ss := ss, kv_key := [], ki := ki s + 1,
               kv_map := kv_map s @ [(cleanup_string (kv_key s), cleanup_string v)]\<rparr>)))
      else Done (Inr (s\<lparr>kv_key := [], ki := ki s + 1,
             kv_map := kv_map s @ [(cleanup_string (kv_key s), cleanup_string (kv_value s))]\<rparr>)))"

definition kv_body ::
  "nat \<Rightarrow> (string, string) smap \<Rightarrow> kv_state \<Rightarrow> (kv_state + kv_state) outcome" where
  "kv_body kv_len data_map s =
     (if ki s mod 2 = 0 then Done (Inr (s\<lparr>kv_key := token s, ki := ki s + 1\<rparr>))
      else kv_odd kv_len data_map s)"

text \<open>One turn of the inner loop: the condition, which reads a token unless a data key is
  pending, then the body.\<close>

definition kv_turn ::
  "nat \<Rightarrow> (string, string) smap \<Rightarrow> char \<Rightarrow> kv_state \<Rightarrow> (kv_state + kv_state) outcome" where
  "kv_turn kv_len data_map delim s =
     (if kv_key s \<noteq> [] \<and> IsDataKey data_map (kv_key s) then kv_body kv_len data_map s
      else (case getline_s delim (token s) (line_ss s) of
              (False, t, ss) \<Rightarrow> Done (Inl (s\<lparr>token := t, line_ss := ss\<rparr>))
            | (True, t, ss) \<Rightarrow> kv_body kv_len data_map (s\<lparr>token := t, line_ss := ss\<rparr>)))"

definition stream_rank :: "stream \<Rightarrow> nat" where
  "stream_rank ss = length (rest ss) + (if good ss then 1 else 0)"

definition pending_rank :: "(string, string) smap \<Rightarrow> kv_state \<Rightarrow> nat" where
  "pending_rank data_map s =
     (if kv_key s \<noteq> [] \<and> IsDataKey data_map (kv_key s)
      then (if ki s mod 2 = 0 then 2 else 1) else 0)"

lemma getline_s_rank: "getline_s d t ss = (True, t', ss') \<Longrightarrow> stream_rank ss' < stream_rank ss"
proof -
  assume g: "getline_s d t ss = (True, t', ss')"
  then have "good ss" "rest ss \<noteq> []" by (auto simp: getline_s_def split: if_splits)
  moreover have "length (dropWhile (\<lambda>c. c \<noteq> d) (rest ss)) \<le> length (rest ss)"
    by (rule length_dropWhile_le)
  ultimately show ?thesis
    using g by (auto simp: getline_s_def stream_rank_def split: list.splits)
qed

lemma read_skip_rank: "read_skip n ss = (v, ss') \<Longrightarrow> stream_rank ss' \<le> stream_rank ss"
  by (auto simp: read_skip_def stream_rank_def split: if_splits)

lemma kv_body_rank:
  assumes "kv_body n dm s = Done (Inr t)"
  shows "stream_rank (line_ss t) \<le> stream_rank (line_ss s)"
    and "kv_key s \<noteq> [] \<Longrightarrow> IsDataKey dm (kv_key s) \<Longrightarrow> pending_rank dm t < pending_rank dm s"
  using assms
  by (auto simp: kv_body_def kv_odd_def read_data_def Let_def pending_rank_def
      split: if_splits option.splits prod.splits dest: read_skip_rank)

lemma kv_turn_rank:
  assumes "kv_turn n dm d s = Done (Inr t)"
  shows "stream_rank (line_ss t) < stream_rank (line_ss s) \<or>
    (stream_rank (line_ss t) = stream_rank (line_ss s) \<and> pending_rank dm t < pending_rank dm s)"
proof (cases "kv_key s \<noteq> [] \<and> IsDataKey dm (kv_key s)")
  case True
  then have "kv_body n dm s = Done (Inr t)" using assms by (simp add: kv_turn_def)
  from kv_body_rank(1) [OF this] kv_body_rank(2) [OF this] True show ?thesis by auto
next
  case False
  then obtain u ss where g: "getline_s d (token s) (line_ss s) = (True, u, ss)"
      and b: "kv_body n dm (s\<lparr>token := u, line_ss := ss\<rparr>) = Done (Inr t)"
    using assms by (auto simp: kv_turn_def split: prod.splits bool.splits)
  from getline_s_rank [OF g] kv_body_rank(1) [OF b] show ?thesis by simp
qed

function kv_loop ::
  "nat \<Rightarrow> (string, string) smap \<Rightarrow> char \<Rightarrow> kv_state \<Rightarrow> kv_state outcome" where
  "kv_loop kv_len data_map delim s =
     (case kv_turn kv_len data_map delim s of
        Undefined \<Rightarrow> Undefined
      | Done (Inl t) \<Rightarrow> Done t
      | Done (Inr t) \<Rightarrow> kv_loop kv_len data_map delim t)"
  by pat_completeness auto
termination
proof (relation "measures [\<lambda>(n, dm, d, s). stream_rank (line_ss s), \<lambda>(n, dm, d, s). pending_rank dm s]",
    goal_cases)
  case (2 n dm d s r t)
  then have "kv_turn n dm d s = Done (Inr t)" by simp
  from kv_turn_rank [OF this] show ?case by auto
qed simp

declare kv_loop.simps [simp del]

text \<open>One line: \<open>i\<close> starts at 0, the other variables carry over.\<close>

definition kv_line ::
  "nat \<Rightarrow> (string, string) smap \<Rightarrow> char \<Rightarrow> kv_state \<Rightarrow> string \<Rightarrow> kv_state outcome" where
  "kv_line kv_len data_map delim s line =
     kv_loop kv_len data_map delim (s\<lparr>line_ss := open_stream line, ki := 0\<rparr>)"

fun kv_lines ::
  "nat \<Rightarrow> (string, string) smap \<Rightarrow> char \<Rightarrow> kv_state \<Rightarrow> string list \<Rightarrow> kv_state outcome" where
  "kv_lines kv_len data_map delim s [] = Done s"
| "kv_lines kv_len data_map delim s (l # ls) =
     (case kv_line kv_len data_map delim s l of
        Undefined \<Rightarrow> Undefined
      | Done t \<Rightarrow> kv_lines kv_len data_map delim t ls)"

definition kv_start :: kv_state where
  "kv_start = \<lparr>token = [], kv_key = [], kv_value = [], ki = 0, line_ss = open_stream [], kv_map = []\<rparr>"

text \<open>
  The constructor: drops one leading delimiter; with no line delimiter (\<open>0\<close>) the whole text is
  one line and a dangling key gets the empty value.
\<close>

definition KVReader ::
  "string \<Rightarrow> char \<Rightarrow> char \<Rightarrow> (string, string) smap \<Rightarrow> kv_pairs outcome" where
  "KVReader kv_pair delim line_delim data_map =
     (let kv = (if kv_pair \<noteq> [] \<and> hd kv_pair = delim then drop 1 kv_pair else kv_pair);
          r = (if line_delim = nul
               then (case kv_line (length kv) data_map delim kv_start kv of
                       Undefined \<Rightarrow> Undefined
                     | Done s \<Rightarrow> Done (s\<lparr>kv_value := []\<rparr>))
               else kv_lines (length kv) data_map delim kv_start (getlines line_delim kv))
      in (case r of
            Undefined \<Rightarrow> Undefined
          | Done s \<Rightarrow> Done (if kv_key s \<noteq> [] then kv_map s @ [(kv_key s, kv_value s)] else kv_map s)))"

section \<open>Access and printing\<close>

definition GetPairByIdx :: "kv_pairs \<Rightarrow> nat \<Rightarrow> string \<times> string" where
  "GetPairByIdx m n = (if length m \<le> n then ([], []) else m ! n)"

definition GetKeyByIdx :: "kv_pairs \<Rightarrow> nat \<Rightarrow> string" where
  "GetKeyByIdx m n = fst (GetPairByIdx m n)"

definition GetValueByIdx :: "kv_pairs \<Rightarrow> nat \<Rightarrow> string" where
  "GetValueByIdx m n = snd (GetPairByIdx m n)"

definition GetValueIntByIdx :: "kv_pairs \<Rightarrow> nat \<Rightarrow> i32" where
  "GetValueIntByIdx m n = atoi (GetValueByIdx m n)"

text \<open>A later pair with the same key overwrites in the \<open>std::map\<close>.\<close>

definition GetKVMap :: "kv_pairs \<Rightarrow> (string, string) smap" where
  "GetKVMap m = foldl (\<lambda>ret (k, v). smap_put k v ret) [] m"

definition kv_ToString :: "char \<Rightarrow> char \<Rightarrow> bool \<Rightarrow> kv_pairs \<Rightarrow> string" where
  "kv_ToString delim line_delim values_only m =
     concat (map (\<lambda>(k, v). (if values_only then delim # v else delim # k @ delim # v) @
       (if line_delim \<noteq> nul then [line_delim] else [])) m)"

section \<open>\<open>KVProcessor\<close>\<close>

definition final_str :: string where
  "final_str = bslash # ''final'' @ [bslash]"

definition MAX_UNPROCESSED_DATA :: nat where "MAX_UNPROCESSED_DATA = 5000"

text \<open>\<open>recv_buf.find(pat, last_pos)\<close> on the text from \<open>last_pos\<close> on, relative to it.\<close>

fun find_sub :: "string \<Rightarrow> string \<Rightarrow> nat option" where
  "find_sub pat [] = (if pat = [] then Some 0 else None)"
| "find_sub pat (c # s) =
     (if take (length pat) (c # s) = pat then Some 0 else map_option Suc (find_sub pat s))"

lemma find_sub_bound: "find_sub pat s = Some i \<Longrightarrow> i + length pat \<le> length s"
proof (induction s arbitrary: i)
  case (Cons c s)
  show ?case
  proof (cases "take (length pat) (c # s) = pat")
    case True
    then have "length pat \<le> length (c # s)" by (metis length_take min.cobounded1)
    with Cons.prems True show ?thesis by auto
  qed (use Cons in auto)
qed (auto split: if_splits)

text \<open>The \<open>do\<close> loop: the texts before each \<open>\final\\<close>, and what follows the last one.\<close>

function split_final :: "string \<Rightarrow> string list \<times> string" where
  "split_final s =
     (case find_sub final_str s of
        None \<Rightarrow> ([], s)
      | Some i \<Rightarrow> (let (ps, r) = split_final (drop (i + 7) s) in (take i s # ps, r)))"
  by pat_completeness auto
termination
  by (relation "measure length") (auto dest!: find_sub_bound simp: final_str_def)

declare split_final.simps [simp del]

text \<open>
  \<open>deserialize_data\<close>: the accumulator before, the bytes received; the result, the messages
  (each given to the \<open>KVReader\<close> constructor) and the accumulator after. The test for left-over
  text compares a position in accumulator and new bytes with the number of new bytes.
\<close>

definition deserialize_texts :: "string \<Rightarrow> string \<Rightarrow> bool \<times> string list \<times> string" where
  "deserialize_texts m_kv_accumulator buffer =
     (let recv_buf = m_kv_accumulator @ buffer;
          (msgs, remaining) = split_final recv_buf;
          last_pos = length recv_buf - length remaining;
          acc = (if last_pos < length buffer then remaining else [])
      in (length acc \<le> MAX_UNPROCESSED_DATA, msgs, acc))"

definition deserialize_data :: "string \<Rightarrow> string \<Rightarrow> bool \<times> kv_pairs outcome list \<times> string" where
  "deserialize_data m_kv_accumulator buffer =
     (case deserialize_texts m_kv_accumulator buffer of
        (ok, msgs, acc) \<Rightarrow> (ok, map (\<lambda>t. KVReader t bslash nul []) msgs, acc))"

section \<open>Lemmas\<close>

lemma signed_code_le: "signed_code c \<le> 127"
proof -
  have "int (code c) < 256" using code_less [of c] by linarith
  then show ?thesis by (auto simp: signed_code_def simp del: code_less)
qed

lemma cleanup_id: "cleanup_string s = s"
  by (simp add: cleanup_string_def signed_code_le)

text \<open>What is still to come from a stream, as tokens.\<close>

definition stream_tokens :: "char \<Rightarrow> stream \<Rightarrow> string list" where
  "stream_tokens d ss = (if good ss then getlines d (rest ss) else [])"

lemma getline_s_tokens:
  "getline_s d t ss = (False, t', ss') \<Longrightarrow> stream_tokens d ss = []"
  "getline_s d t ss = (True, t', ss') \<Longrightarrow> stream_tokens d ss = t' # stream_tokens d ss'"
proof -
  have all: "takeWhile (\<lambda>c. c \<noteq> d) (rest ss) = rest ss" if "dropWhile (\<lambda>c. c \<noteq> d) (rest ss) = []"
    using that by (simp add: takeWhile_eq_all_conv)
  show "getline_s d t ss = (False, t', ss') \<Longrightarrow> stream_tokens d ss = []"
    by (auto simp: getline_s_def stream_tokens_def split: if_splits list.splits)
  assume g: "getline_s d t ss = (True, t', ss')"
  then have ne: "good ss" "rest ss \<noteq> []" by (auto simp: getline_s_def split: if_splits)
  note u = getlines_unfold [OF ne(2), of d]
  show "stream_tokens d ss = t' # stream_tokens d ss'"
  proof (cases "dropWhile (\<lambda>c. c \<noteq> d) (rest ss)")
    case Nil
    then have "getline_s d t ss = (True, rest ss, \<lparr>rest = [], good = False\<rparr>)"
      using ne unfolding getline_s_def by (simp only: list.case if_False not_True_eq_False)
    with g all [OF Nil] Nil u ne show ?thesis by (simp only: stream_tokens_def) (auto simp del: dropWhile_eq_Nil_conv)
  next
    case (Cons c r)
    then have "getline_s d t ss = (True, takeWhile (\<lambda>c. c \<noteq> d) (rest ss), ss\<lparr>rest := r\<rparr>)"
      using ne by (simp add: getline_s_def)
    with g Cons u ne show ?thesis by (auto simp add: stream_tokens_def)
  qed
qed

lemma getline_s_Cons:
  assumes "stream_tokens d ss = u # us"
  obtains ss' where "getline_s d t ss = (True, u, ss')" "stream_tokens d ss' = us"
proof -
  obtain ok t' ss' where g: "getline_s d t ss = (ok, t', ss')" by (metis prod_cases3)
  with assms getline_s_tokens(1) [of d t ss t' ss'] have "ok = True" by (cases ok) auto
  with g getline_s_tokens(2) [of d t ss t' ss'] assms that show ?thesis by auto
qed

lemma getline_s_end:
  assumes "stream_tokens d ss = []"
  obtains t' ss' where "getline_s d t ss = (False, t', ss')"
proof -
  obtain ok t' ss' where g: "getline_s d t ss = (ok, t', ss')" by (metis prod_cases3)
  with assms getline_s_tokens(2) [of d t ss t' ss'] have "ok = False" by (cases ok) auto
  with g that show ?thesis by auto
qed

text \<open>The inner loop on tokens, without data keys: the pairs and the dangling key.\<close>

fun kv_tokens :: "string list \<Rightarrow> kv_pairs \<Rightarrow> kv_pairs \<times> string" where
  "kv_tokens [] m = (m, [])"
| "kv_tokens [k] m = (m, k)"
| "kv_tokens (k # v # ts) m = kv_tokens ts (if HasKey m k then m else m @ [(k, v)])"

lemma not_data [simp]: "\<not> IsDataKey [] k"
  by (simp add: IsDataKey_def smap_find_def)

lemma kv_loop_end:
  "stream_tokens d (line_ss s) = [] \<Longrightarrow>
   \<exists>t. kv_loop n [] d s = Done t \<and> kv_map t = kv_map s \<and> kv_key t = kv_key s"
  by (erule getline_s_end [of d "line_ss s" "token s"]) (simp add: kv_loop.simps kv_turn_def)

lemma kv_loop_even:
  assumes "stream_tokens d (line_ss s) = k # us" and "ki s mod 2 = 0"
  shows "\<exists>t. kv_loop n [] d s = kv_loop n [] d t \<and> stream_tokens d (line_ss t) = us \<and>
    kv_map t = kv_map s \<and> kv_key t = k \<and> ki t mod 2 = 1"
proof -
  obtain ss where g: "getline_s d (token s) (line_ss s) = (True, k, ss)" "stream_tokens d ss = us"
    by (rule getline_s_Cons [OF assms(1)])
  let ?t = "s\<lparr>token := k, line_ss := ss, kv_key := k, ki := ki s + 1\<rparr>"
  have "kv_loop n [] d s = kv_loop n [] d ?t"
    by (subst kv_loop.simps) (simp add: kv_turn_def g kv_body_def assms(2))
  moreover have "(ki s + 1) mod 2 = 1" using assms(2) by presburger
  ultimately show ?thesis using g(2) by (intro exI [of _ ?t]) simp
qed

lemma kv_loop_odd:
  assumes "stream_tokens d (line_ss s) = v # us" and "ki s mod 2 = 1"
  shows "\<exists>t. kv_loop n [] d s = kv_loop n [] d t \<and> stream_tokens d (line_ss t) = us \<and>
    kv_map t = (if HasKey (kv_map s) (kv_key s) then kv_map s else kv_map s @ [(kv_key s, v)]) \<and>
    kv_key t = [] \<and> ki t mod 2 = 0"
proof -
  obtain ss where g: "getline_s d (token s) (line_ss s) = (True, v, ss)" "stream_tokens d ss = us"
    by (rule getline_s_Cons [OF assms(1)])
  let ?m = "if HasKey (kv_map s) (kv_key s) then kv_map s else kv_map s @ [(kv_key s, v)]"
  let ?t = "s\<lparr>token := v, line_ss := ss, kv_value := v, kv_key := [], ki := ki s + 1, kv_map := ?m\<rparr>"
  have "kv_loop n [] d s = kv_loop n [] d ?t"
    by (subst kv_loop.simps) (simp add: kv_turn_def g kv_body_def kv_odd_def assms(2) cleanup_id)
  moreover have "(ki s + 1) mod 2 = 0" using assms(2) by presburger
  ultimately show ?thesis using g(2) by (intro exI [of _ ?t]) simp
qed

lemma kv_loop_tokens:
  "stream_tokens d (line_ss s) = ts \<Longrightarrow> ki s mod 2 = 0 \<Longrightarrow> kv_key s = [] \<Longrightarrow> kv_map s = m \<Longrightarrow>
   \<exists>t. kv_loop n [] d s = Done t \<and> (kv_map t, kv_key t) = kv_tokens ts m"
proof (induction ts m arbitrary: s rule: kv_tokens.induct)
  case (1 m)
  with kv_loop_end [of d s n] show ?case by auto
next
  case (2 k m)
  obtain t where t: "kv_loop n [] d s = kv_loop n [] d t" "stream_tokens d (line_ss t) = []"
      "kv_map t = kv_map s" "kv_key t = k"
    using kv_loop_even [OF 2(1,2), of n] by blast
  with kv_loop_end [OF t(2), of n] 2(4) show ?case by auto
next
  case (3 k v ts m)
  obtain t where t: "kv_loop n [] d s = kv_loop n [] d t" "stream_tokens d (line_ss t) = v # ts"
      "kv_map t = m" "kv_key t = k" "ki t mod 2 = 1"
    using kv_loop_even [OF 3(2,3), of n] 3(5) by blast
  obtain u where u: "kv_loop n [] d t = kv_loop n [] d u" "stream_tokens d (line_ss u) = ts"
      "kv_map u = (if HasKey m k then m else m @ [(k, v)])" "kv_key u = []" "ki u mod 2 = 0"
    using kv_loop_odd [OF t(2,5), of n] t(3,4) by metis
  from 3(1) [OF u(2,5,4,3)] t(1) u(1) show ?case by simp
qed

text \<open>The constructor on tokens.\<close>

lemma KVReader_tokens:
  "KVReader s d nul [] =
     (let (m, k) = kv_tokens (getlines d (if s \<noteq> [] \<and> hd s = d then drop 1 s else s)) []
      in Done (if k \<noteq> [] then m @ [(k, [])] else m))"
proof -
  let ?s = "if s \<noteq> [] \<and> hd s = d then drop 1 s else s"
  let ?st = "kv_start\<lparr>line_ss := open_stream ?s, ki := 0\<rparr>"
  have st: "stream_tokens d (line_ss ?st) = getlines d ?s" "ki ?st mod 2 = 0" "kv_key ?st = []"
      "kv_map ?st = []"
    by (simp_all add: stream_tokens_def open_stream_def kv_start_def)
  from kv_loop_tokens [OF st, of "length ?s"] show ?thesis
    by (auto simp: KVReader_def kv_line_def Let_def split: prod.splits)
qed

lemma kv_tokens_pairs:
  "distinct (map fst m @ map fst kvs) \<Longrightarrow>
   kv_tokens (concat (map (\<lambda>(k, v). [k, v]) kvs)) m = (m @ kvs, [])"
proof (induction kvs arbitrary: m)
  case (Cons p kvs)
  obtain k v where p: "p = (k, v)" by (cases p)
  with Cons.prems have "\<not> HasKey m k" by (auto simp: HasKey_def FindKey_def map_of_eq_None_iff)
  with Cons.IH [of "m @ [p]"] Cons.prems p show ?case by simp
qed simp

text \<open>
  The tokens of a printed list; an empty last value leaves its key without a value token, and
  the constructor then supplies the empty value.
\<close>

definition dangle :: "kv_pairs \<Rightarrow> string list" where
  "dangle kvs = (if kvs \<noteq> [] \<and> snd (last kvs) = []
     then concat (map (\<lambda>(k, v). [k, v]) (butlast kvs)) @ [fst (last kvs)]
     else concat (map (\<lambda>(k, v). [k, v]) kvs))"

lemma getlines_ToString:
  assumes "kvs \<noteq> []" and "\<And>k v. (k, v) \<in> set kvs \<Longrightarrow> k \<noteq> [] \<and> d \<notin> set k \<and> d \<notin> set v"
  shows "getlines d (drop 1 (kv_ToString d nul False kvs)) = dangle kvs"
  using assms
proof (induction kvs)
  case (Cons p kvs)
  obtain k v where p: "p = (k, v)" by (cases p)
  note prems = Cons.prems(2) and IH = Cons.IH
  from p Cons.prems(2) [of k v] have kv: "k \<noteq> []" "d \<notin> set k" "d \<notin> set v" by auto
  let ?t = "kv_ToString d nul False kvs"
  have first: "drop 1 (kv_ToString d nul False (p # kvs)) = k @ d # v @ ?t"
    by (simp add: kv_ToString_def p)
  have "getlines d (v @ ?t) = (if kvs = [] \<and> v = [] then [] else v # dangle kvs)"
  proof (cases kvs)
    case Nil
    with kv getlines_single [of d v] show ?thesis by (cases "v = []") (auto simp: kv_ToString_def dangle_def)
  next
    case (Cons q kvs')
    then have "?t = d # drop 1 ?t" by (cases q) (simp add: kv_ToString_def)
    then have "getlines d (v @ ?t) = v # getlines d (drop 1 ?t)" using getlines_token [OF kv(3)] by metis
    moreover have "getlines d (drop 1 ?t) = dangle kvs"
      using Cons prems by (intro IH) (auto simp only: list.set)
    ultimately show ?thesis using Cons by simp
  qed
  with getlines_token [OF kv(2), of "v @ ?t"] show ?case
    unfolding first by (auto simp: dangle_def p)
qed simp


lemma kv_tokens_dangle:
  assumes "distinct (map fst kvs)" and "\<And>k v. (k, v) \<in> set kvs \<Longrightarrow> k \<noteq> []"
  shows "(let (m, k) = kv_tokens (dangle kvs) [] in if k \<noteq> [] then m @ [(k, [])] else m) = kvs"
proof (cases "kvs \<noteq> [] \<and> snd (last kvs) = []")
  case True
  then obtain ks k where kvs: "kvs = ks @ [(k, [])]"
    by (metis append_butlast_last_id prod.collapse)
  have app: "kv_tokens (concat (map (\<lambda>(k, v). [k, v]) xs) @ [k]) m = (m @ xs, k)"
    if "distinct (map fst m @ map fst xs)" for xs m
    using that
  proof (induction xs arbitrary: m)
    case (Cons p xs)
    obtain a b where p: "p = (a, b)" by (cases p)
    with Cons.prems have "\<not> HasKey m a" by (auto simp: HasKey_def FindKey_def map_of_eq_None_iff)
    with Cons.IH [of "m @ [p]"] Cons.prems p show ?case by simp
  qed simp
  from assms kvs app [of "[]" ks] show ?thesis by (auto simp: dangle_def)
next
  case False
  with assms(1) kv_tokens_pairs [of "[]" kvs] show ?thesis by (auto simp: dangle_def)
qed

text \<open>\<open>split_final\<close> cuts a text: joining the pieces with the marker gives it back.\<close>

lemma find_sub_split: "find_sub pat s = Some i \<Longrightarrow> s = take i s @ pat @ drop (i + length pat) s"
proof (induction s arbitrary: i)
  case (Cons c s)
  show ?case
  proof (cases "take (length pat) (c # s) = pat")
    case True
    with Cons.prems show ?thesis by (metis add_0 append_Nil append_take_drop_id find_sub.simps(2)
        option.inject take0)
  next
    case False
    with Cons.prems obtain j where "find_sub pat s = Some j" "i = Suc j" by auto
    with Cons.IH [of j] show ?thesis by simp
  qed
qed (auto split: if_splits)

lemma find_sub_first:
  "find_sub pat s = Some i \<Longrightarrow> j < i \<Longrightarrow> take (length pat) (drop j s) \<noteq> pat"
proof (induction s arbitrary: i j)
  case (Cons c s)
  then show ?case by (cases j) (auto split: if_splits)
qed (auto split: if_splits)

lemma length_final_str [simp]: "length final_str = 7"
  by (simp add: final_str_def)

lemma split_final_join:
  "split_final s = (ps, r) \<Longrightarrow> s = concat (map (\<lambda>p. p @ final_str) ps) @ r"
proof (induction s arbitrary: ps r rule: split_final.induct)
  case (1 s)
  show ?case
  proof (cases "find_sub final_str s")
    case None
    with 1(2) show ?thesis by (simp add: split_final.simps [of s])
  next
    case (Some i)
    obtain qs r' where q: "split_final (drop (i + 7) s) = (qs, r')" by (cases "split_final (drop (i + 7) s)")
    with 1(2) Some have "ps = take i s # qs" "r = r'" by (simp_all add: split_final.simps [of s])
    moreover have "drop (i + 7) s = concat (map (\<lambda>p. p @ final_str) qs) @ r'"
      using 1(1) [OF Some q] .
    ultimately show ?thesis using find_sub_split [OF Some] by simp
  qed
qed

lemma split_final_rest_length: "split_final s = (ps, r) \<Longrightarrow> length r \<le> length s"
  using split_final_join [of s ps r] by (metis le_add2 length_append)

lemma split_final_rest_none: "split_final s = (ps, r) \<Longrightarrow> find_sub final_str r = None"
proof (induction s arbitrary: ps r rule: split_final.induct)
  case (1 s)
  show ?case
  proof (cases "find_sub final_str s")
    case None
    with 1(2) show ?thesis by (simp add: split_final.simps [of s])
  next
    case (Some i)
    obtain qs r' where q: "split_final (drop (i + 7) s) = (qs, r')" by (cases "split_final (drop (i + 7) s)")
    with 1(2) Some have "r = r'" by (simp add: split_final.simps [of s])
    with 1(1) [OF Some q] show ?thesis by simp
  qed
qed

lemma KVReader_printed:
  assumes "distinct (map fst kvs)"
    and "\<And>k v. (k, v) \<in> set kvs \<Longrightarrow> k \<noteq> [] \<and> d \<notin> set k \<and> d \<notin> set v"
  shows "KVReader (kv_ToString d nul False kvs) d nul [] = Done kvs"
proof (cases "kvs = []")
  case True
  then show ?thesis by (simp add: KVReader_tokens kv_ToString_def)
next
  case False
  then have "kv_ToString d nul False kvs \<noteq> [] \<and> hd (kv_ToString d nul False kvs) = d"
    by (cases kvs) (auto simp: kv_ToString_def)
  moreover have "(let (m, k) = kv_tokens (dangle kvs) [] in
      if k \<noteq> [] then m @ [(k, [])] else m) = kvs"
    using assms by (intro kv_tokens_dangle) auto
  ultimately show ?thesis
    using getlines_ToString [OF False assms(2)] by (auto simp: KVReader_tokens Let_def split: prod.splits)
qed

section \<open>Properties\<close>

text \<open>C20. Pairs with distinct non-empty keys and without the delimiter, printed by
  \<open>ToString\<close> and parsed by the constructor, come back unchanged and in order, empty values
  included.\<close>

theorem KVReader_ToString:
  assumes "distinct (map fst kvs)"
    and "\<And>k v. (k, v) \<in> set kvs \<Longrightarrow> k \<noteq> [] \<and> d \<notin> set k \<and> d \<notin> set v"
  shows "KVReader (kv_ToString d nul False kvs) d nul [] = Done kvs"
  by (rule KVReader_printed [OF assms])

theorem KVReader_ToString_witness:
  "KVReader (kv_ToString bslash nul False [(''login'', []), (''user'', ''bob''), (''id'', [])])
     bslash nul [] = Done [(''login'', []), (''user'', ''bob''), (''id'', [])]"
  by (rule KVReader_ToString) (auto simp: bslash_def)

text \<open>C25. Cutting a stream at \<open>\final\\<close> loses nothing: the text is the messages, each followed
  by the marker, and a remainder without a complete marker; and the accumulator is that
  remainder exactly when it is empty or the last marker ended before as many bytes as arrived
  in this call.\<close>

theorem deserialize_texts_exact:
  assumes "deserialize_texts acc buffer = (ok, msgs, acc')"
  shows "\<exists>remaining. acc @ buffer = concat (map (\<lambda>p. p @ final_str) msgs) @ remaining \<and>
           find_sub final_str remaining = None \<and>
           (acc' = remaining \<longleftrightarrow>
              remaining = [] \<or> length (acc @ buffer) - length remaining < length buffer) \<and>
           (acc' = remaining \<or> acc' = [])"
proof -
  obtain ps r where s: "split_final (acc @ buffer) = (ps, r)" by (cases "split_final (acc @ buffer)")
  with assms have "msgs = ps"
      and "acc' = (if length (acc @ buffer) - length r < length buffer then r else [])"
    by (auto simp: deserialize_texts_def Let_def)
  with split_final_join [OF s] split_final_rest_none [OF s] show ?thesis by auto
qed

theorem deserialize_texts_exact_witness:
  "\<exists>remaining. ''ab'' @ final_str @ ''c'' = concat (map (\<lambda>p. p @ final_str) [''ab'']) @ remaining \<and>
     find_sub final_str remaining = None \<and>
     ([] = remaining \<longleftrightarrow>
        remaining = [] \<or> length (''ab'' @ final_str @ ''c'') - length remaining < length (final_str @ ''c'')) \<and>
     ([] = remaining \<or> [] = ([] :: string))"
  by (rule deserialize_texts_exact [where ok = True]) code_simp

text \<open>Left-over text is lost: with pending text at least as long as what follows the last
  marker, the beginning of the next message is dropped.\<close>

theorem deserialize_texts_loses:
  assumes "deserialize_texts acc (buf1 @ final_str @ after) = (ok, msgs, acc')"
    and "find_sub final_str after = None"
    and "split_final (acc @ buf1 @ final_str @ after) = (msgs, after)"
    and "length after \<le> length acc"
  shows "acc' = []"
  using assms by (auto simp: deserialize_texts_def Let_def)

theorem deserialize_texts_loses_witness:
  "deserialize_texts ''ab'' (''c'' @ final_str @ ''xy'') = (True, [''abc''], []) \<and> ([] :: string) = []"
proof -
  have h: "deserialize_texts ''ab'' (''c'' @ final_str @ ''xy'') = (True, [''abc''], [])" by code_simp
  have f: "find_sub final_str ''xy'' = None" by code_simp
  have s: "split_final (''ab'' @ ''c'' @ final_str @ ''xy'') = ([''abc''], ''xy'')" by code_simp
  from deserialize_texts_loses [OF h f s] h show ?thesis by simp
qed

end
