(* ===== verification/Cipher.thy ===== *)
theory Cipher
  imports Prelude
begin

text \<open>
  The interface of the byte ciphers: a state and a step that turns one byte into another and
  advances the state. \<open>None\<close> is undefined behaviour of the C++ code (an access outside an
  array, a division by zero). The ciphers of the program (\<open>gamespy.cpp\<close>, \<open>sb_crypt.cpp\<close>,
  \<open>gs_peerchat.cpp\<close>, \<open>gutil.cpp\<close>, \<open>enctype1_*.cpp\<close>) are interpretations of these locales in
  their own theories.
\<close>

type_synonym 's bytestep = "'s \<Rightarrow> byte \<Rightarrow> (byte \<times> 's) option"

text \<open>A loop over the bytes of a block, in place.\<close>

primrec crypt_run :: "'s bytestep \<Rightarrow> 's \<Rightarrow> byte list \<Rightarrow> (byte list \<times> 's) option" where
  "crypt_run f s [] = Some ([], s)"
| "crypt_run f s (b # bs) =
     (case f s b of
        None \<Rightarrow> None
      | Some (c, s') \<Rightarrow>
          (case crypt_run f s' bs of None \<Rightarrow> None | Some (cs, s'') \<Rightarrow> Some (c # cs, s'')))"

lemma crypt_run_length: "crypt_run f s bs = Some (cs, s') \<Longrightarrow> length cs = length bs"
  by (induction bs arbitrary: s cs s') (auto split: option.splits)

lemma crypt_run_append:
  "crypt_run f s (bs @ cs) =
     (case crypt_run f s bs of
        None \<Rightarrow> None
      | Some (ds, s') \<Rightarrow>
          (case crypt_run f s' cs of None \<Rightarrow> None | Some (es, s'') \<Rightarrow> Some (ds @ es, s'')))"
  by (induction bs arbitrary: s) (auto split: option.splits)

lemma crypt_run_invariant [inv_rules]:
  assumes "crypt_run f s bs = Some (cs, s')" and "I s"
    and "\<And>s b c t. I s \<Longrightarrow> f s b = Some (c, t) \<Longrightarrow> I t"
  shows "I s'"
  using assms(1,2)
proof (induction bs arbitrary: s cs)
  case (Cons b bs)
  then obtain c t ds where "f s b = Some (c, t)" "crypt_run f t bs = Some (ds, s')"
    by (auto split: option.splits)
  with Cons.IH [of t ds] Cons.prems(2) assms(3) show ?case by blast
qed simp

lemma crypt_run_total:
  assumes "I s" and "\<And>s b. I s \<Longrightarrow> \<exists>c t. f s b = Some (c, t) \<and> I t"
  shows "\<exists>cs s'. crypt_run f s bs = Some (cs, s') \<and> I s'"
  using assms(1)
proof (induction bs arbitrary: s)
  case (Cons b bs)
  from assms(2) [OF Cons.prems, of b] obtain c t where t: "f s b = Some (c, t)" "I t" by blast
  from Cons.IH [OF t(2)] t(1) show ?case by auto
qed simp

locale byte_cipher =
  fixes enc dec :: "'s bytestep"
  assumes dec_enc: "enc s b = Some (c, s') \<Longrightarrow> dec s c = Some (b, s')"
begin

text \<open>Decrypting from the state the encryption started in gives the plain bytes back and ends in
  the same state, so both ends stay synchronised over any sequence of blocks.\<close>

lemma run_dec_enc:
  "crypt_run enc s bs = Some (cs, s') \<Longrightarrow> crypt_run dec s cs = Some (bs, s')"
proof (induction bs arbitrary: s cs)
  case (Cons b bs)
  then obtain c t ds where "enc s b = Some (c, t)" "crypt_run enc t bs = Some (ds, s')" "cs = c # ds"
    by (auto split: option.splits)
  then show ?case using Cons.IH dec_enc by simp
qed simp

lemma enc_inj:
  "enc s b = Some (c, t) \<Longrightarrow> enc s b' = Some (c, t') \<Longrightarrow> b = b'"
  by (drule dec_enc)+ simp

lemma run_inj:
  assumes "crypt_run enc s bs = Some (cs, t)" and "crypt_run enc s bs' = Some (cs, t')"
  shows "bs = bs'"
  using assms [THEN run_dec_enc] by simp

end

text \<open>A keystream cipher: the key byte and the next state do not depend on the data.\<close>

definition stream_enc :: "('s \<Rightarrow> (byte \<times> 's) option) \<Rightarrow> 's bytestep" where
  "stream_enc step s b = (case step s of None \<Rightarrow> None | Some (k, s') \<Rightarrow> Some (b XOR k, s'))"

locale keystream =
  fixes step :: "'s \<Rightarrow> (byte \<times> 's) option" and enc :: "'s bytestep"
  assumes enc_stream: "enc s b = stream_enc step s b"
begin

lemma enc_enc: "enc s b = Some (c, s') \<Longrightarrow> enc s c = Some (b, s')"
  by (auto simp: enc_stream stream_enc_def split: option.splits)

end

sublocale keystream \<subseteq> byte_cipher enc enc
  by unfold_locales (rule enc_enc)

text \<open>The key bytes of a keystream, as the code draws them.\<close>

fun key_bytes :: "('s \<Rightarrow> (byte \<times> 's) option) \<Rightarrow> nat \<Rightarrow> 's \<Rightarrow> (byte list \<times> 's) option" where
  "key_bytes step 0 s = Some ([], s)"
| "key_bytes step (Suc n) s =
     (case step s of
        None \<Rightarrow> None
      | Some (k, s') \<Rightarrow>
          (case key_bytes step n s' of None \<Rightarrow> None | Some (ks, s'') \<Rightarrow> Some (k # ks, s'')))"

lemma crypt_run_stream:
  "crypt_run (stream_enc step) s bs =
     map_option (\<lambda>(ks, s'). (map2 (XOR) bs ks, s')) (key_bytes step (length bs) s)"
  by (induction bs arbitrary: s) (auto simp: stream_enc_def split: option.splits)

section \<open>Shuffled decks\<close>

text \<open>
  The arrays of 256 bytes that the ciphers shuffle are permutations of the byte values.
\<close>

type_synonym deck = "byte list"

definition deck_ok :: "deck \<Rightarrow> bool" where
  "deck_ok d \<longleftrightarrow> length d = 256 \<and> distinct d"

lemma deck_ok_swap [inv_rules]: "deck_ok d \<Longrightarrow> i < 256 \<Longrightarrow> j < 256 \<Longrightarrow> deck_ok (swap i j d)"
  by (simp add: deck_ok_def)

lemma deck_ok_set: "deck_ok d \<Longrightarrow> set d = UNIV"
proof -
  assume "deck_ok d"
  then have "card (set d) = CARD(byte)" by (simp add: deck_ok_def distinct_card card_word)
  then show ?thesis by (intro card_subset_eq) auto
qed

text \<open>\<open>d[i]\<close> and \<open>d[i] = v\<close> for an index of type \<open>unsigned char\<close>: never out of range on 256 cells.\<close>

definition cell :: "deck \<Rightarrow> byte \<Rightarrow> byte" where
  "cell d i = d ! unat i"

definition put_cell :: "byte \<Rightarrow> byte \<Rightarrow> deck \<Rightarrow> deck" where
  "put_cell i v d = d[unat i := v]"

lemma length_put_cell [simp]: "length (put_cell i v d) = length d"
  by (simp add: put_cell_def)

lemma cell_put_cell: "length d = 256 \<Longrightarrow> cell (put_cell i v d) j = (if i = j then v else cell d j)"
  by (auto simp: cell_def put_cell_def nth_list_update unsigned_word_eqI)

text \<open>
  Moving a hole: after the card in cell \<open>i\<close> was picked up, the card of \<open>j\<close> is laid into \<open>i\<close>, and
  so on, until the picked card is laid into the last hole; with equal cells along the way it is
  still a sequence of exchanges.
\<close>

lemma move_hole:
  assumes "length d = 256"
  shows "put_cell j t (put_cell i (cell d j) d) = swap (unat i) (unat j) (put_cell i t d)"
  using assms
  by (cases "i = j")
    (auto simp: put_cell_def cell_def swap_def nth_list_update list_update_swap)

lemma put_cell_same: "length d = 256 \<Longrightarrow> put_cell i (cell d i) d = d"
  by (simp add: put_cell_def cell_def)

lemma deck_ok_move:
  assumes "deck_ok (put_cell i t d)" and "length d = 256"
  shows "deck_ok (put_cell j t (put_cell i (cell d j) d))"
  using assms by (simp add: move_hole deck_ok_swap)

definition ascending_deck :: deck where
  "ascending_deck = map word_of_nat [0..<256]"

definition descending_deck :: deck where
  "descending_deck = map (\<lambda>i. word_of_nat (255 - i)) [0..<256]"

lemma word_of_nat_byte_inj: "inj_on (word_of_nat :: nat \<Rightarrow> byte) {..<256}"
  by (rule inj_onI) (metis lessThan_iff unat_word_of_nat_byte)

lemma deck_ok_ascending: "deck_ok ascending_deck"
  unfolding deck_ok_def ascending_deck_def
  by (auto simp: distinct_map intro: inj_on_subset [OF word_of_nat_byte_inj])

lemma deck_ok_descending: "deck_ok descending_deck"
proof -
  have "descending_deck = rev ascending_deck"
    by (rule nth_equalityI) (auto simp: descending_deck_def ascending_deck_def rev_nth)
  then show ?thesis using deck_ok_ascending unfolding deck_ok_def by (metis distinct_rev length_rev)
qed

end
