(* ===== verification/SBCrypt.thy ===== *)
theory SBCrypt
  imports Cipher
begin

text \<open>
  The card-shuffling cipher of the server browsing protocol
  (\<open>serverbrowsing/server/sb_crypt.cpp\<close>) and the peerchat stream cipher
  (\<open>peerchat/server/gs_peerchat.cpp\<close>). \<open>unsigned char\<close> indices are bytes, so every access to
  the 256 cards is in range.
\<close>

section \<open>The deck and its indices\<close>

record GOACryptState =
  cards :: deck
  rotor :: byte
  ratchet :: byte
  avalanche :: byte
  last_plain :: byte
  last_cipher :: byte

definition goa_ok :: "GOACryptState \<Rightarrow> bool" where
  "goa_ok st \<longleftrightarrow> deck_ok (cards st)"

definition GOAHashInit :: "GOACryptState \<Rightarrow> GOACryptState" where
  "GOAHashInit st =
     st\<lparr>rotor := 1, ratchet := 3, avalanche := 5, last_plain := 7, last_cipher := 11,
        cards := descending_deck\<rparr>"

text \<open>
  The \<open>do\<close> loop of \<open>keyrand\<close>, which returns \<open>u\<close> with the new \<open>*rsum\<close> and \<open>*keypos\<close>. Once
  \<open>retry_limiter\<close> passes 11, \<open>u %= limit\<close> ends it. \<open>None\<close> reads the key past its block.
\<close>

lemma mod_not_above: "0 < limit \<Longrightarrow> \<not> limit < (u :: nat) mod limit"
  by (simp add: not_less less_imp_le)

function keyrand_loop ::
  "deck \<Rightarrow> nat \<Rightarrow> u32 \<Rightarrow> byte list \<Rightarrow> byte \<Rightarrow> nat \<Rightarrow> byte \<Rightarrow> nat \<Rightarrow> (nat \<times> byte \<times> nat) option" where
  "keyrand_loop cds limit msk user_key keysize retry_limiter rsum keypos =
     (if keypos \<ge> length user_key \<or> limit = 0 then None
      else
        let rsum1 = cell cds rsum + user_key ! keypos;
            keypos1 = keypos + 1;
            (rsum2, keypos2) = (if keypos1 \<ge> unat keysize then (rsum1 + keysize, 0) else (rsum1, keypos1));
            u = unat (msk AND ucast rsum2);
            retry = retry_limiter + 1;
            u' = (if retry > 11 then u mod limit else u)
        in if u' > limit then keyrand_loop cds limit msk user_key keysize retry rsum2 keypos2
           else Some (u', rsum2, keypos2))"
  by pat_completeness auto
termination
proof (relation "measure (\<lambda>(cds, limit, msk, user_key, keysize, retry, rsum, keypos). 12 - retry)",
    goal_cases)
  case (2 cds limit msk user_key keysize retry rsum keypos)
  then show ?case by (cases "11 < Suc retry") (auto simp: mod_not_above)
qed simp

declare keyrand_loop.simps [simp del]

definition keyrand ::
  "deck \<Rightarrow> nat \<Rightarrow> u32 \<Rightarrow> byte list \<Rightarrow> byte \<Rightarrow> byte \<Rightarrow> nat \<Rightarrow> (nat \<times> byte \<times> nat) option" where
  "keyrand cds limit msk user_key keysize rsum keypos =
     (if limit = 0 then Some (0, rsum, keypos)
      else keyrand_loop cds limit msk user_key keysize 0 rsum keypos)"

text \<open>The loop of \<open>GOACryptInit\<close> over \<open>i = 255 .. 1\<close>; the result also holds the last \<open>rsum\<close>.\<close>

fun goa_deal ::
  "nat \<Rightarrow> deck \<Rightarrow> u32 \<Rightarrow> byte list \<Rightarrow> byte \<Rightarrow> byte \<Rightarrow> nat \<Rightarrow> (deck \<times> byte) option" where
  "goa_deal 0 cds msk key keysize rsum keypos = Some (cds, rsum)"
| "goa_deal (Suc n) cds msk key keysize rsum keypos =
     (case keyrand cds (Suc n) msk key keysize rsum keypos of
        None \<Rightarrow> None
      | Some (toswap, rsum', keypos') \<Rightarrow>
          goa_deal n (swap (Suc n) toswap cds)
            (if and (Suc n) n = 0 then drop_bit 1 msk else msk) key keysize rsum' keypos')"

definition GOACryptInit :: "GOACryptState \<Rightarrow> byte list \<Rightarrow> byte \<Rightarrow> GOACryptState option" where
  "GOACryptInit st key keysize =
     (if keysize < 1 then Some (GOAHashInit st)
      else case goa_deal 255 ascending_deck 255 key keysize 0 0 of
             None \<Rightarrow> None
           | Some (cds, rsum) \<Rightarrow>
               Some (st\<lparr>cards := cds, rotor := cell cds 1, ratchet := cell cds 3,
                 avalanche := cell cds 5, last_plain := cell cds 7, last_cipher := cell cds rsum\<rparr>))"

section \<open>One byte\<close>

text \<open>The shuffle both directions start with; the result also holds \<open>swaptemp\<close>.\<close>

definition goa_shuffle :: "GOACryptState \<Rightarrow> GOACryptState \<times> byte" where
  "goa_shuffle st =
     (let ra = ratchet st + cell (cards st) (rotor st);
          ro = rotor st + 1;
          swaptemp = cell (cards st) (last_cipher st);
          d1 = put_cell (last_cipher st) (cell (cards st) ra) (cards st);
          d2 = put_cell ra (cell d1 (last_plain st)) d1;
          d3 = put_cell (last_plain st) (cell d2 ro) d2;
          d4 = put_cell ro swaptemp d3
      in (st\<lparr>ratchet := ra, rotor := ro, cards := d4, avalanche := avalanche st + cell d4 swaptemp\<rparr>,
          swaptemp))"

definition goa_inner :: "GOACryptState \<Rightarrow> byte" where
  "goa_inner st =
     cell (cards st) (cell (cards st)
       (cell (cards st) (last_plain st) + cell (cards st) (last_cipher st) + cell (cards st) (ratchet st)))"

definition GOAEncryptByte :: "GOACryptState \<Rightarrow> byte \<Rightarrow> byte \<times> GOACryptState" where
  "GOAEncryptByte st b =
     (let (s, swaptemp) = goa_shuffle st;
          c = b XOR cell (cards s) (cell (cards s) (avalanche s) + cell (cards s) (rotor s)) XOR goa_inner s
      in (c, s\<lparr>last_cipher := c, last_plain := b\<rparr>))"

definition GOADecryptByte :: "GOACryptState \<Rightarrow> byte \<Rightarrow> byte \<times> GOACryptState" where
  "GOADecryptByte st b =
     (let (s, swaptemp) = goa_shuffle st;
          c = b XOR cell (cards s) (cell (cards s) (avalanche s) + cell (cards s) (rotor s)) XOR goa_inner s
      in (c, s\<lparr>last_plain := c, last_cipher := b\<rparr>))"

section \<open>Blocks\<close>

text \<open>
  The block routines keep the five indices in local variables and store them at the end; the
  model's state is the cards with those locals. \<open>GOAEncrypt\<close> adds \<open>swaptemp\<close> where the byte
  routine reads \<open>cards[rotor]\<close> back.
\<close>

fun GOAEncrypt :: "GOACryptState \<Rightarrow> byte list \<Rightarrow> byte list \<times> GOACryptState" where
  "GOAEncrypt st [] = ([], st)"
| "GOAEncrypt st (b # bp) =
     (let (s, swaptemp) = goa_shuffle st;
          c = b XOR cell (cards s) (cell (cards s) (avalanche s) + swaptemp) XOR goa_inner s;
          (cs, s') = GOAEncrypt (s\<lparr>last_cipher := c, last_plain := b\<rparr>) bp
      in (c # cs, s'))"

fun GOADecrypt :: "GOACryptState \<Rightarrow> byte list \<Rightarrow> byte list \<times> GOACryptState" where
  "GOADecrypt st [] = ([], st)"
| "GOADecrypt st (b # bp) =
     (let (s, swaptemp) = goa_shuffle st;
          p = b XOR cell (cards s) (cell (cards s) (avalanche s) + cell (cards s) (rotor s)) XOR goa_inner s;
          (ps, s') = GOADecrypt (s\<lparr>last_plain := p, last_cipher := b\<rparr>) bp
      in (p # ps, s'))"

fun goa_bytes :: "GOACryptState \<Rightarrow> byte list \<Rightarrow> byte list \<times> GOACryptState" where
  "goa_bytes st [] = ([], st)"
| "goa_bytes st (b # bs) =
     (let (c, s) = GOAEncryptByte st b; (cs, s') = goa_bytes s bs in (c # cs, s'))"

definition GOAHashFinal :: "GOACryptState \<Rightarrow> byte \<Rightarrow> byte list \<times> GOACryptState" where
  "GOAHashFinal st hashlength =
     (let (_, s) = goa_bytes st (map word_of_nat (rev [0..<256]))
      in goa_bytes s (replicate (unat hashlength) 0))"

section \<open>The peerchat cipher\<close>

record gs_peerchat_ctx =
  gs_peerchat_1 :: byte
  gs_peerchat_2 :: byte
  gs_peerchat_crypt :: deck

text \<open>
  \<open>challenge[i] = chall[i] ^ gamekey[p1]\<close>, with \<open>p1\<close> going back to the start at the NUL;
  \<open>gamekey\<close> is the memory from the key on, terminator included.
\<close>

fun chall_mix :: "nat \<Rightarrow> byte list \<Rightarrow> byte list \<Rightarrow> nat \<Rightarrow> byte list option" where
  "chall_mix 0 chall gamekey p1 = Some []"
| "chall_mix (Suc n) [] gamekey p1 = None"
| "chall_mix (Suc n) (c # chall) gamekey p1 =
     (if p1 \<ge> length gamekey then None
      else let q = (if gamekey ! p1 = 0 then 0 else p1) in
        map_option ((#) (c XOR gamekey ! q)) (chall_mix n chall gamekey (q + 1)))"

definition peerchat_deal :: "byte list \<Rightarrow> deck \<times> byte \<Rightarrow> nat \<Rightarrow> deck \<times> byte" where
  "peerchat_deal challenge = (\<lambda>(crypt, t1) i.
     (let t1' = t1 + (challenge ! (i mod 16) + crypt ! i) in (swap (unat t1') i crypt, t1')))"

definition gs_peerchat_init :: "byte list \<Rightarrow> byte list \<Rightarrow> gs_peerchat_ctx option" where
  "gs_peerchat_init chall gamekey =
     map_option
       (\<lambda>challenge. \<lparr>gs_peerchat_1 = 0, gs_peerchat_2 = 0,
          gs_peerchat_crypt = fst (foldl (peerchat_deal challenge) (descending_deck, 0) [0..<256])\<rparr>)
       (chall_mix 16 chall gamekey 0)"

definition peerchat_step :: "gs_peerchat_ctx \<Rightarrow> byte \<times> gs_peerchat_ctx" where
  "peerchat_step ctx =
     (let num1 = gs_peerchat_1 ctx + 1;
          t = cell (gs_peerchat_crypt ctx) num1;
          num2 = gs_peerchat_2 ctx + t;
          crypt = swap (unat num1) (unat num2) (gs_peerchat_crypt ctx)
      in (cell crypt (t + cell crypt num1),
          \<lparr>gs_peerchat_1 = num1, gs_peerchat_2 = num2, gs_peerchat_crypt = crypt\<rparr>))"

fun gs_peerchat :: "gs_peerchat_ctx \<Rightarrow> byte list \<Rightarrow> byte list \<times> gs_peerchat_ctx" where
  "gs_peerchat ctx [] = ([], ctx)"
| "gs_peerchat ctx (b # data) =
     (let (k, ctx1) = peerchat_step ctx; (cs, ctx2) = gs_peerchat ctx1 data in ((b XOR k) # cs, ctx2))"

section \<open>Lemmas\<close>

lemma goa_shuffle_fields [frame_rules]:
  "last_plain (fst (goa_shuffle st)) = last_plain st"
  "last_cipher (fst (goa_shuffle st)) = last_cipher st"
  "rotor (fst (goa_shuffle st)) = rotor st + 1"
  by (simp_all add: goa_shuffle_def Let_def)

text \<open>The four stores of the shuffle are three exchanges of cards.\<close>

lemma goa_shuffle_swaps:
  assumes "length (cards st) = 256"
  shows "cards (fst (goa_shuffle st)) =
    swap (unat (last_plain st)) (unat (rotor st + 1))
      (swap (unat (ratchet st + cell (cards st) (rotor st))) (unat (last_plain st))
        (swap (unat (last_cipher st)) (unat (ratchet st + cell (cards st) (rotor st))) (cards st)))"
proof -
  let ?d = "cards st" and ?t = "cell (cards st) (last_cipher st)"
    and ?ra = "ratchet st + cell (cards st) (rotor st)"
  define d1 where "d1 = put_cell (last_cipher st) (cell ?d ?ra) ?d"
  define d2 where "d2 = put_cell ?ra (cell d1 (last_plain st)) d1"
  have len: "length d1 = 256" "length d2 = 256" using assms by (simp_all add: d1_def d2_def)
  have "put_cell ?ra ?t d1 = swap (unat (last_cipher st)) (unat ?ra) ?d"
    unfolding d1_def by (subst move_hole [OF assms]) (simp add: put_cell_same assms)
  moreover have "put_cell (last_plain st) ?t d2 = swap (unat ?ra) (unat (last_plain st)) (put_cell ?ra ?t d1)"
    unfolding d2_def by (rule move_hole [OF len(1)])
  ultimately show ?thesis
    using move_hole [OF len(2), of "rotor st + 1" ?t "last_plain st"]
    by (simp add: goa_shuffle_def Let_def d1_def d2_def)
qed

lemma goa_shuffle_ok [inv_rules]: "goa_ok st \<Longrightarrow> goa_ok (fst (goa_shuffle st))"
  by (simp add: goa_ok_def goa_shuffle_swaps deck_ok_def)

lemma goa_shuffle_swaptemp:
  "goa_ok st \<Longrightarrow> goa_shuffle st = (s, swaptemp) \<Longrightarrow> cell (cards s) (rotor s) = swaptemp"
  by (auto simp: goa_shuffle_def Let_def goa_ok_def deck_ok_def cell_put_cell)

lemma GOAEncryptByte_ok [inv_rules]: "goa_ok st \<Longrightarrow> goa_ok (snd (GOAEncryptByte st b))"
  using goa_shuffle_ok [of st] by (auto simp: GOAEncryptByte_def goa_ok_def Let_def split: prod.splits)

interpretation goa: byte_cipher "\<lambda>st b. Some (GOAEncryptByte st b)" "\<lambda>st b. Some (GOADecryptByte st b)"
  by unfold_locales
    (auto simp: GOAEncryptByte_def GOADecryptByte_def Let_def xor_cancel_mid split: prod.splits)

text \<open>The block routines are the byte routines, byte after byte.\<close>

lemma GOAEncrypt_bytes:
  "goa_ok st \<Longrightarrow> Some (GOAEncrypt st bp) = crypt_run (\<lambda>st b. Some (GOAEncryptByte st b)) st bp"
proof (induction bp arbitrary: st)
  case (Cons b bp)
  have "GOAEncrypt st (b # bp) =
      (let (c, s) = GOAEncryptByte st b; (cs, s') = GOAEncrypt s bp in (c # cs, s'))"
    using goa_shuffle_swaptemp [OF Cons.prems] by (simp add: GOAEncryptByte_def Let_def split: prod.splits)
  moreover have "goa_ok (snd (GOAEncryptByte st b))" by (rule GOAEncryptByte_ok [OF Cons.prems])
  ultimately show ?case
    using Cons.IH [of "snd (GOAEncryptByte st b)"]
    by (simp add: Let_def split: prod.splits option.splits) (metis (mono_tags) option.inject prod.inject option.simps(3))
qed simp

lemma GOADecrypt_bytes:
  "Some (GOADecrypt st bp) = crypt_run (\<lambda>st b. Some (GOADecryptByte st b)) st bp"
proof (induction bp arbitrary: st)
  case (Cons b bp)
  have "GOADecrypt st (b # bp) =
      (let (c, s) = GOADecryptByte st b; (cs, s') = GOADecrypt s bp in (c # cs, s'))"
    by (simp add: GOADecryptByte_def Let_def split: prod.splits)
  then show ?case
    using Cons.IH [of "snd (GOADecryptByte st b)"]
    by (simp add: Let_def split: prod.splits option.splits) (metis (mono_tags) option.inject prod.inject option.simps(3))
qed simp

lemma goa_bytes_run: "Some (goa_bytes st bs) = crypt_run (\<lambda>st b. Some (GOAEncryptByte st b)) st bs"
proof (induction bs arbitrary: st)
  case (Cons b bs)
  then show ?case
    by (simp add: Let_def split: prod.splits option.splits) (metis option.inject prod.inject option.simps(3))
qed simp

lemma goa_bytes_length: "length (fst (goa_bytes st bs)) = length bs"
  by (induction bs arbitrary: st) (simp_all add: Let_def split: prod.splits, metis fst_conv)

text \<open>\<open>keyrand\<close> ends within 12 turns and stays within the limit and the key.\<close>

lemma keyrand_loop_total:
  assumes "keypos < unat keysize" and "unat keysize \<le> length key" and "0 < limit"
  shows "\<exists>u r k. keyrand_loop cds limit msk key keysize retry rsum keypos = Some (u, r, k) \<and>
    u \<le> limit \<and> k < unat keysize"
  using assms
proof (induction cds limit msk key keysize retry rsum keypos rule: keyrand_loop.induct)
  case (1 cds limit msk key keysize retry rsum keypos)
  have in_key: "\<not> (length key \<le> keypos \<or> limit = 0)" using "1.prems" by simp
  obtain r2 k2 where rk: "(if keypos + 1 \<ge> unat keysize
      then (cell cds rsum + key ! keypos + keysize, 0) else (cell cds rsum + key ! keypos, keypos + 1)) = (r2, k2)"
    and k2: "k2 < unat keysize"
    using "1.prems"(1) by (cases "keypos + 1 \<ge> unat keysize") auto
  let ?u = "unat (msk AND ucast r2)"
  let ?u' = "if retry + 1 > 11 then ?u mod limit else ?u"
  have eq: "keyrand_loop cds limit msk key keysize retry rsum keypos =
      (if ?u' > limit then keyrand_loop cds limit msk key keysize (retry + 1) r2 k2 else Some (?u', r2, k2))"
    by (subst keyrand_loop.simps) (simp only: Let_def rk in_key if_False prod.case)
  show ?case
  proof (cases "?u' > limit")
    case True
    from "1.IH" [OF in_key refl refl _ _ refl refl refl True] rk k2 "1.prems" eq True show ?thesis by simp
  next
    case False
    then show ?thesis unfolding eq using k2 by auto
  qed
qed

lemma keyrand_total:
  assumes "keypos < unat keysize" and "unat keysize \<le> length key"
  obtains u r k where "keyrand cds limit msk key keysize rsum keypos = Some (u, r, k)"
    and "u \<le> limit" and "k < unat keysize"
  using keyrand_loop_total [OF assms, of limit cds msk 0 rsum] assms that
  by (cases "limit = 0") (auto simp: keyrand_def)

lemma goa_deal_total:
  assumes "keypos < unat keysize" and "unat keysize \<le> length key" and "deck_ok cds" and "n < 256"
  shows "\<exists>cds' r. goa_deal n cds msk key keysize rsum keypos = Some (cds', r) \<and> deck_ok cds'"
  using assms
proof (induction n arbitrary: cds msk rsum keypos)
  case (Suc n)
  obtain u r k where k: "keyrand cds (Suc n) msk key keysize rsum keypos = Some (u, r, k)"
    "u \<le> Suc n" "k < unat keysize"
    using keyrand_total [OF Suc.prems(1,2)] .
  have "deck_ok (swap (Suc n) u cds)" using Suc.prems k(2) by (intro deck_ok_swap) auto
  then show ?case using Suc.IH [OF k(3) Suc.prems(2)] k(1) Suc.prems(4) by simp
qed simp

lemma GOAHashInit_ok [inv_rules]: "goa_ok (GOAHashInit st)"
  by (simp add: goa_ok_def GOAHashInit_def deck_ok_descending)

lemma goa_bytes_ok [inv_rules]: "goa_ok st \<Longrightarrow> goa_ok (snd (goa_bytes st bs))"
  using crypt_run_invariant [of "\<lambda>st b. Some (GOAEncryptByte st b)" st bs "fst (goa_bytes st bs)"
      "snd (goa_bytes st bs)" goa_ok]
  by (simp add: goa_bytes_run [symmetric]) (metis GOAEncryptByte_ok snd_conv)

lemma peerchat_step_ok [inv_rules]:
  "deck_ok (gs_peerchat_crypt ctx) \<Longrightarrow> deck_ok (gs_peerchat_crypt (snd (peerchat_step ctx)))"
  by (simp add: peerchat_step_def Let_def deck_ok_swap)

interpretation peerchat: keystream "\<lambda>ctx. Some (peerchat_step ctx)"
  "stream_enc (\<lambda>ctx. Some (peerchat_step ctx))"
  by unfold_locales simp

lemma gs_peerchat_run:
  "Some (gs_peerchat ctx data) = crypt_run (stream_enc (\<lambda>ctx. Some (peerchat_step ctx))) ctx data"
proof (induction data arbitrary: ctx)
  case (Cons b data)
  then show ?case
    by (simp add: stream_enc_def Let_def split: prod.splits option.splits)
      (metis option.inject prod.inject option.simps(3))
qed simp

lemma peerchat_deal_ok:
  "deck_ok crypt \<Longrightarrow> \<forall>i \<in> set is. i < 256 \<Longrightarrow>
    deck_ok (fst (foldl (peerchat_deal challenge) (crypt, t1) is))"
  by (induction "is" arbitrary: crypt t1) (simp_all add: peerchat_deal_def Let_def deck_ok_swap)

lemma gs_peerchat_init_ok:
  "gs_peerchat_init chall gamekey = Some ctx \<Longrightarrow> deck_ok (gs_peerchat_crypt ctx)"
  by (auto simp: gs_peerchat_init_def intro!: peerchat_deal_ok deck_ok_descending)

lemma chall_mix_total:
  assumes "n \<le> length chall" and "key \<noteq> []" and "hd key \<noteq> 0" and "p1 < length (key @ [0])"
  shows "\<exists>c. chall_mix n chall (key @ [0]) p1 = Some c"
  using assms
proof (induction n chall "key @ [0]" p1 rule: chall_mix.induct)
  case (3 n c chall p1)
  let ?q = "if (key @ [0]) ! p1 = 0 then 0 else p1"
  have "?q < length key"
    using "3.prems" by (auto simp: nth_append split: if_splits)
  then show ?case using 3 by (auto simp: Let_def)
qed auto

lemma GOACryptInit_ok:
  assumes "unat keysize \<le> length key"
  shows "\<exists>st'. GOACryptInit st key keysize = Some st' \<and> goa_ok st'"
proof (cases "keysize < 1")
  case True
  then show ?thesis using GOAHashInit_ok [of st] by (auto simp: GOACryptInit_def)
next
  case False
  then have "0 < unat keysize" by (simp add: word_less_nat_alt not_less word_le_nat_alt)
  then obtain cds r where d: "goa_deal 255 ascending_deck 255 key keysize 0 0 = Some (cds, r)" "deck_ok cds"
    using goa_deal_total [OF _ assms deck_ok_ascending, of 0 255 255 0] by auto
  then show ?thesis using False by (simp add: GOACryptInit_def goa_ok_def)
qed

section \<open>Properties\<close>

text \<open>C19. Setting up the server browsing cipher always returns, for every key of at most 255
  bytes, and its cards are a permutation of the 256 byte values; no key byte is read out of
  range and no retry loop runs on.\<close>

theorem GOACryptInit_total:
  assumes "unat keysize \<le> length key"
  shows "\<exists>st'. GOACryptInit st key keysize = Some st' \<and> length (cards st') = 256 \<and> set (cards st') = UNIV"
  using GOACryptInit_ok [OF assms, of st] by (auto simp: goa_ok_def deck_ok_set) (auto simp: deck_ok_def)

theorem GOACryptInit_total_witness:
  "\<exists>st'. GOACryptInit (GOAHashInit undefined) [104, 105] 2 = Some st' \<and>
     length (cards st') = 256 \<and> set (cards st') = UNIV"
  by (rule GOACryptInit_total) simp

text \<open>C18. What the block routine encrypts, the block routine decrypts, from any state whose cards
  are a permutation of the 256 byte values (\<open>goa_ok\<close>), and both sides end in the same state, with the cards still a permutation;
  and the block routine gives what the byte routine gives byte after byte.\<close>

theorem GOA_roundtrip:
  assumes ok: "goa_ok st" and "GOAEncrypt st bp = (bp', st')"
  shows "GOADecrypt st bp' = (bp, st') \<and> goa_bytes st bp = (bp', st') \<and> goa_ok st'"
proof -
  have run: "crypt_run (\<lambda>st b. Some (GOAEncryptByte st b)) st bp = Some (bp', st')"
    using GOAEncrypt_bytes [OF ok, of bp] assms(2) by simp
  from goa.run_dec_enc [OF run] have "Some (GOADecrypt st bp') = Some (bp, st')"
    unfolding GOADecrypt_bytes .
  moreover have "Some (goa_bytes st bp) = Some (bp', st')" unfolding goa_bytes_run by (rule run)
  ultimately show ?thesis using goa_bytes_ok [OF ok, of bp] by auto
qed

theorem GOA_roundtrip_witness:
  "\<exists>st bp' st'. GOACryptInit (GOAHashInit undefined) [104, 105] 2 = Some st \<and>
     GOAEncrypt st [1, 2, 3] = (bp', st') \<and> GOADecrypt st bp' = ([1, 2, 3], st')"
proof -
  have k: "unat (2 :: byte) \<le> length [104, 105 :: byte]" by simp
  obtain st where st: "GOACryptInit (GOAHashInit undefined) [104, 105] 2 = Some st" "goa_ok st"
    using GOACryptInit_ok [OF k] by blast
  obtain bp' st' where e: "GOAEncrypt st [1, 2, 3] = (bp', st')" by fastforce
  from GOA_roundtrip [OF st(2) e] st e show ?thesis by blast
qed

text \<open>The keyed hash of the deck has the length asked for.\<close>

theorem GOAHashFinal_length:
  "length (fst (GOAHashFinal st hashlength)) = unat hashlength"
  by (simp add: GOAHashFinal_def goa_bytes_length split: prod.splits)

text \<open>The peerchat cipher set up from a challenge of 16 bytes and a non-empty game key is its
  own inverse on every block, and blocks may be cut anywhere: the state after two blocks is the
  state after their concatenation. Its array stays a permutation of the byte values.\<close>

theorem gs_peerchat_roundtrip:
  assumes "length chall \<ge> 16" and "key \<noteq> []" and "hd key \<noteq> 0"
  shows "\<exists>ctx. gs_peerchat_init chall (key @ [0]) = Some ctx \<and>
     (\<forall>data data' ctx'. gs_peerchat ctx data = (data', ctx') \<longrightarrow>
        gs_peerchat ctx data' = (data, ctx') \<and> set (gs_peerchat_crypt ctx') = UNIV \<and>
        (\<forall>more. gs_peerchat ctx (data @ more) =
          (data' @ fst (gs_peerchat ctx' more), snd (gs_peerchat ctx' more))))"
proof -
  obtain c where "chall_mix 16 chall (key @ [0]) 0 = Some c"
    using chall_mix_total [of 16 chall key 0] assms by auto
  then obtain ctx where ctx: "gs_peerchat_init chall (key @ [0]) = Some ctx"
    by (auto simp: gs_peerchat_init_def)
  let ?f = "stream_enc (\<lambda>ctx. Some (peerchat_step ctx))"
  have ok: "deck_ok (gs_peerchat_crypt ctx)" by (rule gs_peerchat_init_ok [OF ctx])
  have step: "deck_ok (gs_peerchat_crypt t)" if "deck_ok (gs_peerchat_crypt s)" "?f s b = Some (c, t)" for s b c t
    using that peerchat_step_ok [of s] by (auto simp: stream_enc_def split: prod.splits)
  have "gs_peerchat ctx data' = (data, ctx') \<and> set (gs_peerchat_crypt ctx') = UNIV \<and>
        (\<forall>more. gs_peerchat ctx (data @ more) =
          (data' @ fst (gs_peerchat ctx' more), snd (gs_peerchat ctx' more)))"
    if r: "gs_peerchat ctx data = (data', ctx')" for data data' ctx'
  proof -
    have run: "crypt_run ?f ctx data = Some (data', ctx')" using gs_peerchat_run [of ctx data] r by simp
    have "deck_ok (gs_peerchat_crypt ctx')"
      by (rule crypt_run_invariant [OF run, of "\<lambda>c. deck_ok (gs_peerchat_crypt c)", OF ok]) (rule step)
    moreover have "Some (gs_peerchat ctx data') = Some (data, ctx')"
      unfolding gs_peerchat_run by (rule peerchat.run_dec_enc [OF run])
    moreover have "Some (gs_peerchat ctx (data @ more)) =
        Some (data' @ fst (gs_peerchat ctx' more), snd (gs_peerchat ctx' more))" for more
      unfolding gs_peerchat_run crypt_run_append run
      by (simp add: gs_peerchat_run [symmetric] split: prod.splits)
    ultimately show ?thesis by (simp add: deck_ok_set)
  qed
  with ctx show ?thesis by blast
qed

theorem gs_peerchat_roundtrip_witness:
  "\<exists>ctx. gs_peerchat_init (replicate 16 65) [104, 105, 0] = Some ctx \<and>
     gs_peerchat ctx (fst (gs_peerchat ctx [1, 2, 3])) = ([1, 2, 3], snd (gs_peerchat ctx [1, 2, 3]))"
proof -
  have "length (replicate 16 65 :: byte list) \<ge> 16" "[104, 105 :: byte] \<noteq> []" "hd [104, 105 :: byte] \<noteq> 0"
    by simp_all
  from gs_peerchat_roundtrip [OF this] obtain ctx
    where i: "gs_peerchat_init (replicate 16 65) ([104, 105] @ [0]) = Some ctx"
    and r: "\<And>data data' ctx'. gs_peerchat ctx data = (data', ctx') \<Longrightarrow> gs_peerchat ctx data' = (data, ctx')"
    by blast
  have "gs_peerchat ctx (fst (gs_peerchat ctx [1, 2, 3])) = ([1, 2, 3], snd (gs_peerchat ctx [1, 2, 3]))"
    by (rule r) (rule prod.collapse [symmetric])
  with i show ?thesis unfolding append.simps by blast
qed

end
