(* ===== verification/GameSpy.thy ===== *)
theory GameSpy
  imports Cipher CLib "HOL-Library.Signed_Division"
begin

text \<open>
  \<open>core/OS/gamespy\<close>: the password cipher and the base64 variant of \<open>gamespy.cpp\<close>, its two
  exclusive-or ciphers (and the stateful copy in \<open>gamestats/server/GSPeer.cpp\<close>), and the
  challenge response of \<open>gsmsalg.cpp\<close>. Memory handed over by pointer is the list of bytes that
  may be read from there; \<open>None\<close> is an access outside it.
\<close>

section \<open>The password cipher\<close>

text \<open>Signed sums wrap at 32 bits; the shifted values are masked or not negative.\<close>

definition lame_fold :: "i32 \<Rightarrow> i32" where
  "lame_fold a = (if sint a < 0 then (a AND 0x7fffffff) + 1 else a)"

definition gslame :: "i32 \<Rightarrow> i32" where
  "gslame num =
     (let c = (drop_bit 16 num AND 0xffff) * 0x41a7;
          a = (num AND 0xffff) * 0x41a7;
          a1 = lame_fold (a + push_bit 16 (c AND 0x7fff))
      in lame_fold (a1 + drop_bit 15 c))"

definition gspassenc_step :: "i32 \<Rightarrow> (byte \<times> i32) option" where
  "gspassenc_step num = (let n = gslame num in Some (word_of_int (sint n smod 255), n))"

definition gspassenc :: "byte list \<Rightarrow> byte list option" where
  "gspassenc pass =
     map_option fst (crypt_run (stream_enc gspassenc_step) (0x79707367 AND 0x7fffffff) pass)"

interpretation passenc: keystream gspassenc_step "stream_enc gspassenc_step"
  by unfold_locales simp

section \<open>Base64 with brackets and underscores\<close>

definition bytes_of :: "string \<Rightarrow> byte list" where
  "bytes_of s = map of_char s"

definition b64_base :: "byte list" where
  "b64_base = bytes_of ''ABCDEFGHIJKLMNOPQRSTUVWXYZabcdefghijklmnopqrstuvwxyz0123456789[]''"

definition b64_inv :: "byte list" where
  "b64_inv =
    [0x00,0x00,0x00,0x00,0x00,0x00,0x00,0x00,0x00,0x00,0x00,0x00,0x00,0x00,0x00,0x00,
     0x00,0x00,0x00,0x00,0x00,0x00,0x00,0x00,0x00,0x00,0x00,0x00,0x00,0x00,0x00,0x00,
     0x00,0x00,0x00,0x00,0x00,0x00,0x00,0x00,0x00,0x00,0x00,0x3e,0x00,0x00,0x00,0x3f,
     0x34,0x35,0x36,0x37,0x38,0x39,0x3a,0x3b,0x3c,0x3d,0x00,0x00,0x00,0x00,0x00,0x00,
     0x00,0x00,0x01,0x02,0x03,0x04,0x05,0x06,0x07,0x08,0x09,0x0a,0x0b,0x0c,0x0d,0x0e,
     0x0f,0x10,0x11,0x12,0x13,0x14,0x15,0x16,0x17,0x18,0x19,0x3e,0x00,0x3f,0x00,0x00,
     0x00,0x1a,0x1b,0x1c,0x1d,0x1e,0x1f,0x20,0x21,0x22,0x23,0x24,0x25,0x26,0x27,0x28,
     0x29,0x2a,0x2b,0x2c,0x2d,0x2e,0x2f,0x30,0x31,0x32,0x33,0x00,0x00,0x00,0x00,0x00]"

text \<open>\<open>strlen\<close>: \<open>None\<close> when no terminator is in the block.\<close>

definition strlen :: "byte list \<Rightarrow> nat option" where
  "strlen data = (if 0 \<in> set data then Some (length (takeWhile (\<lambda>c. c \<noteq> 0) data)) else None)"

text \<open>\<open>!size || *size < 0\<close> asks for the length of the text.\<close>

definition size_arg :: "byte list \<Rightarrow> int option \<Rightarrow> nat option" where
  "size_arg data sz = (case sz of Some n \<Rightarrow> (if n < 0 then strlen data else Some (nat n)) | None \<Rightarrow> strlen data)"

definition b64_digit :: "byte \<Rightarrow> byte" where
  "b64_digit x = b64_base ! unat (x AND 63)"

definition b64_quad :: "byte \<Rightarrow> byte \<Rightarrow> byte \<Rightarrow> byte list" where
  "b64_quad a b c =
     [b64_digit (drop_bit 2 a),
      b64_digit (push_bit 4 (a AND 3) OR (drop_bit 4 b AND 15)),
      b64_digit (push_bit 2 (b AND 15) OR (drop_bit 6 c AND 3)),
      b64_digit c]"

text \<open>The \<open>do\<close> loop: always one group, then while more than nothing is left; also the final \<open>len\<close>.\<close>

fun b64_quads :: "byte list \<Rightarrow> int \<Rightarrow> (byte list \<times> int) option" where
  "b64_quads (a # b # c # data) len =
     (if len - 3 > 0 then map_option (\<lambda>(out, l). (b64_quad a b c @ out, l)) (b64_quads data (len - 3))
      else Some (b64_quad a b c, len - 3))"
| "b64_quads _ len = None"

text \<open>
  The text without its terminator; \<open>None\<close> also when the text and terminator do not fit in the
  \<open>((len / 3) << 2) + 6\<close> bytes allocated.
\<close>

definition base64_encode :: "byte list \<Rightarrow> int option \<Rightarrow> byte list option" where
  "base64_encode data sz =
     (case size_arg data sz of
        None \<Rightarrow> None
      | Some len \<Rightarrow>
          (case b64_quads data (int len) of
             None \<Rightarrow> None
           | Some (out, l) \<Rightarrow>
               if length out + 1 > len div 3 * 4 + 6 then None
               else Some (take (length out - nat (- l)) out @ replicate (nat (- l)) 0x5F)))"

text \<open>The next character of the text, skipping blanks and non-ASCII; 0 ends the decoding.\<close>

fun b64_next :: "byte list \<Rightarrow> byte \<times> byte list" where
  "b64_next [] = (0, [])"
| "b64_next (c # data) =
     (if c = 0x3D \<or> c = 0x5F then (0, data)
      else if c \<noteq> 0 \<and> (c \<le> 0x20 \<or> c > 0x7f) then b64_next data
      else (c, data))"

lemma b64_next_shorter: "b64_next data = (c, r) \<Longrightarrow> c \<noteq> 0 \<Longrightarrow> length r < length data"
  by (induction data rule: b64_next.induct) (auto split: if_splits)

text \<open>The decoding loop, with \<open>step & 3\<close>, \<open>a\<close> and \<open>b\<close>; returns what it stores through \<open>p\<close>.\<close>

function b64_loop :: "nat \<Rightarrow> byte \<Rightarrow> byte \<Rightarrow> byte list \<Rightarrow> byte list" where
  "b64_loop step a b data =
     (case b64_next data of (c, r) \<Rightarrow>
        if c = 0 then []
        else let v = b64_inv ! unat c in
          if step mod 4 = 0 then b64_loop (step + 1) v b r
          else if step mod 4 = 1 then (push_bit 2 a OR drop_bit 4 v) # b64_loop (step + 1) a v r
          else if step mod 4 = 2 then (push_bit 4 (b AND 15) OR drop_bit 2 v) # b64_loop (step + 1) v b r
          else (push_bit 6 (a AND 3) OR v) # b64_loop (step + 1) a b r)"
  by pat_completeness auto
termination
  by (relation "measure (\<lambda>(step, a, b, data). length data)") (auto dest: b64_next_shorter [OF sym])

declare b64_loop.simps [simp del]

text \<open>
  \<open>None\<close> when the bytes and the terminator do not fit in the \<open>((len >> 2) * 3) + 1\<close> allocated.
\<close>

definition base64_decode :: "byte list \<Rightarrow> int option \<Rightarrow> byte list option" where
  "base64_decode data sz =
     (case size_arg data sz of
        None \<Rightarrow> None
      | Some len \<Rightarrow>
          if len > length data then None
          else let out = b64_loop 0 0 0 (take len data) in
            if length out \<ge> len div 4 * 3 + 1 then None else Some out)"

section \<open>Exclusive or with a fixed word\<close>

definition gamespy_word :: "byte list" where "gamespy_word = bytes_of ''gamespy''"

definition gamespyxor_step :: "byte list \<Rightarrow> (byte \<times> byte list) option" where
  "gamespyxor_step gs = (let g = (if gs = [] then gamespy_word else gs) in Some (hd g, tl g))"

definition gamespyxor :: "byte list \<Rightarrow> byte list option" where
  "gamespyxor data = map_option fst (crypt_run (stream_enc gamespyxor_step) gamespy_word data)"

interpretation gsxor: keystream gamespyxor_step "stream_enc gamespyxor_step"
  by unfold_locales simp

definition final_bytes :: "byte list" where "final_bytes = bytes_of (CHR 0x5C # ''final'' @ [CHR 0x5C])"

definition spy3d_word :: "byte list" where "spy3d_word = bytes_of ''GameSpy3D''"

text \<open>\<open>strncmp(data, pat, length pat) == 0\<close>, reading up to the first difference or NUL.\<close>

fun strncmp_eq :: "byte list \<Rightarrow> byte list \<Rightarrow> bool option" where
  "strncmp_eq data [] = Some True"
| "strncmp_eq [] (p # ps) = None"
| "strncmp_eq (d # data) (p # ps) = (if d \<noteq> p then Some False else strncmp_eq data ps)"

text \<open>
  The loop of \<open>gamespy3dxor\<close>: the memory from \<open>data\<close> on, \<open>len\<close>, and the rest of the word from
  \<open>gs\<close> on; \<open>extra\<close> is what is taken from \<open>len\<close> besides the loop's own decrement when a marker is
  skipped: 7 in \<open>gamespy.cpp\<close>, 6 in \<open>GSPeer.cpp\<close>.
\<close>

function xor3d_loop :: "nat \<Rightarrow> byte list \<Rightarrow> int \<Rightarrow> byte list \<Rightarrow> (byte list \<times> byte list) option" where
  "xor3d_loop extra mem len gs =
     (if len \<le> 0 then Some (mem, gs)
      else case strncmp_eq mem final_bytes of
             None \<Rightarrow> None
           | Some True \<Rightarrow>
               map_option (\<lambda>(r, g). (take 7 mem @ r, g))
                 (xor3d_loop extra (drop 7 mem) (len - 1 - int extra) spy3d_word)
           | Some False \<Rightarrow>
               map_option (\<lambda>(r, g). ((hd mem XOR (case gs of [] \<Rightarrow> 0 | k # _ \<Rightarrow> k)) # r, g))
                 (xor3d_loop extra (tl mem) (len - 1) (if tl gs = [] then spy3d_word else tl gs)))"
  by pat_completeness auto
termination
  by (relation "measure (\<lambda>(extra, mem, len, gs). nat len)") auto

declare xor3d_loop.simps [simp del]

definition gamespy3dxor :: "byte list \<Rightarrow> int \<Rightarrow> byte list option" where
  "gamespy3dxor mem len = map_option fst (xor3d_loop 7 mem len spy3d_word)"

text \<open>\<open>Peer::gamespy3dxor\<close> keeps its place in the word in \<open>m_xor_index\<close>.\<close>

definition GSPeer_gamespy3dxor :: "nat \<Rightarrow> byte list \<Rightarrow> int \<Rightarrow> (byte list \<times> nat) option" where
  "GSPeer_gamespy3dxor m_xor_index mem len =
     map_option (\<lambda>(r, gs). (r, length spy3d_word - length gs))
       (xor3d_loop 6 mem len (drop m_xor_index spy3d_word))"

section \<open>The challenge response\<close>

definition gsvalfunc :: "byte \<Rightarrow> byte" where
  "gsvalfunc reg =
     (if reg < 26 then reg + 0x41 else if reg < 52 then reg + 0x47 else if reg < 62 then reg - 4
      else if reg = 62 then 0x2B else if reg = 63 then 0x2F else 0)"

definition enctype1_data :: "byte list" where
  "enctype1_data =
    [0x01,0xba,0xfa,0xb2,0x51,0x00,0x54,0x80,0x75,0x16,0x8e,0x8e,0x02,0x08,0x36,0xa5,
     0x2d,0x05,0x0d,0x16,0x52,0x07,0xb4,0x22,0x8c,0xe9,0x09,0xd6,0xb9,0x26,0x00,0x04,
     0x06,0x05,0x00,0x13,0x18,0xc4,0x1e,0x5b,0x1d,0x76,0x74,0xfc,0x50,0x51,0x06,0x16,
     0x00,0x51,0x28,0x00,0x04,0x0a,0x29,0x78,0x51,0x00,0x01,0x11,0x52,0x16,0x06,0x4a,
     0x20,0x84,0x01,0xa2,0x1e,0x16,0x47,0x16,0x32,0x51,0x9a,0xc4,0x03,0x2a,0x73,0xe1,
     0x2d,0x4f,0x18,0x4b,0x93,0x4c,0x0f,0x39,0x0a,0x00,0x04,0xc0,0x12,0x0c,0x9a,0x5e,
     0x02,0xb3,0x18,0xb8,0x07,0x0c,0xcd,0x21,0x05,0xc0,0xa9,0x41,0x43,0x04,0x3c,0x52,
     0x75,0xec,0x98,0x80,0x1d,0x08,0x02,0x1d,0x58,0x84,0x01,0x4e,0x3b,0x6a,0x53,0x7a,
     0x55,0x56,0x57,0x1e,0x7f,0xec,0xb8,0xad,0x00,0x70,0x1f,0x82,0xd8,0xfc,0x97,0x8b,
     0xf0,0x83,0xfe,0x0e,0x76,0x03,0xbe,0x39,0x29,0x77,0x30,0xe0,0x2b,0xff,0xb7,0x9e,
     0x01,0x04,0xf8,0x01,0x0e,0xe8,0x53,0xff,0x94,0x0c,0xb2,0x45,0x9e,0x0a,0xc7,0x06,
     0x18,0x01,0x64,0xb0,0x03,0x98,0x01,0xeb,0x02,0xb0,0x01,0xb4,0x12,0x49,0x07,0x1f,
     0x5f,0x5e,0x5d,0xa0,0x4f,0x5b,0xa0,0x5a,0x59,0x58,0xcf,0x52,0x54,0xd0,0xb8,0x34,
     0x02,0xfc,0x0e,0x42,0x29,0xb8,0xda,0x00,0xba,0xb1,0xf0,0x12,0xfd,0x23,0xae,0xb6,
     0x45,0xa9,0xbb,0x06,0xb8,0x88,0x14,0x24,0xa9,0x00,0x14,0xcb,0x24,0x12,0xae,0xcc,
     0x57,0x56,0xee,0xfd,0x08,0x30,0xd9,0xfd,0x8b,0x3e,0x0a,0x84,0x46,0xfa,0x77,0xb8]"

definition sk_deal :: "byte list \<Rightarrow> deck \<times> byte \<Rightarrow> nat \<Rightarrow> deck \<times> byte" where
  "sk_deal key = (\<lambda>(enctmp, a) i.
     (let a' = a + (enctmp ! i + key ! (i mod length key)) in (swap (unat a') i enctmp, a')))"

text \<open>One character of the challenge: \<open>a\<close> moves by the character itself.\<close>

definition sk_step :: "(deck \<times> byte \<times> byte) bytestep" where
  "sk_step = (\<lambda>(enctmp, a, b) c.
     (let a' = a + (c + 1);
          x = cell enctmp a';
          b' = b + x;
          y = cell enctmp b';
          enctmp' = put_cell a' y (put_cell b' x enctmp)
      in Some (c XOR cell enctmp' (x + y), (enctmp', a', b'))))"

definition pad3 :: "byte list \<Rightarrow> byte list" where
  "pad3 tmp = tmp @ replicate ((3 - length tmp mod 3) mod 3) 0"

definition sk_quad :: "byte \<Rightarrow> byte \<Rightarrow> byte \<Rightarrow> byte list" where
  "sk_quad x y z =
     [gsvalfunc (drop_bit 2 x),
      gsvalfunc (push_bit 4 (x AND 3) OR drop_bit 4 y),
      gsvalfunc (push_bit 2 (y AND 15) OR drop_bit 6 z),
      gsvalfunc (z AND 63)]"

fun sk_quads :: "byte list \<Rightarrow> byte list" where
  "sk_quads (x # y # z # tmp) = sk_quad x y z @ sk_quads tmp"
| "sk_quads _ = []"

text \<open>
  \<open>src\<close> and \<open>key\<close> are the texts without their terminators; \<open>None\<close> is the remainder by zero of an
  empty key.
\<close>

definition gsseckey :: "byte list \<Rightarrow> byte list \<Rightarrow> int \<Rightarrow> byte list option" where
  "gsseckey src key enctype =
     (if length src < 1 \<or> length src > 65 then Some []
      else if key = [] then None
      else
        let enctmp = fst (foldl (sk_deal key) (ascending_deck, 0) [0..<256])
        in map_option
            (\<lambda>(t, _).
               let tmp = pad3 t;
                   tmp' = (if enctype = 1 then map (\<lambda>c. enctype1_data ! unat c) tmp
                           else if enctype = 2 then map (\<lambda>i. tmp ! i XOR key ! (i mod length key)) [0..<length tmp]
                           else tmp)
               in sk_quads tmp')
            (crypt_run sk_step (enctmp, 0, 0) src))"

section \<open>The generator is Lehmer's\<close>

lemma sint_neg_iff: "sint (a :: i32) < 0 \<longleftrightarrow> 2 ^ 31 \<le> unat a"
proof -
  have "sint a < 0 \<longleftrightarrow> bit a 31" using bit_last_iff [of a] by simp
  also have "\<dots> \<longleftrightarrow> odd (unat a div 2 ^ 31)"
  proof -
    have "bit (unat a) 31 = bit a 31" by (simp add: bit_unsigned_iff)
    then show ?thesis by (simp add: bit_iff_odd [of "unat a"])
  qed
  also have "\<dots> \<longleftrightarrow> 2 ^ 31 \<le> unat a"
  proof -
    have "unat a div 2 ^ 31 = 0 \<or> unat a div 2 ^ 31 = 1" using unat_less [of a] by simp linarith
    then show ?thesis by (auto simp: div_eq_0_iff)
  qed
  finally show ?thesis .
qed

lemma unat_lame_fold:
  "unat (lame_fold a) = (if unat a < 2 ^ 31 then unat a else unat a - 2 ^ 31 + 1)"
proof (cases "unat a < 2 ^ 31")
  case False
  have "a AND 0x7fffffff = take_bit 31 a" by (simp add: take_bit_eq_mask mask_eq_exp_minus_1)
  then have "unat (a AND 0x7fffffff) = unat a mod 2 ^ 31"
    by (simp only: unat_take_bit)
  also have "\<dots> = unat a - 2 ^ 31"
    using False unat_less [of a] by (subst le_mod_geq) simp_all
  finally have "unat (a AND 0x7fffffff) = unat a - 2 ^ 31" .
  then show ?thesis using False unat_less [of a]
    by (simp add: lame_fold_def sint_neg_iff unat_word_ariths)
qed (simp add: lame_fold_def sint_neg_iff)

lemma unat_gslame_halves:
  assumes "unat num < 2 ^ 31"
  shows "unat (drop_bit 16 num AND 0xffff :: i32) = unat num div 65536"
    and "unat (num AND 0xffff :: i32) = unat num mod 65536"
proof -
  have m: "w AND 0xffff = take_bit 16 w" for w :: i32 by (simp add: take_bit_eq_mask mask_eq_exp_minus_1)
  show "unat (num AND 0xffff :: i32) = unat num mod 65536"
    by (simp add: m unat_take_bit)
  have "unat num div 65536 < 65536" using assms by simp
  then show "unat (drop_bit 16 num AND 0xffff :: i32) = unat num div 65536"
    by (simp only: m unat_take_bit unat_drop_bit) simp
qed

lemma gslame_mod:
  assumes "unat num < 2 ^ 31"
  shows "unat (gslame num) mod (2 ^ 31 - 1) = 16807 * unat num mod (2 ^ 31 - 1) \<and> unat (gslame num) < 2 ^ 31"
proof -
  define n where "n = unat num"
  define hi lo where "hi = n div 65536" and "lo = n mod 65536"
  define c where "c = (drop_bit 16 num AND 0xffff) * (0x41a7 :: i32)"
  define a where "a = (num AND 0xffff) * (0x41a7 :: i32)"
  have bounds: "hi < 32768" "lo < 65536" "n = 65536 * hi + lo"
    using assms by (auto simp: hi_def lo_def n_def)
  have uc: "unat c = 16807 * hi"
    using unat_gslame_halves(1) [OF assms] bounds by (simp add: c_def unat_word_ariths hi_def n_def)
  have ua: "unat a = 16807 * lo"
    using unat_gslame_halves(2) [OF assms] bounds by (simp add: a_def unat_word_ariths lo_def n_def)
  have "c AND 0x7fff = take_bit 15 c" by (simp add: take_bit_eq_mask mask_eq_exp_minus_1)
  then have uc15: "unat (c AND 0x7fff) = 16807 * hi mod 32768"
    by (simp add: unat_take_bit uc)
  have "16807 * hi mod 32768 * 65536 < 2 ^ 32"
  proof -
    have "16807 * hi mod 32768 < 32768" by simp
    then show ?thesis by simp
  qed
  then have up: "unat (push_bit 16 (c AND 0x7fff)) = 16807 * hi mod 32768 * 65536"
    by (simp add: push_bit_eq_mult unat_word_ariths uc15)
  define cm cd where "cm = 16807 * hi mod 32768" and "cd = 16807 * hi div 32768"
  have cmcd: "cm < 32768" "cd < 16807" "16807 * hi = 32768 * cd + cm"
    using bounds by (auto simp: cm_def cd_def)
  let ?A = "16807 * lo + cm * 65536"
  have uA: "unat (a + push_bit 16 (c AND 0x7fff)) = ?A"
  proof -
    have "unat a + unat (push_bit 16 (c AND 0x7fff)) = ?A" unfolding ua up cm_def ..
    moreover have "?A < 2 ^ 32" using bounds(2) cmcd(1) by simp
    ultimately show ?thesis using unat_add_lem [of a "push_bit 16 (c AND 0x7fff)"] by simp
  qed
  have ud: "unat (drop_bit 15 c) = cd" by (simp only: unat_drop_bit uc cd_def) simp
  define A1 where "A1 = (if ?A < 2 ^ 31 then ?A else ?A - 2 ^ 31 + 1)"
  have A1: "unat (lame_fold (a + push_bit 16 (c AND 0x7fff))) = A1"
    unfolding unat_lame_fold uA A1_def ..
  have A1b: "A1 < 2 ^ 31" using bounds cmcd by (simp add: A1_def) linarith
  have uB: "unat (lame_fold (a + push_bit 16 (c AND 0x7fff)) + drop_bit 15 c) = A1 + cd"
  proof -
    have "A1 + cd < 2 ^ 32" using A1b cmcd by simp
    then show ?thesis
      using unat_add_lem [of "lame_fold (a + push_bit 16 (c AND 0x7fff))" "drop_bit 15 c"]
      unfolding A1 ud by simp
  qed
  have R: "unat (gslame num) = (if A1 + cd < 2 ^ 31 then A1 + cd else A1 + cd - 2 ^ 31 + 1)"
    unfolding gslame_def Let_def c_def [symmetric] a_def [symmetric] unat_lame_fold uB ..
  have step: "(if x < 2 ^ 31 then x else x - 2 ^ 31 + 1) mod (2 ^ 31 - 1) = x mod (2 ^ 31 - 1)" for x :: nat
  proof (cases "x < 2 ^ 31")
    case False
    then have "x - 2 ^ 31 + 1 = x - (2 ^ 31 - 1)" by simp
    then show ?thesis using False le_mod_geq [of "2 ^ 31 - 1" x] by simp
  qed simp
  have "unat (gslame num) mod (2 ^ 31 - 1) = (A1 + cd) mod (2 ^ 31 - 1)" unfolding R by (rule step)
  also have "\<dots> = (?A + cd) mod (2 ^ 31 - 1)"
    using step [of ?A] unfolding A1_def [symmetric] by (rule mod_add_cong) simp
  also have "\<dots> = (?A + cd + cd * (2 ^ 31 - 1)) mod (2 ^ 31 - 1)" by (rule mod_mult_self1 [symmetric])
  also have "?A + cd + cd * (2 ^ 31 - 1) = 16807 * n" using bounds cmcd by simp
  finally show ?thesis using R A1b cmcd by (auto simp: n_def)
qed


lemma gslame_lehmer:
  assumes "0 < unat num" and "unat num < 2 ^ 31 - 1"
  shows "unat (gslame num) = 16807 * unat num mod (2 ^ 31 - 1) \<and> 0 < unat (gslame num)"
proof -
  let ?p = "2 ^ 31 - 1 :: nat"
  have r: "unat (gslame num) mod ?p = 16807 * unat num mod ?p" "unat (gslame num) < 2 ^ 31"
    using gslame_mod [of num] assms by auto
  have "16807 * unat num mod ?p \<noteq> 0"
  proof
    assume "16807 * unat num mod ?p = 0"
    then obtain k where "16807 * unat num = ?p * k" by (auto simp only: mod_eq_0_iff_dvd dvd_def)
    then have "1407677000 * (?p * k) = ?p * (11017 * unat num) + unat num" by simp
    then have "?p * (1407677000 * k) = ?p * (11017 * unat num) + unat num" by simp
    then have "?p dvd ?p * (11017 * unat num) + unat num" by (metis dvd_triv_left)
    then have "?p dvd unat num" by (metis dvd_add_right_iff dvd_triv_left)
    then show False using assms by (auto dest: dvd_imp_le)
  qed
  then have "unat (gslame num) \<noteq> ?p" "unat (gslame num) \<noteq> 0" using r(1) by (metis mod_self, metis mod_0)
  then have "unat (gslame num) < ?p" "0 < unat (gslame num)" using r(2) by simp_all
  then show ?thesis using r by simp
qed

section \<open>Base64\<close>

lemma b64_table:
  "list_all (\<lambda>n. let d = b64_base ! n in
     b64_inv ! unat d = word_of_nat n \<and> d \<noteq> 0 \<and> d \<noteq> 0x3D \<and> d \<noteq> 0x5F \<and> 0x20 < d \<and> d \<le> 0x7f) [0..<64]"
  by code_simp

lemma b64_digit_facts:
  "b64_inv ! unat (b64_digit x) = x AND 63" "b64_digit x \<noteq> 0" "b64_digit x \<noteq> 0x3D"
  "b64_digit x \<noteq> 0x5F" "0x20 < b64_digit x" "b64_digit x \<le> 0x7f"
proof -
  have "x AND 63 = take_bit 6 x" by (simp add: take_bit_eq_mask mask_eq_exp_minus_1)
  then have "unat (x AND 63) < 64" by (simp only: unat_take_bit) simp
  then have "let d = b64_digit x in b64_inv ! unat d = x AND 63 \<and> d \<noteq> 0 \<and> d \<noteq> 0x3D \<and> d \<noteq> 0x5F \<and>
      0x20 < d \<and> d \<le> 0x7f"
    using b64_table by (simp add: list_all_iff b64_digit_def Let_def)
  then show "b64_inv ! unat (b64_digit x) = x AND 63" "b64_digit x \<noteq> 0" "b64_digit x \<noteq> 0x3D"
    "b64_digit x \<noteq> 0x5F" "0x20 < b64_digit x" "b64_digit x \<le> 0x7f" by (simp_all add: Let_def)
qed

lemma b64_next_digit: "b64_next (b64_digit x # r) = (b64_digit x, r)"
  using b64_digit_facts [of x] by auto

lemma b64_next_stop: "b64_next (0x5F # r) = (0, r)"
  by simp

lemma b64_loop_digit:
  "b64_loop s a b (b64_digit x # r) =
     (let v = x AND 63 in
      if s mod 4 = 0 then b64_loop (s + 1) v b r
      else if s mod 4 = 1 then (push_bit 2 a OR drop_bit 4 v) # b64_loop (s + 1) a v r
      else if s mod 4 = 2 then (push_bit 4 (b AND 15) OR drop_bit 2 v) # b64_loop (s + 1) v b r
      else (push_bit 6 (a AND 3) OR v) # b64_loop (s + 1) a b r)"
  by (subst b64_loop.simps) (simp only: b64_next_digit prod.case b64_digit_facts if_False)

lemma b64_loop_stop: "b64_loop s a b (0x5F # r) = []" "b64_loop s a b [] = []"
  by (subst b64_loop.simps, simp)+

lemma byte_bit_cases: "n < LENGTH(8) \<Longrightarrow> n = 0 \<or> n = 1 \<or> n = 2 \<or> n = 3 \<or> n = 4 \<or> n = 5 \<or> n = 6 \<or> n = 7"
  by simp linarith

lemma b64_bits:
  fixes x y z :: byte
  shows "push_bit 2 (drop_bit 2 x AND 63) OR drop_bit 4 ((push_bit 4 (x AND 3) OR (drop_bit 4 y AND 15)) AND 63) = x"
    and "push_bit 4 (((push_bit 4 (x AND 3) OR (drop_bit 4 y AND 15)) AND 63) AND 15) OR
           drop_bit 2 ((push_bit 2 (y AND 15) OR (drop_bit 6 z AND 3)) AND 63) = y"
    and "push_bit 6 (((push_bit 2 (y AND 15) OR (drop_bit 6 z AND 3)) AND 63) AND 3) OR (z AND 63) = z"
proof -
  have m: "(63 :: byte) = mask 6" "(3 :: byte) = mask 2" "(15 :: byte) = mask 4"
    by (simp_all add: mask_eq_exp_minus_1)
  show "push_bit 2 (drop_bit 2 x AND 63) OR drop_bit 4 ((push_bit 4 (x AND 3) OR (drop_bit 4 y AND 15)) AND 63) = x"
    unfolding m by (rule bit_word_eqI, drule byte_bit_cases, elim disjE) (simp_all add: bit_simps)
  show "push_bit 4 (((push_bit 4 (x AND 3) OR (drop_bit 4 y AND 15)) AND 63) AND 15) OR
           drop_bit 2 ((push_bit 2 (y AND 15) OR (drop_bit 6 z AND 3)) AND 63) = y"
    unfolding m by (rule bit_word_eqI, drule byte_bit_cases, elim disjE) (simp_all add: bit_simps)
  show "push_bit 6 (((push_bit 2 (y AND 15) OR (drop_bit 6 z AND 3)) AND 63) AND 3) OR (z AND 63) = z"
    unfolding m by (rule bit_word_eqI, drule byte_bit_cases, elim disjE) (simp_all add: bit_simps)
qed

lemma b64_loop_digits:
  "s mod 4 = 0 \<Longrightarrow> b64_loop s a b (b64_digit x # r) = b64_loop (s + 1) (x AND 63) b r"
  "s mod 4 = 1 \<Longrightarrow> b64_loop s a b (b64_digit x # r) =
     (push_bit 2 a OR drop_bit 4 (x AND 63)) # b64_loop (s + 1) a (x AND 63) r"
  "s mod 4 = 2 \<Longrightarrow> b64_loop s a b (b64_digit x # r) =
     (push_bit 4 (b AND 15) OR drop_bit 2 (x AND 63)) # b64_loop (s + 1) (x AND 63) b r"
  "s mod 4 = 3 \<Longrightarrow> b64_loop s a b (b64_digit x # r) =
     (push_bit 6 (a AND 3) OR (x AND 63)) # b64_loop (s + 1) a b r"
  by (simp_all add: b64_loop_digit Let_def)

lemma step_mods:
  "(s :: nat) mod 4 = 0 \<Longrightarrow> (s + 1) mod 4 = 1" "(s :: nat) mod 4 = 0 \<Longrightarrow> (s + 1 + 1) mod 4 = 2"
  "(s :: nat) mod 4 = 0 \<Longrightarrow> (s + 1 + 1 + 1) mod 4 = 3"
  by presburger+

lemma b64_loop_quad:
  assumes "s mod 4 = 0"
  shows "\<exists>a' b'. b64_loop s a b (b64_quad x y z @ r) = x # y # z # b64_loop (s + 4) a' b' r"
proof -
  have "s + 1 + 1 + 1 + 1 = s + 4" by simp
  then show ?thesis
    unfolding b64_quad_def append.simps
      b64_loop_digits(1) [OF assms] b64_loop_digits(2) [OF step_mods(1) [OF assms]]
      b64_loop_digits(3) [OF step_mods(2) [OF assms]] b64_loop_digits(4) [OF step_mods(3) [OF assms]] b64_bits
    by metis
qed

lemma b64_loop_partial:
  assumes "s mod 4 = 0" and "k \<in> {1, 2, 3}"
  shows "b64_loop s a b (take (4 - k) (b64_quad x y z) @ replicate k 0x5F) = take (3 - k) [x, y, z]"
proof -
  have t: "take 3 [p, q, r, t] = [p, q, r]" "take 2 [p, q, r, t] = [p, q]" "take 1 [p, q, r, t] = [p]"
    "take 2 [x, y, z] = [x, y]" "take 1 [x, y, z] = [x]" for p q r t :: byte by (simp_all add: eval_nat_numeral)
  note step = b64_loop_digits(1) [OF assms(1)] b64_loop_digits(2) [OF step_mods(1) [OF assms(1)]]
      b64_loop_digits(3) [OF step_mods(2) [OF assms(1)]] b64_loop_stop b64_bits
  consider "k = 1" | "k = 2" | "k = 3" using assms(2) by blast
  then show ?thesis
  proof cases
    case 1
    have "4 - k = 3" "3 - k = 2" "replicate k (0x5F :: byte) = [0x5F]" using 1 by simp_all
    then show ?thesis by (simp only: b64_quad_def t append.simps step)
  next
    case 2
    have "4 - k = 2" "3 - k = 1" "replicate k (0x5F :: byte) = [0x5F, 0x5F]" using 2 by (simp_all add: eval_nat_numeral)
    then show ?thesis by (simp only: b64_quad_def t append.simps step)
  next
    case 3
    have "4 - k = 1" "3 - k = 0" "replicate k (0x5F :: byte) = [0x5F, 0x5F, 0x5F]" using 3 by (simp_all add: eval_nat_numeral)
    then show ?thesis by (simp only: b64_quad_def t append.simps step take_0)
  qed
qed

lemma b64_quad_length: "length (b64_quad x y z) = 4"
  by (simp add: b64_quad_def)

lemma b64_quads_shape:
  assumes "b64_quads data len = Some (out, l)" and "0 \<le> len"
  shows "- 3 \<le> l \<and> l \<le> 0 \<and> 4 \<le> length out \<and> 3 * int (length out) = 4 * (len - l) \<and> nat len \<le> length data"
  using assms
proof (induction data len arbitrary: out l rule: b64_quads.induct)
  case (1 a b c data len)
  show ?case
  proof (cases "len - 3 > 0")
    case True
    then obtain o' l' where o': "b64_quads data (len - 3) = Some (o', l')" "out = b64_quad a b c @ o'" "l = l'"
      using 1(2) by auto
    from "1.IH" [OF True o'(1)] True have ih: "- 3 \<le> l'" "l' \<le> 0" "4 \<le> length o'"
      "3 * int (length o') = 4 * (len - 3 - l')" "nat (len - 3) \<le> length data" by auto
    have "length out = 4 + length o'" using o'(2) by (simp add: b64_quad_def)
    then show ?thesis using ih o'(3) True by auto
  next
    case False
    then show ?thesis using 1(2,3) by (auto simp: b64_quad_def)
  qed
qed auto

lemma b64_decode_quads:
  assumes "b64_quads data len = Some (out, l)" and "0 \<le> len" and "s mod 4 = 0"
  shows "b64_loop s a b (take (length out - nat (- l)) out @ replicate (nat (- l)) 0x5F) = take (nat len) data"
  using assms
proof (induction data len arbitrary: out l s a b rule: b64_quads.induct)
  case (1 x y z data len)
  show ?case
  proof (cases "len - 3 > 0")
    case True
    then obtain o' l' where o': "b64_quads data (len - 3) = Some (o', l')" "out = b64_quad x y z @ o'" "l = l'"
      using 1(2) by auto
    have sh: "nat (- l) \<le> length o'" using b64_quads_shape [OF o'(1)] True o'(3) by auto
    have "take (length out - nat (- l)) out = b64_quad x y z @ take (length o' - nat (- l)) o'"
      using sh unfolding o'(2) by (simp add: b64_quad_length)
    moreover obtain a' b' where "b64_loop s a b (b64_quad x y z @ take (length o' - nat (- l)) o' @ replicate (nat (- l)) 0x5F)
        = x # y # z # b64_loop (s + 4) a' b' (take (length o' - nat (- l)) o' @ replicate (nat (- l)) 0x5F)"
      using b64_loop_quad [OF 1(4)] by blast
    moreover have "b64_loop (s + 4) a' b' (take (length o' - nat (- l)) o' @ replicate (nat (- l)) 0x5F) = take (nat (len - 3)) data"
      using "1.IH" [OF True o'(1)] True 1(4) o'(3) by simp
    moreover have "nat len = Suc (Suc (Suc (nat (len - 3))))" using True by simp
    ultimately show ?thesis by simp
  next
    case False
    then have o: "out = b64_quad x y z" "l = len - 3" using 1(2) by auto
    show ?thesis
    proof (cases "len = 3")
      case True
      then show ?thesis using o b64_loop_quad [OF 1(4), of a b x y z "[]"]
        by (auto simp: b64_quad_def b64_loop_stop eval_nat_numeral)
    next
      case False
      then have k: "nat (- l) \<in> {1, 2, 3}" using o 1(3) \<open>\<not> len - 3 > 0\<close> by auto
      have "length (b64_quad x y z) = 4" by (simp add: b64_quad_def)
      moreover have "3 - nat (- l) = nat len" using o 1(3) \<open>\<not> len - 3 > 0\<close> by auto
      moreover have "take (nat len) [x, y, z] = take (nat len) (x # y # z # data)"
        using False \<open>\<not> len - 3 > 0\<close> take_append [of "nat len" "[x, y, z]" data] by simp
      ultimately show ?thesis using o b64_loop_partial [OF 1(4) k, of a b x y z] by simp
    qed
  qed
qed auto

lemma b64_loop_length:
  "length (b64_loop s a b (map b64_digit xs)) + (s + length xs + 3) div 4 = length xs + (s + 3) div 4"
proof (induction xs arbitrary: s a b)
  case (Cons x xs)
  have "s mod 4 = 0 \<or> s mod 4 = 1 \<or> s mod 4 = 2 \<or> s mod 4 = 3" by presburger
  then consider "s mod 4 = 0" | "s mod 4 = 1" | "s mod 4 = 2" | "s mod 4 = 3" by (elim disjE)
  then show ?case
  proof cases
    case 1
    then have "(s + 3) div 4 + 1 = (Suc s + 3) div 4" by presburger
    then show ?thesis using Cons [of "Suc s" "x AND 63" b] 1 by (simp add: b64_loop_digits)
  next
    case 2
    then have "(s + 3) div 4 = (Suc s + 3) div 4" by presburger
    then show ?thesis using Cons [of "Suc s" a "x AND 63"] 2 by (simp add: b64_loop_digits)
  next
    case 3
    then have "(s + 3) div 4 = (Suc s + 3) div 4" by presburger
    then show ?thesis using Cons [of "Suc s" "x AND 63" b] 3 by (simp add: b64_loop_digits)
  next
    case 4
    then have "(s + 3) div 4 = (Suc s + 3) div 4" by presburger
    then show ?thesis using Cons [of "Suc s" a b] 4 by (simp add: b64_loop_digits)
  qed
qed (simp add: b64_loop_stop)

lemma b64_quads_total:
  assumes "len + 2 \<le> int (length data)" and "3 \<le> length data"
  shows "b64_quads data len \<noteq> None"
  using assms
proof (induction data len rule: b64_quads.induct)
  case (1 a b c data len)
  show ?case
  proof (cases "len - 3 > 0")
    case True
    from "1.IH" [OF True] "1.prems" True obtain o' l' where "b64_quads data (len - 3) = Some (o', l')" by auto
    then show ?thesis using True by simp
  next
    case False
    then show ?thesis by simp
  qed
qed auto

lemma groups_of_4:
  assumes "3 * int m = 4 * (int n - l)"
  obtains k where "m = 4 * k" and "int n = 3 * int k + l"
proof -
  have "4 dvd m" using assms by presburger
  then obtain k where "m = 4 * k" ..
  moreover have "int n = 3 * int k + l" using assms unfolding \<open>m = 4 * k\<close> by simp
  ultimately show thesis by (rule that)
qed

lemma base64_encode_total:
  assumes "int n + 2 \<le> int (length mem)" and "3 \<le> length mem"
  obtains t where "base64_encode mem (Some (int n)) = Some t"
proof -
  obtain out l where q: "b64_quads mem (int n) = Some (out, l)" using b64_quads_total [OF assms] by auto
  from b64_quads_shape [OF q] have "3 * int (length out) = 4 * (int n - l)" "- 3 \<le> l" "l \<le> 0" "4 \<le> length out" by auto
  moreover from this(1) obtain k where "length out = 4 * k" "int n = 3 * int k + l" by (rule groups_of_4)
  ultimately have k: "3 * k \<le> n + 3" "length out = 4 * k" by linarith+
  then have "k \<le> (n + 3) div 3" by (simp add: less_eq_div_iff_mult_less_eq mult.commute)
  then have "\<not> length out + 1 > n div 3 * 4 + 6" using k(2) div_add_self2 [of 3 n] by simp
  then show thesis using that q by (simp add: base64_encode_def size_arg_def)
qed

lemma base64_decode_encode:
  assumes "base64_encode mem (Some (int n)) = Some t"
  shows "base64_decode t (Some (int (length t))) = Some (take n mem)"
proof -
  obtain out l where q: "b64_quads mem (int n) = Some (out, l)"
    and t: "t = take (length out - nat (- l)) out @ replicate (nat (- l)) 0x5F"
    using assms by (auto simp: base64_encode_def size_arg_def split: option.splits if_splits)
  have sh: "- 3 \<le> l" "l \<le> 0" "4 \<le> length out" "3 * int (length out) = 4 * (int n - l)" "n \<le> length mem"
    using b64_quads_shape [OF q] by auto
  have len: "length t = length out" using sh by (simp add: t)
  have dec: "b64_loop 0 0 0 t = take n mem" using b64_decode_quads [OF q, of 0 0 0] t by simp
  from sh(4) obtain k where "length out = 4 * k" "int n = 3 * int k + l" by (rule groups_of_4)
  then have "\<not> n \<ge> length t div 4 * 3 + 1" using sh(2) unfolding len by simp
  then show ?thesis using dec sh(5) by (simp add: base64_decode_def size_arg_def Let_def)
qed

lemma gspassenc_total: obtains c where "gspassenc pass = Some c" and "length c = length pass"
    and "gspassenc c = Some pass"
proof -
  have "\<exists>c t. crypt_run (stream_enc gspassenc_step) (0x79707367 AND 0x7fffffff) pass = Some (c, t) \<and> True"
    by (rule crypt_run_total) (simp_all add: stream_enc_def gspassenc_step_def Let_def)
  then obtain c s where
    r: "crypt_run (stream_enc gspassenc_step) (0x79707367 AND 0x7fffffff) pass = Some (c, s)" by blast
  from passenc.run_dec_enc [OF r] r crypt_run_length [OF r] that show thesis
    by (simp add: gspassenc_def)
qed

section \<open>Messages and the marker\<close>

definition xor3d_step :: "byte list \<Rightarrow> (byte \<times> byte list) option" where
  "xor3d_step gs = Some (case gs of [] \<Rightarrow> 0 | k # _ \<Rightarrow> k, if tl gs = [] then spy3d_word else tl gs)"

interpretation xor3d: keystream xor3d_step "stream_enc xor3d_step"
  by unfold_locales simp

text \<open>No marker starts inside \<open>data\<close> when \<open>tail\<close> follows it, and the comparison stays in memory.\<close>

fun marker_free :: "byte list \<Rightarrow> byte list \<Rightarrow> bool" where
  "marker_free [] tail \<longleftrightarrow> True"
| "marker_free (d # data) tail \<longleftrightarrow>
     strncmp_eq (d # data @ tail) final_bytes = Some False \<and> marker_free data tail"

lemma xor3d_loop_free:
  assumes "marker_free data tail" and "crypt_run (stream_enc xor3d_step) gs data = Some (cs, gs')"
    and "int (length data) \<le> len"
  shows "xor3d_loop extra (data @ tail) len gs =
    map_option (\<lambda>(r, g). (cs @ r, g)) (xor3d_loop extra tail (len - int (length data)) gs')"
  using assms
proof (induction data arbitrary: gs cs len)
  case (Cons d data)
  from Cons.prems(2) obtain ds where cs: "cs = (d XOR (case gs of [] \<Rightarrow> 0 | k # _ \<Rightarrow> k)) # ds"
    and run: "crypt_run (stream_enc xor3d_step) (if tl gs = [] then spy3d_word else tl gs) data = Some (ds, gs')"
    by (auto simp: stream_enc_def [of _ gs] xor3d_step_def [of gs] split: option.splits)
  have free: "strncmp_eq (d # data @ tail) final_bytes = Some False" "marker_free data tail"
    using Cons.prems(1) by simp_all
  have "xor3d_loop extra ((d # data) @ tail) len gs =
      map_option (\<lambda>(r, g). ((d XOR (case gs of [] \<Rightarrow> 0 | k # _ \<Rightarrow> k)) # r, g))
        (xor3d_loop extra (data @ tail) (len - 1) (if tl gs = [] then spy3d_word else tl gs))"
    using free(1) Cons.prems(3) by (subst xor3d_loop.simps) simp
  also have "xor3d_loop extra (data @ tail) (len - 1) (if tl gs = [] then spy3d_word else tl gs) =
      map_option (\<lambda>(r, g). (ds @ r, g)) (xor3d_loop extra tail (len - 1 - int (length data)) gs')"
    using Cons.IH [OF free(2) run] Cons.prems(3) by simp
  finally show ?case by (simp add: cs option.map_comp comp_def case_prod_beta algebra_simps)
qed (simp add: option.map_id0)

lemma final_bytes_length: "length final_bytes = 7"
  by (simp add: final_bytes_def bytes_of_def)

lemma strncmp_eq_self: "strncmp_eq (p @ tail) p = Some True"
  by (induction p) simp_all

lemma xor3d_loop_stop: "len \<le> 0 \<Longrightarrow> xor3d_loop extra mem len gs = Some (mem, gs)"
  by (subst xor3d_loop.simps) simp

lemma xor3d_loop_final: "xor3d_loop 6 final_bytes 7 gs = Some (final_bytes, spy3d_word)"
  using strncmp_eq_self [of final_bytes "[]"]
  by (subst xor3d_loop.simps) (simp add: final_bytes_length xor3d_loop_stop)

lemma xor3d_run_total: "\<exists>cs gs'. crypt_run (stream_enc xor3d_step) gs data = Some (cs, gs')"
  using crypt_run_total [of "\<lambda>_. True" gs "stream_enc xor3d_step" data]
  by (simp add: stream_enc_def xor3d_step_def)

section \<open>The response's characters\<close>

definition sk_alphabet :: "byte list" where
  "sk_alphabet = bytes_of ''ABCDEFGHIJKLMNOPQRSTUVWXYZabcdefghijklmnopqrstuvwxyz0123456789+/''"

lemma gsvalfunc_alphabet: "list_all (\<lambda>n. gsvalfunc (word_of_nat n) = sk_alphabet ! n) [0..<64]"
  by code_simp

lemma gsvalfunc_in: "x < 64 \<Longrightarrow> gsvalfunc x \<in> set sk_alphabet"
proof -
  assume "x < 64"
  then have x: "unat x < 64" by (simp add: word_less_nat_alt)
  then have "unat x \<in> set [0..<64]" by simp
  with gsvalfunc_alphabet have "gsvalfunc (word_of_nat (unat x)) = sk_alphabet ! unat x"
    unfolding list_all_iff by (rule bspec)
  moreover have "length sk_alphabet = 64" by (simp add: sk_alphabet_def bytes_of_def)
  ultimately show ?thesis using x by simp
qed

lemma sk_quad_in: "set (sk_quad x y z) \<subseteq> set sk_alphabet"
proof -
  have m: "(63 :: byte) = mask 6" "(3 :: byte) = mask 2" "(15 :: byte) = mask 4" "(64 :: byte) = push_bit 6 1"
    by (simp_all add: mask_eq_exp_minus_1)
  have b: "w < 64" if "w AND 63 = w" for w :: byte
  proof -
    have "unat (w AND 63) < 64" unfolding m take_bit_eq_mask [symmetric] unat_take_bit by simp
    then show ?thesis by (simp add: that word_less_nat_alt)
  qed
  have no_bit: "\<not> bit w 8" "\<not> bit w 9" "\<not> bit w 10" "\<not> bit w 11" "\<not> bit w 12" "\<not> bit w 13" for w :: byte by (auto dest: bit_imp_le_length)
  have "drop_bit 2 x AND 63 = drop_bit 2 x"
    unfolding m by (rule bit_word_eqI, drule byte_bit_cases, elim disjE) (simp_all add: bit_simps no_bit)
  moreover have "(push_bit 4 (x AND 3) OR drop_bit 4 y) AND 63 = (push_bit 4 (x AND 3) OR drop_bit 4 y)"
    unfolding m by (rule bit_word_eqI, drule byte_bit_cases, elim disjE) (simp_all add: bit_simps no_bit)
  moreover have "(push_bit 2 (y AND 15) OR drop_bit 6 z) AND 63 = (push_bit 2 (y AND 15) OR drop_bit 6 z)"
    unfolding m by (rule bit_word_eqI, drule byte_bit_cases, elim disjE) (simp_all add: bit_simps no_bit)
  moreover have "(z AND 63) AND 63 = z AND 63" by (simp add: and.assoc)
  ultimately show ?thesis by (simp add: sk_quad_def gsvalfunc_in b)
qed

lemma sk_quads_in: "set (sk_quads tmp) \<subseteq> set sk_alphabet"
  by (induction tmp rule: sk_quads.induct) (simp_all add: sk_quad_in)

lemma sk_quads_length: "length (sk_quads tmp) = 4 * (length tmp div 3)"
  by (induction tmp rule: sk_quads.induct) (simp_all add: sk_quad_def div_add_self1)

lemma pad3_length: "length (pad3 tmp) = 3 * ((length tmp + 2) div 3)"
proof -
  have "length tmp + (3 - length tmp mod 3) mod 3 = 3 * ((length tmp + 2) div 3)"
    if "length tmp = 3 * q + r" "r = 0 \<or> r = 1 \<or> r = 2" for q r
  proof -
    have "length tmp mod 3 = r" "(length tmp + 2) div 3 = q + (if r = 0 then 0 else 1)"
      using that by auto
    then show ?thesis using that by auto
  qed
  moreover have "length tmp mod 3 = 0 \<or> length tmp mod 3 = 1 \<or> length tmp mod 3 = 2" by linarith
  ultimately show ?thesis using mult_div_mod_eq [of 3 "length tmp"] unfolding pad3_def by (metis length_append length_replicate)
qed

lemma sk_step_total: "\<exists>c t. crypt_run sk_step s src = Some (c, t)"
  using crypt_run_total [of "\<lambda>_. True" s sk_step src]
  by (simp add: sk_step_def Let_def split: prod.splits)

lemma decode_bound:
  fixes n p :: nat
  assumes "p + (n + 3) div 4 = n"
  shows "p \<ge> n div 4 * 3 + 1 \<longleftrightarrow> n mod 4 \<in> {2, 3}"
proof -
  define q r where "q = n div 4" and "r = n mod 4"
  have n: "n = 4 * q + r" "r < 4" by (simp_all add: q_def r_def)
  have "(n + 3) div 4 = q + (r + 3) div 4" unfolding n by simp
  then have "p + (r + 3) div 4 = 3 * q + r" using assms n by simp
  moreover have "r = 0 \<or> r = 1 \<or> r = 2 \<or> r = 3" using n(2) by linarith
  ultimately show ?thesis unfolding q_def [symmetric] r_def [symmetric] by (elim disjE) simp_all
qed

section \<open>Properties\<close>

text \<open>The number generator of the password cipher is the minimal standard generator: its
  split multiplication computes \<open>16807 * num\<close> modulo the Mersenne prime \<open>2^31 - 1\<close> and never
  falls into 0.\<close>

theorem gslame_minimal_standard:
  assumes "0 < unat num" and "unat num < 2 ^ 31 - 1"
  shows "unat (gslame num) = 16807 * unat num mod (2 ^ 31 - 1) \<and> 0 < unat (gslame num)"
  using assms by (rule gslame_lehmer)

theorem gslame_minimal_standard_witness:
  "unat (gslame 2037412711) = 16807 * unat (2037412711 :: i32) mod (2 ^ 31 - 1) \<and> 0 < unat (gslame 2037412711)"
  by (rule gslame_minimal_standard) simp_all

text \<open>C24. A password of any length that is enciphered, encoded with the GameSpy base64, decoded
  with the decoder the servers use and deciphered is the password again; encoding and decoding
  stay inside the memory they allocate.\<close>

theorem password_roundtrip:
  "\<exists>c t. gspassenc pw = Some c \<and>
     base64_encode (c @ [0, 0, 0]) (Some (int (length pw))) = Some t \<and>
     base64_decode t (Some (int (length t))) = Some c \<and> gspassenc c = Some pw"
proof -
  obtain c where c: "gspassenc pw = Some c" "length c = length pw" "gspassenc c = Some pw"
    by (rule gspassenc_total)
  have "int (length pw) + 2 \<le> int (length (c @ [0, 0, 0]))" "3 \<le> length (c @ [0, 0, 0])"
    using c(2) by simp_all
  then obtain t where t: "base64_encode (c @ [0, 0, 0]) (Some (int (length pw))) = Some t"
    by (rule base64_encode_total)
  from base64_decode_encode [OF t] c t show ?thesis by auto
qed

text \<open>C23. The decoder writes past its allocation exactly on the texts whose length leaves a
  remainder of 2 or 3 modulo 4: for a text made of base64 digits the buffer of
  \<open>(len >> 2) * 3 + 1\<close> bytes holds the result only when the remainder is 0 or 1.\<close>

theorem base64_decode_overflows:
  "base64_decode (map b64_digit xs) (Some (int (length xs))) = None \<longleftrightarrow> length xs mod 4 \<in> {2, 3}"
proof -
  have "length (b64_loop 0 0 0 (map b64_digit xs)) + (length xs + 3) div 4 = length xs"
    using b64_loop_length [of 0 0 0 xs] by simp
  then have "length (b64_loop 0 0 0 (map b64_digit xs)) \<ge> length xs div 4 * 3 + 1 \<longleftrightarrow> length xs mod 4 \<in> {2, 3}"
    by (rule decode_bound)
  then show ?thesis by (simp add: base64_decode_def size_arg_def Let_def)
qed

text \<open>A message followed by the end marker that the statistics server enciphers is read back
  by the same routine with the same index, when neither the message nor its cipher text contains
  a marker; the marker itself stays in clear and both sides restart the word after it.\<close>

theorem GSPeer_message_roundtrip:
  assumes "marker_free msg final_bytes"
    and "crypt_run (stream_enc xor3d_step) (drop idx spy3d_word) msg = Some (ct, gs)"
    and "marker_free ct final_bytes"
  shows "GSPeer_gamespy3dxor idx (msg @ final_bytes) (int (length msg) + 7) = Some (ct @ final_bytes, 0) \<and>
    GSPeer_gamespy3dxor idx (ct @ final_bytes) (int (length msg) + 7) = Some (msg @ final_bytes, 0)"
proof -
  have len: "length ct = length msg" by (rule crypt_run_length [OF assms(2)])
  have inv: "crypt_run (stream_enc xor3d_step) (drop idx spy3d_word) ct = Some (msg, gs)"
    by (rule xor3d.run_dec_enc [OF assms(2)])
  show ?thesis
    using xor3d_loop_free [OF assms(1,2), of "int (length msg) + 7" 6]
      xor3d_loop_free [OF assms(3) inv, of "int (length msg) + 7" 6]
    by (simp add: GSPeer_gamespy3dxor_def xor3d_loop_final len)
qed

theorem GSPeer_message_roundtrip_witness:
  "GSPeer_gamespy3dxor 2 ([104, 105] @ final_bytes) 9 = Some ([5, 12] @ final_bytes, 0) \<and>
   GSPeer_gamespy3dxor 2 ([5, 12] @ final_bytes) 9 = Some ([104, 105] @ final_bytes, 0)"
proof -
  have m: "marker_free [104, 105] final_bytes" "marker_free [5, 12] final_bytes"
    "crypt_run (stream_enc xor3d_step) (drop 2 spy3d_word) [104, 105] = Some ([5, 12], drop 4 spy3d_word)"
    by code_simp+
  from GSPeer_message_roundtrip [OF m(1,3,2)] show ?thesis by simp
qed

text \<open>The UDP key-check cipher is its own inverse on packets of every length.\<close>

theorem gamespyxor_involution:
  "\<exists>c. gamespyxor data = Some c \<and> length c = length data \<and> gamespyxor c = Some data"
proof -
  have "\<exists>c s. crypt_run (stream_enc gamespyxor_step) gamespy_word data = Some (c, s) \<and> True"
    by (rule crypt_run_total) (simp_all add: stream_enc_def gamespyxor_step_def Let_def)
  then obtain c s where r: "crypt_run (stream_enc gamespyxor_step) gamespy_word data = Some (c, s)" by blast
  from gsxor.run_dec_enc [OF r] r crypt_run_length [OF r] show ?thesis by (simp add: gamespyxor_def)
qed

text \<open>The response to a challenge of 1 to 65 characters with a non-empty key consists of
  \<open>4 * ceil(n / 3)\<close> characters of the base64 alphabet, at most 88, so that it fits with its
  terminator in the 89 bytes the routine reserves.\<close>

theorem gsseckey_fits:
  assumes "key \<noteq> []" and "1 \<le> length src" and "length src \<le> 65"
  shows "\<exists>r. gsseckey src key enctype = Some r \<and> length r = 4 * ((length src + 2) div 3) \<and>
    length r + 1 \<le> 89 \<and> set r \<subseteq> set sk_alphabet"
proof -
  let ?d = "fst (foldl (sk_deal key) (ascending_deck, 0) [0..<256])"
  obtain t s where t: "crypt_run sk_step (?d, 0, 0) src = Some (t, s)" using sk_step_total by blast
  have len: "length t = length src" by (rule crypt_run_length [OF t])
  have "(length src + 2) div 3 \<le> 22" using assms(3) by simp
  then show ?thesis
    using assms t sk_quads_in
    by (simp add: gsseckey_def Let_def sk_quads_length pad3_length len not_less_eq_eq)
qed

theorem gsseckey_fits_witness:
  "\<exists>r. gsseckey [65, 66, 67, 68] [107, 98] 0 = Some r \<and> length r = 8 \<and> set r \<subseteq> set sk_alphabet"
  using gsseckey_fits [of "[107, 98]" "[65, 66, 67, 68]" 0] by simp blast

end
