(* ===== verification/GUtil.thy ===== *)
theory GUtil
  imports GameSpy
begin

text \<open>
  The key-check cipher and the tree-walking stream cipher of
  \<open>serverbrowsing/server/gutil.cpp\<close> (encryption type 2 of the first server browsing protocol),
  and its second copy in \<open>enctype_shared.cpp\<close> (used by encryption type 1), which keeps the same
  state in one flat array of words. \<open>None\<close> is an access outside an array.
\<close>

section \<open>\<open>gutil.cpp\<close>: encoding and key check\<close>

definition encode_ct :: "byte \<Rightarrow> byte" where
  "encode_ct c =
     (if c < 26 then 0x41 + c else if c < 52 then 0x61 + c - 26 else if c < 62 then 0x30 + c - 52
      else if c = 62 then 0x2B else if c = 63 then 0x2F else 0)"

definition kwart :: "byte \<Rightarrow> byte \<Rightarrow> byte \<Rightarrow> byte list" where
  "kwart t0 t1 t2 =
     map encode_ct
       [drop_bit 2 t0, push_bit 4 (t0 AND 3) + drop_bit 4 t1,
        push_bit 2 (t1 AND 15) + drop_bit 6 t2, t2 AND 63]"

text \<open>The text without its terminator; missing bytes of the last triple are 0.\<close>

fun cengine_gs_encode :: "byte list \<Rightarrow> byte list" where
  "cengine_gs_encode [] = []"
| "cengine_gs_encode [a] = kwart a 0 0"
| "cengine_gs_encode [a, b] = kwart a b 0"
| "cengine_gs_encode (a # b # c # ins) = kwart a b c @ cengine_gs_encode ins"

text \<open>\<open>x = (x + 1) % key_len\<close> with \<open>x\<close> an \<open>unsigned char\<close>; the states are \<open>state\<close>, \<open>x\<close>, \<open>y\<close>.\<close>

definition cengine_deal :: "byte list \<Rightarrow> deck \<times> byte \<times> byte \<Rightarrow> nat \<Rightarrow> deck \<times> byte \<times> byte" where
  "cengine_deal key = (\<lambda>(state, x, y) counter.
     (let y' = key ! unat x + state ! counter + y
      in (swap counter (unat y') state, word_of_nat ((unat x + 1) mod length key), y')))"

definition cengine_step :: "(deck \<times> byte \<times> byte) bytestep" where
  "cengine_step = (\<lambda>(state, x, y) b.
     (let x' = x + b + 1;
          y' = cell state x' + y;
          state' = swap (unat x') (unat y') state;
          xorIndex = cell state' x' + cell state' y'
      in Some (b XOR cell state' xorIndex, (state', x', y'))))"

text \<open>The second loop counts in a \<open>short\<close>, so it only ends for at most 32767 bytes.\<close>

definition cengine_gs_encrypt :: "byte list \<Rightarrow> byte list \<Rightarrow> byte list option" where
  "cengine_gs_encrypt key buffer =
     (if key = [] \<or> length buffer > 32767 then None
      else
        let (state, x, y) = foldl (cengine_deal key) (ascending_deck, 0, 0) [0..<256]
        in map_option fst (crypt_run cengine_step (state, 0, 0) buffer))"

section \<open>\<open>gutil.cpp\<close>: the tree cipher\<close>

definition ROT8 :: "u32 \<Rightarrow> u32" where "ROT8 x = push_bit 8 x OR drop_bit 24 x"
definition ROT24 :: "u32 \<Rightarrow> u32" where "ROT24 x = push_bit 24 x OR drop_bit 8 x"

text \<open>\<open>x ^= F[x & 0xFF]\<close>\<close>

definition mixF :: "u32 list \<Rightarrow> u32 \<Rightarrow> u32" where
  "mixF F x = x XOR F ! unat (x AND 0xFF)"

definition macro_f :: "u32 list \<Rightarrow> u32 \<times> u32 \<times> u32 \<Rightarrow> u32 \<times> u32 \<times> u32" where
  "macro_f F = (\<lambda>(x, y, z).
     (let y1 = ROT24 y; x1 = mixF F x; y2 = mixF F y1; y3 = ROT24 y2; x2 = ROT8 x1;
          x3 = mixF F x2; y4 = mixF F y3; x4 = ROT8 x3
      in (x4, y4, z + z)))"

definition macro_g :: "u32 list \<Rightarrow> u32 \<times> u32 \<times> u32 \<Rightarrow> u32 \<times> u32 \<times> u32" where
  "macro_g F = (\<lambda>(x, y, z).
     (let x1 = NOT x; x2 = ROT24 x1; x3 = mixF F x2; y1 = mixF F y; x4 = ROT24 x3; y2 = ROT8 y1;
          x5 = mixF F x4; y3 = mixF F y2; y4 = ROT8 y3
      in (x5, y4, z + (z + 1))))"

definition macro_d :: "u32 \<times> u32 \<times> u32 \<Rightarrow> u32 \<times> u32 \<times> u32" where
  "macro_d = (\<lambda>(x, y, z). (let x1 = x + z; y1 = y + x1; x2 = x1 + y1 in (x2, y1, z)))"

definition CRYPT_HEIGHT :: nat where "CRYPT_HEIGHT = 16"
definition CRYPT_TABLE_SIZE :: nat where "CRYPT_TABLE_SIZE = 256"
definition NWORDS :: nat where "NWORDS = 16"
definition CRYPT_MIN_LEAF_NUM :: u32 where "CRYPT_MIN_LEAF_NUM = push_bit CRYPT_HEIGHT 1"

text \<open>
  \<open>crypt_key\<close>; \<open>keyptr\<close> is its offset in the bytes of \<open>keydata\<close>, \<open>None\<close> for \<open>NULL\<close>. \<open>index\<close> is never
  negative at rest: it is set to 0 when a pop makes it \<open>-1\<close>.
\<close>

record crypt_key =
  ck_F :: "u32 list"
  x_stack :: "u32 list"
  y_stack :: "u32 list"
  z_stack :: "u32 list"
  ck_index :: nat
  node :: "u32 \<times> u32 \<times> u32"
  tree_num :: u32
  keydata :: "u32 list"
  keyptr :: "nat option"

definition node_z :: "crypt_key \<Rightarrow> u32" where "node_z L = snd (snd (node L))"

text \<open>Storing the node on the three stacks; \<open>None\<close> above the sixteenth cell.\<close>

definition push_node :: "crypt_key \<Rightarrow> u32 \<times> u32 \<times> u32 \<Rightarrow> crypt_key option" where
  "push_node L = (\<lambda>(x, y, z).
     (if ck_index L \<ge> CRYPT_HEIGHT then None
      else Some (L\<lparr>x_stack := (x_stack L)[ck_index L := x], y_stack := (y_stack L)[ck_index L := y],
                   z_stack := (z_stack L)[ck_index L := z], ck_index := ck_index L + 1\<rparr>)))"

definition go_left :: "crypt_key \<Rightarrow> crypt_key option" where
  "go_left L =
     (let n = macro_d (node L)
      in map_option (\<lambda>M. M\<lparr>node := macro_f (ck_F L) n\<rparr>) (push_node L n))"

text \<open>The loop of \<open>crypt_seek\<close> over the bits \<open>i = 2^15 .. 2^0\<close> of the leaf number.\<close>

fun seek_loop :: "nat \<Rightarrow> u32 \<Rightarrow> crypt_key \<Rightarrow> crypt_key option" where
  "seek_loop 0 leaf L = Some L"
| "seek_loop (Suc b) leaf L =
     (if bit leaf b then seek_loop b leaf (L\<lparr>node := macro_g (ck_F L) (macro_d (node L))\<rparr>)
      else case go_left L of None \<Rightarrow> None | Some M \<Rightarrow> seek_loop b leaf M)"

definition crypt_seek :: "crypt_key \<Rightarrow> u32 \<Rightarrow> u32 \<Rightarrow> (u32 \<times> crypt_key) option" where
  "crypt_seek L tree leaf =
     map_option (\<lambda>M. (case node M of (x, y, z) \<Rightarrow> x XOR y, M\<lparr>tree_num := tree\<rparr>))
       (seek_loop CRYPT_HEIGHT leaf (L\<lparr>ck_index := 0, node := (tree, 0, 1)\<rparr>))"

text \<open>The inner loop of \<open>crypt_encrypt\<close>: down to a leaf along left children.\<close>

lemma go_left_index: "go_left L = Some M \<Longrightarrow> ck_index M = ck_index L + 1 \<and> ck_index L < 16"
  by (auto simp: go_left_def push_node_def CRYPT_HEIGHT_def Let_def split: prod.splits if_splits)

function crypt_descend :: "crypt_key \<Rightarrow> crypt_key option" where
  "crypt_descend L =
     (if node_z L < CRYPT_MIN_LEAF_NUM
      then (case go_left L of None \<Rightarrow> None | Some M \<Rightarrow> crypt_descend M)
      else Some L)"
  by pat_completeness auto
termination
  by (relation "measure (\<lambda>L. 16 - ck_index L)") (auto dest: go_left_index)

declare crypt_descend.simps [simp del]

text \<open>One word: the leaf's hash, then the right child of the last node left behind.\<close>

definition pop_right :: "crypt_key \<Rightarrow> crypt_key" where
  "pop_right L =
     (let i = (if ck_index L = 0 then 0 else ck_index L - 1)
      in L\<lparr>ck_index := i, node := macro_g (ck_F L) (x_stack L ! i, y_stack L ! i, z_stack L ! i)\<rparr>)"

fun crypt_encrypt :: "crypt_key \<Rightarrow> nat \<Rightarrow> (u32 list \<times> crypt_key) option" where
  "crypt_encrypt L 0 = Some ([], L)"
| "crypt_encrypt L (Suc nodes) =
     (case crypt_descend L of
        None \<Rightarrow> None
      | Some M \<Rightarrow>
          (case crypt_encrypt (pop_right M) nodes of
             None \<Rightarrow> None
           | Some (ws, N) \<Rightarrow> Some ((case node M of (x, y, z) \<Rightarrow> x XOR y) # ws, N)))"

definition setup_swap :: "byte list \<Rightarrow> u32 list \<times> u32 \<Rightarrow> nat \<Rightarrow> u32 list \<times> u32" where
  "setup_swap key = (\<lambda>(F, index) i.
     (let index' = (index + (ucast (key ! (i mod length key)) + F ! i)) AND 0xFF
      in (swap i (unat index') F, index')))"

definition setup_round :: "byte list \<Rightarrow> u32 list \<Rightarrow> nat \<Rightarrow> u32 list" where
  "setup_round key F j =
     (let F1 = map (\<lambda>i. F ! i * 256 + word_of_nat i) [0..<CRYPT_TABLE_SIZE];
          pass = (\<lambda>s. foldl (setup_swap key) s [0..<CRYPT_TABLE_SIZE])
      in fst (pass (pass (F1, word_of_nat j))))"

definition setup_table :: "byte list \<Rightarrow> u32 list" where
  "setup_table key =
     (let F = foldl (setup_round key) (replicate CRYPT_TABLE_SIZE 0) [0..<4]
      in map (\<lambda>i. F ! i XOR word_of_nat i) [0..<CRYPT_TABLE_SIZE])"

text \<open>\<open>L\<close> is the memory before the call: only its stacks and key words survive.\<close>

definition init_crypt_key :: "byte list \<Rightarrow> crypt_key \<Rightarrow> crypt_key option" where
  "init_crypt_key key L =
     (if key = [] then None
      else map_option snd (crypt_seek (L\<lparr>keyptr := None, ck_F := setup_table key\<rparr>) 0 0))"

text \<open>Byte \<open>i\<close> of the key words, in the little-endian order of the hosts.\<close>

definition key_byte :: "u32 list \<Rightarrow> nat \<Rightarrow> byte" where
  "key_byte ws i = ucast (drop_bit (8 * (i mod 4)) (ws ! (i div 4)))"

text \<open>
  One key byte of \<open>crypt_docrypt\<close>: the words are drawn again once 63 bytes are used, so the last
  byte of each block is skipped.
\<close>

definition docrypt_step :: "crypt_key \<Rightarrow> (byte \<times> crypt_key) option" where
  "docrypt_step L =
     (case keyptr L of
        Some p \<Rightarrow>
          if p \<ge> 4 * NWORDS - 1 then
            map_option (\<lambda>(ws, M). (key_byte ws 0, M\<lparr>keydata := ws, keyptr := Some 1\<rparr>)) (crypt_encrypt L NWORDS)
          else Some (key_byte (keydata L) p, L\<lparr>keyptr := Some (p + 1)\<rparr>)
      | None \<Rightarrow>
          map_option (\<lambda>(ws, M). (key_byte ws 0, M\<lparr>keydata := ws, keyptr := Some 1\<rparr>)) (crypt_encrypt L NWORDS))"

definition crypt_docrypt :: "crypt_key \<Rightarrow> byte list \<Rightarrow> (byte list \<times> crypt_key) option" where
  "crypt_docrypt L data = crypt_run (stream_enc docrypt_step) L data"

interpretation docrypt: keystream docrypt_step "stream_enc docrypt_step"
  by unfold_locales simp

section \<open>The walk stays in the tree and in the stacks\<close>

text \<open>
  The node at depth \<open>d\<close> of the binary tree of height 16 has a number from \<open>2^d\<close> to
  \<open>2^(d+1) - 1\<close>; \<open>ds\<close> are the depths of the stacked nodes, whose right subtrees are still to be
  visited.
\<close>

definition at_depth :: "nat \<Rightarrow> u32 \<Rightarrow> bool" where
  "at_depth d z \<longleftrightarrow> d \<le> 16 \<and> 2 ^ d \<le> unat z \<and> unat z < 2 ^ (d + 1)"

definition tree_inv :: "crypt_key \<Rightarrow> nat list \<Rightarrow> nat \<Rightarrow> bool" where
  "tree_inv L ds d \<longleftrightarrow>
     length (x_stack L) = 16 \<and> length (y_stack L) = 16 \<and> length (z_stack L) = 16 \<and>
     length ds = ck_index L \<and> at_depth d (node_z L) \<and> sorted_wrt (<) ds \<and> (\<forall>e \<in> set ds. e < d) \<and>
     (\<forall>i < ck_index L. at_depth (ds ! i) (z_stack L ! i))"

text \<open>The leaves still to come: those below the node and below the stacked right children.\<close>

definition leaves_left :: "nat list \<Rightarrow> nat \<Rightarrow> nat" where
  "leaves_left ds d = 2 ^ (16 - d) + sum_list (map (\<lambda>e. 2 ^ (15 - e)) ds)"

lemma tree_inv_index: "tree_inv L ds d \<Longrightarrow> ck_index L \<le> d"
proof -
  assume "tree_inv L ds d"
  then have "length ds = ck_index L" "distinct ds" "set ds \<subseteq> {..<d}"
    by (auto simp: tree_inv_def strict_sorted_iff)
  then show ?thesis by (metis card_lessThan card_mono distinct_card finite_lessThan)
qed

lemma at_depth_double:
  assumes "at_depth d z" and "d < 16"
  shows "at_depth (d + 1) (z + z)" and "at_depth (d + 1) (z + (z + 1))"
proof -
  have b: "2 ^ d \<le> unat z" "unat z < 2 ^ (d + 1)" using assms(1) by (auto simp: at_depth_def)
  have "(2 :: nat) ^ (d + 1) \<le> 2 ^ 16" using assms(2) by (intro power_increasing) auto
  then have z: "unat z < 2 ^ 16" using b(2) by linarith
  then have u1: "unat (z + 1) = unat z + 1" by (simp add: unat_word_ariths)
  have "unat (z + z) = 2 * unat z" "unat (z + (z + 1)) = 2 * unat z + 1"
    using z by (simp_all add: unat_word_ariths u1 del: unat_plus_simple)
  then show "at_depth (d + 1) (z + z)" "at_depth (d + 1) (z + (z + 1))"
    using b assms(2) by (simp_all add: at_depth_def)
qed

lemma macro_z [simp]:
  "snd (snd (macro_f F n)) = snd (snd n) + snd (snd n)"
  "snd (snd (macro_g F n)) = snd (snd n) + (snd (snd n) + 1)"
  "snd (snd (macro_d n)) = snd (snd n)"
  by (simp_all add: macro_f_def macro_g_def macro_d_def Let_def split: prod.splits)

lemma go_left_ok:
  assumes "tree_inv L ds d" and "d < 16"
  shows "\<exists>M. go_left L = Some M \<and> tree_inv M (ds @ [d]) (d + 1) \<and> ck_F M = ck_F L \<and> keydata M = keydata L \<and> keyptr M = keyptr L"
proof -
  have i: "ck_index L < 16" using tree_inv_index [OF assms(1)] assms(2) by simp
  obtain x y z where n: "macro_d (node L) = (x, y, z)" by (metis prod_cases3)
  have z: "z = node_z L" using macro_z(3) [of "node L"] n by (simp add: node_z_def)
  let ?M = "L\<lparr>x_stack := (x_stack L)[ck_index L := x], y_stack := (y_stack L)[ck_index L := y],
    z_stack := (z_stack L)[ck_index L := z], ck_index := ck_index L + 1, node := macro_f (ck_F L) (x, y, z)\<rparr>"
  have "go_left L = Some ?M" using i by (simp add: go_left_def push_node_def n CRYPT_HEIGHT_def)
  moreover have "tree_inv ?M (ds @ [d]) (d + 1)"
    using assms at_depth_double(1) [of d z] i
    by (auto simp: tree_inv_def node_z_def z sorted_wrt_append nth_append nth_list_update less_Suc_eq)
  ultimately show ?thesis by simp
qed

lemma leaves_left_split: "d < 16 \<Longrightarrow> leaves_left (ds @ [d]) (d + 1) = leaves_left ds d"
proof -
  assume "d < 16"
  then have "16 - d = Suc (15 - d)" by simp
  then show ?thesis by (simp add: leaves_left_def)
qed

lemma crypt_descend_ok:
  assumes "tree_inv L ds d"
  shows "\<exists>M es. crypt_descend L = Some M \<and> tree_inv M es 16 \<and> leaves_left es 16 = leaves_left ds d \<and>
    (ds \<noteq> [] \<or> d < 16 \<longrightarrow> es \<noteq> []) \<and> (d = 16 \<longrightarrow> M = L) \<and> ck_F M = ck_F L"
  using assms
proof (induction "16 - d" arbitrary: L ds d)
  case 0
  then have d: "d = 16" by (simp add: tree_inv_def at_depth_def)
  then have "\<not> node_z L < CRYPT_MIN_LEAF_NUM"
    using 0(2) by (simp add: tree_inv_def at_depth_def CRYPT_MIN_LEAF_NUM_def CRYPT_HEIGHT_def word_less_nat_alt)
  then have "crypt_descend L = Some L" by (simp add: crypt_descend.simps)
  then show ?case using 0(2) d by auto
next
  case (Suc n)
  then have d: "d < 16" by simp
  have "(2 :: nat) ^ (d + 1) \<le> 2 ^ 16" using d by (intro power_increasing) auto
  then have lt: "node_z L < CRYPT_MIN_LEAF_NUM"
    using Suc(3) by (simp add: tree_inv_def at_depth_def CRYPT_MIN_LEAF_NUM_def CRYPT_HEIGHT_def word_less_nat_alt)
  obtain M where M: "go_left L = Some M" "tree_inv M (ds @ [d]) (d + 1)" "ck_F M = ck_F L"
    using go_left_ok [OF Suc(3) d] by blast
  have "n = 16 - (d + 1)" using Suc(2) by simp
  from Suc(1) [OF this M(2)] obtain N es where N: "crypt_descend M = Some N" "tree_inv N es 16"
    "leaves_left es 16 = leaves_left ds d" "es \<noteq> []" "ck_F N = ck_F M"
    unfolding leaves_left_split [OF d] by blast
  moreover have "crypt_descend L = Some N" using lt M(1) N(1) by (subst crypt_descend.simps) simp
  ultimately show ?case using M(3) d by auto
qed

text \<open>A popped node is the right child; with empty stacks the code takes the first cell again.\<close>

lemma pop_right_ok:
  assumes "tree_inv L (es @ [e]) 16"
  shows "tree_inv (pop_right L) es (e + 1) \<and> leaves_left es (e + 1) + 1 = leaves_left (es @ [e]) 16"
proof -
  have a: "ck_index L = Suc (length es)" "e < 16" "at_depth e (z_stack L ! length es)"
    using assms by (auto simp: tree_inv_def nth_append dest: spec [of _ "length es"])
  have "15 - e = 16 - (e + 1)" by simp
  moreover have "tree_inv (pop_right L) es (e + 1)"
    using assms a at_depth_double(2) [OF a(3,2)]
    by (auto simp: tree_inv_def pop_right_def Let_def node_z_def sorted_wrt_append nth_append less_Suc_eq)
  ultimately show ?thesis by (simp add: leaves_left_def)
qed

lemma pop_right_wrap:
  assumes "tree_inv L [] 16" and "at_depth e (z_stack L ! 0)" and "e < 16"
  shows "tree_inv (pop_right L) [] (e + 1)"
  using assms at_depth_double(2) [OF assms(2,3)]
  by (simp add: tree_inv_def pop_right_def Let_def node_z_def)

lemma crypt_encrypt_ok:
  assumes "tree_inv L ds d" and "n < leaves_left ds d"
  shows "\<exists>ws M es e. crypt_encrypt L n = Some (ws, M) \<and> length ws = n \<and> tree_inv M es e \<and>
    leaves_left es e + n = leaves_left ds d \<and> ck_F M = ck_F L"
  using assms
proof (induction n arbitrary: L ds d)
  case (Suc n)
  obtain M es where M: "crypt_descend L = Some M" "tree_inv M es 16"
    "leaves_left es 16 = leaves_left ds d" "ck_F M = ck_F L"
    using crypt_descend_ok [OF Suc.prems(1)] by blast
  have "es \<noteq> []" using M(3) Suc.prems(2) by (auto simp: leaves_left_def)
  then obtain gs g where es: "es = gs @ [g]" by (metis rev_exhaust)
  from pop_right_ok [of M gs g] M es have p: "tree_inv (pop_right M) gs (g + 1)"
    "leaves_left gs (g + 1) + 1 = leaves_left ds d" by auto
  have F: "ck_F (pop_right M) = ck_F L" using M(4) by (simp add: pop_right_def Let_def)
  have "n < leaves_left gs (g + 1)" using p(2) Suc.prems(2) by simp
  from Suc.IH [OF p(1) this] obtain ws N fs e where N: "crypt_encrypt (pop_right M) n = Some (ws, N)"
    "length ws = n" "tree_inv N fs e" "leaves_left fs e + n = leaves_left gs (g + 1)" "ck_F N = ck_F (pop_right M)"
    by blast
  have "leaves_left fs e + Suc n = leaves_left ds d" using N(4) p(2) by simp
  moreover have "crypt_encrypt L (Suc n) = Some ((case node M of (x, y, z) \<Rightarrow> x XOR y) # ws, N)"
    using M(1) N(1) by simp
  ultimately show ?case using N(2,3,5) F by (metis length_Cons)
qed auto


text \<open>With the repaired underflow the walk goes on for ever: it starts again at the right child of
  the first stacked node.\<close>

definition tree_ok :: "crypt_key \<Rightarrow> bool" where
  "tree_ok L \<longleftrightarrow> (\<exists>ds d. tree_inv L ds d \<and> (ds \<noteq> [] \<or> d < 16 \<or> (\<exists>e < 16. at_depth e (z_stack L ! 0))))"

lemma tree_inv_first:
  "tree_inv L (e # es) d \<Longrightarrow> \<exists>e < 16. at_depth e (z_stack L ! 0)"
  by (rule exI [of _ e]) (auto simp: tree_inv_def at_depth_def dest: spec [of _ 0])

lemma crypt_node_ok:
  assumes "tree_ok L"
  shows "\<exists>M. crypt_descend L = Some M \<and> tree_ok (pop_right M)"
proof -
  obtain ds d where d: "tree_inv L ds d" "ds \<noteq> [] \<or> d < 16 \<or> (\<exists>e < 16. at_depth e (z_stack L ! 0))"
    using assms by (auto simp: tree_ok_def)
  obtain M es where M: "crypt_descend L = Some M" "tree_inv M es 16" "ds \<noteq> [] \<or> d < 16 \<longrightarrow> es \<noteq> []" "d = 16 \<longrightarrow> M = L"
    using crypt_descend_ok [OF d(1)] by blast
  have "tree_ok (pop_right M)"
  proof (cases es rule: rev_cases)
    case Nil
    then have "M = L" "\<exists>e < 16. at_depth e (z_stack L ! 0)"
      using d M(3,4) by (auto simp: tree_inv_def at_depth_def)
    then obtain e where e: "e < 16" "at_depth e (z_stack M ! 0)" by blast
    have "z_stack (pop_right M) = z_stack M" by (simp add: pop_right_def Let_def)
    then show ?thesis using pop_right_wrap [OF _ e(2,1)] M(2) Nil e by (auto simp: tree_ok_def)
  next
    case (snoc gs g)
    obtain h hs where "es = h # hs" using snoc by (metis neq_Nil_conv snoc_eq_iff_butlast)
    then obtain e where e: "e < 16" "at_depth e (z_stack M ! 0)" using tree_inv_first M(2) by blast
    have "z_stack (pop_right M) = z_stack M" by (simp add: pop_right_def Let_def)
    then show ?thesis using pop_right_ok [of M gs g] M(2) snoc e by (auto simp: tree_ok_def)
  qed
  with M(1) show ?thesis by blast
qed

lemma crypt_encrypt_total:
  assumes "tree_ok L"
  shows "\<exists>ws M. crypt_encrypt L n = Some (ws, M) \<and> length ws = n \<and> tree_ok M"
  using assms
proof (induction n arbitrary: L)
  case (Suc n)
  obtain M where M: "crypt_descend L = Some M" "tree_ok (pop_right M)"
    using crypt_node_ok [OF Suc.prems] by blast
  from Suc.IH [OF M(2)] M(1) show ?case by auto
qed simp

lemma docrypt_step_total:
  assumes "tree_ok L"
  shows "\<exists>k M. docrypt_step L = Some (k, M) \<and> tree_ok M"
proof -
  have frame: "tree_ok (M\<lparr>keydata := ws, keyptr := p\<rparr>) = tree_ok M" "tree_ok (M\<lparr>keyptr := p\<rparr>) = tree_ok M" "tree_ok (M\<lparr>keydata := ws\<rparr>) = tree_ok M" for M ws p
    by (simp_all add: tree_ok_def tree_inv_def node_z_def)
  obtain ws M where "crypt_encrypt L NWORDS = Some (ws, M)" "tree_ok M"
    using crypt_encrypt_total [OF assms] by blast
  then show ?thesis using assms by (auto simp: docrypt_step_def frame split: option.splits)
qed

lemma crypt_docrypt_total:
  assumes "tree_ok L"
  shows "\<exists>ct M. crypt_docrypt L data = Some (ct, M) \<and> tree_ok M"
  unfolding crypt_docrypt_def
proof (rule crypt_run_total [where I = tree_ok])
  show "\<exists>c t. stream_enc docrypt_step s b = Some (c, t) \<and> tree_ok t" if "tree_ok s" for s b
    using docrypt_step_total [OF that] by (auto simp: stream_enc_def)
qed (rule assms)

section \<open>Set-up\<close>

lemma seek_left_ok:
  assumes "tree_inv L ds d" and "d + b = 16"
  shows "\<exists>M es. seek_loop b 0 L = Some M \<and> tree_inv M es 16 \<and> leaves_left es 16 = leaves_left ds d \<and>
    (ds \<noteq> [] \<or> 0 < b \<longrightarrow> es \<noteq> []) \<and> ck_F M = ck_F L \<and> keydata M = keydata L \<and> keyptr M = keyptr L"
  using assms
proof (induction b arbitrary: L ds d)
  case (Suc b)
  then have d: "d < 16" by simp
  obtain M where M: "go_left L = Some M" "tree_inv M (ds @ [d]) (d + 1)" "ck_F M = ck_F L"
    "keydata M = keydata L" "keyptr M = keyptr L"
    using go_left_ok [OF Suc.prems(1) d] by blast
  from Suc.IH [OF M(2)] Suc.prems(2) obtain N es where N: "seek_loop b 0 M = Some N" "tree_inv N es 16"
    "leaves_left es 16 = leaves_left (ds @ [d]) (d + 1)" "es \<noteq> []" "ck_F N = ck_F M"
    "keydata N = keydata M" "keyptr N = keyptr M" by auto
  then show ?case using M leaves_left_split [OF d] by auto
qed auto

definition stacks_ok :: "crypt_key \<Rightarrow> bool" where
  "stacks_ok L \<longleftrightarrow> length (x_stack L) = 16 \<and> length (y_stack L) = 16 \<and> length (z_stack L) = 16"

lemma init_crypt_key_ok:
  assumes "key \<noteq> []" and "stacks_ok L"
  shows "\<exists>M es. init_crypt_key key L = Some M \<and> tree_inv M es 16 \<and> leaves_left es 16 = 65536 \<and> es \<noteq> [] \<and>
    ck_F M = setup_table key \<and> keyptr M = None"
proof -
  let ?L = "L\<lparr>keyptr := None, ck_F := setup_table key, ck_index := 0, node := (0, 0, 1)\<rparr>"
  have "tree_inv ?L [] 0"
    using assms(2) by (simp add: tree_inv_def stacks_ok_def at_depth_def node_z_def)
  from seek_left_ok [OF this, of 16] obtain M es where M: "seek_loop 16 0 ?L = Some M" "tree_inv M es 16"
    "leaves_left es 16 = leaves_left [] 0" "es \<noteq> []" "ck_F M = ck_F ?L" "keyptr M = keyptr ?L" by auto
  have "init_crypt_key key L = Some (M\<lparr>tree_num := 0\<rparr>)"
    using assms(1) M(1) by (simp add: init_crypt_key_def crypt_seek_def CRYPT_HEIGHT_def)
  moreover have "tree_inv (M\<lparr>tree_num := 0\<rparr>) es 16" using M(2) by (simp add: tree_inv_def node_z_def)
  ultimately show ?thesis using M by (auto simp: leaves_left_def)
qed

section \<open>Two implementations of the challenge response\<close>

lemma swap_sym: "swap i j xs = swap j i xs"
  by (cases "i = j") (auto simp: swap_def list_update_swap)

lemma deal_agree:
  assumes "key \<noteq> []" and "length key \<le> 256" and "n \<le> 256"
  shows "foldl (cengine_deal key) (d, 0, 0) [0..<n] =
    (fst (foldl (sk_deal key) (d, 0) [0..<n]), word_of_nat (n mod length key), snd (foldl (sk_deal key) (d, 0) [0..<n]))"
  using assms(3)
proof (induction n)
  case (Suc n)
  obtain s a where s: "foldl (sk_deal key) (d, 0) [0..<n] = (s, a)" by fastforce
  have m: "n mod length key < 256" proof -
    have "n mod length key < length key" using assms(1) by simp
    then show ?thesis using assms(2) by linarith
  qed
  have "(n mod length key + 1) mod length key = Suc n mod length key" by (simp add: mod_simps)
  then show ?case
    using Suc s m
    by (simp add: cengine_deal_def sk_deal_def Let_def unat_word_of_nat_byte swap_sym [of n] ac_simps)
qed simp

lemma step_agree:
  assumes "length d = 256"
  shows "cengine_step (d, a, b) c = sk_step (d, a, b) c"
proof -
  define a' where "a' = a + (c + 1)"
  define b' where "b' = b + cell d a'"
  have sw: "swap (unat a') (unat b') d = put_cell a' (cell d b') (put_cell b' (cell d a') d)"
    by (subst swap_sym) (simp add: swap_def put_cell_def cell_def)
  have "cell (put_cell a' (cell d b') (put_cell b' (cell d a') d)) a' = cell d b'"
    "cell (put_cell a' (cell d b') (put_cell b' (cell d a') d)) b' = cell d a'"
    using assms by (auto simp: cell_put_cell)
  moreover have "a + c + 1 = a'" "cell d a' + b = b'" by (simp_all add: a'_def b'_def)
  ultimately show ?thesis
    unfolding cengine_step_def sk_step_def Let_def prod.case a'_def [symmetric] b'_def [symmetric]
    by (simp add: sw add.commute)
qed

lemma run_agree:
  assumes "length d = 256"
  shows "crypt_run cengine_step (d, a, b) src = crypt_run sk_step (d, a, b) src"
  using assms
proof (induction src arbitrary: d a b)
  case (Cons c src)
  obtain k d' a' b' where s: "sk_step (d, a, b) c = Some (k, (d', a', b'))"
    by (simp add: sk_step_def Let_def)
  then have "length d' = 256" using Cons.prems by (auto simp: sk_step_def Let_def)
  from Cons.IH [OF this] s step_agree [OF Cons.prems] show ?case by simp
qed simp

lemma encode_ct_gsvalfunc: "encode_ct c = gsvalfunc c"
  by (simp add: encode_ct_def gsvalfunc_def)

lemma add_disjoint:
  fixes u v :: byte
  assumes "k + m = 8"
  shows "push_bit k u + drop_bit m v = push_bit k u OR drop_bit m v"
proof (rule disjunctive_add)
  show "\<not> bit (push_bit k u) n \<or> \<not> bit (drop_bit m v) n" for n
  proof (cases "n < k")
    case False
    then have "\<not> bit v (m + n)" using assms bit_imp_le_length [of v "m + n"] by auto
    then show ?thesis by (simp add: bit_drop_bit_eq)
  qed (simp add: bit_push_bit_iff)
qed

lemma kwart_quad: "kwart x y z = sk_quad x y z"
proof -
  have "push_bit 4 (x AND 3) + drop_bit 4 y = push_bit 4 (x AND 3) OR drop_bit 4 y"
    "push_bit 2 (y AND 15) + drop_bit 6 z = push_bit 2 (y AND 15) OR drop_bit 6 z"
    by (rule add_disjoint, simp)+
  then show ?thesis by (simp only: kwart_def sk_quad_def list.map encode_ct_gsvalfunc)
qed

lemma encode_agree: "cengine_gs_encode ins = sk_quads (pad3 ins)"
proof (induction ins rule: cengine_gs_encode.induct)
  case (4 a b c ins)
  have "pad3 (a # b # c # ins) = a # b # c # pad3 ins" by (simp add: pad3_def mod_Suc)
  with 4 show ?case by (simp add: kwart_quad del: sk_quads.simps(2))
next
  case (2 a)
  have "pad3 [a] = [a, 0, 0]" by (simp add: pad3_def numeral_2_eq_2)
  then show ?case by (simp add: kwart_quad)
next
  case (3 a b)
  have "pad3 [a, b] = [a, b, 0]" by (simp add: pad3_def)
  then show ?case by (simp add: kwart_quad)
qed (simp add: pad3_def)

lemma length_sk_deal: "length (fst (foldl (sk_deal key) (d, a) is)) = length d"
  by (induction "is" arbitrary: d a) (simp_all add: sk_deal_def Let_def)

section \<open>Properties\<close>

text \<open>The key check of the first browsing protocol and the challenge response of the heartbeat
  protocol are the same function: enciphering with the card engine and encoding gives the
  response of \<open>gsseckey\<close> for encryption type 0.\<close>

theorem cengine_is_gsseckey:
  assumes "key \<noteq> []" and "length key \<le> 256" and "1 \<le> length src" and "length src \<le> 65"
  shows "map_option cengine_gs_encode (cengine_gs_encrypt key src) = gsseckey src key 0"
proof -
  obtain d a where d: "foldl (sk_deal key) (ascending_deck, 0) [0..<256] = (d, a)" by fastforce
  have len: "length d = 256"
    using length_sk_deal [of key ascending_deck 0 "[0..<256]"] d by (simp add: ascending_deck_def)
  have f: "foldl (cengine_deal key) (ascending_deck, 0, 0) [0..<256] = (d, word_of_nat (256 mod length key), a)"
    using deal_agree [OF assms(1,2), of 256] d by simp
  show ?thesis
    unfolding cengine_gs_encrypt_def gsseckey_def Let_def f d
    using assms sk_step_total [of "(d, 0, 0)" src]
    by (auto simp: run_agree [OF len] encode_agree Suc_le_eq)
qed

theorem cengine_is_gsseckey_witness:
  "map_option cengine_gs_encode (cengine_gs_encrypt [107, 98] [65, 66, 67, 68]) = gsseckey [65, 66, 67, 68] [107, 98] 0"
  by (rule cengine_is_gsseckey) simp_all

lemma docrypt_works:
  assumes "tree_ok M"
  shows "\<exists>ct N. crypt_docrypt M data = Some (ct, N) \<and> crypt_docrypt M ct = Some (data, N) \<and> tree_ok N"
  using crypt_docrypt_total [OF assms, of data] unfolding crypt_docrypt_def by (blast dest: docrypt.run_dec_enc)

lemma init_crypt_key_works:
  assumes "key \<noteq> []" and "stacks_ok L"
  shows "\<exists>M. init_crypt_key key L = Some M \<and> tree_ok M"
  using init_crypt_key_ok [OF assms] by (auto simp: tree_ok_def)

text \<open>C22. Once set up with a non-empty key, the tree cipher works for ever: every block is
  enciphered without an access outside the stacks or the key words, the walk of each word ends,
  and deciphering from the same state gives the block back.\<close>

theorem crypt_docrypt_roundtrip:
  assumes "key \<noteq> []" and "stacks_ok L"
  shows "\<exists>M. init_crypt_key key L = Some M \<and>
    (\<forall>data. \<exists>ct N. crypt_docrypt M data = Some (ct, N) \<and> crypt_docrypt M ct = Some (data, N) \<and>
       (\<forall>data'. \<exists>ct' N'. crypt_docrypt N data' = Some (ct', N') \<and> crypt_docrypt N ct' = Some (data', N')))"
proof -
  obtain M where M: "init_crypt_key key L = Some M" "tree_ok M"
    using init_crypt_key_works [OF assms] by blast
  then have "\<exists>ct N. crypt_docrypt M data = Some (ct, N) \<and> crypt_docrypt M ct = Some (data, N) \<and>
       (\<forall>data'. \<exists>ct' N'. crypt_docrypt N data' = Some (ct', N') \<and> crypt_docrypt N ct' = Some (data', N'))" for data
    using docrypt_works by metis
  with M(1) show ?thesis by blast
qed

definition zero_crypt_key :: crypt_key where
  "zero_crypt_key = \<lparr>ck_F = replicate 256 0, x_stack = replicate 16 0, y_stack = replicate 16 0,
     z_stack = replicate 16 0, ck_index = 0, node = (0, 0, 0), tree_num = 0, keydata = replicate 16 0, keyptr = None\<rparr>"

theorem crypt_docrypt_roundtrip_witness:
  "\<exists>M ct N. init_crypt_key [1, 2, 3] zero_crypt_key = Some M \<and>
     crypt_docrypt M [104, 105] = Some (ct, N) \<and> crypt_docrypt M ct = Some ([104, 105], N)"
  using crypt_docrypt_roundtrip [of "[1, 2, 3]" zero_crypt_key]
  by (fastforce simp: stacks_ok_def zero_crypt_key_def)

end
