(* ===== verification/Enctype1.thy ===== *)
theory Enctype1
  imports GUtil SBCrypt Buffer
begin

text \<open>
  Encryption type 1 of the first server browsing protocol:
  \<open>serverbrowsing/server/enctype_shared.cpp\<close> (the tree cipher on one flat array \<open>tbuff\<close>),
  \<open>enctype1_decoder.cpp\<close>, \<open>enctype1_encoder.cpp\<close> and \<open>enctype1_helper.cpp\<close>, which compose them
  into the packet of a server list. \<open>None\<close> is an access outside an array.
\<close>

section \<open>\<open>enctype_shared.cpp\<close>\<close>

text \<open>
  \<open>unsigned int tbuff[326]\<close>: 256 table words, three stacks of 16 words at 256, 272 and 288, the
  depth at 304, the node at 305 to 307, the tree number at 308, the key words from 309 on.
\<close>

definition TBUFF :: nat where "TBUFF = 326"

text \<open>The inner loop of \<open>encshare2\<close>, on \<open>tbuff\<close> and the locals \<open>t2\<close>, \<open>t1\<close>, \<open>t3\<close>, \<open>t5\<close>.\<close>

function enc2_left ::
  "u32 list \<Rightarrow> u32 \<Rightarrow> u32 \<Rightarrow> u32 \<Rightarrow> u32 \<Rightarrow> (u32 list \<times> u32 \<times> u32 \<times> u32 \<times> u32) option" where
  "enc2_left tbuff t2 t1 t3 t5 =
     (if t5 < 65536 then
        if unat t2 + 288 \<ge> TBUFF then None
        else
          let a1 = t1 + t5; a3 = t3 + a1; b1 = a1 + a3;
              tb = tbuff[unat t2 + 256 := b1, unat t2 + 272 := a3, unat t2 + 288 := t5];
              t4 = ROT24 a3;
              c1 = mixF tb b1; c4 = mixF tb t4;
              d3 = ROT24 c4; d4 = ROT8 c1;
              e4 = mixF tb d4; e3 = mixF tb d3
          in enc2_left tb (t2 + 1) (ROT8 e4) e3 (push_bit 1 t5)
      else Some (tbuff, t2, t1, t3, t5))"
  by pat_completeness auto
termination
proof (relation "measure (\<lambda>(tbuff, t2, t1, t3, t5). 326 - unat t2)", goal_cases)
  case (2 tbuff t2 t1 t3 t5)
  then have "unat t2 < 38" by (simp add: TBUFF_def)
  then have "unat (t2 + 1) = unat t2 + 1" by (simp add: unat_word_ariths)
  then show ?case using \<open>unat t2 < 38\<close> by simp
qed simp

declare enc2_left.simps [simp del]

text \<open>After a leaf: \<open>t2--\<close>, the stacked node, its right child.\<close>

definition enc2_right :: "u32 list \<Rightarrow> u32 \<Rightarrow> (u32 \<times> u32 \<times> u32 \<times> u32) option" where
  "enc2_right tbuff t2 =
     (let s2 = t2 - 1 in
      if unat (s2 + 256) \<ge> TBUFF \<or> unat (s2 + 272) \<ge> TBUFF \<or> unat (s2 + 288) \<ge> TBUFF then None
      else
        let t1 = NOT (tbuff ! unat (s2 + 256)); t5 = tbuff ! unat (s2 + 272);
            t3 = ROT24 t1;
            a3 = mixF tbuff t3; a5 = mixF tbuff t5;
            b1 = ROT24 a3; b4 = ROT8 a5;
            c1 = mixF tbuff b1; c4 = mixF tbuff b4
        in Some (s2, c1, ROT8 c4, push_bit 1 (tbuff ! unat (s2 + 288)) + 1))"

text \<open>The outer loop, which stores a word through \<open>tbuffp\<close> (an index into \<open>tbuff\<close>) per turn.\<close>

fun enc2_words ::
  "nat \<Rightarrow> nat \<Rightarrow> u32 list \<Rightarrow> u32 \<Rightarrow> u32 \<Rightarrow> u32 \<Rightarrow> u32 \<Rightarrow> (u32 list \<times> u32 \<times> u32 \<times> u32 \<times> u32) option" where
  "enc2_words 0 tbuffp tbuff t2 t1 t3 t5 = Some (tbuff, t2, t1, t3, t5)"
| "enc2_words (Suc len) tbuffp tbuff t2 t1 t3 t5 =
     (case enc2_left tbuff t2 t1 t3 t5 of
        None \<Rightarrow> None
      | Some (tb, s2, s1, s3, s5) \<Rightarrow>
          if tbuffp \<ge> TBUFF then None
          else
            let tb' = tb[tbuffp := s3 XOR s1]
            in case enc2_right tb' s2 of
                 None \<Rightarrow> None
               | Some (r2, r1, r3, r5) \<Rightarrow> enc2_words len (tbuffp + 1) tb' r2 r1 r3 r5)"

definition encshare2 :: "u32 list \<Rightarrow> nat \<Rightarrow> nat \<Rightarrow> u32 list option" where
  "encshare2 tbuff tbuffp len =
     map_option (\<lambda>(tb, t2, t1, t3, t5). tb[304 := t2, 305 := t1, 306 := t3, 307 := t5])
       (enc2_words len tbuffp tbuff (tbuff ! 304) (tbuff ! 305) (tbuff ! 306) (tbuff ! 307))"

text \<open>One key byte; the state is \<open>tbuff\<close> and \<open>p - s\<close>, \<open>s\<close> being the bytes of the key words.\<close>

definition enc1_step :: "u32 list \<times> nat \<Rightarrow> (byte \<times> u32 list \<times> nat) option" where
  "enc1_step = (\<lambda>(tbuff, p).
     (if p = 63 then map_option (\<lambda>tb. (key_byte (drop 309 tb) 0, tb, 1)) (encshare2 tbuff 309 16)
      else Some (key_byte (drop 309 tbuff) p, tbuff, p + 1)))"

definition encshare1 :: "u32 list \<Rightarrow> byte list \<Rightarrow> (byte list \<times> u32 list) option" where
  "encshare1 tbuff data =
     (case encshare2 tbuff 309 16 of
        None \<Rightarrow> None
      | Some tb \<Rightarrow> map_option (map_prod id fst) (crypt_run (stream_enc enc1_step) (tb, 0) data))"

interpretation encshare: keystream enc1_step "stream_enc enc1_step"
  by unfold_locales simp

text \<open>The loop of \<open>encshare3\<close> over \<open>i = 2^15 .. 2^0\<close>, on \<open>data\<close>, \<open>t2\<close>, \<open>t1\<close>, \<open>t4\<close>.\<close>

fun enc3_loop :: "nat \<Rightarrow> u32 \<Rightarrow> u32 list \<Rightarrow> u32 \<Rightarrow> u32 \<Rightarrow> u32 \<Rightarrow> (u32 list \<times> u32 \<times> u32 \<times> u32) option" where
  "enc3_loop 0 n2 data t2 t1 t4 = Some (data, t2, t1, t4)"
| "enc3_loop (Suc b) n2 data t2 t1 t4 =
     (let a2 = t2 + t4; a1 = t1 + a2; b2 = a2 + a1 in
      if bit n2 b then
        let c2 = NOT b2; c4 = push_bit 1 t4 + 1; t3 = ROT24 c2;
            d3 = mixF data t3; d1 = mixF data a1; e2 = ROT24 d3; e3 = ROT8 d1;
            f2 = mixF data e2; f3 = mixF data e3
        in enc3_loop b n2 data f2 (ROT8 f3) c4
      else
        let k = data ! 304 in
        if unat (k + 256) \<ge> TBUFF \<or> unat (k + 272) \<ge> TBUFF \<or> unat (k + 288) \<ge> TBUFF then None
        else
          let dt = data[unat (k + 256) := b2, unat (k + 272) := a1, unat (k + 288) := t4];
              dt' = dt[304 := dt ! 304 + 1];
              t3 = ROT24 a1;
              c2 = mixF dt' b2; c3 = mixF dt' t3; d1 = ROT24 c3; d3 = ROT8 c2;
              e3 = mixF dt' d3; e1 = mixF dt' d1
          in enc3_loop b n2 dt' (ROT8 e3) e1 (push_bit 1 t4))"

definition encshare3 :: "u32 list \<Rightarrow> u32 \<Rightarrow> u32 \<Rightarrow> u32 list option" where
  "encshare3 data n1 n2 =
     map_option (\<lambda>(d, t2, t1, t4). d[305 := t2, 306 := t1, 307 := t4, 308 := n1])
       (enc3_loop 16 n2 (data[304 := 0]) n1 0 1)"

definition enc4_swap :: "byte list \<Rightarrow> u32 list \<times> byte \<Rightarrow> nat \<Rightarrow> u32 list \<times> byte" where
  "enc4_swap src = (\<lambda>(dest, pos) i.
     (let pos' = pos + (ucast (dest ! i) + src ! (i mod length src))
      in (swap i (unat pos') dest, pos')))"

definition enc4_round :: "byte list \<Rightarrow> u32 list \<Rightarrow> nat \<Rightarrow> u32 list" where
  "enc4_round src dest y =
     (let d1 = map (\<lambda>i. push_bit 8 (dest ! i) + word_of_nat i) [0..<256] @ drop 256 dest;
          pass = (\<lambda>s. foldl (enc4_swap src) s [0..<256])
      in fst (pass (pass (d1, word_of_nat y))))"

definition enc4_table :: "byte list \<Rightarrow> u32 list \<Rightarrow> u32 list" where
  "enc4_table src dest =
     (let d = foldl (enc4_round src) (replicate 256 0 @ drop 256 dest) [0..<4]
      in map (\<lambda>i. d ! i XOR word_of_nat i) [0..<256] @ drop 256 d)"

definition encshare4 :: "byte list \<Rightarrow> u32 list \<Rightarrow> u32 list option" where
  "encshare4 src dest = (if src = [] then None else encshare3 (enc4_table src dest) 0 0)"

section \<open>\<open>enctype1_decoder.cpp\<close> and \<open>enctype1_encoder.cpp\<close>\<close>

text \<open>\<open>enctype1_func2\<close>: the state is \<open>n1\<close>, \<open>n2\<close> and \<open>crypt\<close>, whose cells 256 and 257 keep them.\<close>

definition func2_step :: "byte \<times> byte \<times> byte list \<Rightarrow> (byte \<times> byte \<times> byte \<times> byte list) option" where
  "func2_step = (\<lambda>(n1, n2, crypt).
     (let m1 = n1 + 1; t = cell crypt m1; m2 = n2 + t;
          c = put_cell m2 t (put_cell m1 (cell crypt m2) crypt)
      in Some (cell c (t + cell c m1), m1, m2, c)))"

definition enctype1_func2 :: "byte list \<Rightarrow> byte list \<Rightarrow> (byte list \<times> byte list) option" where
  "enctype1_func2 data crypt =
     map_option (\<lambda>(d, n1, n2, c). (d, c[256 := n1, 257 := n2]))
       (crypt_run (stream_enc func2_step) (crypt ! 256, crypt ! 257, crypt) data)"

interpretation func2: keystream func2_step "stream_enc func2_step"
  by unfold_locales simp

definition func3_deal :: "byte list \<Rightarrow> deck \<times> byte \<Rightarrow> nat \<Rightarrow> deck \<times> byte" where
  "func3_deal data = (\<lambda>(buff, pos) i.
     (let pos' = pos + (data ! (i mod length data) + buff ! i) in (swap i (unat pos') buff, pos')))"

definition enctype1_func3 :: "byte list \<Rightarrow> byte list option" where
  "enctype1_func3 data =
     (if data = [] then None
      else Some (fst (foldl (func3_deal data) (descending_deck, 0) [0..<256]) @ [0, 0]))"

text \<open>The mask of \<open>enctype1_func5\<close>: the least \<open>2^k - 1\<close> that reaches \<open>cnt\<close>.\<close>

function f5_mask :: "nat \<Rightarrow> nat \<Rightarrow> nat" where
  "f5_mask cnt m = (let m' = 2 * m + 1 in if m' < cnt then f5_mask cnt m' else m')"
  by pat_completeness auto
termination
  by (relation "measure (\<lambda>(cnt, m). cnt - m)") auto

declare f5_mask.simps [simp del]

function f5_loop :: "nat \<Rightarrow> nat \<Rightarrow> byte list \<Rightarrow> nat \<Rightarrow> nat \<Rightarrow> nat \<Rightarrow> deck \<Rightarrow> (nat \<times> nat \<times> nat) option" where
  "f5_loop cnt m idb i n1 n2 enc1key =
     (if n2 \<ge> length idb \<or> cnt = 0 then None
      else
        let a1 = unat (enc1key ! (and n1 255)) + unat (idb ! n2);
            (b1, b2) = (if n2 + 1 \<ge> length idb then (a1 + length idb, 0) else (a1, n2 + 1));
            tmp = (if i + 1 > 11 then and b1 m mod cnt else and b1 m)
        in if tmp > cnt then f5_loop cnt m idb (i + 1) b1 b2 enc1key else Some (tmp, b1, b2))"
  by pat_completeness auto
termination
proof (relation "measure (\<lambda>(cnt, m, idb, i, n1, n2, enc1key). 12 - i)", goal_cases)
  case (2 cnt m idb i n1 n2 enc1key)
  then show ?case by (cases "11 < Suc i") (auto simp: mod_not_above)
qed simp

declare f5_loop.simps [simp del]

definition enctype1_func5 :: "nat \<Rightarrow> byte list \<Rightarrow> nat \<Rightarrow> nat \<Rightarrow> deck \<Rightarrow> (nat \<times> nat \<times> nat) option" where
  "enctype1_func5 cnt idb n1 n2 enc1key =
     (if cnt = 0 then Some (0, n1, n2)
      else f5_loop cnt (if cnt > 1 then f5_mask cnt 1 else 1) idb 0 n1 n2 enc1key)"

text \<open>The loop over \<open>i = 255 .. 0\<close> of \<open>enctype1_func4\<close>; \<open>t1\<close> is an \<open>unsigned char\<close>.\<close>

fun func4_loop :: "nat \<Rightarrow> byte list \<Rightarrow> nat \<Rightarrow> nat \<Rightarrow> byte list \<Rightarrow> (byte list \<times> nat) option" where
  "func4_loop 0 idb n1 n2 enc1key = Some (enc1key, n1)"
| "func4_loop (Suc i) idb n1 n2 enc1key =
     (case enctype1_func5 i idb n1 n2 enc1key of
        None \<Rightarrow> None
      | Some (t, m1, m2) \<Rightarrow> func4_loop i idb m1 m2 (swap i (t mod 256) enc1key))"

text \<open>An empty \<open>id\<close> leaves the array as it was.\<close>

definition enctype1_func4 :: "byte list \<Rightarrow> byte list \<Rightarrow> byte list option" where
  "enctype1_func4 idb enc1key =
     (if idb = [] then Some enc1key
      else
        case func4_loop 256 idb 0 0 (ascending_deck @ drop 256 enc1key) of
          None \<Rightarrow> None
        | Some (k, n1) \<Rightarrow>
            Some (k[256 := k ! 1, 257 := k ! 3, 258 := k ! 5, 259 := k ! 7, 260 := k ! (and n1 255)]))"

text \<open>
  The common statements of \<open>enctype1_func7\<close> and \<open>enctype1_func7e\<close>, up to \<open>c ^= b\<close>: the new array
  and \<open>c\<close>.
\<close>

definition func7_mix :: "byte list \<Rightarrow> byte list \<times> byte" where
  "func7_mix enc1key =
     (let a = enc1key ! 256; b = enc1key ! 257; c = cell enc1key a;
          k = enc1key[256 := a + 1]; k = k[257 := b + c];
          a = k ! 260; b = k ! 257; b' = cell k b; c = cell k a;
          k = put_cell a b' k;
          a = k ! 259; b = k ! 257; a = cell k a;
          k = put_cell b a k;
          a = k ! 256; b = k ! 259; a = cell k a;
          k = put_cell b a k;
          a = k ! 256;
          k = put_cell a c k;
          b = k ! 258; a = cell k c; c = k ! 259; b = b + a;
          k = k[258 := b];
          a = b; c = cell k c; b = k ! 257; b = cell k b; a = cell k a; c = c + b;
          b = k ! 260; b = cell k b; c = c + b;
          b = cell k c; c = k ! 256; c = cell k c; a = a + c;
          c = cell k b; b = cell k a
      in (k, c XOR b))"

definition enctype1_func7 :: "byte \<Rightarrow> byte list \<Rightarrow> byte \<times> byte list" where
  "enctype1_func7 len enc1key =
     (let (k, c) = func7_mix enc1key; a = len; k = k[260 := a]; c = c XOR a in (c, k[259 := c]))"

definition enctype1_func7e :: "byte \<Rightarrow> byte list \<Rightarrow> byte \<times> byte list" where
  "enctype1_func7e v enc1key =
     (let (k, c) = func7_mix enc1key; c = c XOR v; k = k[260 := c] in (c, k[259 := v]))"

definition enctype1_func6 :: "byte list \<Rightarrow> byte list \<Rightarrow> (byte list \<times> byte list) option" where
  "enctype1_func6 data enc1key = crypt_run (\<lambda>k b. Some (enctype1_func7 b k)) enc1key data"

definition enctype1_func6e :: "byte list \<Rightarrow> byte list \<Rightarrow> (byte list \<times> byte list) option" where
  "enctype1_func6e data enc1key = crypt_run (\<lambda>k b. Some (enctype1_func7e b k)) enc1key data"

definition enctype1_func8 :: "byte list \<Rightarrow> byte list \<Rightarrow> byte list" where
  "enctype1_func8 data table = map (\<lambda>b. table ! unat b) data"

section \<open>The flat array is the tree cipher\<close>

text \<open>The table and the stacks of a \<open>crypt_key\<close> laid out in \<open>tbuff\<close>.\<close>

definition flat :: "u32 list \<Rightarrow> crypt_key \<Rightarrow> bool" where
  "flat tb L \<longleftrightarrow> length tb = 326 \<and> length (ck_F L) = 256 \<and> take 256 tb = ck_F L \<and>
     length (x_stack L) = 16 \<and> length (y_stack L) = 16 \<and> length (z_stack L) = 16 \<and>
     (\<forall>i < 16. tb ! (256 + i) = x_stack L ! i \<and> tb ! (272 + i) = y_stack L ! i \<and> tb ! (288 + i) = z_stack L ! i)"

lemma low_byte_less: "unat (x AND 0xFF :: u32) < 256"
proof -
  have "x AND 0xFF = take_bit 8 x" by (simp add: take_bit_eq_mask mask_eq_exp_minus_1)
  then show ?thesis by (simp only: unat_take_bit) simp
qed

lemma mixF_flat: "flat tb L \<Longrightarrow> mixF tb x = mixF (ck_F L) x"
proof -
  assume "flat tb L"
  then have "ck_F L ! i = tb ! i" if "i < 256" for i using that by (metis flat_def nth_take)
  then show ?thesis by (simp only: mixF_def low_byte_less)
qed

lemma go_left_explicit:
  assumes "ck_index L < 16" and "node L = (x, y, z)"
  shows "go_left L = (let x1 = x + z; y1 = y + x1; x2 = x1 + y1 in
     Some (L\<lparr>x_stack := (x_stack L)[ck_index L := x2], y_stack := (y_stack L)[ck_index L := y1],
       z_stack := (z_stack L)[ck_index L := z], ck_index := ck_index L + 1, node := macro_f (ck_F L) (x2, y1, z)\<rparr>))"
  using assms by (simp add: go_left_def push_node_def macro_d_def Let_def CRYPT_HEIGHT_def)

lemma flat_push:
  assumes "flat tb L" and "k < 16"
  shows "flat (tb[k + 256 := a, k + 272 := b, k + 288 := c])
    (L\<lparr>x_stack := (x_stack L)[k := a], y_stack := (y_stack L)[k := b], z_stack := (z_stack L)[k := c],
       ck_index := i, node := n\<rparr>)"
  using assms by (auto simp: flat_def nth_list_update)

lemma push_bit_1: "push_bit 1 (t :: u32) = t + t"
  by (simp add: push_bit_eq_mult)

lemma enc2_left_flat:
  assumes "flat tb L" and "node L = (x, y, z)" and "tree_inv L ds d" and "unat t2 = ck_index L"
  shows "\<exists>M tb' s2 x' y' z'. crypt_descend L = Some M \<and> enc2_left tb t2 x y z = Some (tb', s2, x', y', z') \<and>
    flat tb' M \<and> node M = (x', y', z') \<and> unat s2 = ck_index M \<and> drop 309 tb' = drop 309 tb \<and>
    keydata M = keydata L \<and> keyptr M = keyptr L"
  using assms
proof (induction L arbitrary: tb t2 x y z ds d rule: crypt_descend.induct)
  case (1 L)
  have zn: "node_z L = z" using "1.prems"(2) by (simp add: node_z_def)
  have m: "CRYPT_MIN_LEAF_NUM = 65536" by (simp add: CRYPT_MIN_LEAF_NUM_def CRYPT_HEIGHT_def)
  show ?case
  proof (cases "z < 65536")
    case False
    then show ?thesis using "1.prems" zn m by (auto simp: crypt_descend.simps [of L] enc2_left.simps [of tb t2])
  next
    case True
    have "d < 16"
    proof (rule ccontr)
      assume "\<not> d < 16"
      then have "2 ^ 16 \<le> unat z" using "1.prems"(3) zn by (auto simp: tree_inv_def at_depth_def)
      with True show False by (simp add: word_less_nat_alt)
    qed
    then have i: "ck_index L < 16" using tree_inv_index [OF "1.prems"(3)] by simp
    define x1 y1 x2 where "x1 = x + z" and "y1 = y + x1" and "x2 = x1 + y1"
    define M where "M = L\<lparr>x_stack := (x_stack L)[ck_index L := x2], y_stack := (y_stack L)[ck_index L := y1],
       z_stack := (z_stack L)[ck_index L := z], ck_index := ck_index L + 1, node := macro_f (ck_F L) (x2, y1, z)\<rparr>"
    have M: "go_left L = Some M"
      using go_left_explicit [OF i "1.prems"(2)] unfolding Let_def M_def x1_def y1_def x2_def .
    have tM: "tree_inv M (ds @ [d]) (d + 1)" using go_left_ok [OF "1.prems"(3) \<open>d < 16\<close>] M by auto
    define tb1 where "tb1 = tb[unat t2 + 256 := x2, unat t2 + 272 := y1, unat t2 + 288 := z]"
    have f1: "flat tb1 M"
      unfolding tb1_def M_def using flat_push [OF "1.prems"(1) i] "1.prems"(4) by simp
    have Fm: "mixF tb1 v = mixF (ck_F L) v" for v using mixF_flat [OF f1] by (simp add: M_def)
    obtain x' y' where n': "macro_f (ck_F L) (x2, y1, z) = (x', y', z + z)"
      by (auto simp: macro_f_def Let_def)
    have nM: "node M = (x', y', z + z)" by (simp add: M_def n')
    have t2': "unat (t2 + 1) = ck_index M" using "1.prems"(4) i by (simp add: unat_word_ariths M_def)
    have step: "enc2_left tb t2 x y z = enc2_left tb1 (t2 + 1) x' y' (z + z)"
    proof -
      have nb: "(TBUFF \<le> unat t2 + 288) = False" using i "1.prems"(4) by (simp add: TBUFF_def)
      have xy: "x' = ROT8 (mixF (ck_F L) (ROT8 (mixF (ck_F L) x2)))"
        "y' = mixF (ck_F L) (ROT24 (mixF (ck_F L) (ROT24 y1)))"
        using n' by (simp_all add: macro_f_def Let_def)
      show ?thesis
        by (simp only: enc2_left.simps [of tb t2 x y z] Let_def True nb if_True if_False x1_def [symmetric]
            y1_def [symmetric] x2_def [symmetric] tb1_def [symmetric] Fm push_bit_1 xy)
    qed
    have lt: "node_z L < CRYPT_MIN_LEAF_NUM" using True zn m by simp
    from "1.IH" [OF lt M f1 nM tM t2'] obtain N tb' s2 a b c where N: "crypt_descend M = Some N"
      "enc2_left tb1 (t2 + 1) x' y' (z + z) = Some (tb', s2, a, b, c)" "flat tb' N" "node N = (a, b, c)"
      "unat s2 = ck_index N" "drop 309 tb' = drop 309 tb1" "keydata N = keydata M" "keyptr N = keyptr M" by blast
    have "crypt_descend L = Some N" using lt M N(1) by (subst crypt_descend.simps) simp
    moreover have "drop 309 tb1 = drop 309 tb" using i "1.prems"(4) by (simp add: tb1_def)
    moreover have "keydata M = keydata L" "keyptr M = keyptr L" by (simp_all add: M_def)
    ultimately show ?thesis using N step by auto
  qed
qed

lemma enc2_right_flat:
  assumes "flat tb L" and "unat t2 = ck_index L" and "0 < ck_index L" and "ck_index L \<le> 16"
  shows "\<exists>s2 x y z. enc2_right tb t2 = Some (s2, x, y, z) \<and> node (pop_right L) = (x, y, z) \<and>
    unat s2 = ck_index (pop_right L) \<and> flat tb (pop_right L) \<and> keydata (pop_right L) = keydata L \<and>
    keyptr (pop_right L) = keyptr L"
proof -
  define i where "i = ck_index L - 1"
  have i: "i < 16" "ck_index L = i + 1" using assms by (auto simp: i_def)
  have t: "t2 = word_of_nat (i + 1)"
  proof -
    have "t2 = word_of_nat (unat t2)" by simp
    also have "unat t2 = i + 1" using assms(2) i(2) by simp
    finally show ?thesis .
  qed
  have s: "t2 - 1 = word_of_nat i" by (simp add: t)
  have u: "unat (t2 - 1) = i" "unat (t2 - 1 + 256) = 256 + i" "unat (t2 - 1 + 272) = 272 + i"
    "unat (t2 - 1 + 288) = 288 + i"
    using i(1) unfolding s by (simp_all add: unat_word_ariths unat_of_nat)
  have v: "tb ! (256 + i) = x_stack L ! i" "tb ! (272 + i) = y_stack L ! i" "tb ! (288 + i) = z_stack L ! i"
    using assms(1) i(1) by (auto simp: flat_def)
  have "flat tb (pop_right L)" using assms(1) by (simp add: flat_def pop_right_def Let_def)
  then show ?thesis
    using i u v mixF_flat [OF assms(1)]
    by (simp add: enc2_right_def pop_right_def Let_def TBUFF_def macro_g_def push_bit_1 add.assoc)
qed


lemma flat_high: "flat tb L \<Longrightarrow> 309 \<le> off \<Longrightarrow> flat (tb[off := w]) L"
  by (simp add: flat_def)

lemma flat_frame: "flat tb (L\<lparr>keydata := ws, keyptr := p\<rparr>) = flat tb L"
  by (simp add: flat_def)

lemma enc2_words_flat:
  assumes "flat tb L" and "node L = (x, y, z)" and "tree_inv L ds d" and "unat t2 = ck_index L"
    and "n < leaves_left ds d" and "309 \<le> off" and "off + n \<le> 326"
  shows "\<exists>ws M tb' s2 x' y' z' es e. crypt_encrypt L n = Some (ws, M) \<and>
    enc2_words n off tb t2 x y z = Some (tb', s2, x', y', z') \<and> flat tb' M \<and> node M = (x', y', z') \<and>
    unat s2 = ck_index M \<and> tree_inv M es e \<and> leaves_left es e + n = leaves_left ds d \<and> length ws = n \<and>
    (\<forall>i. 309 \<le> i \<and> i < off \<longrightarrow> tb' ! i = tb ! i) \<and> (\<forall>i < n. tb' ! (off + i) = ws ! i)"
  using assms
proof (induction n arbitrary: L tb x y z ds d t2 off)
  case (Suc n)
  obtain M tb1 s2 a b c where M: "crypt_descend L = Some M" "enc2_left tb t2 x y z = Some (tb1, s2, a, b, c)"
    "flat tb1 M" "node M = (a, b, c)" "unat s2 = ck_index M" "drop 309 tb1 = drop 309 tb"
    using enc2_left_flat [OF Suc.prems(1-4)] by blast
  obtain es where es: "tree_inv M es 16" "leaves_left es 16 = leaves_left ds d"
    using crypt_descend_ok [OF Suc.prems(3)] M(1) by auto
  have "es \<noteq> []" using es(2) Suc.prems(5) by (auto simp: leaves_left_def)
  then obtain gs g where eg: "es = gs @ [g]" by (metis rev_exhaust)
  have idx: "0 < ck_index M" "ck_index M \<le> 16" using es(1) eg tree_inv_index [OF es(1)] by (auto simp: tree_inv_def)
  define tb2 where "tb2 = tb1[off := b XOR a]"
  have f2: "flat tb2 M" unfolding tb2_def by (rule flat_high [OF M(3) Suc.prems(6)])
  obtain r2 x' y' z' where R: "enc2_right tb2 s2 = Some (r2, x', y', z')" "node (pop_right M) = (x', y', z')"
    "unat r2 = ck_index (pop_right M)" "flat tb2 (pop_right M)"
    using enc2_right_flat [OF f2 M(5) idx] by blast
  have p: "tree_inv (pop_right M) gs (g + 1)" "leaves_left gs (g + 1) + 1 = leaves_left ds d"
    using pop_right_ok [of M gs g] es eg by auto
  have "n < leaves_left gs (g + 1)" "309 \<le> off + 1" "off + 1 + n \<le> 326" using p(2) Suc.prems by auto
  from Suc.IH [OF R(4,2) p(1) R(3) this] obtain ws N tb' t3 u v w fs e where N:
    "crypt_encrypt (pop_right M) n = Some (ws, N)" "enc2_words n (off + 1) tb2 r2 x' y' z' = Some (tb', t3, u, v, w)"
    "flat tb' N" "node N = (u, v, w)" "unat t3 = ck_index N" "tree_inv N fs e"
    "leaves_left fs e + n = leaves_left gs (g + 1)" "length ws = n"
    "\<forall>i. 309 \<le> i \<and> i < off + 1 \<longrightarrow> tb' ! i = tb2 ! i" "\<forall>i < n. tb' ! (off + 1 + i) = ws ! i" by blast
  have same: "tb1 ! i = tb ! i" if "309 \<le> i" for i
  proof -
    have "tb1 ! (309 + (i - 309)) = tb ! (309 + (i - 309))"
      using M(3) Suc.prems(1) by (subst (1 2) nth_drop [symmetric]) (simp_all add: M(6) flat_def)
    then show ?thesis using that by simp
  qed
  have c1: "crypt_encrypt L (Suc n) = Some ((a XOR b) # ws, N)" using M(1,4) N(1) by simp
  have c2: "enc2_words (Suc n) off tb t2 x y z = Some (tb', t3, u, v, w)"
    using M(2) R(1) N(2) Suc.prems(7) by (simp add: TBUFF_def tb2_def [symmetric] Let_def)
  have c3: "tb' ! i = tb ! i" if "309 \<le> i" "i < off" for i
    using N(9) that same by (simp add: tb2_def)
  have "length tb1 = 326" using M(3) by (simp add: flat_def)
  then have "tb' ! off = a XOR b" using N(9) Suc.prems(6,7) by (simp add: tb2_def xor.commute)
  then have c4: "\<forall>i < Suc n. tb' ! (off + i) = ((a XOR b) # ws) ! i"
    using N(10) by (auto simp: less_Suc_eq_0_disj)
  have c5: "leaves_left fs e + Suc n = leaves_left ds d" using N(7) p(2) by simp
  show ?case
    using c1 c2 N(3-6) c5 N(8) c3 c4 by (intro exI conjI) auto
qed auto

text \<open>Between calls the flat state keeps depth and node in cells 304 to 307.\<close>

definition enc_rel :: "u32 list \<Rightarrow> crypt_key \<Rightarrow> bool" where
  "enc_rel tb L \<longleftrightarrow> flat tb L \<and> unat (tb ! 304) = ck_index L \<and> (tb ! 305, tb ! 306, tb ! 307) = node L"

lemma encshare2_rel:
  assumes "enc_rel tb L" and "tree_inv L ds d" and "16 < leaves_left ds d"
  shows "\<exists>ws M tb' es e. crypt_encrypt L 16 = Some (ws, M) \<and> encshare2 tb 309 16 = Some tb' \<and> enc_rel tb' M \<and>
    tree_inv M es e \<and> leaves_left es e + 16 = leaves_left ds d \<and> length ws = 16 \<and>
    (\<forall>i < 16. drop 309 tb' ! i = ws ! i)"
proof -
  have r: "flat tb L" "node L = (tb ! 305, tb ! 306, tb ! 307)" "unat (tb ! 304) = ck_index L"
    using assms(1) by (auto simp: enc_rel_def)
  obtain ws M tb' s2 x' y' z' es e where W: "crypt_encrypt L 16 = Some (ws, M)"
    "enc2_words 16 309 tb (tb ! 304) (tb ! 305) (tb ! 306) (tb ! 307) = Some (tb', s2, x', y', z')"
    "flat tb' M" "node M = (x', y', z')" "unat s2 = ck_index M" "tree_inv M es e"
    "leaves_left es e + 16 = leaves_left ds d" "length ws = 16" "\<forall>i < 16. tb' ! (309 + i) = ws ! i"
    using enc2_words_flat [OF r(1,2) assms(2) r(3) assms(3), of 309] by auto
  let ?t = "tb'[304 := s2, 305 := x', 306 := y', 307 := z']"
  have len: "length tb' = 326" using W(3) by (simp add: flat_def)
  have "enc_rel ?t M"
    using W(3-5) len by (auto simp: enc_rel_def flat_def nth_list_update)
  moreover have "\<forall>i < 16. drop 309 ?t ! i = ws ! i" using W(9) len by (simp add: nth_list_update)
  ultimately show ?thesis using W by (auto simp: encshare2_def)
qed

section \<open>The two key schedules\<close>

lemma unat_ucast_byte: "unat (ucast (w :: u32) :: byte) = unat w mod 256"
  by (simp only: unsigned_ucast_eq take_bit_eq_mod [where 'a = nat]) simp

lemma unat_ucast_word: "unat (ucast (b :: byte) :: u32) = unat b"
  by (simp only: unsigned_ucast_eq take_bit_nat_eq_self_iff) (rule less_trans [OF unat_byte_less], simp)

lemma ucast_byte_add: "(ucast (a + b :: u32) :: byte) = ucast a + ucast b"
proof -
  have "(unat a + unat b) mod 4294967296 mod 256 = (unat a + unat b) mod (256 :: nat)"
    by (rule mod_mod_cancel) simp
  then have "unat (ucast (a + b) :: byte) = unat (ucast a + ucast b :: byte)"
    by (simp add: unat_ucast_byte unat_word_ariths mod_simps)
  then show ?thesis by (simp add: unsigned_word_eqI)
qed

lemma ucast_byte_up: "(ucast (ucast (b :: byte) :: u32) :: byte) = b"
proof -
  have "unat b mod 256 = unat b" by (rule mod_less) (rule unat_byte_less)
  then have "unat (ucast (ucast b :: u32) :: byte) = unat b" by (simp only: unat_ucast_byte unat_ucast_word)
  then show ?thesis by (simp add: unsigned_word_eqI)
qed

lemma and_255_ucast: "(w :: u32) AND 0xFF = ucast (ucast w :: byte)"
proof -
  have "w AND 0xFF = take_bit 8 w" by (simp add: take_bit_eq_mask mask_eq_exp_minus_1)
  then have "unat (w AND 0xFF) = unat w mod 256" by (simp only: unat_take_bit) simp
  moreover have "unat (ucast (ucast w :: byte) :: u32) = unat w mod 256"
    by (simp only: unat_ucast_word unat_ucast_byte)
  ultimately show ?thesis by (metis unsigned_word_eqI)
qed

lemma index_agree:
  "(ucast (pos :: byte) + (ucast (s :: byte) + (w :: u32))) AND 0xFF = ucast (pos + (ucast w + s))"
  unfolding and_255_ucast by (simp add: ucast_byte_add ucast_byte_up ac_simps)

lemma take_swap: "i < 256 \<Longrightarrow> j < 256 \<Longrightarrow> 256 \<le> length xs \<Longrightarrow> take 256 (swap i j xs) = swap i j (take 256 xs)"
  by (simp add: swap_def take_update_swap)

lemma drop_swap: "i < 256 \<Longrightarrow> j < 256 \<Longrightarrow> drop 256 (swap i j xs) = drop 256 xs"
  by (simp add: swap_def)

lemma pass_agree:
  assumes "256 \<le> length dest" and "\<forall>i \<in> set is. i < 256"
    and "foldl (enc4_swap key) (dest, pos) is = (dest', pos')"
  shows "foldl (setup_swap key) (take 256 dest, ucast pos) is = (take 256 dest', ucast pos') \<and>
    length dest' = length dest \<and> drop 256 dest' = drop 256 dest"
  using assms
proof (induction "is" arbitrary: dest pos)
  case (Cons i "is")
  let ?p = "pos + (ucast (dest ! i) + key ! (i mod length key))"
  have i: "i < 256" using Cons.prems(2) by simp
  have u: "unat (ucast ?p :: u32) = unat ?p"
    by (rule unat_ucast_word)
  have e: "enc4_swap key (dest, pos) i = (swap i (unat ?p) dest, ?p)"
    by (simp add: enc4_swap_def Let_def)
  have "setup_swap key (take 256 dest, ucast pos) i = (swap i (unat ?p) (take 256 dest), ucast ?p)"
    using i u Cons.prems(1) by (simp add: setup_swap_def Let_def index_agree)
  then have "setup_swap key (take 256 dest, ucast pos) i = (take 256 (swap i (unat ?p) dest), ucast ?p)"
    using take_swap [of i "unat ?p" dest] i Cons.prems(1) by simp
  moreover have "256 \<le> length (swap i (unat ?p) dest)" using Cons.prems(1) by simp
  moreover have "foldl (enc4_swap key) (swap i (unat ?p) dest, ?p) is = (dest', pos')"
    using Cons.prems(3) e by simp
  ultimately show ?case using Cons.IH [of "swap i (unat ?p) dest" ?p] Cons.prems(2) drop_swap [of i "unat ?p" dest] i by simp
qed simp

lemma round_agree:
  assumes "256 \<le> length dest" and "j < 4"
  shows "setup_round key (take 256 dest) j = take 256 (enc4_round key dest j) \<and>
    length (enc4_round key dest j) = length dest \<and> drop 256 (enc4_round key dest j) = drop 256 dest"
proof -
  let ?d1 = "map (\<lambda>i. push_bit 8 (dest ! i) + word_of_nat i) [0..<256] @ drop 256 dest"
  have len: "length ?d1 = length dest" using assms(1) by simp
  obtain e p where 1: "foldl (enc4_swap key) (?d1, word_of_nat j) [0..<256] = (e, p)" by fastforce
  obtain g q where 2: "foldl (enc4_swap key) (e, p) [0..<256] = (g, q)" by fastforce
  have F1: "map (\<lambda>i. take 256 dest ! i * 256 + word_of_nat i) [0..<CRYPT_TABLE_SIZE] = take 256 ?d1"
    using assms(1) by (simp add: CRYPT_TABLE_SIZE_def push_bit_eq_mult)
  have j: "(word_of_nat j :: u32) = ucast (word_of_nat j :: byte)"
  proof -
    have "unat (word_of_nat j :: u32) = unat (word_of_nat j :: byte)" using assms(2) by (simp add: unat_of_nat)
    then show ?thesis by (metis unat_ucast_word unsigned_word_eqI)
  qed
  have s1: "foldl (setup_swap key) (take 256 ?d1, ucast (word_of_nat j :: byte)) [0..<256] = (take 256 e, ucast p)"
    "length e = length dest" "drop 256 e = drop 256 dest"
    using pass_agree [OF _ _ 1] len assms(1) by auto
  have s2: "foldl (setup_swap key) (take 256 e, ucast p) [0..<256] = (take 256 g, ucast q)"
    "length g = length dest" "drop 256 g = drop 256 dest"
    using pass_agree [OF _ _ 2] s1(2,3) assms(1) by auto
  have "enc4_round key dest j = g" by (simp add: enc4_round_def Let_def 1 2)
  moreover have "setup_round key (take 256 dest) j = take 256 g"
    unfolding setup_round_def Let_def unfolding F1 j unfolding CRYPT_TABLE_SIZE_def s1(1) s2(1) by simp
  ultimately show ?thesis using s2 by simp
qed

lemma rounds_agree:
  assumes "256 \<le> length dest" and "\<forall>j \<in> set js. j < 4"
  shows "foldl (setup_round key) (take 256 dest) js = take 256 (foldl (enc4_round key) dest js) \<and>
    length (foldl (enc4_round key) dest js) = length dest \<and>
    drop 256 (foldl (enc4_round key) dest js) = drop 256 dest"
  using assms
proof (induction js arbitrary: dest)
  case (Cons j js)
  from round_agree [OF Cons.prems(1), of j key] Cons.prems(2) have r:
    "setup_round key (take 256 dest) j = take 256 (enc4_round key dest j)"
    "length (enc4_round key dest j) = length dest" "drop 256 (enc4_round key dest j) = drop 256 dest" by auto
  show ?case using Cons.IH [of "enc4_round key dest j"] Cons.prems r by simp
qed simp

lemma table_agree:
  assumes "length dest = 326"
  shows "take 256 (enc4_table key dest) = setup_table key" and "drop 256 (enc4_table key dest) = drop 256 dest"
    and "length (enc4_table key dest) = 326" and "length (setup_table key) = 256"
proof -
  let ?d0 = "replicate 256 0 @ drop 256 dest"
  have d0: "256 \<le> length ?d0" "take 256 ?d0 = replicate CRYPT_TABLE_SIZE 0"
    by (simp_all add: CRYPT_TABLE_SIZE_def)
  from rounds_agree [OF d0(1), of "[0..<4]" key] have r:
    "foldl (setup_round key) (replicate CRYPT_TABLE_SIZE 0) [0..<4] = take 256 (foldl (enc4_round key) ?d0 [0..<4])"
    "length (foldl (enc4_round key) ?d0 [0..<4]) = length ?d0"
    "drop 256 (foldl (enc4_round key) ?d0 [0..<4]) = drop 256 dest"
    unfolding d0(2) by auto
  have l: "length ?d0 = 326" using assms by simp
  show "take 256 (enc4_table key dest) = setup_table key"
    unfolding enc4_table_def setup_table_def Let_def r(1) using r(2) l
    by (simp add: CRYPT_TABLE_SIZE_def)
  show "drop 256 (enc4_table key dest) = drop 256 dest" "length (enc4_table key dest) = 326"
    using r(2,3) l by (simp_all add: enc4_table_def Let_def)
  show "length (setup_table key) = 256" by (simp add: setup_table_def Let_def CRYPT_TABLE_SIZE_def)
qed

lemma enc3_loop_flat:
  assumes "flat tb L" and "unat (tb ! 304) = ck_index L" and "node L = (x, y, z)" and "tree_inv L ds d"
    and "d + b = 16"
  shows "\<exists>M tb' x' y' z'. seek_loop b 0 L = Some M \<and> enc3_loop b 0 tb x y z = Some (tb', x', y', z') \<and>
    flat tb' M \<and> unat (tb' ! 304) = ck_index M \<and> node M = (x', y', z')"
  using assms
proof (induction b arbitrary: L tb x y z ds d)
  case (Suc b)
  have "d < 16" using Suc.prems(5) by simp
  then have i: "ck_index L < 16" using tree_inv_index [OF Suc.prems(4)] by simp
  define k where "k = tb ! 304"
  have k: "unat k = ck_index L" using Suc.prems(2) by (simp add: k_def)
  define x1 y1 x2 where "x1 = x + z" and "y1 = y + x1" and "x2 = x1 + y1"
  define M where "M = L\<lparr>x_stack := (x_stack L)[ck_index L := x2], y_stack := (y_stack L)[ck_index L := y1],
     z_stack := (z_stack L)[ck_index L := z], ck_index := ck_index L + 1, node := macro_f (ck_F L) (x2, y1, z)\<rparr>"
  have M: "go_left L = Some M"
    using go_left_explicit [OF i Suc.prems(3)] unfolding Let_def M_def x1_def y1_def x2_def .
  have tM: "tree_inv M (ds @ [d]) (d + 1)" using go_left_ok [OF Suc.prems(4) \<open>d < 16\<close>] M by auto
  have u: "unat (k + 256) = unat k + 256" "unat (k + 272) = unat k + 272" "unat (k + 288) = unat k + 288"
    using i k by (simp_all add: unat_word_ariths)
  define dt where "dt = tb[unat k + 256 := x2, unat k + 272 := y1, unat k + 288 := z]"
  define tb1 where "tb1 = dt[304 := dt ! 304 + 1]"
  have len: "length tb = 326" using Suc.prems(1) by (simp add: flat_def)
  have "flat dt M" unfolding dt_def M_def k using flat_push [OF Suc.prems(1) i] by simp
  then have f1: "flat tb1 M" by (simp add: tb1_def flat_def)
  have "dt ! 304 = k" using i k len by (simp add: dt_def k_def)
  then have k1: "unat (tb1 ! 304) = ck_index M"
    using i k len by (simp add: tb1_def M_def dt_def unat_word_ariths)
  have Fm: "mixF tb1 v = mixF (ck_F L) v" for v using mixF_flat [OF f1] by (simp add: M_def)
  obtain x' y' where n': "macro_f (ck_F L) (x2, y1, z) = (x', y', z + z)"
    by (auto simp: macro_f_def Let_def)
  have nM: "node M = (x', y', z + z)" by (simp add: M_def n')
  have xy: "x' = ROT8 (mixF (ck_F L) (ROT8 (mixF (ck_F L) x2)))"
    "y' = mixF (ck_F L) (ROT24 (mixF (ck_F L) (ROT24 y1)))"
    using n' by (simp_all add: macro_f_def Let_def)
  have nb: "(TBUFF \<le> unat k + 256) = False" "(TBUFF \<le> unat k + 272) = False" "(TBUFF \<le> unat k + 288) = False"
    using i k by (simp_all add: TBUFF_def)
  have b0: "bit (0 :: u32) b = False" by simp
  have step: "enc3_loop (Suc b) 0 tb x y z = enc3_loop b 0 tb1 x' y' (z + z)"
    by (simp only: enc3_loop.simps Let_def b0 if_False k_def [symmetric] u nb simp_thms x1_def [symmetric]
        y1_def [symmetric] x2_def [symmetric] dt_def [symmetric] tb1_def [symmetric] Fm push_bit_1 xy)
  have "d + 1 + b = 16" using Suc.prems(5) by simp
  from Suc.IH [OF f1 k1 nM tM this] step M show ?case by auto
qed auto

lemma encshare4_rel:
  assumes "key \<noteq> []"
  shows "\<exists>tb M es. encshare4 key (replicate 326 0) = Some tb \<and> init_crypt_key key zero_crypt_key = Some M \<and>
    enc_rel tb M \<and> tree_inv M es 16 \<and> leaves_left es 16 = 65536"
proof -
  let ?d = "enc4_table key (replicate 326 0)"
  let ?L = "zero_crypt_key\<lparr>keyptr := None, ck_F := setup_table key, ck_index := 0, node := (0, 0, 1)\<rparr>"
  have st: "stacks_ok zero_crypt_key" by (simp add: stacks_ok_def zero_crypt_key_def)
  have l: "length (replicate 326 (0 :: u32)) = 326" by simp
  note T = table_agree [OF l, of key]
  have hi: "?d ! (256 + i) = 0" if "i < 70" for i
  proof -
    have "?d ! (256 + i) = drop 256 ?d ! i" using T(3) by simp
    also have "\<dots> = 0" unfolding T(2) using that by simp
    finally show ?thesis .
  qed
  have "?d ! (272 + i) = 0" "?d ! (288 + i) = 0" if "i < 16" for i
    using hi [of "16 + i"] hi [of "32 + i"] that by simp_all
  then have f: "flat (?d[304 := 0]) ?L"
    using T hi by (auto simp: flat_def zero_crypt_key_def)
  have t: "tree_inv ?L [] 0" by (simp add: tree_inv_def zero_crypt_key_def at_depth_def node_z_def)
  have i0: "unat (?d[304 := 0] ! 304) = ck_index ?L" "node ?L = (0, 0, 1)" using T(3) by simp_all
  obtain M tb' x y z where M: "seek_loop 16 0 ?L = Some M" "enc3_loop 16 0 (?d[304 := 0]) 0 0 1 = Some (tb', x, y, z)"
    "flat tb' M" "unat (tb' ! 304) = ck_index M" "node M = (x, y, z)"
    using enc3_loop_flat [OF f i0 t, of 16] by auto
  obtain N es where N: "init_crypt_key key zero_crypt_key = Some N" "tree_inv N es 16" "leaves_left es 16 = 65536"
    using init_crypt_key_ok [OF assms st] by blast
  have Neq: "N = M\<lparr>tree_num := 0\<rparr>"
    using N(1) M(1) assms by (simp add: init_crypt_key_def crypt_seek_def CRYPT_HEIGHT_def)
  have len: "length tb' = 326" using M(3) by (simp add: flat_def)
  have "enc_rel (tb'[305 := x, 306 := y, 307 := z, 308 := 0]) N"
    using M(3-5) len by (auto simp: enc_rel_def flat_def Neq nth_list_update)
  moreover have "encshare4 key (replicate 326 0) = Some (tb'[305 := x, 306 := y, 307 := z, 308 := 0])"
    using assms M(2) by (simp add: encshare4_def encshare3_def)
  ultimately show ?thesis using N by blast
qed

section \<open>The two byte streams\<close>

definition byte_rel :: "u32 list \<times> nat \<Rightarrow> crypt_key \<Rightarrow> bool" where
  "byte_rel s L \<longleftrightarrow> enc_rel (fst s) L \<and> (\<forall>i < 16. drop 309 (fst s) ! i = keydata L ! i) \<and> keyptr L = Some (snd s)"

lemma enc_rel_frame: "enc_rel tb (L\<lparr>keydata := ws, keyptr := p\<rparr>) = enc_rel tb L"
  "enc_rel tb (L\<lparr>keyptr := p\<rparr>) = enc_rel tb L" "enc_rel tb (L\<lparr>keydata := ws\<rparr>) = enc_rel tb L"
  by (simp_all add: enc_rel_def flat_def)

lemma tree_inv_frame: "tree_inv (L\<lparr>keydata := ws, keyptr := p\<rparr>) ds d = tree_inv L ds d"
  "tree_inv (L\<lparr>keyptr := p\<rparr>) ds d = tree_inv L ds d" "tree_inv (L\<lparr>keydata := ws\<rparr>) ds d = tree_inv L ds d"
  by (simp_all add: tree_inv_def node_z_def)


lemma byte_streams_agree:
  assumes "byte_rel (tb, p) L" and "tree_inv L ds d" and "p \<le> 63"
    and "16 * ((p + length data - 1) div 63) < leaves_left ds d"
  shows "\<exists>ct s N. crypt_run (stream_enc enc1_step) (tb, p) data = Some (ct, s) \<and> crypt_docrypt L data = Some (ct, N)"
  using assms
proof (induction data arbitrary: tb p L ds d)
  case (Cons b data)
  have rel: "enc_rel tb L" "\<forall>i < 16. drop 309 tb ! i = keydata L ! i" "keyptr L = Some p"
    using Cons.prems(1) by (auto simp: byte_rel_def)
  show ?case
  proof (cases "p = 63")
    case True
    have need: "16 < leaves_left ds d" "16 * ((1 + length data - 1) div 63) < leaves_left ds d - 16"
    proof -
      have "(63 + length data) div 63 = Suc (length data div 63)" by (simp add: div_add_self1)
      then show "16 < leaves_left ds d" "16 * ((1 + length data - 1) div 63) < leaves_left ds d - 16"
        using Cons.prems(4) True by simp_all
    qed
    obtain ws M tb' es e where W: "crypt_encrypt L 16 = Some (ws, M)" "encshare2 tb 309 16 = Some tb'" "enc_rel tb' M"
      "tree_inv M es e" "leaves_left es e + 16 = leaves_left ds d" "length ws = 16" "\<forall>i < 16. drop 309 tb' ! i = ws ! i"
      using encshare2_rel [OF rel(1) Cons.prems(2) need(1)] by blast
    let ?M = "M\<lparr>keydata := ws, keyptr := Some 1\<rparr>"
    have kb: "key_byte (drop 309 tb') 0 = key_byte ws 0" using W(7) by (simp add: key_byte_def)
    have r: "byte_rel (tb', 1) ?M" using W by (simp add: byte_rel_def enc_rel_frame)
    have t: "tree_inv ?M es e" using W(4) by (simp add: tree_inv_frame)
    have n: "16 * ((1 + length data - 1) div 63) < leaves_left es e" using need(2) W(5) by simp
    have "enc1_step (tb, p) = Some (key_byte ws 0, tb', 1)" using True W(2) kb by (simp add: enc1_step_def)
    moreover have "docrypt_step L = Some (key_byte ws 0, ?M)"
      using True rel(3) W(1) by (simp add: docrypt_step_def NWORDS_def)
    ultimately show ?thesis
      using Cons.IH [OF r t _ n] by (auto simp: crypt_docrypt_def stream_enc_def)
  next
    case False
    then have p: "p < 63" using Cons.prems(3) by simp
    let ?M = "L\<lparr>keyptr := Some (p + 1)\<rparr>"
    have kb: "key_byte (drop 309 tb) p = key_byte (keydata L) p" using rel(2) p by (simp add: key_byte_def)
    have r: "byte_rel (tb, p + 1) ?M" using rel by (simp add: byte_rel_def enc_rel_frame)
    have t: "tree_inv ?M ds d" using Cons.prems(2) by (simp add: tree_inv_frame)
    have n: "16 * ((p + 1 + length data - 1) div 63) < leaves_left ds d"
      using Cons.prems(4) by simp
    have "enc1_step (tb, p) = Some (key_byte (keydata L) p, tb, p + 1)" using False kb by (simp add: enc1_step_def)
    moreover have "docrypt_step L = Some (key_byte (keydata L) p, ?M)"
      using p rel(3) by (simp add: docrypt_step_def NWORDS_def)
    ultimately show ?thesis
      using Cons.IH [OF r t _ n] p by (auto simp: crypt_docrypt_def stream_enc_def)
  qed
qed (simp add: crypt_docrypt_def)

lemma encshare1_agrees:
  assumes "key \<noteq> []" and "length data \<le> 257985"
  shows "\<exists>tb M ct tb' N. encshare4 key (replicate 326 0) = Some tb \<and>
    init_crypt_key key zero_crypt_key = Some M \<and> encshare1 tb data = Some (ct, tb') \<and> crypt_docrypt M data = Some (ct, N)"
proof -
  obtain tb M es where R: "encshare4 key (replicate 326 0) = Some tb" "init_crypt_key key zero_crypt_key = Some M"
    "enc_rel tb M" "tree_inv M es 16" "leaves_left es 16 = 65536"
    using encshare4_rel [OF assms(1)] by blast
  have M: "keyptr M = None"
    using init_crypt_key_ok [OF assms(1), of zero_crypt_key] R(2)
    by (auto simp: stacks_ok_def zero_crypt_key_def)
  obtain ws N tb' fs e where W: "crypt_encrypt M 16 = Some (ws, N)" "encshare2 tb 309 16 = Some tb'" "enc_rel tb' N"
    "tree_inv N fs e" "leaves_left fs e + 16 = 65536" "length ws = 16" "\<forall>i < 16. drop 309 tb' ! i = ws ! i"
    using encshare2_rel [OF R(3,4)] R(5) by auto
  let ?N = "N\<lparr>keydata := ws, keyptr := Some 0\<rparr>"
  have r: "byte_rel (tb', 0) ?N" "tree_inv ?N fs e"
    using W by (simp_all add: byte_rel_def enc_rel_frame tree_inv_frame)
  have "(0 + length data - 1) div 63 \<le> 4094" using assms(2) by simp
  then have n: "16 * ((0 + length data - 1) div 63) < leaves_left fs e" using W(5) by simp
  obtain ct s K where S: "crypt_run (stream_enc enc1_step) (tb', 0) data = Some (ct, s)" "crypt_docrypt ?N data = Some (ct, K)"
    using byte_streams_agree [OF r _ n] by auto
  have "\<exists>K'. crypt_docrypt M data = Some (ct, K')"
  proof (cases data)
    case Nil
    then show ?thesis using S(2) by (simp add: crypt_docrypt_def)
  next
    case (Cons b bs)
    have "docrypt_step M = docrypt_step ?N"
      using W(1) M by (simp add: docrypt_step_def NWORDS_def)
    then show ?thesis using S(2) Cons by (simp add: crypt_docrypt_def stream_enc_def)
  qed
  moreover have "encshare1 tb data = Some (ct, fst s)" using W(2) S(1) by (simp add: encshare1_def)
  ultimately show ?thesis using R(1,2) by blast
qed

section \<open>\<open>enctype1_helper.cpp\<close>\<close>

text \<open>The array has the literal's terminator as its 257th byte.\<close>

definition enctype1_master_key :: "byte list" where
  "enctype1_master_key = enctype1_data @ [0]"

fun find_offset :: "nat \<Rightarrow> byte \<Rightarrow> byte list \<Rightarrow> int" where
  "find_offset i key [] = - 1"
| "find_offset i key (m # ms) = (if m = key then int i else find_offset (i + 1) key ms)"

definition find_master_key_offset :: "byte \<Rightarrow> byte list \<Rightarrow> int" where
  "find_master_key_offset key master_key = find_offset 0 key master_key"

definition obfuscate_scramble_data :: "byte list \<Rightarrow> byte list \<Rightarrow> byte list" where
  "obfuscate_scramble_data scramble_data master_key =
     map (\<lambda>s. let offset = find_master_key_offset s master_key in
              if offset \<noteq> - 1 then word_of_int offset else s) scramble_data"

text \<open>\<open>rnd k\<close> is the result of the packet's \<open>k\<close>-th call of \<open>rand()\<close>.\<close>

fun write_bytes :: "byte list \<Rightarrow> buffer \<Rightarrow> buffer option" where
  "write_bytes [] b = Some b"
| "write_bytes (x # xs) b = Option.bind (WriteByte x b) (write_bytes xs)"

definition store_head :: "byte list \<Rightarrow> buffer \<Rightarrow> buffer option" where
  "store_head bs b =
     (if length bs \<le> allocSize b then Some (b\<lparr>mem := map Some bs @ drop (length bs) (mem b)\<rparr>) else None)"

definition htonl_bytes :: "u32 \<Rightarrow> byte list" where
  "htonl_bytes v = rev (le_bytes 4 (unat v))"

definition write_enctype1_encrypted_data ::
  "buffer \<Rightarrow> byte list \<Rightarrow> byte list \<Rightarrow> u32 \<Rightarrow> (nat \<Rightarrow> i32) \<Rightarrow> buffer option" where
  "write_enctype1_encrypted_data b0 scramble_data encrypted_data encshare4_data rnd =
     do {
       b \<leftarrow> WriteInt 0 b0;
       b \<leftarrow> WriteByte 42 b;
       b \<leftarrow> WriteByte 218 b;
       b \<leftarrow> write_bytes (map (\<lambda>i. ucast (rnd i)) [17..<30]) b;
       b \<leftarrow> WriteBuffer scramble_data b;
       b \<leftarrow> WriteByte (ucast (rnd 30)) b;
       b \<leftarrow> WriteInt encshare4_data b;
       b \<leftarrow> write_bytes (map (\<lambda>i. ucast (rnd i)) [31..<49]) b;
       b \<leftarrow> WriteBuffer encrypted_data b;
       store_head (htonl_bytes (word_of_nat (bytesWritten b))) b
     }"

text \<open>
  \<open>input\<close> holds the bytes of the list, which the code enciphers in place; \<open>enc1key\<close> is not
  initialised, so an empty validation key, for which \<open>enctype1_func4\<close> does nothing, is \<open>None\<close>.
\<close>

definition enc1_prefix :: "byte list \<Rightarrow> int" where
  "enc1_prefix data = int (length data) div 2 - 17"

definition func6_prefix :: "byte list \<Rightarrow> int" where
  "func6_prefix data = int (length data) div 4 - 5"

definition scramble_of :: "(nat \<Rightarrow> i32) \<Rightarrow> byte list" where
  "scramble_of rnd = map (\<lambda>i. enctype1_master_key ! unat (ucast (rnd i) :: byte)) [1..<17]"

definition shared_layer :: "u32 \<Rightarrow> byte list \<Rightarrow> byte list option" where
  "shared_layer encshare4_data data =
     (if enc1_prefix data \<ge> 0
      then do {
        tbuff \<leftarrow> encshare4 (le_bytes 4 (unat encshare4_data)) (replicate 326 0);
        (c, _) \<leftarrow> encshare1 tbuff (take (nat (enc1_prefix data)) data);
        Some (c @ drop (nat (enc1_prefix data)) data)
      }
      else Some data)"

definition create_enctype1_buffer ::
  "byte list \<Rightarrow> byte list \<Rightarrow> buffer \<Rightarrow> (nat \<Rightarrow> i32) \<Rightarrow> buffer option" where
  "create_enctype1_buffer validate_key input b rnd =
     do {
       let encshare4_data = rnd 0;
       d1 \<leftarrow> shared_layer encshare4_data input;
       let scramble_data = scramble_of rnd;
       encryption_key \<leftarrow> enctype1_func3 scramble_data;
       (d2, _) \<leftarrow> enctype1_func2 d1 encryption_key;
       d3 \<leftarrow> (if func6_prefix input \<ge> 0 then
                if validate_key = [] then None
                else do {
                  enc1key \<leftarrow> enctype1_func4 validate_key (replicate 261 0);
                  (c, _) \<leftarrow> enctype1_func6e (take (nat (func6_prefix input)) d2) enc1key;
                  Some (c @ drop (nat (func6_prefix input)) d2)
                }
              else Some d2);
       write_enctype1_encrypted_data b (obfuscate_scramble_data scramble_data enctype1_master_key) d3
         encshare4_data rnd
     }"

section \<open>Lemmas\<close>

lemma func7_inverse:
  assumes "enctype1_func7e v k = (c, k')" and "length k = 261"
  shows "enctype1_func7 c k = (v, k')"
proof -
  obtain k0 m where m: "func7_mix k = (k0, m)" by fastforce
  then show ?thesis
    using assms(1) by (auto simp: enctype1_func7e_def enctype1_func7_def Let_def list_update_swap xor.commute)
qed

text \<open>\<open>enc1key\<close> as a state of the browsing cipher.\<close>

definition goa_of :: "byte list \<Rightarrow> GOACryptState" where
  "goa_of k = \<lparr>cards = take 256 k, rotor = k ! 256, ratchet = k ! 257, avalanche = k ! 258,
     last_plain = k ! 259, last_cipher = k ! 260\<rparr>"

lemma cell_take [simp]: "cell (take 256 k) i = cell k i"
  by (simp add: cell_def)

lemma put_cell_take [simp]: "put_cell i v (take 256 k) = take 256 (put_cell i v k)"
  by (simp add: put_cell_def take_update_swap)

lemma byte_not_high: "256 \<le> n \<Longrightarrow> unat (i :: byte) \<noteq> n"
  using unat_byte_less [of i] by linarith

lemma high_put_cell [simp]: "256 \<le> n \<Longrightarrow> put_cell i v k ! n = k ! n"
  using byte_not_high [of n i] by (simp add: put_cell_def)

lemma cell_high [simp]: "256 \<le> n \<Longrightarrow> cell (k[n := v]) i = cell k i"
  using byte_not_high [of n i] by (simp add: cell_def)

lemma put_cell_high [simp]: "256 \<le> n \<Longrightarrow> put_cell i v (k[n := w]) = (put_cell i v k)[n := w]"
  using byte_not_high [of n i] by (simp add: put_cell_def list_update_swap)

lemma func7_mix_goa:
  assumes "length k = 261" and "func7_mix k = (k', m)"
  shows "fst (goa_shuffle (goa_of k)) = goa_of k' \<and> length k' = 261 \<and>
    m = cell (cards (goa_of k')) (cell (cards (goa_of k')) (avalanche (goa_of k')) +
          cell (cards (goa_of k')) (rotor (goa_of k'))) XOR goa_inner (goa_of k')"
  using assms
  by (auto simp: func7_mix_def goa_shuffle_def goa_of_def goa_inner_def Let_def nth_list_update ac_simps)

text \<open>The encoder's state machine is the browsing cipher's.\<close>

lemma func7e_goa:
  assumes "length k = 261" and "enctype1_func7e v k = (c, k')"
  shows "GOAEncryptByte (goa_of k) v = (c, goa_of k') \<and> length k' = 261"
proof -
  obtain k0 m where m: "func7_mix k = (k0, m)" by fastforce
  obtain sw where s: "goa_shuffle (goa_of k) = (goa_of k0, sw)"
    using func7_mix_goa [OF assms(1) m] by (metis prod.collapse)
  have k': "c = m XOR v" "k' = k0[260 := c, 259 := v]" using assms(2) m by (auto simp: enctype1_func7e_def Let_def)
  have l: "length k0 = 261" using func7_mix_goa [OF assms(1) m] by simp
  have g: "(goa_of k0)\<lparr>last_cipher := c, last_plain := v\<rparr> = goa_of k'"
    using l by (simp add: goa_of_def k'(2))
  have c: "v XOR cell (cards (goa_of k0)) (cell (cards (goa_of k0)) (avalanche (goa_of k0)) +
      cell (cards (goa_of k0)) (rotor (goa_of k0))) XOR goa_inner (goa_of k0) = c"
    using func7_mix_goa [OF assms(1) m] k'(1) by (simp add: ac_simps)
  show ?thesis
    using l unfolding GOAEncryptByte_def s Let_def prod.case c g by (simp add: k'(2))
qed

lemma func7_goa:
  assumes "length k = 261" and "enctype1_func7 v k = (c, k')"
  shows "GOADecryptByte (goa_of k) v = (c, goa_of k') \<and> length k' = 261"
proof -
  obtain k0 m where m: "func7_mix k = (k0, m)" by fastforce
  obtain sw where s: "goa_shuffle (goa_of k) = (goa_of k0, sw)"
    using func7_mix_goa [OF assms(1) m] by (metis prod.collapse)
  have k': "c = m XOR v" "k' = k0[260 := v, 259 := c]" using assms(2) m by (auto simp: enctype1_func7_def Let_def)
  have l: "length k0 = 261" using func7_mix_goa [OF assms(1) m] by simp
  have g: "(goa_of k0)\<lparr>last_plain := c, last_cipher := v\<rparr> = goa_of k'"
    using l by (simp add: goa_of_def k'(2))
  have c: "v XOR cell (cards (goa_of k0)) (cell (cards (goa_of k0)) (avalanche (goa_of k0)) +
      cell (cards (goa_of k0)) (rotor (goa_of k0))) XOR goa_inner (goa_of k0) = c"
    using func7_mix_goa [OF assms(1) m] k'(1) by (simp add: ac_simps)
  show ?thesis
    using l unfolding GOADecryptByte_def s Let_def prod.case c g by (simp add: k'(2))
qed

interpretation enc1: byte_cipher "\<lambda>k b. Some (enctype1_func7e b k)" "\<lambda>k b. Some (enctype1_func7 b k)"
  by unfold_locales
    (auto simp: enctype1_func7e_def enctype1_func7_def Let_def split: prod.splits)

text \<open>The key set-up always returns.\<close>

lemma f5_loop_total:
  assumes "n2 < length idb" and "0 < cnt"
  shows "\<exists>t a b. f5_loop cnt m idb i n1 n2 k = Some (t, a, b) \<and> t \<le> cnt \<and> b < length idb"
  using assms
proof (induction cnt m idb i n1 n2 k rule: f5_loop.induct)
  case (1 cnt m idb i n1 n2 k)
  have g: "(length idb \<le> n2 \<or> cnt = 0) = False" using "1.prems" by simp
  define a1 where "a1 = unat (k ! (and n1 255)) + unat (idb ! n2)"
  obtain b1 b2 where b: "(if n2 + 1 \<ge> length idb then (a1 + length idb, 0) else (a1, n2 + 1)) = (b1, b2)"
    and b2: "b2 < length idb"
  proof -
    have "0 < length idb" using "1.prems"(1) by linarith
    then show thesis using "1.prems"(1) that by (cases "n2 + 1 \<ge> length idb") auto
  qed
  define tmp where "tmp = (if i + 1 > 11 then and b1 m mod cnt else and b1 m)"
  have eq: "f5_loop cnt m idb i n1 n2 k =
      (if tmp > cnt then f5_loop cnt m idb (i + 1) b1 b2 k else Some (tmp, b1, b2))"
    unfolding f5_loop.simps [of cnt m idb i n1 n2 k] Let_def g if_False a1_def [symmetric] b prod.case tmp_def ..
  show ?case
  proof (cases "tmp > cnt")
    case True
    have "\<not> (length idb \<le> n2 \<or> cnt = 0)" using g by simp
    from "1.IH" [OF this a1_def _ refl tmp_def True] b b2 "1.prems"(2) eq True show ?thesis by simp
  next
    case False
    then show ?thesis unfolding eq using b2 by auto
  qed
qed

lemma func5_total:
  assumes "n2 < length idb"
  obtains t a b where "enctype1_func5 cnt idb n1 n2 k = Some (t, a, b)" and "b < length idb"
proof (cases "cnt = 0")
  case True
  then show thesis using that assms by (simp add: enctype1_func5_def)
next
  case False
  then show thesis
    using that f5_loop_total [OF assms, of cnt "if cnt > 1 then f5_mask cnt 1 else 1" 0 n1 k]
    by (auto simp: enctype1_func5_def)
qed

lemma func4_loop_total:
  assumes "n2 < length idb"
  shows "\<exists>k' a. func4_loop n idb n1 n2 k = Some (k', a) \<and> length k' = length k"
  using assms
proof (induction n arbitrary: n1 n2 k)
  case (Suc n)
  obtain t a b where t: "enctype1_func5 n idb n1 n2 k = Some (t, a, b)" "b < length idb"
    using func5_total [OF Suc.prems] by blast
  from Suc.IH [OF t(2)] t(1) show ?case by (metis (no_types, lifting) func4_loop.simps(2) length_swap option.simps(5) prod.case)
qed simp

lemma func4_total:
  assumes "idb \<noteq> []"
  obtains k where "enctype1_func4 idb (replicate 261 0) = Some k" and "length k = 261"
proof -
  have "length (ascending_deck @ drop 256 (replicate 261 0)) = 261" by (simp add: ascending_deck_def)
  then obtain k n1 where "func4_loop 256 idb 0 0 (ascending_deck @ drop 256 (replicate 261 0)) = Some (k, n1)" "length k = 261"
    using func4_loop_total [of 0 idb 256 0] assms by fastforce
  then show thesis using that assms by (simp add: enctype1_func4_def)
qed

text \<open>The offset of a key byte in the table leads back to that byte.\<close>

lemma find_offset_hit:
  assumes "key \<in> set ms"
  shows "\<exists>j < length ms. find_offset i key ms = int (i + j) \<and> ms ! j = key \<and> (\<forall>l < j. ms ! l \<noteq> key)"
  using assms
proof (induction ms arbitrary: i)
  case (Cons m ms)
  show ?case
  proof (cases "m = key")
    case False
    then obtain j where "j < length ms" "find_offset (Suc i) key ms = int (Suc i + j)" "ms ! j = key"
      "\<forall>l < j. ms ! l \<noteq> key"
      using Cons.IH [of "Suc i"] Cons.prems by auto
    then show ?thesis using False by (intro exI [of _ "Suc j"]) (auto simp: less_Suc_eq_0_disj)
  qed auto
qed simp

lemma deobfuscate:
  assumes "set scr \<subseteq> set enctype1_data"
  shows "enctype1_func8 (obfuscate_scramble_data scr enctype1_master_key) enctype1_master_key = scr"
proof -
  have len: "length enctype1_data = 256" by (simp add: enctype1_data_def)
  have "enctype1_master_key ! unat (let offset = find_master_key_offset s enctype1_master_key in
      if offset \<noteq> - 1 then word_of_int offset else s) = s" if s: "s \<in> set enctype1_data" for s
  proof -
    obtain j where j: "find_offset 0 s enctype1_master_key = int j" "enctype1_master_key ! j = s"
      "\<forall>l < j. enctype1_master_key ! l \<noteq> s"
      using find_offset_hit [of s enctype1_master_key 0] s by (auto simp: enctype1_master_key_def)
    obtain l where l: "l < 256" "enctype1_data ! l = s" using s len by (metis in_set_conv_nth)
    then have "enctype1_master_key ! l = s" by (simp add: enctype1_master_key_def nth_append len)
    then have "j < 256" using j(3) l(1) by (metis linorder_not_less order.strict_trans1)
    then have "unat (word_of_int (int j) :: byte) = j" by (simp add: unat_of_nat)
    then show ?thesis using j by (simp add: find_master_key_offset_def)
  qed
  then show ?thesis
    using assms by (auto simp: enctype1_func8_def obfuscate_scramble_data_def intro!: map_idI)
qed

lemma scramble_of_in: "set (scramble_of rnd) \<subseteq> set enctype1_data" "length (scramble_of rnd) = 16"
proof -
  have len: "length enctype1_data = 256" by (simp add: enctype1_data_def)
  then have "enctype1_master_key ! unat (b :: byte) \<in> set enctype1_data" for b
    using unat_byte_less [of b] by (simp add: enctype1_master_key_def nth_append)
  then show "set (scramble_of rnd) \<subseteq> set enctype1_data" by (auto simp: scramble_of_def)
qed (simp add: scramble_of_def)

section \<open>The packet\<close>

lemma WriteInt_sink: "sink_ok b \<Longrightarrow> \<exists>c. WriteInt v b = Some c \<and> sink_ok c \<and>
    contents c = contents b @ map Some (le_bytes 4 (unat v))"
  unfolding Write_as_bytes by (rule buf.put_ok)

lemma WriteByte_sink: "sink_ok b \<Longrightarrow> \<exists>c. WriteByte v b = Some c \<and> sink_ok c \<and> contents c = contents b @ [Some v]"
  unfolding Write_as_bytes using buf.put_ok [of b "[v]"] by simp

lemma write_bytes_sink: "sink_ok b \<Longrightarrow> \<exists>c. write_bytes xs b = Some c \<and> sink_ok c \<and> contents c = contents b @ map Some xs"
proof (induction xs arbitrary: b)
  case (Cons x xs)
  obtain c where c: "WriteByte x b = Some c" "sink_ok c" "contents c = contents b @ [Some x]"
    using WriteByte_sink [OF Cons.prems] by blast
  from Cons.IH [OF c(2)] c show ?case by auto
qed simp

lemma contents_length: "sink_ok b \<Longrightarrow> length (contents b) = bytesWritten b"
  by (simp add: contents_def sink_ok_def allocSize_def bytesWritten_def)

lemma write_packet:
  assumes "sink_ok b0" and "contents b0 = []"
  shows "\<exists>b. write_enctype1_encrypted_data b0 scr enc e rnd = Some b \<and>
    contents b = map Some (htonl_bytes (word_of_nat (42 + length scr + length enc)) @ [42, 218] @
      map (\<lambda>i. ucast (rnd i)) [17..<30] @ scr @ [ucast (rnd 30)] @ le_bytes 4 (unat e) @
      map (\<lambda>i. ucast (rnd i)) [31..<49] @ enc)"
proof -
  let ?r1 = "map (\<lambda>i. ucast (rnd i) :: byte) [17..<30]" and ?r2 = "map (\<lambda>i. ucast (rnd i) :: byte) [31..<49]"
  obtain b1 where b1: "WriteInt 0 b0 = Some b1" "sink_ok b1" "contents b1 = contents b0 @ map Some (le_bytes 4 (unat (0 :: u32)))"
    using WriteInt_sink [OF assms(1)] by blast
  obtain b2 where b2: "WriteByte 42 b1 = Some b2" "sink_ok b2" "contents b2 = contents b1 @ [Some 42]"
    using WriteByte_sink [OF b1(2)] by blast
  obtain b3 where b3: "WriteByte 218 b2 = Some b3" "sink_ok b3" "contents b3 = contents b2 @ [Some 218]"
    using WriteByte_sink [OF b2(2)] by blast
  obtain b4 where b4: "write_bytes ?r1 b3 = Some b4" "sink_ok b4" "contents b4 = contents b3 @ map Some ?r1"
    using write_bytes_sink [OF b3(2)] by blast
  obtain b5 where b5: "WriteBuffer scr b4 = Some b5" "sink_ok b5" "contents b5 = contents b4 @ map Some scr"
    using buf.put_ok [OF b4(2)] by blast
  obtain b6 where b6: "WriteByte (ucast (rnd 30)) b5 = Some b6" "sink_ok b6" "contents b6 = contents b5 @ [Some (ucast (rnd 30))]"
    using WriteByte_sink [OF b5(2)] by blast
  obtain b7 where b7: "WriteInt e b6 = Some b7" "sink_ok b7" "contents b7 = contents b6 @ map Some (le_bytes 4 (unat e))"
    using WriteInt_sink [OF b6(2)] by blast
  obtain b8 where b8: "write_bytes ?r2 b7 = Some b8" "sink_ok b8" "contents b8 = contents b7 @ map Some ?r2"
    using write_bytes_sink [OF b7(2)] by blast
  obtain b9 where b9: "WriteBuffer enc b8 = Some b9" "sink_ok b9" "contents b9 = contents b8 @ map Some enc"
    using buf.put_ok [OF b8(2)] by blast
  define rest where "rest = [42, 218] @ ?r1 @ scr @ [ucast (rnd 30)] @ le_bytes 4 (unat e) @ ?r2 @ enc"
  have c9: "contents b9 = map Some (le_bytes 4 (unat (0 :: u32)) @ rest)"
    by (simp only: b9(3) b8(3) b7(3) b6(3) b5(3) b4(3) b3(3) b2(3) b1(3) assms(2) rest_def) simp
  have n: "bytesWritten b9 = 4 + length rest"
    using contents_length [OF b9(2)] by (simp only: c9 length_map length_append length_le_bytes)
  have lr: "4 + length rest = 42 + length scr + length enc" by (simp add: rest_def)
  have al: "bytesWritten b9 \<le> allocSize b9" using b9(2) by (simp add: sink_ok_def bytesWritten_def)
  have hb: "length (htonl_bytes v) = 4" for v by (simp add: htonl_bytes_def)
  let ?h = "htonl_bytes (word_of_nat (bytesWritten b9))"
  have st: "store_head ?h b9 = Some (b9\<lparr>mem := map Some ?h @ drop 4 (mem b9)\<rparr>)"
    using al n by (simp add: store_head_def hb)
  have "contents (b9\<lparr>mem := map Some ?h @ drop 4 (mem b9)\<rparr>) = map Some ?h @ drop 4 (contents b9)"
    using n al by (simp add: contents_def hb bytesWritten_def drop_take)
  also have "\<dots> = map Some (?h @ rest)" by (simp only: c9 map_append) (simp add: drop_map)
  finally have c: "contents (b9\<lparr>mem := map Some ?h @ drop 4 (mem b9)\<rparr>) = map Some (?h @ rest)" .
  have "write_enctype1_encrypted_data b0 scr enc e rnd = store_head ?h b9"
    unfolding write_enctype1_encrypted_data_def
    by (simp only: b1(1) b2(1) b3(1) b4(1) b5(1) b6(1) b7(1) b8(1) b9(1) Option.bind.bind_lunit)
  with st have "write_enctype1_encrypted_data b0 scr enc e rnd = Some (b9\<lparr>mem := map Some ?h @ drop 4 (mem b9)\<rparr>)" by simp
  with c show ?thesis unfolding n lr unfolding rest_def by (intro exI conjI)
qed

lemma shared_layer_involution:
  assumes "length data \<le> 516000"
  obtains d where "shared_layer e data = Some d" and "length d = length data" and "shared_layer e d = Some data"
proof (cases "enc1_prefix data \<ge> 0")
  case True
  let ?n = "nat (enc1_prefix data)"
  have n: "?n \<le> 257985" "?n \<le> length data" using assms by (auto simp: enc1_prefix_def)
  have "le_bytes 4 (unat e) \<noteq> []" using length_le_bytes [of 4 "unat e"] by (metis list.size(3) zero_neq_numeral)
  then obtain tb ct tb' where E: "encshare4 (le_bytes 4 (unat e)) (replicate 326 0) = Some tb"
    "encshare1 tb (take ?n data) = Some (ct, tb')"
    using encshare1_agrees [of "le_bytes 4 (unat e)" "take ?n data"] n by auto
  obtain tb2 where t2: "encshare2 tb 309 16 = Some tb2" using E(2) by (auto simp: encshare1_def split: option.splits)
  obtain p where r: "crypt_run (stream_enc enc1_step) (tb2, 0) (take ?n data) = Some (ct, (tb', p))"
    using E(2) t2 by (auto simp: encshare1_def)
  have len: "length ct = ?n" using crypt_run_length [OF r] n(2) by simp
  have "encshare1 tb ct = Some (take ?n data, tb')" using encshare.run_dec_enc [OF r] t2 by (simp add: encshare1_def)
  moreover have "enc1_prefix (ct @ drop ?n data) = enc1_prefix data" using len n(2) by (simp add: enc1_prefix_def)
  ultimately show thesis
    using that [of "ct @ drop ?n data"] True E len n(2) by (simp add: shared_layer_def)
next
  case False
  then show thesis using that [of data] by (simp add: shared_layer_def)
qed

lemma func2_involution:
  obtains d where "map_option fst (enctype1_func2 data k) = Some d" and "length d = length data"
    and "map_option fst (enctype1_func2 d k) = Some data"
proof -
  have "\<exists>c s. crypt_run (stream_enc func2_step) (k ! 256, k ! 257, k) data = Some (c, s) \<and> True"
    by (rule crypt_run_total) (simp_all add: stream_enc_def func2_step_def Let_def split: prod.splits)
  then obtain c s where r: "crypt_run (stream_enc func2_step) (k ! 256, k ! 257, k) data = Some (c, s)" by blast
  from func2.run_dec_enc [OF r] r crypt_run_length [OF r] show thesis
    using that [of c] by (simp add: enctype1_func2_def case_prod_beta)
qed

lemma func6_inverse:
  obtains c where "map_option fst (enctype1_func6e data k) = Some c" and "length c = length data"
    and "map_option fst (enctype1_func6 c k) = Some data"
proof -
  have "\<exists>c s. crypt_run (\<lambda>k b. Some (enctype1_func7e b k)) k data = Some (c, s) \<and> True"
    by (rule crypt_run_total) auto
  then obtain c s where r: "crypt_run (\<lambda>k b. Some (enctype1_func7e b k)) k data = Some (c, s)" by blast
  from enc1.run_dec_enc [OF r] r crypt_run_length [OF r] show thesis
    using that [of c] by (simp add: enctype1_func6e_def enctype1_func6_def)
qed

text \<open>
  How a client reads the packet with the decoder routines: the scramble bytes at 19, the word of the
  shared layer at 36, the list from 58 on.
\<close>

definition read_enctype1_packet :: "byte list \<Rightarrow> byte list \<Rightarrow> byte list option" where
  "read_enctype1_packet validate_key pkt =
     do {
       let data = drop 58 pkt;
       d2 \<leftarrow> (if func6_prefix data \<ge> 0 then do {
                enc1key \<leftarrow> enctype1_func4 validate_key (replicate 261 0);
                (c, _) \<leftarrow> enctype1_func6 (take (nat (func6_prefix data)) data) enc1key;
                Some (c @ drop (nat (func6_prefix data)) data)
              } else Some data);
       key \<leftarrow> enctype1_func3 (enctype1_func8 (take 16 (drop 19 pkt)) enctype1_master_key);
       (d1, _) \<leftarrow> enctype1_func2 d2 key;
       shared_layer (word_of_nat (le_val (take 4 (drop 36 pkt)))) d1
     }"


lemma read_write_packet:
  assumes "length scr = 16"
  shows "take 16 (drop 19 (htonl_bytes v @ [42, 218] @ map (\<lambda>i. ucast (rnd i :: i32)) [17..<30] @ scr @
      [ucast (rnd 30)] @ le_bytes 4 (unat e) @ map (\<lambda>i. ucast (rnd i)) [31..<49] @ enc)) = scr"
    and "take 4 (drop 36 (htonl_bytes v @ [42, 218] @ map (\<lambda>i. ucast (rnd i :: i32)) [17..<30] @ scr @
      [ucast (rnd 30)] @ le_bytes 4 (unat (e :: u32)) @ map (\<lambda>i. ucast (rnd i)) [31..<49] @ enc)) = le_bytes 4 (unat e)"
    and "drop 58 (htonl_bytes v @ [42, 218] @ map (\<lambda>i. ucast (rnd i :: i32)) [17..<30] @ scr @
      [ucast (rnd 30)] @ le_bytes 4 (unat e) @ map (\<lambda>i. ucast (rnd i)) [31..<49] @ enc) = enc"
  using assms by (simp_all add: htonl_bytes_def drop_append take_append del: le_bytes.simps upt_rec_numeral upt_Suc)

lemma layers_undo:
  assumes "length data \<le> 516000" and "key \<noteq> []"
  obtains d1 d2 d3 ek where "shared_layer (rnd 0) data = Some d1" and "enctype1_func3 (scramble_of rnd) = Some ek"
    and "map_option fst (enctype1_func2 d1 ek) = Some d2"
    and "(if func6_prefix data \<ge> 0 then do {
            k \<leftarrow> enctype1_func4 key (replicate 261 0);
            (c, _) \<leftarrow> enctype1_func6e (take (nat (func6_prefix data)) d2) k;
            Some (c @ drop (nat (func6_prefix data)) d2)
          } else Some d2) = Some d3"
    and "length d3 = length data"
    and "(if func6_prefix d3 \<ge> 0 then do {
            k \<leftarrow> enctype1_func4 key (replicate 261 0);
            (c, _) \<leftarrow> enctype1_func6 (take (nat (func6_prefix d3)) d3) k;
            Some (c @ drop (nat (func6_prefix d3)) d3)
          } else Some d3) = Some d2"
    and "map_option fst (enctype1_func2 d2 ek) = Some d1" and "shared_layer (rnd 0) d1 = Some data"
proof -
  obtain d1 where d1: "shared_layer (rnd 0) data = Some d1" "length d1 = length data" "shared_layer (rnd 0) d1 = Some data"
    by (rule shared_layer_involution [OF assms(1)])
  have "scramble_of rnd \<noteq> []" using scramble_of_in(2) [of rnd] by auto
  then obtain ek where ek: "enctype1_func3 (scramble_of rnd) = Some ek" by (simp add: enctype1_func3_def)
  obtain d2 where d2: "map_option fst (enctype1_func2 d1 ek) = Some d2" "length d2 = length d1"
    "map_option fst (enctype1_func2 d2 ek) = Some d1" by (rule func2_involution)
  obtain k where k: "enctype1_func4 key (replicate 261 0) = Some k" by (rule func4_total [OF assms(2)])
  let ?n = "nat (func6_prefix data)"
  have n: "?n \<le> length data" by (simp add: func6_prefix_def)
  obtain c where c: "map_option fst (enctype1_func6e (take ?n d2) k) = Some c" "length c = length (take ?n d2)"
    "map_option fst (enctype1_func6 c k) = Some (take ?n d2)" by (rule func6_inverse)
  obtain u where u: "enctype1_func6e (take ?n d2) k = Some (c, u)" using c(1) by auto
  obtain w where w: "enctype1_func6 c k = Some (take ?n d2, w)" using c(3) by auto
  have lc: "length c = ?n" using c(2) d2(2) d1(2) n by simp
  show thesis
  proof (cases "func6_prefix data \<ge> 0")
    case True
    let ?d3 = "c @ drop ?n d2"
    have l: "length ?d3 = length data" using lc d2(2) d1(2) n by simp
    then have p: "func6_prefix ?d3 = func6_prefix data" by (simp add: func6_prefix_def)
    have t: "take ?n ?d3 = c" "drop ?n ?d3 = drop ?n d2" using lc by simp_all
    show thesis
      by (rule that [OF d1(1) ek d2(1) _ l _ d2(3) d1(3)])
        (use True k u w p t in simp_all)
  next
    case False
    have l: "length d2 = length data" using d2(2) d1(2) by simp
    then have p: "func6_prefix d2 = func6_prefix data" by (simp add: func6_prefix_def)
    show thesis
      by (rule that [OF d1(1) ek d2(1) _ l _ d2(3) d1(3)]) (use False p in simp_all)
  qed
qed

section \<open>Properties\<close>

text \<open>C17. The words of encryption type 1's shared layer and the stream cipher of type 2 are the same
  cipher: for every key and every block of at most 257985 bytes (the 65535 leaves the flat array
  can walk before its index underflows), \<open>encshare4\<close> and \<open>encshare1\<close> give the bytes that
  \<open>init_crypt_key\<close> and \<open>crypt_docrypt\<close> give, without an access outside \<open>tbuff\<close>.\<close>

theorem encshare_is_crypt_docrypt:
  assumes "key \<noteq> []" and "length data \<le> 257985"
  shows "\<exists>tb M ct tb' N. encshare4 key (replicate 326 0) = Some tb \<and>
    init_crypt_key key zero_crypt_key = Some M \<and> encshare1 tb data = Some (ct, tb') \<and> crypt_docrypt M data = Some (ct, N)"
  using assms by (rule encshare1_agrees)

theorem encshare_is_crypt_docrypt_witness:
  "\<exists>tb M ct tb' N. encshare4 [1, 2, 3, 4] (replicate 326 0) = Some tb \<and>
    init_crypt_key [1, 2, 3, 4] zero_crypt_key = Some M \<and> encshare1 tb [104, 105] = Some (ct, tb') \<and>
    crypt_docrypt M [104, 105] = Some (ct, N)"
  by (rule encshare_is_crypt_docrypt) simp_all

text \<open>The byte routines of encryption type 1 are the byte routines of the browsing cipher on the
  array read as its state: the encoder encrypts and the decoder decrypts as
  \<open>GOAEncryptByte\<close> and \<open>GOADecryptByte\<close> do.\<close>

theorem func7_is_GOA:
  assumes "length k = 261"
  shows "GOAEncryptByte (goa_of k) v = (fst (enctype1_func7e v k), goa_of (snd (enctype1_func7e v k))) \<and>
    GOADecryptByte (goa_of k) v = (fst (enctype1_func7 v k), goa_of (snd (enctype1_func7 v k)))"
  using func7e_goa [OF assms] func7_goa [OF assms] by (metis prod.collapse)

theorem func7_is_GOA_witness:
  "GOAEncryptByte (goa_of (replicate 261 3)) 7 =
     (fst (enctype1_func7e 7 (replicate 261 3)), goa_of (snd (enctype1_func7e 7 (replicate 261 3))))"
  using func7_is_GOA [of "replicate 261 3" 7] by (simp only: length_replicate)

lemma enctype1_packet:
  assumes "key \<noteq> []" and "length data \<le> 516000"
  shows "\<exists>b pkt. create_enctype1_buffer key data Buffer_new rnd = Some b \<and> contents b = map Some pkt \<and>
    take 4 pkt = htonl_bytes (word_of_nat (58 + length data)) \<and> read_enctype1_packet key pkt = Some data"
proof -
  obtain d1 d2 d3 ek where L: "shared_layer (rnd 0) data = Some d1" "enctype1_func3 (scramble_of rnd) = Some ek"
    "map_option fst (enctype1_func2 d1 ek) = Some d2"
    "(if func6_prefix data \<ge> 0 then do {
            k \<leftarrow> enctype1_func4 key (replicate 261 0);
            (c, _) \<leftarrow> enctype1_func6e (take (nat (func6_prefix data)) d2) k;
            Some (c @ drop (nat (func6_prefix data)) d2)
          } else Some d2) = Some d3"
    "length d3 = length data"
    "(if func6_prefix d3 \<ge> 0 then do {
            k \<leftarrow> enctype1_func4 key (replicate 261 0);
            (c, _) \<leftarrow> enctype1_func6 (take (nat (func6_prefix d3)) d3) k;
            Some (c @ drop (nat (func6_prefix d3)) d3)
          } else Some d3) = Some d2"
    "map_option fst (enctype1_func2 d2 ek) = Some d1" "shared_layer (rnd 0) d1 = Some data"
    by (rule layers_undo [OF assms(2,1)])
  let ?scr = "obfuscate_scramble_data (scramble_of rnd) enctype1_master_key"
  have ls: "length ?scr = 16" by (simp add: obfuscate_scramble_data_def scramble_of_in(2))
  obtain b where b: "write_enctype1_encrypted_data Buffer_new ?scr d3 (rnd 0) rnd = Some b"
    "contents b = map Some (htonl_bytes (word_of_nat (42 + length ?scr + length d3)) @ [42, 218] @
      map (\<lambda>i. ucast (rnd i)) [17..<30] @ ?scr @ [ucast (rnd 30)] @ le_bytes 4 (unat (rnd 0)) @
      map (\<lambda>i. ucast (rnd i)) [31..<49] @ d3)" (is "_ = map Some ?pkt")
    using write_packet [OF sink_ok_alloc] unfolding Buffer_new_def by blast
  obtain u where u: "enctype1_func2 d1 ek = Some (d2, u)" using L(3) by auto
  obtain w where w: "enctype1_func2 d2 ek = Some (d1, w)" using L(7) by auto
  have c: "create_enctype1_buffer key data Buffer_new rnd = Some b"
    by (simp only: create_enctype1_buffer_def Let_def L(1,2,4) u assms(1) if_False Option.bind.bind_lunit prod.case b(1))
  have scr: "enctype1_func8 (take 16 (drop 19 ?pkt)) enctype1_master_key = scramble_of rnd"
    unfolding read_write_packet(1) [OF ls] by (rule deobfuscate [OF scramble_of_in(1)])
  have r: "read_enctype1_packet key ?pkt = Some data"
    unfolding read_enctype1_packet_def Let_def scr read_write_packet(2,3) [OF ls] le_val_word(3) L(2,6)
    by (simp add: w L(8))
  have "42 + length ?scr + length d3 = 58 + length data" using ls L(5) by simp
  moreover have "take 4 ?pkt = htonl_bytes (word_of_nat (42 + length ?scr + length d3))"
    by (simp add: htonl_bytes_def)
  ultimately show ?thesis using c b(2) r by metis
qed

text \<open>C16. A server list packed with encryption type 1 is read back: for every validation key, list of
  at most 516000 bytes and sequence of random numbers, the packet is built without leaving an
  array, starts with its length in network order, and a client with the key gets the list from it
  with the decoder routines.\<close>

theorem enctype1_packet_roundtrip:
  assumes "key \<noteq> []" and "length data \<le> 516000"
  shows "\<exists>b pkt. create_enctype1_buffer key data Buffer_new rnd = Some b \<and> contents b = map Some pkt \<and>
    take 4 pkt = htonl_bytes (word_of_nat (58 + length data)) \<and> read_enctype1_packet key pkt = Some data"
  using assms by (rule enctype1_packet)

theorem enctype1_packet_roundtrip_witness:
  "\<exists>b pkt. create_enctype1_buffer [83, 69, 67] (replicate 40 7) Buffer_new (\<lambda>k. 5) = Some b \<and>
    contents b = map Some pkt \<and> read_enctype1_packet [83, 69, 67] pkt = Some (replicate 40 7)"
  using enctype1_packet_roundtrip [of "[83, 69, 67]" "replicate 40 7" "\<lambda>k. 5"]
  by (simp only: length_replicate) auto

end
