(* ===== verification/FilterLex.thy ===== *)
theory FilterLex
  imports Match
begin

text \<open>
  The server list filter's tokens (\<open>serverbrowsing/filter/CToken.cpp\<close>): reading a filter text and
  ordering its tokens for evaluation. A filter is the text up to its terminator, which has no NUL.
  \<open>None\<close> is undefined behaviour: a read outside an array, or of an \<open>int\<close> that was never set.
\<close>

section \<open>Tokens\<close>

datatype ETokenType =
    EToken_None | EToken_Variable | EToken_Equals | EToken_NotEquals | EToken_Greater
  | EToken_GreaterEquals | EToken_Less | EToken_LessEquals | EToken_Or | EToken_And
  | EToken_LeftBracket | EToken_RightBracket | EToken_Integer | EToken_String | EToken_Float
  | EToken_Add | EToken_Subtract | EToken_Multiply | EToken_Divide | EToken_StrLike | EToken_Not

text \<open>
  \<open>m_int\<close> is only set by the constructor from an \<open>int\<close>; \<open>m_float\<close> is never set, because no code
  makes a token of type \<open>EToken_Float\<close>.
\<close>

record CToken =
  m_type :: ETokenType
  m_int :: "i32 option"
  m_str :: string

definition CToken_none :: CToken where
  "CToken_none = \<lparr>m_type = EToken_None, m_int = None, m_str = []\<rparr>"

definition CToken_int :: "i32 \<Rightarrow> CToken" where
  "CToken_int v = \<lparr>m_type = EToken_Integer, m_int = Some v, m_str = []\<rparr>"

definition CToken_str :: "string \<Rightarrow> CToken" where
  "CToken_str s = \<lparr>m_type = EToken_String, m_int = None, m_str = s\<rparr>"

definition CToken_var :: "string \<Rightarrow> CToken" where
  "CToken_var s = \<lparr>m_type = EToken_Variable, m_int = None, m_str = s\<rparr>"

definition CToken_op :: "ETokenType \<Rightarrow> CToken" where
  "CToken_op t = \<lparr>m_type = t, m_int = None, m_str = []\<rparr>"

section \<open>Reading\<close>

text \<open>The text between the quote at \<open>idx\<close> and the next one, and the position of that one.\<close>

definition readString :: "string \<Rightarrow> nat \<Rightarrow> string \<times> nat" where
  "readString flt idx =
     (let str = takeWhile (\<lambda>c. c \<noteq> at flt idx) (drop (idx + 1) flt)
      in (str, idx + 1 + length str))"

definition ident_char :: "char \<Rightarrow> bool" where
  "ident_char c \<longleftrightarrow> isalnum c \<or> c = CHR ''.'' \<or> c = CHR ''_''"

text \<open>
  The copy has room for \<open>len\<close> characters: an identifier that fills it leaves no terminator for
  \<open>strlen\<close>. The inner \<open>None\<close> is the returned \<open>NULL\<close>.
\<close>

definition readVariable :: "string \<Rightarrow> nat \<Rightarrow> (string option \<times> nat) option" where
  "readVariable flt idx =
     (let ret_str = takeWhile ident_char (drop idx flt)
      in if length ret_str \<ge> length flt then None
         else Some (if ret_str = [] then None else Some ret_str, idx + length ret_str))"

text \<open>The first result is whether the number is a float, whose value nobody uses.\<close>

definition read_integer :: "string \<Rightarrow> nat \<Rightarrow> bool \<times> i32 \<times> nat" where
  "read_integer flt idx =
     (let run = takeWhile (\<lambda>c. c = CHR ''f'' \<or> c = CHR ''.'' \<or> isdigit c) (drop idx flt)
      in (list_ex (\<lambda>c. c = CHR ''f'' \<or> c = CHR ''.'') run, atoi (filter isdigit run), idx + length run - 1))"

text \<open>The operator or keyword at \<open>idx\<close>, and the position of its last character.\<close>

definition checkMultiCharToken :: "string \<Rightarrow> nat \<Rightarrow> (CToken \<times> nat) option" where
  "checkMultiCharToken flt idx =
     (let s = drop idx flt in
      if idx + 1 > length flt then None
      else if starts_with ''=='' s then Some (CToken_op EToken_Equals, idx + 1)
      else if starts_with_i ''is'' s then Some (CToken_op EToken_Equals, idx + 1)
      else if starts_with ''='' s then Some (CToken_op EToken_Equals, idx)
      else if starts_with ''!='' s \<or> starts_with ''<>'' s then Some (CToken_op EToken_NotEquals, idx + 1)
      else if starts_with ''>='' s then Some (CToken_op EToken_GreaterEquals, idx + 1)
      else if starts_with ''<='' s then Some (CToken_op EToken_LessEquals, idx + 1)
      else if starts_with ''<'' s then Some (CToken_op EToken_Less, idx)
      else if starts_with ''>'' s then Some (CToken_op EToken_Greater, idx)
      else if starts_with ''||'' s \<or> starts_with_i ''OR'' s then Some (CToken_op EToken_Or, idx + 1)
      else if starts_with ''&&'' s then Some (CToken_op EToken_And, idx + 1)
      else if starts_with_i ''AND'' s then Some (CToken_op EToken_And, idx + 2)
      else if starts_with ''('' s then Some (CToken_op EToken_LeftBracket, idx)
      else if starts_with '')'' s then Some (CToken_op EToken_RightBracket, idx)
      else if starts_with_i ''null'' s then Some (CToken_int 0, idx + 3)
      else if starts_with_i ''LIKE'' s then Some (CToken_op EToken_StrLike, idx + 3)
      else if starts_with_i ''NOT'' s then Some (CToken_op EToken_Not, idx + 2)
      else if at flt idx = CHR ''!'' then Some (CToken_op EToken_Not, idx)
      else None)"

text \<open>
  One turn of the loop of \<open>filterToTokenList\<close> at position \<open>i\<close>, with the variable \<open>token\<close> and the
  tokens so far; the new position is the one the loop's \<open>i++\<close> starts from. A float literal pushes
  \<open>token\<close> as it was left by an earlier turn.
\<close>

definition lex_step :: "string \<Rightarrow> nat \<Rightarrow> CToken \<Rightarrow> CToken list \<Rightarrow> (nat \<times> CToken \<times> CToken list) option" where
  "lex_step flt i token tokens =
     (let c = at flt i in
      if isspace c then Some (i, token, tokens)
      else case checkMultiCharToken flt i of
        Some (t, j) \<Rightarrow> Some (j, t, tokens @ [t])
      | None \<Rightarrow>
          if c = CHR 0x27 \<or> c = CHR 0x22 then
            (let (str, j) = readString flt i; t = CToken_str str in Some (j, t, tokens @ [t]))
          else if c = CHR ''-'' then (let t = CToken_op EToken_Subtract in Some (i, t, tokens @ [t]))
          else if c = CHR ''+'' then (let t = CToken_op EToken_Add in Some (i, t, tokens @ [t]))
          else if c = CHR ''/'' then (let t = CToken_op EToken_Divide in Some (i, t, tokens @ [t]))
          else if c = CHR ''*'' then (let t = CToken_op EToken_Multiply in Some (i, t, tokens @ [t]))
          else if isdigit c then
            (let (is_float, v, j) = read_integer flt i; t = (if is_float then token else CToken_int v)
             in Some (j, t, tokens @ [t]))
          else
            (case readVariable flt i of
               None \<Rightarrow> None
             | Some (None, j) \<Rightarrow> Some (j, token, tokens)
             | Some (Some str, j) \<Rightarrow> (let t = CToken_var str in Some (j - 1, t, tokens @ [t]))))"

lemma checkMultiCharToken_forward: "checkMultiCharToken flt i = Some (t, j) \<Longrightarrow> i \<le> j"
  by (auto simp: checkMultiCharToken_def Let_def split: if_splits)

lemma lex_step_forward:
  assumes "lex_step flt i token tokens = Some (j, t, ts)" and "i < length flt"
  shows "i \<le> j"
proof -
  have run: "i \<le> i + length (takeWhile P (drop i flt)) - 1" if "P (at flt i)" for P
  proof -
    have "drop i flt = at flt i # drop (i + 1) flt"
      using assms(2) by (simp add: at_def Cons_nth_drop_Suc)
    then show ?thesis using that by simp
  qed
  have var: "i \<le> j' - 1" if "readVariable flt i = Some (Some s, j')" for s j'
    using that by (cases "takeWhile ident_char (drop i flt)") (auto simp: readVariable_def Let_def split: if_splits)
  have num: "i \<le> j'" if "read_integer flt i = (f, v, j')" "isdigit (at flt i)" for f v j'
    using that run [of "\<lambda>c. c = CHR ''f'' \<or> c = CHR ''.'' \<or> isdigit c"] by (auto simp: read_integer_def Let_def)
  show ?thesis
    using assms(1) checkMultiCharToken_forward var num
    by (auto simp: lex_step_def Let_def readString_def readVariable_def
        split: if_splits option.splits prod.splits dest: num)
qed

function lex_loop :: "string \<Rightarrow> nat \<Rightarrow> CToken \<Rightarrow> CToken list \<Rightarrow> CToken list option" where
  "lex_loop flt i token tokens =
     (if i < length flt then
        (case lex_step flt i token tokens of
           None \<Rightarrow> None
         | Some (j, t, ts) \<Rightarrow> lex_loop flt (j + 1) t ts)
      else Some tokens)"
  by pat_completeness auto
termination
  by (relation "measure (\<lambda>(flt, i, token, tokens). length flt - i)") (auto dest: lex_step_forward)

declare lex_loop.simps [simp del]

section \<open>Ordering\<close>

fun isOperator :: "ETokenType \<Rightarrow> bool" where
  "isOperator t \<longleftrightarrow>
     t \<in> {EToken_Equals, EToken_NotEquals, EToken_Greater, EToken_GreaterEquals, EToken_Less,
       EToken_LessEquals, EToken_Or, EToken_And, EToken_Multiply, EToken_Divide, EToken_Add,
       EToken_Subtract, EToken_StrLike, EToken_Not}"

fun isOperand :: "ETokenType \<Rightarrow> bool" where
  "isOperand t \<longleftrightarrow> t \<in> {EToken_Variable, EToken_Integer, EToken_String, EToken_Float}"

definition IsLAssocOperator :: "ETokenType \<Rightarrow> bool" where
  "IsLAssocOperator t = isOperator t"

definition getPrecedence :: "ETokenType \<Rightarrow> nat" where
  "getPrecedence t =
     (if t = EToken_Or then 1
      else if t = EToken_And then 2
      else if t = EToken_Equals \<or> t = EToken_NotEquals then 3
      else if t = EToken_Not then 4
      else if t = EToken_Add \<or> t = EToken_Subtract then 4
      else if t = EToken_Multiply \<or> t = EToken_Divide then 5
      else if t = EToken_Greater \<or> t = EToken_GreaterEquals \<or> t = EToken_Less \<or> t = EToken_LessEquals then 3
      else if t = EToken_StrLike then 3
      else 0)"

text \<open>The stack's top is the head of the list.\<close>

fun pop_operators :: "ETokenType \<Rightarrow> CToken list \<Rightarrow> CToken list \<Rightarrow> CToken list \<times> CToken list" where
  "pop_operators type out [] = (out, [])"
| "pop_operators type out (opr # st) =
     (if isOperator (m_type opr) \<and> IsLAssocOperator type \<and> getPrecedence (m_type opr) \<ge> getPrecedence type
      then pop_operators type (out @ [opr]) st
      else (out, opr # st))"

fun pop_bracket :: "CToken list \<Rightarrow> CToken list \<Rightarrow> CToken list \<times> CToken list" where
  "pop_bracket out [] = (out, [])"
| "pop_bracket out (opr # st) =
     (if m_type opr \<noteq> EToken_LeftBracket then pop_bracket (out @ [opr]) st else (out, st))"

fun rpn_loop :: "CToken list \<Rightarrow> CToken list \<Rightarrow> CToken list \<Rightarrow> CToken list" where
  "rpn_loop [] out st = out @ st"
| "rpn_loop (cur # ts) out st =
     (let type = m_type cur in
      if type = EToken_Variable \<or> type = EToken_Integer \<or> type = EToken_String then rpn_loop ts (out @ [cur]) st
      else if isOperator type then
        (let (out', st') = pop_operators type out st in rpn_loop ts out' (cur # st'))
      else if type = EToken_LeftBracket then rpn_loop ts out (cur # st)
      else if type = EToken_RightBracket then
        (let (out', st') = pop_bracket out st in rpn_loop ts out' st')
      else rpn_loop ts out st)"

definition convertToRPN :: "CToken list \<Rightarrow> CToken list" where
  "convertToRPN token_list = rpn_loop token_list [] []"

definition filterToTokenList :: "string \<Rightarrow> CToken list option" where
  "filterToTokenList flt = map_option convertToRPN (lex_loop flt 0 CToken_none [])"

end
