(* ===== verification/FilterEval.thy ===== *)
theory FilterEval
  imports FilterLex "HOL-Library.Signed_Division" "HOL-Library.Monad_Syntax"
begin

text \<open>
  Evaluation of a filter's tokens in postfix order against the keys of a server
  (\<open>serverbrowsing/filter/CToken.cpp\<close> and \<open>filter.cpp\<close>), with the semantics of filters as
  expression trees that it implements. An operand stack is a list whose head is the top.
\<close>

section \<open>Comparisons\<close>

definition tokenToString :: "CToken \<Rightarrow> string option" where
  "tokenToString t =
     (if m_type t = EToken_Integer then map_option dec_int (m_int t) else Some (m_str t))"

definition string_compare_equals :: "string \<Rightarrow> string \<Rightarrow> int" where
  "string_compare_equals s1 s2 = (if s1 = s2 then 0 else if s1 < s2 then -1 else 1)"

definition string_compare_like :: "string \<Rightarrow> string \<Rightarrow> int" where
  "string_compare_like s1 s2 = of_bool (fst (match2 (CHR ''%'') s1 s2) = 0)"

definition string_compare_greater_than_equals :: "string \<Rightarrow> string \<Rightarrow> int" where
  "string_compare_greater_than_equals s1 s2 = of_bool (length s1 \<ge> length s2)"

definition string_compare_less_than_equals :: "string \<Rightarrow> string \<Rightarrow> int" where
  "string_compare_less_than_equals s1 s2 = of_bool (length s1 \<le> length s2)"

text \<open>
  The macro \<open>DEFINE_BOOLEAN_OPERATION\<close>. Of two texts the one on top of the stack, the right
  operand, is the first argument of the comparison.
\<close>

definition boolean_operation ::
  "(i32 \<Rightarrow> i32 \<Rightarrow> bool) \<Rightarrow> (string \<Rightarrow> string \<Rightarrow> bool) \<Rightarrow> CToken list \<Rightarrow> (CToken \<times> CToken list) option" where
  "boolean_operation opr str stack =
     (case stack of
        t2 # t1 # st \<Rightarrow>
          if m_type t1 = EToken_Integer \<and> m_type t2 = EToken_Integer then
            do { i1 \<leftarrow> m_int t1; i2 \<leftarrow> m_int t2; Some (CToken_int (of_bool (opr i1 i2)), st) }
          else if m_type t1 = EToken_String \<or> m_type t2 = EToken_String then
            do { s2 \<leftarrow> tokenToString t1; s1 \<leftarrow> tokenToString t2; Some (CToken_int (of_bool (str s1 s2)), st) }
          else Some (CToken_int 1, st)
      | _ \<Rightarrow> Some (CToken_int 1, stack))"

definition boolean_operation_nostr ::
  "(i32 \<Rightarrow> i32 \<Rightarrow> bool) \<Rightarrow> CToken list \<Rightarrow> (CToken \<times> CToken list) option" where
  "boolean_operation_nostr opr stack =
     (case stack of
        t2 # t1 # st \<Rightarrow>
          if m_type t1 = EToken_Integer \<and> m_type t2 = EToken_Integer then
            do { i1 \<leftarrow> m_int t1; i2 \<leftarrow> m_int t2; Some (CToken_int (of_bool (opr i1 i2)), st) }
          else Some (CToken_int 1, st)
      | _ \<Rightarrow> Some (CToken_int 1, stack))"

definition equals :: "CToken list \<Rightarrow> (CToken \<times> CToken list) option" where
  "equals = boolean_operation (=) (\<lambda>s1 s2. string_compare_equals s1 s2 = 0)"

definition string_like :: "CToken list \<Rightarrow> (CToken \<times> CToken list) option" where
  "string_like = boolean_operation (=) (\<lambda>s1 s2. string_compare_like s1 s2 = 1)"

definition nequals :: "CToken list \<Rightarrow> (CToken \<times> CToken list) option" where
  "nequals = boolean_operation (\<noteq>) (\<lambda>s1 s2. string_compare_equals s1 s2 \<noteq> 0)"

definition gequals :: "CToken list \<Rightarrow> (CToken \<times> CToken list) option" where
  "gequals = boolean_operation (\<lambda>a b. sint a \<ge> sint b) (\<lambda>s1 s2. string_compare_greater_than_equals s1 s2 \<noteq> 0)"

definition lequals :: "CToken list \<Rightarrow> (CToken \<times> CToken list) option" where
  "lequals = boolean_operation (\<lambda>a b. sint a \<le> sint b) (\<lambda>s1 s2. string_compare_less_than_equals s1 s2 \<noteq> 0)"

definition lessthan :: "CToken list \<Rightarrow> (CToken \<times> CToken list) option" where
  "lessthan = boolean_operation_nostr (\<lambda>a b. sint a < sint b)"

definition greaterthan :: "CToken list \<Rightarrow> (CToken \<times> CToken list) option" where
  "greaterthan = boolean_operation_nostr (\<lambda>a b. sint a > sint b)"

definition evaland :: "CToken list \<Rightarrow> (CToken \<times> CToken list) option" where
  "evaland = boolean_operation_nostr (\<lambda>a b. a \<noteq> 0 \<and> b \<noteq> 0)"

definition evalor :: "CToken list \<Rightarrow> (CToken \<times> CToken list) option" where
  "evalor = boolean_operation_nostr (\<lambda>a b. a \<noteq> 0 \<or> b \<noteq> 0)"

section \<open>Arithmetic\<close>

text \<open>
  Sums and products wrap. A token of type \<open>EToken_Float\<close> would have no value to read, and the
  quotient of the least \<open>int\<close> and -1 does not exist.
\<close>

definition multiply :: "CToken list \<Rightarrow> (CToken \<times> CToken list) option" where
  "multiply stack =
     (case stack of
        rh # lh # st \<Rightarrow>
          (if m_type lh = EToken_Integer then
             do { a \<leftarrow> m_int lh; b \<leftarrow> m_int rh; Some (CToken_int (a * b), st) }
           else if m_type lh = EToken_Float then None
           else Some (CToken_none, st))
      | _ \<Rightarrow> Some (CToken_none, stack))"

definition addition :: "CToken list \<Rightarrow> (CToken \<times> CToken list) option" where
  "addition stack =
     (case stack of
        rh # lh # st \<Rightarrow>
          (if m_type lh = EToken_Integer then
             do { a \<leftarrow> m_int lh; b \<leftarrow> m_int rh; Some (CToken_int (a + b), st) }
           else if m_type lh = EToken_Float then None
           else Some (CToken_none, st))
      | _ \<Rightarrow> Some (CToken_none, stack))"

definition subtraction :: "CToken list \<Rightarrow> (CToken \<times> CToken list) option" where
  "subtraction stack =
     (case stack of
        rh # lh # st \<Rightarrow>
          (if m_type lh = EToken_Integer then
             do { a \<leftarrow> m_int lh; b \<leftarrow> m_int rh; Some (CToken_int (a - b), st) }
           else if m_type lh = EToken_Float then None
           else Some (CToken_none, st))
      | _ \<Rightarrow> Some (CToken_none, stack))"

definition quotient_defined :: "i32 \<Rightarrow> i32 \<Rightarrow> bool" where
  "quotient_defined a b \<longleftrightarrow> b \<noteq> 0 \<and> \<not> (sint a = - (2 ^ 31) \<and> b = - 1)"

definition divide :: "CToken list \<Rightarrow> (CToken \<times> CToken list) option" where
  "divide stack =
     (case stack of
        rh # lh # st \<Rightarrow>
          do {
            b \<leftarrow> m_int rh;
            if b = 0 then Some (CToken_none, st)
            else if m_type lh = EToken_Integer then
              do { a \<leftarrow> m_int lh;
                   if quotient_defined a b then Some (CToken_int (word_of_int (sint a sdiv sint b)), st)
                   else None }
            else if m_type lh = EToken_Float then None
            else Some (CToken_none, st)
          }
      | _ \<Rightarrow> Some (CToken_none, stack))"

definition logical_not :: "CToken list \<Rightarrow> (CToken \<times> CToken list) option" where
  "logical_not stack =
     (case stack of
        t # st \<Rightarrow>
          (if m_type t = EToken_Integer then
             do { a \<leftarrow> m_int t; Some (CToken_int (of_bool (a = 0)), st) }
           else if m_type t = EToken_Float then None
           else Some (CToken_int 0, st))
      | _ \<Rightarrow> Some (CToken_int 0, stack))"

section \<open>The evaluator\<close>

type_synonym kv_list = "(string, string) smap"

record TokenOperand =
  ival :: i32
  sval :: string
  op_token :: ETokenType

definition is_numeric :: "string \<Rightarrow> bool" where
  "is_numeric s = list_all isdigit s"

text \<open>\<open>kvList[name]\<close> adds an empty value for a key the server does not have.\<close>

definition resolve_variable :: "string \<Rightarrow> kv_list \<Rightarrow> TokenOperand \<times> kv_list" where
  "resolve_variable name kvList =
     (let (val, kvList') = smap_index [] (c_string name) kvList; var = c_string val in
      (if is_numeric var then \<lparr>ival = atoi var, sval = [], op_token = EToken_Integer\<rparr>
       else if length var > 0 then \<lparr>ival = 0, sval = var, op_token = EToken_String\<rparr>
       else \<lparr>ival = 0, sval = [], op_token = EToken_Integer\<rparr>,
       kvList'))"

definition operand_of :: "TokenOperand \<Rightarrow> CToken" where
  "operand_of tok = (if op_token tok = EToken_String then CToken_str (sval tok) else CToken_int (ival tok))"

definition apply_operator :: "ETokenType \<Rightarrow> CToken list \<Rightarrow> (CToken \<times> CToken list) option" where
  "apply_operator t =
     (case t of
        EToken_Add \<Rightarrow> addition | EToken_Subtract \<Rightarrow> subtraction | EToken_Multiply \<Rightarrow> multiply
      | EToken_Divide \<Rightarrow> divide | EToken_Equals \<Rightarrow> equals | EToken_StrLike \<Rightarrow> string_like
      | EToken_NotEquals \<Rightarrow> nequals | EToken_LessEquals \<Rightarrow> lequals | EToken_GreaterEquals \<Rightarrow> gequals
      | EToken_Less \<Rightarrow> lessthan | EToken_Greater \<Rightarrow> greaterthan | EToken_And \<Rightarrow> evaland
      | EToken_Or \<Rightarrow> evalor | EToken_Not \<Rightarrow> logical_not
      | _ \<Rightarrow> (\<lambda>st. None))"

definition eval_step :: "CToken \<Rightarrow> CToken list \<times> kv_list \<Rightarrow> (CToken list \<times> kv_list) option" where
  "eval_step t = (\<lambda>(stack, kvList).
     if isOperand (m_type t) then
       (if m_type t = EToken_Variable then
          (let (tok, kvList') = resolve_variable (m_str t) kvList in Some (operand_of tok # stack, kvList'))
        else Some (t # stack, kvList))
     else if isOperator (m_type t) then
       do { (ret, st) \<leftarrow> apply_operator (m_type t) stack; Some (ret # st, kvList) }
     else Some (stack, kvList))"

fun eval_loop :: "CToken list \<Rightarrow> CToken list \<times> kv_list \<Rightarrow> (CToken list \<times> kv_list) option" where
  "eval_loop [] s = Some s"
| "eval_loop (t # ts) s = do { s' \<leftarrow> eval_step t s; eval_loop ts s' }"

text \<open>The answer and the keys as the variables of the filter left them.\<close>

definition evaluate :: "CToken list \<Rightarrow> kv_list \<Rightarrow> (bool \<times> kv_list) option" where
  "evaluate tokens kvList =
     do {
       (stack, kvList') \<leftarrow> eval_loop tokens ([], kvList);
       (case stack of
          [] \<Rightarrow> Some (False, kvList')
        | ret # _ \<Rightarrow>
            if m_type ret = EToken_Integer then do { v \<leftarrow> m_int ret; Some (v \<noteq> 0, kvList') }
            else Some (False, kvList'))
     }"

definition filterMatches :: "CToken list \<Rightarrow> kv_list \<Rightarrow> (bool \<times> kv_list) option" where
  "filterMatches token_list kvList =
     (if token_list = [] then Some (True, kvList) else evaluate token_list kvList)"

end
