(* ===== verification/FilterTree.thy ===== *)
theory FilterTree
  imports FilterEval "HOL-Library.Multiset"
begin

text \<open>
  What a filter means: expression trees with a value for each, the order of tokens that
  \<open>convertToRPN\<close> gives to a tree written down as a filter, and the evaluation of that order as
  the value of the tree.
\<close>

section \<open>Expressions\<close>

datatype fexpr =
    Num i32
  | Str string
  | Var string
  | Paren fexpr
  | Binary ETokenType fexpr fexpr
  | Negation fexpr

fun infix_tokens :: "fexpr \<Rightarrow> CToken list" where
  "infix_tokens (Num i) = [CToken_int i]"
| "infix_tokens (Str s) = [CToken_str s]"
| "infix_tokens (Var x) = [CToken_var x]"
| "infix_tokens (Paren e) = CToken_op EToken_LeftBracket # infix_tokens e @ [CToken_op EToken_RightBracket]"
| "infix_tokens (Binary t l r) = infix_tokens l @ CToken_op t # infix_tokens r"
| "infix_tokens (Negation e) = CToken_op EToken_Not # infix_tokens e"

fun postfix :: "fexpr \<Rightarrow> CToken list" where
  "postfix (Num i) = [CToken_int i]"
| "postfix (Str s) = [CToken_str s]"
| "postfix (Var x) = [CToken_var x]"
| "postfix (Paren e) = postfix e"
| "postfix (Binary t l r) = postfix l @ postfix r @ [CToken_op t]"
| "postfix (Negation e) = postfix e @ [CToken_op EToken_Not]"

fun level :: "fexpr \<Rightarrow> nat" where
  "level (Binary t l r) = getPrecedence t"
| "level (Negation e) = 4"
| "level _ = 6"

definition is_binary :: "ETokenType \<Rightarrow> bool" where
  "is_binary t \<longleftrightarrow> isOperator t \<and> t \<noteq> EToken_Not"

text \<open>Trees that need no brackets beyond the ones they have; operators associate to the left.\<close>

fun well_bracketed :: "fexpr \<Rightarrow> bool" where
  "well_bracketed (Paren e) \<longleftrightarrow> well_bracketed e"
| "well_bracketed (Binary t l r) \<longleftrightarrow>
     is_binary t \<and> well_bracketed l \<and> well_bracketed r \<and> level l \<ge> getPrecedence t \<and> level r > getPrecedence t"
| "well_bracketed (Negation e) \<longleftrightarrow> well_bracketed e \<and> level e > 4"
| "well_bracketed _ \<longleftrightarrow> True"

section \<open>Postfix order\<close>

lemma token_simps [simp]:
  "m_type (CToken_op t) = t"
  "m_type (CToken_int i) = EToken_Integer" "m_int (CToken_int i) = Some i"
  "m_type (CToken_str s) = EToken_String" "m_str (CToken_str s) = s"
  "m_type (CToken_var s) = EToken_Variable" "m_str (CToken_var s) = s"
  by (simp_all add: CToken_op_def CToken_int_def CToken_str_def CToken_var_def)

lemma operator_precedence: "isOperator t \<Longrightarrow> 1 \<le> getPrecedence t \<and> getPrecedence t \<le> 5"
  by (cases t) (simp_all add: getPrecedence_def)

declare isOperator.simps [simp del]

text \<open>No operator on top of the stack that a new operator of precedence \<open>p\<close> or more pops.\<close>

definition stack_below :: "nat \<Rightarrow> CToken list \<Rightarrow> bool" where
  "stack_below p st \<longleftrightarrow> (case st of [] \<Rightarrow> True | t # _ \<Rightarrow> isOperator (m_type t) \<longrightarrow> getPrecedence (m_type t) < p)"

lemma stack_below_mono: "stack_below p st \<Longrightarrow> p \<le> q \<Longrightarrow> stack_below q st"
  by (auto simp: stack_below_def split: list.splits)

lemma stack_below_op: "getPrecedence t < p \<Longrightarrow> stack_below p (CToken_op t # st)"
  by (simp add: stack_below_def)

lemma stack_below_bracket: "stack_below p (CToken_op EToken_LeftBracket # st)"
  by (simp add: stack_below_def isOperator.simps)

definition ops_from :: "nat \<Rightarrow> CToken list \<Rightarrow> bool" where
  "ops_from p s \<longleftrightarrow> (\<forall>t \<in> set s. isOperator (m_type t) \<and> p \<le> getPrecedence (m_type t))"

lemma ops_from_simps [simp]:
  "ops_from p []"
  "ops_from p (t # s) \<longleftrightarrow> isOperator (m_type t) \<and> p \<le> getPrecedence (m_type t) \<and> ops_from p s"
  "ops_from p (s @ s') \<longleftrightarrow> ops_from p s \<and> ops_from p s'"
  by (auto simp: ops_from_def)

lemma ops_from_mono: "ops_from q s \<Longrightarrow> p \<le> q \<Longrightarrow> ops_from p s"
  by (auto simp: ops_from_def)

lemma pop_operators_below:
  "isOperator t \<Longrightarrow> stack_below (getPrecedence t) st \<Longrightarrow> pop_operators t out st = (out, st)"
  by (cases st) (auto simp: stack_below_def)

lemma pop_operators_all:
  "isOperator t \<Longrightarrow> ops_from (getPrecedence t) s \<Longrightarrow> stack_below (getPrecedence t) st \<Longrightarrow>
     pop_operators t out (s @ st) = (out @ s, st)"
  by (induction s arbitrary: out) (simp_all add: pop_operators_below IsLAssocOperator_def)

lemma pop_bracket_ops:
  "ops_from p s \<Longrightarrow> pop_bracket out (s @ CToken_op EToken_LeftBracket # st) = (out @ s, st)"
  by (induction s arbitrary: out) (auto simp: isOperator.simps)

lemma rpn_loop_operand:
  "m_type t \<in> {EToken_Variable, EToken_Integer, EToken_String} \<Longrightarrow>
     rpn_loop (t # ts) out st = rpn_loop ts (out @ [t]) st"
  by auto

lemma rpn_loop_operator:
  assumes "isOperator t" "ops_from (getPrecedence t) s" "stack_below (getPrecedence t) st"
  shows "rpn_loop (CToken_op t # ts) out (s @ st) = rpn_loop ts (out @ s) (CToken_op t # st)"
  using pop_operators_all [OF assms, of out] assms(1) by (auto simp: isOperator.simps)

lemma rpn_loop_left: "rpn_loop (CToken_op EToken_LeftBracket # ts) out st = rpn_loop ts out (CToken_op EToken_LeftBracket # st)"
  by (simp add: isOperator.simps)

lemma rpn_loop_right:
  "ops_from p s \<Longrightarrow>
     rpn_loop (CToken_op EToken_RightBracket # ts) out (s @ CToken_op EToken_LeftBracket # st)
       = rpn_loop ts (out @ s) st"
  by (simp add: pop_bracket_ops isOperator.simps)

lemma level_ge_1: "well_bracketed e \<Longrightarrow> 1 \<le> level e"
  by (cases e) (auto simp: is_binary_def dest: operator_precedence)

declare rpn_loop.simps(2) [simp del]

lemma rpn_loop_infix:
  assumes "well_bracketed e" and "stack_below (level e) st"
  shows "\<exists>o' s. rpn_loop (infix_tokens e @ ts) out st = rpn_loop ts (out @ o') (s @ st)
    \<and> o' @ s = postfix e \<and> ops_from (level e) s"
  using assms
proof (induction e arbitrary: ts out st)
  case (Num i)
  then show ?case by (intro exI [of _ "[CToken_int i]"] exI [of _ "[]"]) (simp add: rpn_loop_operand)
next
  case (Str x)
  then show ?case by (intro exI [of _ "[CToken_str x]"] exI [of _ "[]"]) (simp add: rpn_loop_operand)
next
  case (Var x)
  then show ?case by (intro exI [of _ "[CToken_var x]"] exI [of _ "[]"]) (simp add: rpn_loop_operand)
next
  case (Paren e)
  from Paren.IH [OF _ stack_below_bracket, of "CToken_op EToken_RightBracket # ts" out st] Paren.prems
  obtain o' s where "rpn_loop (infix_tokens e @ CToken_op EToken_RightBracket # ts) out (CToken_op EToken_LeftBracket # st)
      = rpn_loop (CToken_op EToken_RightBracket # ts) (out @ o') (s @ CToken_op EToken_LeftBracket # st)"
    "o' @ s = postfix e" "ops_from (level e) s" by auto
  then show ?case
    by (intro exI [of _ "o' @ s"] exI [of _ "[]"]) (simp add: rpn_loop_left rpn_loop_right)
next
  case (Binary t l r)
  then have t: "isOperator t" by (simp add: is_binary_def)
  have below: "stack_below (level l) st"
    using Binary.prems by (auto intro: stack_below_mono)
  obtain o1 s1 where 1: "rpn_loop (infix_tokens l @ CToken_op t # infix_tokens r @ ts) out st
      = rpn_loop (CToken_op t # infix_tokens r @ ts) (out @ o1) (s1 @ st)"
    "o1 @ s1 = postfix l" "ops_from (level l) s1"
    using Binary.IH(1) [OF _ below] Binary.prems by fastforce
  have mid: "rpn_loop (CToken_op t # infix_tokens r @ ts) (out @ o1) (s1 @ st)
      = rpn_loop (infix_tokens r @ ts) (out @ postfix l) (CToken_op t # st)"
    using rpn_loop_operator [OF t, of s1 st "infix_tokens r @ ts" "out @ o1"] 1 Binary.prems
    by (auto dest: ops_from_mono)
  obtain o2 s2 where 2: "rpn_loop (infix_tokens r @ ts) (out @ postfix l) (CToken_op t # st)
      = rpn_loop ts ((out @ postfix l) @ o2) (s2 @ CToken_op t # st)"
    "o2 @ s2 = postfix r" "ops_from (level r) s2"
    using Binary.IH(2) [of "CToken_op t # st" ts "out @ postfix l"] Binary.prems stack_below_op by fastforce
  show ?case
    using 1 mid 2 t Binary.prems
    by (intro exI [of _ "postfix l @ o2"] exI [of _ "s2 @ [CToken_op t]"]) (auto elim: ops_from_mono)
next
  case (Negation e)
  have "rpn_loop (CToken_op EToken_Not # infix_tokens e @ ts) out ([] @ st)
      = rpn_loop (infix_tokens e @ ts) (out @ []) (CToken_op EToken_Not # st)"
    by (rule rpn_loop_operator) (use Negation.prems in \<open>simp_all add: isOperator.simps getPrecedence_def\<close>)
  moreover obtain o' s where "rpn_loop (infix_tokens e @ ts) out (CToken_op EToken_Not # st)
      = rpn_loop ts (out @ o') (s @ CToken_op EToken_Not # st)" "o' @ s = postfix e" "ops_from (level e) s"
    using Negation.IH [of "CToken_op EToken_Not # st" ts out] Negation.prems
      stack_below_op [of EToken_Not "level e" st] by (auto simp: getPrecedence_def)
  ultimately show ?case
    using Negation.prems
    by (intro exI [of _ o'] exI [of _ "s @ [CToken_op EToken_Not]"])
      (auto simp: isOperator.simps getPrecedence_def elim: ops_from_mono)
qed

lemma convertToRPN_tree:
  assumes "well_bracketed e"
  shows "convertToRPN (infix_tokens e) = postfix e"
proof -
  have "stack_below (level e) []" by (simp add: stack_below_def)
  from rpn_loop_infix [OF assms this, of "[]" "[]"] show ?thesis
    by (auto simp: convertToRPN_def)
qed

section \<open>The value of an expression\<close>

text \<open>
  Values are integers and texts. The value of an expression says nothing (\<open>None\<close>) where the code
  does something arbitrary: arithmetic and logic on texts, the order of two texts, division by 0 and
  the one quotient that does not exist.
\<close>

datatype fvalue = VInt i32 | VStr string

fun text_of :: "fvalue \<Rightarrow> string" where
  "text_of (VInt i) = dec_int i"
| "text_of (VStr s) = s"

fun token_of :: "fvalue \<Rightarrow> CToken" where
  "token_of (VInt i) = CToken_int i"
| "token_of (VStr s) = CToken_str s"

fun truth :: "fvalue \<Rightarrow> bool" where
  "truth (VInt i) \<longleftrightarrow> i \<noteq> 0"
| "truth (VStr s) \<longleftrightarrow> False"

definition lookup_key :: "kv_list \<Rightarrow> string \<Rightarrow> string" where
  "lookup_key kvList name = (case smap_find kvList name of None \<Rightarrow> [] | Some s \<Rightarrow> s)"

definition value_of_key :: "string \<Rightarrow> fvalue" where
  "value_of_key s = (if is_numeric (c_string s) then VInt (atoi s) else VStr (c_string s))"

fun int_value :: "ETokenType \<Rightarrow> i32 \<Rightarrow> i32 \<Rightarrow> fvalue option" where
  "int_value t a b =
     (case t of
        EToken_Add \<Rightarrow> Some (VInt (a + b))
      | EToken_Subtract \<Rightarrow> Some (VInt (a - b))
      | EToken_Multiply \<Rightarrow> Some (VInt (a * b))
      | EToken_Divide \<Rightarrow>
          (if quotient_defined a b then Some (VInt (word_of_int (sint a sdiv sint b))) else None)
      | EToken_Equals \<Rightarrow> Some (VInt (of_bool (a = b)))
      | EToken_StrLike \<Rightarrow> Some (VInt (of_bool (a = b)))
      | EToken_NotEquals \<Rightarrow> Some (VInt (of_bool (a \<noteq> b)))
      | EToken_Less \<Rightarrow> Some (VInt (of_bool (sint a < sint b)))
      | EToken_LessEquals \<Rightarrow> Some (VInt (of_bool (sint a \<le> sint b)))
      | EToken_Greater \<Rightarrow> Some (VInt (of_bool (sint b < sint a)))
      | EToken_GreaterEquals \<Rightarrow> Some (VInt (of_bool (sint b \<le> sint a)))
      | EToken_And \<Rightarrow> Some (VInt (of_bool (a \<noteq> 0 \<and> b \<noteq> 0)))
      | EToken_Or \<Rightarrow> Some (VInt (of_bool (a \<noteq> 0 \<or> b \<noteq> 0)))
      | _ \<Rightarrow> None)"

fun text_value :: "ETokenType \<Rightarrow> string \<Rightarrow> string \<Rightarrow> fvalue option" where
  "text_value t a b =
     (case t of
        EToken_Equals \<Rightarrow> Some (VInt (of_bool (a = b)))
      | EToken_NotEquals \<Rightarrow> Some (VInt (of_bool (a \<noteq> b)))
      | EToken_StrLike \<Rightarrow> Some (VInt (of_bool (glob (CHR ''%'') (c_string b) (c_string a))))
      | _ \<Rightarrow> None)"

fun binary_value :: "ETokenType \<Rightarrow> fvalue \<Rightarrow> fvalue \<Rightarrow> fvalue option" where
  "binary_value t (VInt a) (VInt b) = int_value t a b"
| "binary_value t v w = text_value t (text_of v) (text_of w)"

fun fexpr_value :: "(string \<Rightarrow> string) \<Rightarrow> fexpr \<Rightarrow> fvalue option" where
  "fexpr_value env (Num i) = Some (VInt i)"
| "fexpr_value env (Str s) = Some (VStr s)"
| "fexpr_value env (Var x) = Some (value_of_key (env (c_string x)))"
| "fexpr_value env (Paren e) = fexpr_value env e"
| "fexpr_value env (Binary t l r) =
     do { v \<leftarrow> fexpr_value env l; w \<leftarrow> fexpr_value env r; binary_value t v w }"
| "fexpr_value env (Negation e) =
     do { v \<leftarrow> fexpr_value env e; (case v of VInt a \<Rightarrow> Some (VInt (of_bool (a = 0))) | VStr s \<Rightarrow> None) }"

section \<open>Evaluation computes the value\<close>

lemmas operation_defs = boolean_operation_def boolean_operation_nostr_def equals_def nequals_def
  string_like_def gequals_def lequals_def lessthan_def greaterthan_def evaland_def evalor_def
  addition_def subtraction_def multiply_def divide_def logical_not_def

lemma tokenToString_token_of [simp]: "tokenToString (token_of v) = Some (text_of v)"
  by (cases v) (simp_all add: tokenToString_def)

lemma token_of_type: "m_type (token_of v) = EToken_Integer \<or> m_type (token_of v) = EToken_String"
  by (cases v) simp_all

lemma boolean_operation_texts:
  assumes "\<not> (m_type (token_of v) = EToken_Integer \<and> m_type (token_of w) = EToken_Integer)"
  shows "boolean_operation opr str (token_of w # token_of v # st)
    = Some (CToken_int (of_bool (str (text_of w) (text_of v))), st)"
  using assms token_of_type [of v] token_of_type [of w] by (auto simp: boolean_operation_def)

lemma text_value_operator:
  assumes "text_value t (text_of v) (text_of w) = Some x"
    and "\<not> (m_type (token_of v) = EToken_Integer \<and> m_type (token_of w) = EToken_Integer)"
  shows "apply_operator t (token_of w # token_of v # st) = Some (token_of x, st)"
proof -
  note str = boolean_operation_texts [OF assms(2)]
  from assms(1) have "t = EToken_Equals \<or> t = EToken_NotEquals \<or> t = EToken_StrLike"
    by (cases t) simp_all
  then show ?thesis
    using assms(1)
    by (elim disjE) (auto simp: apply_operator_def equals_def nequals_def string_like_def str
        string_compare_equals_def string_compare_like_def os_percent.decides)
qed

lemma int_value_operator:
  assumes "int_value t a b = Some x"
  shows "apply_operator t (CToken_int b # CToken_int a # st) = Some (token_of x, st)"
  using assms
  by (cases t) (auto simp: apply_operator_def operation_defs quotient_defined_def split: if_splits)

lemma binary_value_operator:
  assumes "binary_value t v w = Some x"
  shows "apply_operator t (token_of w # token_of v # st) = Some (token_of x, st)"
proof (cases "\<exists>a b. v = VInt a \<and> w = VInt b")
  case True
  then show ?thesis using assms int_value_operator by auto
next
  case False
  then have "text_value t (text_of v) (text_of w) = Some x" using assms by (cases v; cases w) auto
  then show ?thesis using False by (intro text_value_operator) (cases v; cases w; auto)+
qed

lemma binary_value_isOperator: "binary_value t v w = Some x \<Longrightarrow> isOperator t"
  by (cases t; cases v; cases w) (auto simp: isOperator.simps)

lemma not_operand: "isOperator t \<Longrightarrow> \<not> isOperand t"
  by (cases t) (simp_all add: isOperator.simps)

lemma eval_step_operator:
  "isOperator t \<Longrightarrow> apply_operator t st = Some (x, st') \<Longrightarrow>
     eval_step (CToken_op t) (st, kv) = Some (x # st', kv)"
  by (simp add: eval_step_def not_operand del: isOperand.simps)

lemma atoi_c_string [simp]: "atoi (c_string s) = atoi s"
  by (simp add: atoi_def)

text \<open>A lookup adds the key when it is missing, and otherwise changes nothing.\<close>

definition touch :: "string \<Rightarrow> kv_list \<Rightarrow> kv_list" where
  "touch name kvList = snd (smap_index [] name kvList)"

lemma lookup_touch [simp]: "smap_ok kv \<Longrightarrow> lookup_key (touch name kv) k = lookup_key kv k"
  by (auto simp: touch_def lookup_key_def smap_index_def smap_find_put split: option.splits)

lemma smap_ok_touch [simp]: "smap_ok kv \<Longrightarrow> smap_ok (touch name kv)"
  by (auto simp: touch_def smap_index_def smap_ok_put split: option.splits)

lemma find_touch:
  "smap_ok kv \<Longrightarrow> smap_find (touch name kv) k =
     (if k = name \<and> smap_find kv k = None then Some [] else smap_find kv k)"
  by (auto simp: touch_def smap_index_def smap_find_put split: option.splits)

lemma is_numeric_Nil [simp]: "is_numeric []"
  by (simp add: is_numeric_def)

lemma eval_step_variable:
  "eval_step (CToken_var x) (st, kv)
     = Some (token_of (value_of_key (lookup_key kv (c_string x))) # st, touch (c_string x) kv)"
proof -
  have "fst (smap_index [] (c_string x) kv) = lookup_key kv (c_string x)"
    by (auto simp: smap_index_def lookup_key_def split: option.splits)
  then show ?thesis
    by (auto simp: eval_step_def resolve_variable_def operand_of_def value_of_key_def touch_def
        Let_def split: prod.splits)
qed

text \<open>The variables of an expression in the order of their evaluation.\<close>

fun variables :: "fexpr \<Rightarrow> string list" where
  "variables (Var x) = [c_string x]"
| "variables (Paren e) = variables e"
| "variables (Binary t l r) = variables l @ variables r"
| "variables (Negation e) = variables e"
| "variables _ = []"

definition touch_all :: "string list \<Rightarrow> kv_list \<Rightarrow> kv_list" where
  "touch_all names kvList = fold touch names kvList"

lemma touch_all_simps [simp]:
  "touch_all [] kv = kv" "touch_all (x # xs) kv = touch_all xs (touch x kv)"
  "touch_all (xs @ ys) kv = touch_all ys (touch_all xs kv)"
  by (simp_all add: touch_all_def)

lemma touch_all_ok:
  "smap_ok kv \<Longrightarrow> smap_ok (touch_all names kv) \<and> lookup_key (touch_all names kv) = lookup_key kv"
  by (induction names arbitrary: kv) (auto simp: fun_eq_iff)

lemma find_touch_all:
  "smap_ok kv \<Longrightarrow> smap_find (touch_all names kv) k =
     (if k \<in> set names \<and> smap_find kv k = None then Some [] else smap_find kv k)"
  by (induction names arbitrary: kv) (auto simp: find_touch)

lemma eval_loop_postfix:
  assumes "fexpr_value (lookup_key kv) e = Some v" and "smap_ok kv"
  shows "eval_loop (postfix e @ ts) (st, kv) = eval_loop ts (token_of v # st, touch_all (variables e) kv)"
  using assms
proof (induction e arbitrary: ts st kv v)
  case (Num i)
  then show ?case by (auto simp: eval_step_def)
next
  case (Str x)
  then show ?case by (auto simp: eval_step_def)
next
  case (Var x)
  then show ?case by (auto simp: eval_step_variable)
next
  case (Paren e)
  then show ?case by simp
next
  case (Binary t l r)
  then obtain a b where ab: "fexpr_value (lookup_key kv) l = Some a" "fexpr_value (lookup_key kv) r = Some b"
    "binary_value t a b = Some v" by (auto simp: bind_eq_Some_conv)
  let ?kv = "touch_all (variables l) kv"
  have kv: "smap_ok ?kv" "fexpr_value (lookup_key ?kv) r = Some b"
    using touch_all_ok [OF Binary.prems(2)] ab(2) by auto
  show ?case
    using Binary.IH(1) [OF ab(1) Binary.prems(2)] Binary.IH(2) [OF kv(2,1)]
      eval_step_operator [OF binary_value_isOperator [OF ab(3)] binary_value_operator [OF ab(3)]]
    by simp
next
  case (Negation e)
  then obtain w where w: "fexpr_value (lookup_key kv) e = Some w"
    "(case w of VInt a \<Rightarrow> Some (VInt (of_bool (a = 0))) | VStr s \<Rightarrow> None) = Some v"
    by (auto simp: bind_eq_Some_conv)
  then obtain a where a: "fexpr_value (lookup_key kv) e = Some (VInt a)" "v = VInt (of_bool (a = 0))"
    by (cases w) auto
  have "apply_operator EToken_Not (CToken_int a # st) = Some (token_of v, st)"
    by (simp add: apply_operator_def logical_not_def a(2))
  from eval_step_operator [OF _ this] show ?case
    using Negation.IH [OF a(1) Negation.prems(2)] by (simp add: isOperator.simps)
qed

lemma evaluate_postfix:
  assumes "fexpr_value (lookup_key kv) e = Some v" and "smap_ok kv"
  shows "evaluate (postfix e) kv = Some (truth v, touch_all (variables e) kv)"
  using eval_loop_postfix [OF assms, of "[]" "[]"] by (cases v) (simp_all add: evaluate_def)

lemma postfix_nonempty [simp]: "postfix e \<noteq> []"
  by (induction e) simp_all

section \<open>Filters as text\<close>

definition op_text :: "ETokenType \<Rightarrow> string" where
  "op_text t =
     (case t of
        EToken_Equals \<Rightarrow> ''=='' | EToken_NotEquals \<Rightarrow> ''!='' | EToken_Greater \<Rightarrow> ''>''
      | EToken_GreaterEquals \<Rightarrow> ''>='' | EToken_Less \<Rightarrow> ''<'' | EToken_LessEquals \<Rightarrow> ''<=''
      | EToken_Or \<Rightarrow> ''or'' | EToken_And \<Rightarrow> ''and'' | EToken_LeftBracket \<Rightarrow> ''('' | EToken_RightBracket \<Rightarrow> '')''
      | EToken_Add \<Rightarrow> ''+'' | EToken_Subtract \<Rightarrow> ''-'' | EToken_Multiply \<Rightarrow> ''*'' | EToken_Divide \<Rightarrow> ''/''
      | EToken_StrLike \<Rightarrow> ''like'' | EToken_Not \<Rightarrow> ''!'' | _ \<Rightarrow> [])"

definition token_text :: "CToken \<Rightarrow> string" where
  "token_text t =
     (case m_type t of
        EToken_Variable \<Rightarrow> m_str t
      | EToken_Integer \<Rightarrow> (case m_int t of None \<Rightarrow> [] | Some i \<Rightarrow> dec_nat (unat i))
      | EToken_String \<Rightarrow> CHR 0x27 # m_str t @ [CHR 0x27]
      | ty \<Rightarrow> op_text ty)"

definition tokens_text :: "CToken list \<Rightarrow> string" where
  "tokens_text ts = concat (map (\<lambda>t. token_text t @ '' '') ts)"

definition filter_text :: "fexpr \<Rightarrow> string" where
  "filter_text e = tokens_text (infix_tokens e)"

text \<open>
  The lexer tries the operators before it reads a name, so a name must not begin like one of them;
  upper and lower case are the same here.
\<close>

definition plain_name :: "string \<Rightarrow> bool" where
  "plain_name x \<longleftrightarrow> x \<noteq> [] \<and> list_all ident_char x \<and> \<not> isdigit (hd x) \<and>
     list_all (\<lambda>k. \<not> starts_with_i k (x @ '' '')) [''is'', ''or'', ''and'', ''null'', ''like'', ''not'']"

fun printable :: "fexpr \<Rightarrow> bool" where
  "printable (Num i) \<longleftrightarrow> True"
| "printable (Str s) \<longleftrightarrow> CHR 0x27 \<notin> set s \<and> nul \<notin> set s"
| "printable (Var x) \<longleftrightarrow> plain_name x"
| "printable (Paren e) \<longleftrightarrow> printable e"
| "printable (Binary t l r) \<longleftrightarrow> printable l \<and> printable r"
| "printable (Negation e) \<longleftrightarrow> printable e"

definition lexes :: "CToken \<Rightarrow> bool" where
  "lexes t \<longleftrightarrow> token_text t \<noteq> [] \<and> (\<forall>flt pos post tok ts. drop pos flt = token_text t @ CHR '' '' # post \<longrightarrow>
     lex_step flt pos tok ts = Some (pos + length (token_text t) - 1, t, ts @ [t]))"

lemma at_drop: "drop pos flt = c # r \<Longrightarrow> at flt pos = c"
  by (metis at_def drop_all list.distinct(1) not_le nth_via_drop)

lemma drop_less: "drop pos flt = c # r \<Longrightarrow> pos < length flt"
  by (metis drop_all list.distinct(1) not_le)

lemma starts_with_Cons: "starts_with (a # p) (c # r) \<longleftrightarrow> a = c \<and> starts_with p r"
  by (auto simp: starts_with_def)

lemma starts_with_i_Cons: "starts_with_i (a # p) (c # r) \<longleftrightarrow> tolower a = tolower c \<and> starts_with_i p r"
  by (auto simp: starts_with_i_def)

lemma starts_with_Nil [simp]: "starts_with [] r" "starts_with_i [] r"
  by (simp_all add: starts_with_def starts_with_i_def)

lemma lexes_op:
  assumes "isOperator t \<or> t = EToken_LeftBracket \<or> t = EToken_RightBracket"
  shows "lexes (CToken_op t)"
proof -
  have "lex_step flt pos tok ts = Some (pos + length (op_text t) - 1, CToken_op t, ts @ [CToken_op t])"
    if d: "drop pos flt = op_text t @ CHR '' '' # post" for flt pos post tok ts
    using assms that at_drop [of pos flt] drop_less [of pos flt]
    by (cases t) (simp_all add: op_text_def lex_step_def checkMultiCharToken_def Let_def isOperator.simps
        starts_with_Cons starts_with_i_Cons char_class_defs char_of_eq_iff take_bit_eq_mod)
  moreover have "token_text (CToken_op t) = op_text t" "op_text t \<noteq> []"
    using assms by (cases t; simp add: token_text_def op_text_def isOperator.simps)+
  ultimately show ?thesis by (simp add: lexes_def)
qed


lemma check_quiet:
  assumes "drop pos flt = c # r" and "isdigit c \<or> c = CHR 0x27"
  shows "checkMultiCharToken flt pos = None"
proof -
  have low: "tolower c = c" using assms(2) by (auto simp: tolower_def char_class_defs)
  have ne: "c \<noteq> CHR ''=''" "c \<noteq> CHR ''!''" "c \<noteq> CHR ''<''" "c \<noteq> CHR ''>''" "c \<noteq> CHR ''|''" "c \<noteq> CHR ''&''"
    "c \<noteq> CHR ''(''" "c \<noteq> CHR '')''" "c \<noteq> CHR ''i''" "c \<noteq> CHR ''o''" "c \<noteq> CHR ''a''" "c \<noteq> CHR ''n''" "c \<noteq> CHR ''l''"
    using assms(2) by (auto simp: isdigit_def)
  have lit: "tolower CHR ''i'' = CHR ''i''" "tolower CHR ''O'' = CHR ''o''" "tolower CHR ''A'' = CHR ''a''"
    "tolower CHR ''n'' = CHR ''n''" "tolower CHR ''L'' = CHR ''l''" "tolower CHR ''N'' = CHR ''n''"
    by (simp_all add: char_class_defs char_of_eq_iff take_bit_eq_mod)
  show ?thesis
    using ne at_drop [OF assms(1)] drop_less [OF assms(1)]
    by (simp add: checkMultiCharToken_def assms(1) starts_with_Cons starts_with_i_Cons low lit
        not_sym [OF ne(1)] not_sym [OF ne(2)] not_sym [OF ne(3)] not_sym [OF ne(4)] not_sym [OF ne(5)]
        not_sym [OF ne(6)] not_sym [OF ne(7)] not_sym [OF ne(8)] not_sym [OF ne(9)] not_sym [OF ne(10)]
        not_sym [OF ne(11)] not_sym [OF ne(12)] not_sym [OF ne(13)])
qed

lemma takeWhile_stop: "list_all P xs \<Longrightarrow> \<not> P y \<Longrightarrow> takeWhile P (xs @ y # ys) = xs"
  by (induction xs) auto

lemma atoi_dec_nat: "atoi (dec_nat (unat i)) = i"
proof -
  obtain c r where cr: "dec_nat (unat i) = c # r" by (cases "dec_nat (unat i)") auto
  have dig: "isdigit c" using dec_nat_digits [of c "unat i"] cr by simp
  have nn: "nul \<notin> set (dec_nat (unat i))"
    using dec_nat_digits [of nul "unat i"] by (auto simp: nul_def isdigit_def)
  have pos: "max (- 9223372036854775808) (uint i) = uint i" using uint_ge_0 [of i] by linarith
  have "strtol10 (dec_nat (unat i)) = int (unat i)"
    using dig isdigit_not_space [OF dig] digits_val_dec_nat [of "unat i"] cr uint_lt2p [of i] pos
    by (auto simp: strtol10_def isdigit_def)
  then show ?thesis using nn by (simp add: atoi_def)
qed

lemma lexes_int: "lexes (CToken_int i)"
proof -
  let ?n = "dec_nat (unat i)"
  obtain c r where cr: "?n = c # r" by (cases ?n) auto
  have dig: "list_all isdigit ?n" by (simp add: list_all_iff dec_nat_digits)
  have "lex_step flt pos tok ts = Some (pos + length ?n - 1, CToken_int i, ts @ [CToken_int i])"
    if d: "drop pos flt = ?n @ CHR '' '' # post" for flt pos post tok ts
  proof -
    have d': "drop pos flt = c # r @ CHR '' '' # post" using d cr by simp
    have c: "isdigit c" "\<not> isspace c" using dig cr isdigit_not_space by auto
    have run: "takeWhile (\<lambda>c. c = CHR ''f'' \<or> c = CHR ''.'' \<or> isdigit c) (drop pos flt) = ?n"
      unfolding d by (rule takeWhile_stop) (use dig in \<open>auto simp: list_all_iff isdigit_def\<close>)
    have nofloat: "\<not> list_ex (\<lambda>c. c = CHR ''f'' \<or> c = CHR ''.'') ?n"
      using dig by (auto simp: list_all_iff list_ex_iff isdigit_def)
    have filt: "filter isdigit ?n = ?n" using dig by (simp add: list_all_iff)
    have "read_integer flt pos = (False, i, pos + length ?n - 1)"
      unfolding read_integer_def run Let_def filt by (simp add: nofloat atoi_dec_nat)
    then show ?thesis
      using c check_quiet [OF d'] at_drop [OF d'] by (auto simp: lex_step_def isdigit_def Let_def)
  qed
  moreover have "token_text (CToken_int i) = ?n" by (simp add: token_text_def)
  ultimately show ?thesis by (simp add: lexes_def)
qed

lemma lexes_str:
  assumes "CHR 0x27 \<notin> set s"
  shows "lexes (CToken_str s)"
proof -
  have "lex_step flt pos tok ts = Some (pos + length s + 1, CToken_str s, ts @ [CToken_str s])"
    if d: "drop pos flt = CHR 0x27 # s @ CHR 0x27 # post" for flt pos post tok ts
  proof -
    have "drop (pos + 1) flt = s @ CHR 0x27 # post" using d by (metis drop_Suc drop_tl list.sel(3) Suc_eq_plus1)
    moreover have "takeWhile (\<lambda>c. c \<noteq> CHR 0x27) (s @ CHR 0x27 # post) = s"
      by (rule takeWhile_stop) (use assms in \<open>auto simp: list_all_iff\<close>)
    ultimately have "readString flt pos = (s, pos + 1 + length s)"
      by (simp add: readString_def at_drop [OF d])
    then show ?thesis using check_quiet [OF d] at_drop [OF d] by (simp add: lex_step_def isspace_def Let_def)
  qed
  moreover have "token_text (CToken_str s) = CHR 0x27 # s @ [CHR 0x27]" by (simp add: token_text_def)
  ultimately show ?thesis by (simp add: lexes_def)
qed


lemma lexes_var:
  assumes "plain_name x"
  shows "lexes (CToken_var x)"
proof -
  obtain c r where cr: "x = c # r" using assms by (cases x) (auto simp: plain_name_def)
  have id: "list_all ident_char x" "ident_char c" "\<not> isdigit c" using assms cr by (auto simp: plain_name_def)
  have ne: "c \<noteq> CHR ''=''" "c \<noteq> CHR ''!''" "c \<noteq> CHR ''<''" "c \<noteq> CHR ''>''" "c \<noteq> CHR ''|''" "c \<noteq> CHR ''&''"
    "c \<noteq> CHR ''(''" "c \<noteq> CHR '')''" "c \<noteq> CHR 0x27" "c \<noteq> CHR 0x22" "c \<noteq> CHR ''-''" "c \<noteq> CHR ''+''"
    "c \<noteq> CHR ''/''" "c \<noteq> CHR ''*''" "\<not> isspace c"
    using id(2) by (auto simp: ident_char_def char_class_defs)
  have low: "map tolower ''OR'' = map tolower ''or''" "map tolower ''AND'' = map tolower ''and''"
    "map tolower ''LIKE'' = map tolower ''like''" "map tolower ''NOT'' = map tolower ''not''"
    by code_simp+
  have lit: "starts_with_i ''OR'' = starts_with_i ''or''" "starts_with_i ''AND'' = starts_with_i ''and''"
    "starts_with_i ''LIKE'' = starts_with_i ''like''" "starts_with_i ''NOT'' = starts_with_i ''not''"
    unfolding fun_eq_iff starts_with_i_def low by simp_all
  have "lex_step flt pos tok ts = Some (pos + length x - 1, CToken_var x, ts @ [CToken_var x])"
    if d: "drop pos flt = x @ CHR '' '' # post" for flt pos post tok ts
  proof -
    have d': "drop pos flt = c # r @ CHR '' '' # post" using d cr by simp
    have key: "\<not> starts_with_i k (x @ CHR '' '' # post)"
      if "k \<in> {''is'', ''or'', ''and'', ''null'', ''like'', ''not''}" for k
    proof -
      have "\<not> starts_with_i k (x @ '' '')" using assms that by (auto simp: plain_name_def)
      moreover have "take (length k) (x @ CHR '' '' # post) = take (length k) (x @ '' '')"
        if "starts_with_i k (x @ CHR '' '' # post)"
      proof (cases "length k \<le> length x + 1")
        case False
        then obtain m where "length k = length x + Suc m" using that [of "length k - length x - 1"] by simp
        then have "CHR '' '' \<in> set (take (length k) (x @ CHR '' '' # post))" by simp
        then have "tolower CHR '' '' \<in> set (map tolower k)"
          using that by (metis starts_with_i_def image_eqI list.set_map)
        then show ?thesis
          using \<open>k \<in> _\<close> by (auto simp: tolower_def isupper_def)
      next
        case True
        then have "length k - length x \<le> 1" by simp
        then have "length k - length x = 0 \<or> length k - length x = 1" by linarith
        then show ?thesis by auto
      qed
      ultimately show ?thesis by (auto simp: starts_with_i_def)
    qed
    have none: "checkMultiCharToken flt pos = None"
      using ne key at_drop [OF d'] drop_less [OF d'] unfolding checkMultiCharToken_def d Let_def lit
      by (simp add: cr starts_with_Cons not_sym [OF ne(1)] not_sym [OF ne(2)] not_sym [OF ne(3)]
          not_sym [OF ne(4)] not_sym [OF ne(5)] not_sym [OF ne(6)] not_sym [OF ne(7)] not_sym [OF ne(8)])
    have run: "takeWhile ident_char (drop pos flt) = x"
      unfolding d by (rule takeWhile_stop) (use id in \<open>auto simp: ident_char_def char_class_defs\<close>)
    have "length (drop pos flt) \<le> length flt" by simp
    then have "length x < length flt" unfolding d by simp
    then have "readVariable flt pos = Some (Some x, pos + length x)"
      unfolding readVariable_def run Let_def using cr by auto
    then show ?thesis using ne id(3) none at_drop [OF d'] by (simp add: lex_step_def Let_def)
  qed
  moreover have "token_text (CToken_var x) = x" by (simp add: token_text_def)
  ultimately show ?thesis using cr by (simp add: lexes_def)
qed

lemma lex_loop_space:
  assumes "drop pos flt = CHR '' '' # post"
  shows "lex_loop flt pos tok ts = lex_loop flt (pos + 1) tok ts"
  using drop_less [OF assms] at_drop [OF assms]
  by (subst lex_loop.simps) (simp add: lex_step_def isspace_def)

lemma lex_loop_tokens:
  assumes "list_all lexes us" and "drop pos flt = tokens_text us @ post"
  shows "\<exists>t. lex_loop flt pos tok ts = lex_loop flt (pos + length (tokens_text us)) t (ts @ us)"
  using assms
proof (induction us arbitrary: pos tok ts)
  case Nil
  then show ?case by (auto simp: tokens_text_def)
next
  case (Cons u us)
  let ?n = "length (token_text u)"
  have d: "drop pos flt = token_text u @ CHR '' '' # tokens_text us @ post"
    using Cons.prems by (simp add: tokens_text_def)
  have n: "?n > 0" "pos < length flt" using Cons.prems d by (auto simp: lexes_def neq_Nil_conv dest: drop_less)
  have "lex_step flt pos tok ts = Some (pos + ?n - 1, u, ts @ [u])"
    using Cons.prems d by (auto simp: lexes_def)
  then have "lex_loop flt pos tok ts = lex_loop flt (pos + ?n) u (ts @ [u])"
    using n by (subst lex_loop.simps) simp
  also have "drop (pos + ?n) flt = CHR '' '' # tokens_text us @ post"
    using arg_cong [OF d, of "drop ?n"] by (simp add: add.commute)
  then have "lex_loop flt (pos + ?n) u (ts @ [u]) = lex_loop flt (pos + ?n + 1) u (ts @ [u])"
    by (rule lex_loop_space)
  finally have step: "lex_loop flt pos tok ts = lex_loop flt (pos + ?n + 1) u (ts @ [u])" .
  have "drop (pos + ?n + 1) flt = tokens_text us @ post"
    using arg_cong [OF d, of "drop (?n + 1)"] by (simp add: add.commute)
  from Cons.IH [OF _ this, of u "ts @ [u]"] Cons.prems step show ?case
    by (auto simp: tokens_text_def add.assoc)
qed

lemma lexes_infix: "well_bracketed e \<Longrightarrow> printable e \<Longrightarrow> list_all lexes (infix_tokens e)"
  by (induction e) (auto simp: lexes_op lexes_int lexes_str lexes_var is_binary_def isOperator.simps [of EToken_Not])

lemma filterToTokenList_text:
  assumes "well_bracketed e" "printable e"
  shows "filterToTokenList (filter_text e) = Some (postfix e)"
proof -
  have "drop 0 (filter_text e) = tokens_text (infix_tokens e) @ []" by (simp add: filter_text_def)
  from lex_loop_tokens [OF lexes_infix [OF assms] this, of CToken_none "[]"]
  obtain t where "lex_loop (filter_text e) 0 CToken_none []
      = lex_loop (filter_text e) (length (filter_text e)) t (infix_tokens e)"
    by (auto simp: filter_text_def)
  also have "\<dots> = Some (infix_tokens e)" by (simp add: lex_loop.simps)
  finally show ?thesis by (simp add: filterToTokenList_def convertToRPN_tree assms)
qed

section \<open>Properties\<close>


lemma touch_all_lookup:
  assumes "smap_ok kv"
  shows "smap_find (touch_all (variables e) kv) k =
    (if k \<in> set (variables e) \<and> smap_find kv k = None then Some [] else smap_find kv k)"
  by (rule find_touch_all [OF assms])

text \<open>C15. A filter expression written as text with a blank after every token (operators by precedence, associating to
  the left, with brackets where the tree has them) is read, ordered and evaluated to the expression's value on the
  server's keys: the server matches exactly when the value is a non-zero integer, and evaluation changes the keys
  only by giving the missing ones that the filter names an empty value. The names in it are made of letters, digits, dots
  and underscores and begin neither with a digit nor, in capitals or not, with \<open>is\<close>, \<open>or\<close>, \<open>and\<close>, \<open>null\<close>,
  \<open>like\<close> or \<open>not\<close> (the lexer tries these first and misreads a name such as \<open>island\<close>); its strings have no apostrophe
  and no NUL; and it has a value: texts are only compared by \<open>==\<close>, \<open>!=\<close> and \<open>like\<close>, and the order, the
  connectives, the negation and the arithmetic (which wraps at 32 bits, with no division by zero) are of integers.\<close>

theorem filter_correct:
  assumes "well_bracketed e" and "printable e" and "smap_ok kv"
    and "fexpr_value (lookup_key kv) e = Some v"
  shows "\<exists>tokens kv'. filterToTokenList (filter_text e) = Some tokens
    \<and> filterMatches tokens kv = Some (truth v, kv')
    \<and> smap_ok kv'
    \<and> (\<forall>k. smap_find kv' k =
         (if k \<in> set (variables e) \<and> smap_find kv k = None then Some [] else smap_find kv k))"
  using filterToTokenList_text [OF assms(1,2)] evaluate_postfix [OF assms(4,3)]
    touch_all_ok [OF assms(3)] touch_all_lookup [OF assms(3)]
  by (auto simp: filterMatches_def)

definition example_filter :: fexpr where
  "example_filter = Binary EToken_And
     (Binary EToken_Equals (Var ''gamever'') (Str ''1.2''))
     (Paren (Binary EToken_Or (Binary EToken_Equals (Var ''password'') (Num 0)) (Binary EToken_Greater (Num 3) (Num 5))))"

theorem filter_correct_witness:
  "\<exists>tokens kv'. filterToTokenList (filter_text example_filter) = Some tokens
    \<and> filterMatches tokens [(''gamever'', ''1.2'')] = Some (True, kv')"
proof -
  have 1: "well_bracketed example_filter" by code_simp
  have 2: "printable example_filter" by code_simp
  have 3: "smap_ok [(''gamever'', ''1.2'')]" by (simp add: smap_ok_def)
  have 4: "fexpr_value (lookup_key [(''gamever'', ''1.2'')]) example_filter = Some (VInt 1)" by code_simp
  show ?thesis using filter_correct [OF 1 2 3 4] by auto
qed

lemma pop_operators_mset: "pop_operators t out st = (o', s') \<Longrightarrow> mset o' + mset s' = mset out + mset st"
  by (induction t out st rule: pop_operators.induct) (auto split: if_splits simp: union_assoc)

lemma pop_bracket_mset: "pop_bracket out st = (o', s') \<Longrightarrow> mset o' + mset s' \<subseteq># mset out + mset st"
proof (induction out st rule: pop_bracket.induct)
  case (2 out t st)
  then show ?case
    by (cases "m_type t = EToken_LeftBracket") (auto simp: union_assoc)
qed simp

lemma mset_room: "A + B \<subseteq># C + D \<Longrightarrow> mset ts + A + B \<subseteq># mset (t # ts) + C + D"
  unfolding subseteq_mset_def by (auto intro!: le_SucI simp: add.assoc)

lemma rpn_loop_mset: "mset (rpn_loop ts out st) \<subseteq># mset ts + mset out + mset st"
proof (induction ts out st rule: rpn_loop.induct)
  case (1 out st)
  then show ?case by simp
next
  case (2 cur ts out st)
  let ?ty = "m_type cur"
  consider (val) "?ty = EToken_Variable \<or> ?ty = EToken_Integer \<or> ?ty = EToken_String"
    | (opr) "\<not> (?ty = EToken_Variable \<or> ?ty = EToken_Integer \<or> ?ty = EToken_String)" "isOperator ?ty"
    | (lb) "?ty = EToken_LeftBracket" | (rb) "?ty = EToken_RightBracket"
    | (none) "\<not> (?ty = EToken_Variable \<or> ?ty = EToken_Integer \<or> ?ty = EToken_String)"
        "\<not> isOperator ?ty" "?ty \<noteq> EToken_LeftBracket" "?ty \<noteq> EToken_RightBracket"
    by blast
  then show ?case
  proof cases
    case val
    then show ?thesis using 2(1) [OF refl] by (auto simp: rpn_loop.simps(2) Let_def)
  next
    case opr
    obtain o' s' where p: "pop_operators ?ty out st = (o', s')" by force
    have "mset (rpn_loop ts o' (cur # s')) \<subseteq># mset ts + mset o' + mset (cur # s')"
      using 2(2) [OF refl opr(1) opr(2) p [symmetric] refl] by simp
    then show ?thesis
      using opr p pop_operators_mset [OF p] by (simp add: rpn_loop.simps(2) Let_def union_assoc)
  next
    case lb
    then show ?thesis using 2(3) [OF refl] by (simp add: rpn_loop.simps(2) isOperator.simps)
  next
    case rb
    obtain o' s' where p: "pop_bracket out st = (o', s')" by force
    have "mset (rpn_loop ts o' s') \<subseteq># mset ts + mset o' + mset s'"
      using 2(4) [OF refl _ _ _ rb p [symmetric] refl] rb by (simp add: isOperator.simps)
    also have "\<dots> \<subseteq># mset (cur # ts) + mset out + mset st"
      by (rule mset_room [OF pop_bracket_mset [OF p]])
    finally show ?thesis
      using rb p by (simp add: rpn_loop.simps(2) isOperator.simps)
  next
    case none
    then have "mset (rpn_loop ts out st) \<subseteq># mset ts + mset out + mset st" using 2(5) [OF refl] by simp
    also have "\<dots> \<subseteq># mset (cur # ts) + mset out + mset st" by (rule mset_room) simp
    finally show ?thesis using none by (simp add: rpn_loop.simps(2))
  qed
qed

text \<open>Whatever tokens it is given, balanced or not, the ordering step invents and repeats none of
  them.\<close>

theorem convertToRPN_mset: "mset (convertToRPN ts) \<subseteq># mset ts"
  using rpn_loop_mset [of ts "[]" "[]"] by (simp add: convertToRPN_def)

text \<open>A client can name a filter that divides the least integer by -1, which has no result: the
  division traps and stops the server.\<close>

theorem filter_division_traps:
  "\<exists>tokens. filterToTokenList ''2147483648 / ( 0 - 1 ) '' = Some tokens \<and> (\<forall>kv. filterMatches tokens kv = None)"
proof -
  let ?e = "Binary EToken_Divide (Num 0x80000000) (Paren (Binary EToken_Subtract (Num 0) (Num 1)))"
  have "filter_text ?e = ''2147483648 / ( 0 - 1 ) ''"
    by (simp add: filter_text_def tokens_text_def token_text_def op_text_def dec_nat.simps digit_char_def
        char_of_eq_iff take_bit_eq_mod)
  moreover have "well_bracketed ?e" "printable ?e"
    by (simp_all add: is_binary_def isOperator.simps getPrecedence_def)
  ultimately have "filterToTokenList ''2147483648 / ( 0 - 1 ) '' = Some (postfix ?e)"
    using filterToTokenList_text [of ?e] by simp
  moreover have "filterMatches (postfix ?e) kv = None" for kv
    by (simp add: filterMatches_def evaluate_def eval_step_def isOperator.simps apply_operator_def
        addition_def subtraction_def divide_def quotient_defined_def)
  ultimately show ?thesis by blast
qed

text \<open>A key whose name begins with an operator's name cannot be used: in the filter
  \<open>island=1\<close> the letters \<open>is\<close> are read as an equality, the key \<open>island\<close> is never looked up and
  every server matches.\<close>

theorem filter_name_with_keyword:
  "\<exists>tokens. filterToTokenList ''island=1'' = Some tokens
     \<and> (\<forall>kv. map_option fst (filterMatches tokens kv) = Some True)"
proof -
  let ?ts = "[CToken_var ''land'', CToken_op EToken_Equals, CToken_int 1, CToken_op EToken_Equals]"
  have "filterToTokenList ''island=1'' = Some ?ts" by code_simp
  moreover have "map_option fst (filterMatches ?ts kv) = Some True" for kv
    by (simp add: filterMatches_def evaluate_def eval_step_variable eval_step_operator apply_operator_def
        operation_defs isOperator.simps eval_step_def [of "CToken_int 1"])
  ultimately show ?thesis by blast
qed

text \<open>On two texts \<open>>=\<close> and \<open><=\<close> compare lengths, and with the operands exchanged; \<open><\<close>, \<open>>\<close>,
  \<open>and\<close> and \<open>or\<close> are true whatever the texts are.\<close>

theorem text_comparisons:
  "gequals (CToken_str b # CToken_str a # st) = Some (CToken_int (of_bool (length a \<le> length b)), st)"
  "lequals (CToken_str b # CToken_str a # st) = Some (CToken_int (of_bool (length b \<le> length a)), st)"
  "lessthan (CToken_str b # CToken_str a # st) = Some (CToken_int 1, st)"
  "greaterthan (CToken_str b # CToken_str a # st) = Some (CToken_int 1, st)"
  "evaland (CToken_str b # CToken_str a # st) = Some (CToken_int 1, st)"
  "evalor (CToken_str b # CToken_str a # st) = Some (CToken_int 1, st)"
  by (simp_all add: operation_defs string_compare_greater_than_equals_def string_compare_less_than_equals_def
      tokenToString_def)

end
