(* ===== verification/PeerchatModes.thy ===== *)
theory PeerchatModes
  imports Match Strings
begin

text \<open>
  Peerchat's mode flags (\<open>peerchat/tasks/tasks.h\<close>, \<open>tasks.cpp\<close>, \<open>Channel.cpp\<close>): the enumerations, their
  letters, the ranks of users in a channel, and the MODE command (\<open>server/commands/handle_mode.cpp\<close>),
  which turns its parameters into requests to the backend.
\<close>

section \<open>Flags\<close>

datatype EUserChannelFlag =
    EUserChannelFlag_IsInChannel | EUserChannelFlag_Voice | EUserChannelFlag_HalfOp
  | EUserChannelFlag_Op | EUserChannelFlag_Owner | EUserChannelFlag_Invisible
  | EUserChannelFlag_Gagged | EUserChannelFlag_Invited | EUserChannelFlag_Quiet
  | EUserChannelFlag_Banned | EUserChannelFlag_GameidPermitted

primrec uc_bit :: "EUserChannelFlag \<Rightarrow> nat" where
  "uc_bit EUserChannelFlag_IsInChannel = 0"
| "uc_bit EUserChannelFlag_Voice = 1"
| "uc_bit EUserChannelFlag_HalfOp = 2"
| "uc_bit EUserChannelFlag_Op = 3"
| "uc_bit EUserChannelFlag_Owner = 4"
| "uc_bit EUserChannelFlag_Invisible = 5"
| "uc_bit EUserChannelFlag_Gagged = 6"
| "uc_bit EUserChannelFlag_Invited = 7"
| "uc_bit EUserChannelFlag_Quiet = 8"
| "uc_bit EUserChannelFlag_Banned = 9"
| "uc_bit EUserChannelFlag_GameidPermitted = 10"

datatype EChannelBasicModes =
    EChannelMode_NoOutsideMessages | EChannelMode_TopicProtect | EChannelMode_Moderated
  | EChannelMode_Private | EChannelMode_Secret | EChannelMode_InviteOnly | EChannelMode_StayOpen
  | EChannelMode_UserCreated | EChannelMode_OpsObeyChannelLimit | EChannelMode_Auditorium
  | EChannelMode_Auditorium_ShowVOP

primrec cm_bit :: "EChannelBasicModes \<Rightarrow> nat" where
  "cm_bit EChannelMode_NoOutsideMessages = 0"
| "cm_bit EChannelMode_TopicProtect = 1"
| "cm_bit EChannelMode_Moderated = 2"
| "cm_bit EChannelMode_Private = 3"
| "cm_bit EChannelMode_Secret = 4"
| "cm_bit EChannelMode_InviteOnly = 5"
| "cm_bit EChannelMode_StayOpen = 6"
| "cm_bit EChannelMode_UserCreated = 7"
| "cm_bit EChannelMode_OpsObeyChannelLimit = 8"
| "cm_bit EChannelMode_Auditorium = 9"
| "cm_bit EChannelMode_Auditorium_ShowVOP = 10"

datatype EUserModes = EUserMode_Quiet | EUserMode_Invisible | EUserMode_Gagged

primrec um_bit :: "EUserModes \<Rightarrow> nat" where
  "um_bit EUserMode_Quiet = 0"
| "um_bit EUserMode_Invisible = 1"
| "um_bit EUserMode_Gagged = 2"

datatype EOperPrivileges =
    OPERPRIVS_INVISIBLE | OPERPRIVS_BANEXCEMPT | OPERPRIVS_GETOPS | OPERPRIVS_GLOBALOWNER
  | OPERPRIVS_GETVOICE | OPERPRIVS_OPEROVERRIDE | OPERPRIVS_WALLOPS | OPERPRIVS_KILL
  | OPERPRIVS_FLOODEXCEMPT | OPERPRIVS_LISTOPERS | OPERPRIVS_CTCP | OPERPRIVS_HIDDEN
  | OPERPRIVS_SEEHIDDEN | OPERPRIVS_MANIPULATE | OPERPRIVS_SERVMANAGE | OPERPRIVS_WEBPANEL

primrec op_bit :: "EOperPrivileges \<Rightarrow> nat" where
  "op_bit OPERPRIVS_INVISIBLE = 0"
| "op_bit OPERPRIVS_BANEXCEMPT = 1"
| "op_bit OPERPRIVS_GETOPS = 2"
| "op_bit OPERPRIVS_GLOBALOWNER = 3"
| "op_bit OPERPRIVS_GETVOICE = 4"
| "op_bit OPERPRIVS_OPEROVERRIDE = 5"
| "op_bit OPERPRIVS_WALLOPS = 6"
| "op_bit OPERPRIVS_KILL = 7"
| "op_bit OPERPRIVS_FLOODEXCEMPT = 8"
| "op_bit OPERPRIVS_LISTOPERS = 9"
| "op_bit OPERPRIVS_CTCP = 10"
| "op_bit OPERPRIVS_HIDDEN = 11"
| "op_bit OPERPRIVS_SEEHIDDEN = 12"
| "op_bit OPERPRIVS_MANIPULATE = 13"
| "op_bit OPERPRIVS_SERVMANAGE = 14"
| "op_bit OPERPRIVS_WEBPANEL = 15"

unbundle bit_operations_syntax

text \<open>The enumerators' values, \<open>1 << n\<close>, and the test \<open>flags & value\<close>.\<close>

definition flag :: "nat \<Rightarrow> i32" where
  "flag n = push_bit n 1"

abbreviation uc :: "EUserChannelFlag \<Rightarrow> i32" where "uc f \<equiv> flag (uc_bit f)"

abbreviation cm :: "EChannelBasicModes \<Rightarrow> i32" where "cm f \<equiv> flag (cm_bit f)"

abbreviation um :: "EUserModes \<Rightarrow> i32" where "um f \<equiv> flag (um_bit f)"

abbreviation oper :: "EOperPrivileges \<Rightarrow> i32" where "oper f \<equiv> flag (op_bit f)"

definition has :: "i32 \<Rightarrow> i32 \<Rightarrow> bool" where
  "has flags f \<longleftrightarrow> flags AND f \<noteq> 0"

lemma bit_flag [simp]: "bit (flag n) k \<longleftrightarrow> n < 32 \<and> k = n"
  by (auto simp: flag_def bit_simps)

lemma has_flag: "has m (flag n) \<longleftrightarrow> bit m n"
proof
  assume "has m (flag n)"
  then obtain k where "bit (m AND flag n) k" by (auto simp: has_def bit_eq_iff)
  then show "bit m n" by (auto simp: bit_and_iff)
next
  assume "bit m n"
  then have "bit (m AND flag n) n" using bit_imp_le_length [of m n] by (simp add: bit_and_iff)
  then show "has m (flag n)" unfolding has_def by (metis bit_0_eq bot_apply bot_bool_def)
qed

lemma has_simps [simp]:
  "\<not> has 0 f"
  "has (a OR b) (flag n) \<longleftrightarrow> has a (flag n) \<or> has b (flag n)"
  "has (a AND NOT b) (flag n) \<longleftrightarrow> has a (flag n) \<and> \<not> has b (flag n)"
  "has (flag k) (flag n) \<longleftrightarrow> k < 32 \<and> k = n"
  by (auto simp: has_flag bit_simps dest: bit_imp_le_length) (simp add: has_def)

lemma uc_bit_less [simp]: "uc_bit f < 32"
  by (cases f) simp_all

lemma cm_bit_less [simp]: "cm_bit f < 32"
  by (cases f) simp_all

lemma um_bit_less [simp]: "um_bit f < 32"
  by (cases f) simp_all

lemma op_bit_less [simp]: "op_bit f < 32"
  by (cases f) simp_all

text \<open>The tables of letters.\<close>

type_synonym ModeFlagMap = "i32 \<times> char"

definition channel_mode_flag_map :: "ModeFlagMap list" where
  "channel_mode_flag_map =
     [(cm EChannelMode_NoOutsideMessages, CHR ''n''), (cm EChannelMode_TopicProtect, CHR ''t''),
      (cm EChannelMode_Moderated, CHR ''m''), (cm EChannelMode_Private, CHR ''p''),
      (cm EChannelMode_Secret, CHR ''s''), (cm EChannelMode_InviteOnly, CHR ''i''),
      (cm EChannelMode_StayOpen, CHR ''z''), (cm EChannelMode_UserCreated, CHR ''r''),
      (cm EChannelMode_OpsObeyChannelLimit, CHR ''e''), (cm EChannelMode_Auditorium, CHR ''u''),
      (cm EChannelMode_Auditorium_ShowVOP, CHR ''q'')]"

definition user_mode_flag_map :: "ModeFlagMap list" where
  "user_mode_flag_map =
     [(um EUserMode_Quiet, CHR ''q''), (um EUserMode_Invisible, CHR ''i''), (um EUserMode_Gagged, CHR ''g'')]"

definition user_join_chan_flag_map :: "ModeFlagMap list" where
  "user_join_chan_flag_map =
     [(uc EUserChannelFlag_Quiet, CHR ''q''), (uc EUserChannelFlag_Invisible, CHR ''i''),
      (uc EUserChannelFlag_Gagged, CHR ''g''), (uc EUserChannelFlag_Invited, CHR ''I''),
      (uc EUserChannelFlag_Voice, CHR ''v''), (uc EUserChannelFlag_HalfOp, CHR ''h''),
      (uc EUserChannelFlag_Op, CHR ''o''), (uc EUserChannelFlag_Owner, CHR ''O''),
      (uc EUserChannelFlag_Banned, CHR ''b''), (uc EUserChannelFlag_GameidPermitted, CHR ''p'')]"

definition channelUserModesStringToFlags :: "string \<Rightarrow> i32" where
  "channelUserModesStringToFlags mode_string =
     fold (\<lambda>(f, character) flags. if character \<in> set mode_string then flags OR f else flags)
       user_join_chan_flag_map 0"

definition mode_letters :: "ModeFlagMap list \<Rightarrow> i32 \<Rightarrow> string" where
  "mode_letters tab flags = map snd (filter (\<lambda>(f, character). has flags f) tab)"

definition modeFlagsToModeString :: "i32 \<Rightarrow> string" where
  "modeFlagsToModeString modeflags = mode_letters user_join_chan_flag_map modeflags"

section \<open>Ranks\<close>

definition GetUserChannelModeLevel :: "i32 \<Rightarrow> nat" where
  "GetUserChannelModeLevel modeflags =
     (if has modeflags (uc EUserChannelFlag_Owner) then 4
      else if has modeflags (uc EUserChannelFlag_Op) then 3
      else if has modeflags (uc EUserChannelFlag_HalfOp) then 2
      else if has modeflags (uc EUserChannelFlag_Voice) then 1
      else 0)"

definition GetMinimumModeFlagsFromUpdateSet :: "i32 \<Rightarrow> EUserChannelFlag" where
  "GetMinimumModeFlagsFromUpdateSet update_mode_flags =
     (if has update_mode_flags (uc EUserChannelFlag_Owner) then EUserChannelFlag_Owner
      else if has update_mode_flags (uc EUserChannelFlag_Op) then EUserChannelFlag_Op
      else if has update_mode_flags (uc EUserChannelFlag_HalfOp) then EUserChannelFlag_HalfOp
      else if has update_mode_flags (uc EUserChannelFlag_Voice) then EUserChannelFlag_Voice
      else EUserChannelFlag_Owner)"

text \<open>A reply to the peer: its number, its text, whether the colon is left out, and the target.\<close>

datatype numeric = Numeric nat string bool string

text \<open>The verdict and the reply that is sent with it.\<close>

definition CheckActionPermissions :: "i32 \<Rightarrow> string \<Rightarrow> i32 \<Rightarrow> i32 \<Rightarrow> i32 \<Rightarrow> bool \<times> numeric list" where
  "CheckActionPermissions operflags channel from_mode_flags to_mode_flags min_mode_flags =
     (if has operflags (oper OPERPRIVS_OPEROVERRIDE) then (True, [])
      else if GetUserChannelModeLevel min_mode_flags > GetUserChannelModeLevel from_mode_flags then
        (False, [Numeric 482 ''You're not channel operator (Does not meet minimum rank)'' False channel])
      else if GetUserChannelModeLevel to_mode_flags > GetUserChannelModeLevel from_mode_flags then
        (False, [Numeric 482 ''You're not channel operator (Target user ranked higher)'' False channel])
      else (True, []))"

lemma CheckActionPermissions_verdict:
  "fst (CheckActionPermissions operflags channel f t m) \<longleftrightarrow>
     has operflags (oper OPERPRIVS_OPEROVERRIDE)
     \<or> GetUserChannelModeLevel m \<le> GetUserChannelModeLevel f \<and> GetUserChannelModeLevel t \<le> GetUserChannelModeLevel f"
  by (auto simp: CheckActionPermissions_def)

lemma CheckActionPermissions_quiet:
  "fst (CheckActionPermissions operflags channel f t m) \<longleftrightarrow>
     snd (CheckActionPermissions operflags channel f t m) = []"
  by (auto simp: CheckActionPermissions_def)

lemma level_minimum:
  "GetUserChannelModeLevel (uc (GetMinimumModeFlagsFromUpdateSet m)) =
     (if GetUserChannelModeLevel m = 0 then 4 else GetUserChannelModeLevel m)"
  by (simp add: GetUserChannelModeLevel_def GetMinimumModeFlagsFromUpdateSet_def)

section \<open>Letters and flags\<close>

lemma flag_eq_iff [simp]: "n < 32 \<Longrightarrow> flag n = flag k \<longleftrightarrow> n = k"
  by (metis bit_flag)

definition is_flag :: "i32 \<Rightarrow> bool" where
  "is_flag f \<longleftrightarrow> f \<in> flag ` {..<32}"

lemma is_flag_flag [simp]: "n < 32 \<Longrightarrow> is_flag (flag n)"
  by (simp add: is_flag_def)

definition table_ok :: "ModeFlagMap list \<Rightarrow> bool" where
  "table_ok tab \<longleftrightarrow> distinct (map snd tab) \<and> distinct (map fst tab) \<and> list_all is_flag (map fst tab)"

lemma table_ok_unique:
  assumes "table_ok tab" "(f, c) \<in> set tab" "(f', c') \<in> set tab"
  shows "f = f' \<longleftrightarrow> c = c'"
  using assms unfolding table_ok_def distinct_map inj_on_def by fastforce

lemma fold_letters:
  "has (fold (\<lambda>(f, character) flags. if character \<in> S then flags OR f else flags) tab a) (flag n) \<longleftrightarrow>
     has a (flag n) \<or> (\<exists>(f, c) \<in> set tab. c \<in> S \<and> has f (flag n))"
proof (induction tab arbitrary: a)
  case (Cons t tab)
  then show ?case by (cases t) auto
qed simp

lemma letters_of_mode_string:
  assumes "table_ok tab" and "(f, c) \<in> set tab"
  shows "c \<in> set (mode_letters tab m) \<longleftrightarrow> has m f"
  using table_ok_unique [OF assms(1)] assms(2) by (force simp: mode_letters_def)

lemma user_join_chan_table_ok: "table_ok user_join_chan_flag_map"
  by (auto simp: table_ok_def user_join_chan_flag_map_def)

lemma channel_mode_table_ok: "table_ok channel_mode_flag_map"
  by (auto simp: table_ok_def channel_mode_flag_map_def)

lemma user_mode_table_ok: "table_ok user_mode_flag_map"
  by (auto simp: table_ok_def user_mode_flag_map_def)

lemma user_join_chan_bits:
  "(\<exists>(f, c) \<in> set user_join_chan_flag_map. has m f \<and> has f (flag n)) \<longleftrightarrow> 0 < n \<and> n < 11 \<and> bit m n"
proof -
  have "0 < n \<and> n < 11 \<longleftrightarrow> n \<in> {8, 5, 6, 7, 1, 2, 3, 4, 9, 10}" by (simp; arith)
  then show ?thesis
    unfolding conj_assoc [symmetric] by (auto simp: user_join_chan_flag_map_def has_flag)
qed

lemma mode_string_flags_bits:
  "channelUserModesStringToFlags (modeFlagsToModeString m) = m AND mask 11 AND NOT (uc EUserChannelFlag_IsInChannel)"
proof (rule bit_word_eqI)
  fix n assume "n < LENGTH(32)"
  have "bit (channelUserModesStringToFlags (modeFlagsToModeString m)) n \<longleftrightarrow>
      (\<exists>(f, c) \<in> set user_join_chan_flag_map. has m f \<and> has f (flag n))"
    unfolding has_flag [symmetric] channelUserModesStringToFlags_def modeFlagsToModeString_def fold_letters
    using letters_of_mode_string [OF user_join_chan_table_ok, of _ _ m] by fastforce
  then show "bit (channelUserModesStringToFlags (modeFlagsToModeString m)) n \<longleftrightarrow>
      bit (m AND mask 11 AND NOT (uc EUserChannelFlag_IsInChannel)) n"
    using \<open>n < _\<close> by (auto simp: user_join_chan_bits bit_simps)
qed

text \<open>Printing a user's channel flags and reading the letters back gives the same flags, except for
  the membership flag, which has no letter, and bits that are no flag at all.\<close>

theorem mode_string_roundtrip:
  "channelUserModesStringToFlags (modeFlagsToModeString m) = m AND mask 11 AND NOT (uc EUserChannelFlag_IsInChannel)"
  by (rule mode_string_flags_bits)

section \<open>The MODE command\<close>

text \<open>\<open>limit\<close> is only set by the MODE command's letter \<open>l\<close>; before that it has no value.\<close>

record ChannelModifyRequest =
  set_mode_flags :: i32
  unset_mode_flags :: i32
  update_password :: bool
  update_limit :: bool
  limit :: "i32 option"
  password :: string
  update_topic :: bool
  topic :: string
  set_usermodes :: "(string, i32) smap"
  unset_usermodes :: "(string, i32) smap"

definition new_modify :: ChannelModifyRequest where
  "new_modify = \<lparr>set_mode_flags = 0, unset_mode_flags = 0, update_password = False, update_limit = False,
     limit = None, password = [], update_topic = False, topic = [], set_usermodes = [], unset_usermodes = []\<rparr>"

text \<open>The requests a MODE command makes, with the parts of them it fills in.\<close>

datatype mode_request =
    Req_LookupChannelDetails string
  | Req_UpdateChannelModes string ChannelModifyRequest
  | Req_UpdateChannelModes_BanMask string ChannelModifyRequest
  | Req_ListUserModes_CacheLookup string
  | Req_LookupUserDetailsByName string
  | Req_UpdateUserModes string ChannelModifyRequest
  | Req_LookupChannelNames i32

text \<open>\<open>m[name] |= f\<close>.\<close>

definition or_into :: "string \<Rightarrow> i32 \<Rightarrow> (string, i32) smap \<Rightarrow> (string, i32) smap" where
  "or_into name f m = (let (v, m') = smap_index 0 name m in smap_put name (v OR f) m')"

definition handle_ban_hostmask :: "string \<Rightarrow> string \<Rightarrow> bool \<Rightarrow> mode_request" where
  "handle_ban_hostmask channel hostmask set_it =
     Req_UpdateChannelModes_BanMask channel
       (if set_it then new_modify\<lparr>set_usermodes := or_into hostmask (uc EUserChannelFlag_Banned) []\<rparr>
        else new_modify\<lparr>unset_usermodes := or_into hostmask (uc EUserChannelFlag_Banned) []\<rparr>)"

record mode_parse =
  adding :: bool
  set_flags :: i32
  unset_flags :: i32
  last_offset :: nat
  includeBanLookup :: bool
  modify :: ChannelModifyRequest
  bans :: "mode_request list"

text \<open>The test \<open>data_parser.size() - 1 < last_offset\<close> for a parameter that is not there.\<close>

definition no_param :: "string list \<Rightarrow> mode_parse \<Rightarrow> bool" where
  "no_param data_parser s \<longleftrightarrow> length data_parser - 1 < last_offset s"

definition skip_param :: "mode_parse \<Rightarrow> mode_parse" where
  "skip_param s = s\<lparr>last_offset := last_offset s + 1\<rparr>"

definition mode_ban :: "string list \<Rightarrow> mode_parse \<Rightarrow> mode_parse" where
  "mode_ban data_parser s =
     (let s = skip_param s in
      if no_param data_parser s then s\<lparr>includeBanLookup := True\<rparr>
      else s\<lparr>bans := bans s @ [handle_ban_hostmask (data_parser ! 1) (data_parser ! last_offset s) (adding s)]\<rparr>)"

definition mode_key :: "string list \<Rightarrow> mode_parse \<Rightarrow> mode_parse" where
  "mode_key data_parser s =
     (let s = s\<lparr>modify := (modify s)\<lparr>update_password := True\<rparr>\<rparr> in
      if adding s then
        (let s = skip_param s in
         if no_param data_parser s then s
         else s\<lparr>modify := (modify s)\<lparr>password := data_parser ! last_offset s\<rparr>\<rparr>)
      else s\<lparr>modify := (modify s)\<lparr>password := []\<rparr>\<rparr>)"

definition mode_limit :: "string list \<Rightarrow> mode_parse \<Rightarrow> mode_parse" where
  "mode_limit data_parser s =
     (let s = s\<lparr>modify := (modify s)\<lparr>update_limit := True\<rparr>\<rparr> in
      if adding s then
        (let s = skip_param s in
         if no_param data_parser s then s
         else s\<lparr>modify := (modify s)\<lparr>limit := Some (atoi (data_parser ! last_offset s))\<rparr>\<rparr>)
      else s\<lparr>modify := (modify s)\<lparr>limit := Some 0\<rparr>\<rparr>)"

text \<open>The four letters \<open>v\<close>, \<open>h\<close>, \<open>o\<close> and \<open>O\<close>, which differ in the flag only.\<close>

definition mode_user :: "EUserChannelFlag \<Rightarrow> string list \<Rightarrow> mode_parse \<Rightarrow> mode_parse" where
  "mode_user f data_parser s =
     (let s = skip_param s in
      if no_param data_parser s then s
      else let name = data_parser ! last_offset s in
        (if adding s then s\<lparr>modify := (modify s)\<lparr>set_usermodes := or_into name (uc f) (set_usermodes (modify s))\<rparr>\<rparr>
         else s\<lparr>modify := (modify s)\<lparr>unset_usermodes := or_into name (uc f) (unset_usermodes (modify s))\<rparr>\<rparr>))"

definition find_flag :: "ModeFlagMap list \<Rightarrow> char \<Rightarrow> i32 option" where
  "find_flag tab ch = map_option fst (find (\<lambda>(f, character). character = ch) tab)"

definition mode_flag :: "ModeFlagMap list \<Rightarrow> char \<Rightarrow> mode_parse \<Rightarrow> mode_parse" where
  "mode_flag tab ch s =
     (case find_flag tab ch of
        None \<Rightarrow> s
      | Some f \<Rightarrow>
          if adding s then s\<lparr>set_flags := set_flags s OR f, unset_flags := unset_flags s AND NOT f\<rparr>
          else s\<lparr>unset_flags := unset_flags s OR f, set_flags := set_flags s AND NOT f\<rparr>)"

definition channel_mode_letter :: "string list \<Rightarrow> char \<Rightarrow> mode_parse \<Rightarrow> mode_parse" where
  "channel_mode_letter data_parser ch s =
     (if ch = CHR ''+'' then s\<lparr>adding := True\<rparr>
      else if ch = CHR ''-'' then s\<lparr>adding := False\<rparr>
      else if ch = CHR ''b'' then mode_ban data_parser s
      else if ch = CHR ''k'' then mode_key data_parser s
      else if ch = CHR ''l'' then mode_limit data_parser s
      else if ch = CHR ''v'' then mode_user EUserChannelFlag_Voice data_parser s
      else if ch = CHR ''h'' then mode_user EUserChannelFlag_HalfOp data_parser s
      else if ch = CHR ''o'' then mode_user EUserChannelFlag_Op data_parser s
      else if ch = CHR ''O'' then mode_user EUserChannelFlag_Owner data_parser s
      else mode_flag channel_mode_flag_map ch s)"

definition mode_start :: mode_parse where
  "mode_start = \<lparr>adding = True, set_flags = 0, unset_flags = 0, last_offset = 2, includeBanLookup = False,
     modify = new_modify, bans = []\<rparr>"

definition parse_channel_mode :: "string list \<Rightarrow> mode_parse" where
  "parse_channel_mode data_parser = fold (channel_mode_letter data_parser) (data_parser ! 2) mode_start"

definition handle_channel_mode_command :: "string list \<Rightarrow> mode_request list" where
  "handle_channel_mode_command data_parser =
     (if length data_parser = 2 then [Req_LookupChannelDetails (data_parser ! 1)]
      else if length data_parser \<ge> 3 then
        (let s = parse_channel_mode data_parser in
         bans s @
         [Req_UpdateChannelModes (data_parser ! 1)
           ((modify s)\<lparr>set_mode_flags := set_flags s, unset_mode_flags := unset_flags s\<rparr>)] @
         (if includeBanLookup s then [Req_ListUserModes_CacheLookup (data_parser ! 1)] else []))
      else [])"

definition user_mode_letter :: "char \<Rightarrow> mode_parse \<Rightarrow> mode_parse" where
  "user_mode_letter ch s =
     (if ch = CHR ''+'' then s\<lparr>adding := True\<rparr>
      else if ch = CHR ''-'' then s\<lparr>adding := False\<rparr>
      else mode_flag user_mode_flag_map ch s)"

text \<open>\<open>m_channel_flags\<close> are the peer's flags by channel.\<close>

definition handle_user_mode_command :: "(int, i32) smap \<Rightarrow> string list \<Rightarrow> mode_request list" where
  "handle_user_mode_command m_channel_flags data_parser =
     (if length data_parser = 2 then [Req_LookupUserDetailsByName (data_parser ! 1)]
      else if length data_parser \<ge> 3 then
        (let s = fold user_mode_letter (data_parser ! 2) mode_start in
         [Req_UpdateUserModes (data_parser ! 1)
           (new_modify\<lparr>set_mode_flags := set_flags s, unset_mode_flags := unset_flags s\<rparr>)] @
         (if has (unset_flags s) (um EUserMode_Quiet) \<and> \<not> has (set_flags s) (um EUserMode_Quiet) then
            map (\<lambda>(id, f). Req_LookupChannelNames (word_of_int id))
              (filter (\<lambda>(id, f). has f (uc EUserChannelFlag_IsInChannel)) m_channel_flags)
          else []))
      else [])"

definition handle_mode :: "(int, i32) smap \<Rightarrow> string list \<Rightarrow> mode_request list" where
  "handle_mode m_channel_flags data_parser =
     (let target = (if length data_parser \<ge> 2 then data_parser ! 1 else []) in
      if length target > 0 then
        (if target ! 0 = CHR ''#'' then handle_channel_mode_command data_parser
         else handle_user_mode_command m_channel_flags data_parser)
      else [])"


section \<open>The sign of a letter\<close>

text \<open>The sign in force at the last occurrence of a letter in a mode string.\<close>

fun last_sign :: "bool \<Rightarrow> char \<Rightarrow> bool option \<Rightarrow> string \<Rightarrow> bool option" where
  "last_sign sg c r [] = r"
| "last_sign sg c r (x # xs) =
     (if x = CHR ''+'' then last_sign True c r xs
      else if x = CHR ''-'' then last_sign False c r xs
      else last_sign sg c (if x = c then Some sg else r) xs)"

definition signs_match :: "i32 \<Rightarrow> bool \<Rightarrow> bool option \<Rightarrow> mode_parse \<Rightarrow> bool" where
  "signs_match f sg r s \<longleftrightarrow>
     adding s = sg \<and> (has (set_flags s) f \<longleftrightarrow> r = Some True) \<and> (has (unset_flags s) f \<longleftrightarrow> r = Some False)"

lemmas mode_letter_defs = mode_ban_def mode_key_def mode_limit_def mode_user_def skip_param_def Let_def

lemma mode_letter_frame [frame_rules]:
  "adding (mode_ban dp s) = adding s" "set_flags (mode_ban dp s) = set_flags s" "unset_flags (mode_ban dp s) = unset_flags s"
  "adding (mode_key dp s) = adding s" "set_flags (mode_key dp s) = set_flags s" "unset_flags (mode_key dp s) = unset_flags s"
  "adding (mode_limit dp s) = adding s" "set_flags (mode_limit dp s) = set_flags s" "unset_flags (mode_limit dp s) = unset_flags s"
  "adding (mode_user f dp s) = adding s" "set_flags (mode_user f dp s) = set_flags s" "unset_flags (mode_user f dp s) = unset_flags s"
  by (simp_all add: mode_letter_defs)

lemma find_flag_Some: "find_flag tab x = Some f \<Longrightarrow> (f, x) \<in> set tab"
  by (auto simp: find_flag_def find_Some_iff in_set_conv_nth)

lemma find_flag_table:
  assumes "table_ok tab" and "(f, c) \<in> set tab"
  shows "find_flag tab c = Some f"
proof -
  have "find (\<lambda>(f, ch). ch = c) tab \<noteq> None"
    using assms(2) unfolding find_None_iff by fastforce
  then obtain f' where "find_flag tab c = Some f'" by (auto simp: find_flag_def)
  then show ?thesis using find_flag_Some table_ok_unique [OF assms(1)] assms(2) by metis
qed

lemma mode_flag_signs:
  assumes tab: "table_ok tab" "(f, c) \<in> set tab" and s: "signs_match f sg r s"
  shows "signs_match f sg (if x = c then Some sg else r) (mode_flag tab x s)"
proof (cases "find_flag tab x")
  case None
  then have "x \<noteq> c" using find_flag_table [OF tab] by auto
  then show ?thesis using s None by (simp add: mode_flag_def)
next
  case (Some g)
  have "g = f \<longleftrightarrow> x = c" using table_ok_unique [OF tab(1) find_flag_Some [OF Some] tab(2)] .
  moreover have "is_flag f" "is_flag g"
    using tab find_flag_Some [OF Some] by (force simp: table_ok_def list_all_iff)+
  then obtain n k where "f = flag n" "n < 32" "g = flag k" "k < 32" by (auto simp: is_flag_def)
  ultimately show ?thesis
    using s Some by (cases sg) (auto simp: mode_flag_def signs_match_def)
qed

lemma channel_table_letters:
  "(f, c) \<in> set channel_mode_flag_map \<Longrightarrow> c \<notin> set ''+-bklvhoO''"
  by (auto simp: channel_mode_flag_map_def)

lemma channel_mode_letter_signs:
  assumes tab: "(f, c) \<in> set channel_mode_flag_map" and s: "signs_match f sg r s"
    and x: "x \<noteq> CHR ''+''" "x \<noteq> CHR ''-''"
  shows "signs_match f sg (if x = c then Some sg else r) (channel_mode_letter dp x s)"
  using channel_table_letters [OF tab] s x mode_flag_signs [OF channel_mode_table_ok tab s, of x]
  by (auto simp: channel_mode_letter_def signs_match_def frame_rules)

lemma fold_channel_mode_signs:
  assumes tab: "(f, c) \<in> set channel_mode_flag_map" and s: "signs_match f sg r s"
  shows "\<exists>sg'. signs_match f sg' (last_sign sg c r xs) (fold (channel_mode_letter dp) xs s)"
  using s
proof (induction xs arbitrary: sg r s)
  case (Cons x xs)
  consider "x = CHR ''+''" | "x = CHR ''-''" | "x \<noteq> CHR ''+''" "x \<noteq> CHR ''-''" by blast
  then show ?case
  proof cases
    case 1
    then show ?thesis using Cons.prems Cons.IH [of True r "s\<lparr>adding := True\<rparr>"]
      by (simp add: channel_mode_letter_def signs_match_def)
  next
    case 2
    then show ?thesis using Cons.prems Cons.IH [of False r "s\<lparr>adding := False\<rparr>"]
      by (simp add: channel_mode_letter_def signs_match_def)
  next
    case 3
    then show ?thesis using Cons.IH [OF channel_mode_letter_signs [OF tab Cons.prems 3]] by simp
  qed
qed auto

lemma parse_channel_mode_signs:
  assumes "(f, c) \<in> set channel_mode_flag_map"
  shows "has (set_flags (parse_channel_mode dp)) f \<longleftrightarrow> last_sign True c None (dp ! 2) = Some True"
    and "has (unset_flags (parse_channel_mode dp)) f \<longleftrightarrow> last_sign True c None (dp ! 2) = Some False"
proof -
  have "signs_match f True None mode_start" by (simp add: signs_match_def mode_start_def)
  from fold_channel_mode_signs [OF assms this, of "dp ! 2" dp]
  show "has (set_flags (parse_channel_mode dp)) f \<longleftrightarrow> last_sign True c None (dp ! 2) = Some True"
    and "has (unset_flags (parse_channel_mode dp)) f \<longleftrightarrow> last_sign True c None (dp ! 2) = Some False"
    by (auto simp: parse_channel_mode_def signs_match_def)
qed

text \<open>The bans are asked for by requests of their own.\<close>

definition asks_update :: "mode_request \<Rightarrow> bool" where
  "asks_update q = (case q of Req_UpdateChannelModes _ _ \<Rightarrow> True | _ \<Rightarrow> False)"

lemma channel_mode_letter_bans:
  "filter asks_update (bans s) = [] \<Longrightarrow> filter asks_update (bans (channel_mode_letter dp x s)) = []"
  by (auto simp: channel_mode_letter_def mode_letter_defs mode_flag_def handle_ban_hostmask_def asks_update_def
      split: option.split)

lemma parse_channel_mode_bans: "filter asks_update (bans (parse_channel_mode dp)) = []"
proof -
  have "filter asks_update (bans (fold (channel_mode_letter dp) xs s)) = []" if "filter asks_update (bans s) = []" for xs s
    using that by (induction xs arbitrary: s) (simp_all add: channel_mode_letter_bans)
  then show ?thesis by (simp add: parse_channel_mode_def mode_start_def)
qed

text \<open>C32. A MODE command on a channel with a mode string makes exactly one request to change the channel's flags,
  and in it every mode that has a letter of its own is set (or unset) exactly when the last occurrence of its
  letter in the mode string stands under a plus (or a minus) sign; no mode is both set and unset.\<close>

theorem channel_mode_last_sign_wins:
  assumes "3 \<le> length dp"
  shows "\<exists>m. filter asks_update (handle_channel_mode_command dp) = [Req_UpdateChannelModes (dp ! 1) m]
    \<and> (\<forall>(f, c) \<in> set channel_mode_flag_map.
        (has (set_mode_flags m) f \<longleftrightarrow> last_sign True c None (dp ! 2) = Some True)
        \<and> (has (unset_mode_flags m) f \<longleftrightarrow> last_sign True c None (dp ! 2) = Some False))"
  using assms parse_channel_mode_signs [of _ _ dp] parse_channel_mode_bans [of dp]
  by (fastforce simp: handle_channel_mode_command_def Let_def asks_update_def)

theorem channel_mode_last_sign_wins_witness:
  "\<exists>m. filter asks_update (handle_channel_mode_command [''MODE'', ''#a'', ''+mi-m'']) = [Req_UpdateChannelModes ''#a'' m]
    \<and> has (set_mode_flags m) (cm EChannelMode_InviteOnly) = True
    \<and> has (unset_mode_flags m) (cm EChannelMode_InviteOnly) = False"
  using channel_mode_last_sign_wins [of "[''MODE'', ''#a'', ''+mi-m'']"]
  by (force simp: channel_mode_flag_map_def)

text \<open>A request to set a channel's key or limit that leaves the parameter out is not refused:
  \<open>+k\<close> alone is the same request as \<open>-k\<close> and takes the key away, and \<open>+l\<close> alone asks for a new limit
  that was never given a value.\<close>

theorem channel_mode_missing_parameter:
  "handle_channel_mode_command [cmd, channel, ''+k''] = handle_channel_mode_command [cmd, channel, ''-k'']
   \<and> (\<exists>m. handle_channel_mode_command [cmd, channel, ''+l''] = [Req_UpdateChannelModes channel m]
     \<and> update_limit m \<and> limit m = None)"
  by (simp add: handle_channel_mode_command_def parse_channel_mode_def channel_mode_letter_def
      mode_letter_defs no_param_def mode_start_def new_modify_def)

end
