(* ===== verification/Redis.thy ===== *)
theory Redis
  imports CLib "HOL-Library.AList" "HOL-Library.Monad_Syntax"
begin

text \<open>
  The Redis database as its clients see it: the commands the servers send, the replies they read, and
  the documented behaviour they rely on, as a locale. The database itself is a parameter of every
  definition that uses it; \<open>kv_redis\<close> is a small database with this behaviour. Commands that fail (a
  lost connection, a key of the wrong type) and the passing of time are outside the model.
\<close>

section \<open>Commands and replies\<close>

datatype redis_cmd =
    SET string string
  | DEL string
  | EXPIRE string nat
  | HMSET string "(string \<times> string) list"
  | HDEL string string
  | ZADD string string
  | ZREM string string
  | INCR string
  | HINCR string string           \<comment> \<open>\<open>HINCRBY key field 1\<close>\<close>

abbreviation HSET :: "string \<Rightarrow> string \<Rightarrow> string \<Rightarrow> redis_cmd" where
  "HSET k f v \<equiv> HMSET k [(f, v)]"

primrec cmd_key :: "redis_cmd \<Rightarrow> string" where
  "cmd_key (SET k v) = k"
| "cmd_key (DEL k) = k"
| "cmd_key (EXPIRE k t) = k"
| "cmd_key (HMSET k fvs) = k"
| "cmd_key (HDEL k f) = k"
| "cmd_key (ZADD k m) = k"
| "cmd_key (ZREM k m) = k"
| "cmd_key (INCR k) = k"
| "cmd_key (HINCR k f) = k"

text \<open>
  The replies of \<open>ZSCAN\<close> and \<open>HSCAN\<close> are a cursor and a part of the elements, each followed by its score
  or value; that of \<open>SCAN MATCH\<close> is a cursor and keys; \<open>HGETALL\<close> answers fields, each followed by its value.
\<close>

record 'r redis =
  run :: "redis_cmd \<Rightarrow> 'r \<Rightarrow> 'r"
  r_exists :: "string \<Rightarrow> 'r \<Rightarrow> bool"
  r_get :: "string \<Rightarrow> 'r \<Rightarrow> string option"
  r_hget :: "string \<Rightarrow> string \<Rightarrow> 'r \<Rightarrow> string option"
  r_zscan :: "string \<Rightarrow> i32 \<Rightarrow> 'r \<Rightarrow> string \<times> string list"
  r_hscan :: "string \<Rightarrow> i32 \<Rightarrow> 'r \<Rightarrow> string \<times> string list"
  r_scan_match :: "string \<Rightarrow> i32 \<Rightarrow> 'r \<Rightarrow> string \<times> string list"
  r_hgetall :: "string \<Rightarrow> 'r \<Rightarrow> string list"

definition run_all :: "'r redis \<Rightarrow> redis_cmd list \<Rightarrow> 'r \<Rightarrow> 'r" where
  "run_all R cmds db = fold (run R) cmds db"

lemma run_all_simps [simp]:
  "run_all R [] db = db"
  "run_all R (c # cs) db = run_all R cs (run R c db)"
  "run_all R (cs @ ds) db = run_all R ds (run_all R cs db)"
  by (simp_all add: run_all_def)

text \<open>
  The loop of every scan: ask with the last cursor until the server answers with cursor 0. \<open>None\<close> is a
  server that never does.
\<close>

partial_function (option) scan_loop ::
  "(i32 \<Rightarrow> string \<times> string list) \<Rightarrow> i32 \<Rightarrow> string list \<Rightarrow> string list option" where
  "scan_loop scan cursor acc =
     (let (c, xs) = scan cursor; cursor' = atoi c in
      if cursor' = 0 then Some (acc @ xs) else scan_loop scan cursor' (acc @ xs))"

fun evens :: "'a list \<Rightarrow> 'a list" where
  "evens [] = []"
| "evens [x] = [x]"
| "evens (x # y # xs) = x # evens xs"

lemma length_evens: "length (evens xs) = (length xs + 1) div 2"
  by (induction xs rule: evens.induct) auto

definition zset_scan :: "'r redis \<Rightarrow> string \<Rightarrow> 'r \<Rightarrow> string list option" where
  "zset_scan R k db = scan_loop (\<lambda>c. r_zscan R k c db) 0 []"

definition hash_scan :: "'r redis \<Rightarrow> string \<Rightarrow> 'r \<Rightarrow> string list option" where
  "hash_scan R k db = scan_loop (\<lambda>c. r_hscan R k c db) 0 []"

definition zmembers :: "'r redis \<Rightarrow> string \<Rightarrow> 'r \<Rightarrow> string set" where
  "zmembers R k db = (case zset_scan R k db of None \<Rightarrow> {} | Some xs \<Rightarrow> set (evens xs))"

fun pairs :: "'a list \<Rightarrow> ('a \<times> 'a) list" where
  "pairs (x # y # xs) = (x, y) # pairs xs"
| "pairs _ = []"

text \<open>The integer an \<open>INCR\<close> answers is the one it stores.\<close>

definition int_of :: "string option \<Rightarrow> i32" where
  "int_of s = (case s of None \<Rightarrow> 0 | Some t \<Rightarrow> atoi t)"

definition redis_incr :: "'r redis \<Rightarrow> string \<Rightarrow> 'r \<Rightarrow> i32 \<times> 'r" where
  "redis_incr R k db = (let db' = run R (INCR k) db in (int_of (r_get R k db'), db'))"

definition redis_hincr :: "'r redis \<Rightarrow> string \<Rightarrow> string \<Rightarrow> 'r \<Rightarrow> i32 \<times> 'r" where
  "redis_hincr R k f db = (let db' = run R (HINCR k f) db in (int_of (r_hget R k f db'), db'))"

section \<open>Documented behaviour\<close>

locale redis_server =
  fixes R :: "'r redis"
  assumes frame:
      "cmd_key c \<noteq> k \<Longrightarrow> r_exists R k (run R c db) = r_exists R k db"
      "cmd_key c \<noteq> k \<Longrightarrow> r_get R k (run R c db) = r_get R k db"
      "cmd_key c \<noteq> k \<Longrightarrow> r_hget R k f (run R c db) = r_hget R k f db"
      "cmd_key c \<noteq> k \<Longrightarrow> r_zscan R k cur (run R c db) = r_zscan R k cur db"
      "cmd_key c \<noteq> k \<Longrightarrow> r_hscan R k cur (run R c db) = r_hscan R k cur db"
      "cmd_key c \<noteq> k \<Longrightarrow> r_hgetall R k (run R c db) = r_hgetall R k db"
    and expire:
      "0 < t \<Longrightarrow> r_exists R k (run R (EXPIRE k t) db) = r_exists R k db"
      "0 < t \<Longrightarrow> r_get R k (run R (EXPIRE k t) db) = r_get R k db"
      "0 < t \<Longrightarrow> r_hget R k f (run R (EXPIRE k t) db) = r_hget R k f db"
      "0 < t \<Longrightarrow> r_zscan R k cur (run R (EXPIRE k t) db) = r_zscan R k cur db"
      "0 < t \<Longrightarrow> r_hscan R k cur (run R (EXPIRE k t) db) = r_hscan R k cur db"
      "0 < t \<Longrightarrow> r_hgetall R k (run R (EXPIRE k t) db) = r_hgetall R k db"
    and set_get: "r_get R k (run R (SET k v) db) = Some v"
    and del: "\<not> r_exists R k (run R (DEL k) db)" "r_get R k (run R (DEL k) db) = None"
      "r_hget R k f (run R (DEL k) db) = None"
    and hset: "r_hget R k f (run R (HMSET k fvs) db) =
        (case map_of (rev fvs) f of None \<Rightarrow> r_hget R k f db | Some v \<Rightarrow> Some v)"
    and hset_exists: "fvs \<noteq> [] \<Longrightarrow> r_exists R k (run R (HMSET k fvs) db)"
    and hdel: "r_hget R k f (run R (HDEL k f') db) = (if f = f' then None else r_hget R k f db)"
    and scan: "\<exists>xs. zset_scan R k db = Some xs \<and> even (length xs)"
      "\<exists>xs. hash_scan R k db = Some xs \<and> even (length xs) \<and>
         (\<forall>f. f \<in> set (evens xs) \<longleftrightarrow> r_hget R k f db \<noteq> None)"
    and scan_pairs: "even (length (snd (r_zscan R k cur db)))"
    and zadd: "zmembers R k (run R (ZADD k m) db) = insert m (zmembers R k db)"
    and zrem: "zmembers R k (run R (ZREM k m) db) = zmembers R k db - {m}"
    and incr: "r_get R k db = map_option dec_int n \<Longrightarrow> n \<noteq> Some 0x7FFFFFFF \<Longrightarrow>
        r_get R k (run R (INCR k) db) = Some (dec_int (case n of None \<Rightarrow> 1 | Some i \<Rightarrow> i + 1))"
    and hincr: "r_hget R k f db = map_option dec_int n \<Longrightarrow> n \<noteq> Some 0x7FFFFFFF \<Longrightarrow>
        r_hget R k f (run R (HINCR k f) db) = Some (dec_int (case n of None \<Rightarrow> 1 | Some i \<Rightarrow> i + 1))"
      "f' \<noteq> f \<Longrightarrow> r_hget R k f' (run R (HINCR k f) db) = r_hget R k f' db"
    and hgetall: "map_of (pairs (r_hgetall R k db)) f = r_hget R k f db"
begin

lemma zset_scan_frame: "cmd_key c \<noteq> k \<Longrightarrow> zset_scan R k (run R c db) = zset_scan R k db"
  by (simp add: zset_scan_def frame)

lemma zmembers_frame: "cmd_key c \<noteq> k \<Longrightarrow> zmembers R k (run R c db) = zmembers R k db"
  by (simp add: zmembers_def zset_scan_frame)

lemma zmembers_expire: "0 < t \<Longrightarrow> zmembers R k (run R (EXPIRE k' t) db) = zmembers R k db"
  by (cases "k = k'") (simp_all add: zmembers_def zset_scan_def expire zmembers_frame frame)

lemma hget_expire: "0 < t \<Longrightarrow> r_hget R k f (run R (EXPIRE k' t) db) = r_hget R k f db"
  by (cases "k = k'") (simp_all add: expire frame)

lemma get_expire: "0 < t \<Longrightarrow> r_get R k (run R (EXPIRE k' t) db) = r_get R k db"
  by (cases "k = k'") (simp_all add: expire frame)

lemma exists_expire: "0 < t \<Longrightarrow> r_exists R k (run R (EXPIRE k' t) db) = r_exists R k db"
  by (cases "k = k'") (simp_all add: expire frame)

lemma hget_frames:
  "list_all (\<lambda>c. cmd_key c \<noteq> k) cs \<Longrightarrow> r_hget R k f (run_all R cs db) = r_hget R k f db"
  by (induction cs arbitrary: db) (simp_all add: frame)

lemma get_frames:
  "list_all (\<lambda>c. cmd_key c \<noteq> k) cs \<Longrightarrow> r_get R k (run_all R cs db) = r_get R k db"
  by (induction cs arbitrary: db) (simp_all add: frame)

lemma zmembers_frames:
  "list_all (\<lambda>c. cmd_key c \<noteq> k) cs \<Longrightarrow> zmembers R k (run_all R cs db) = zmembers R k db"
  by (induction cs arbitrary: db) (simp_all add: zmembers_frame)

end

section \<open>A database\<close>

record kvdb =
  kv_hash :: "string \<Rightarrow> (string \<times> string) list"
  kv_string :: "string \<Rightarrow> string option"
  kv_zset :: "string \<Rightarrow> string list"

definition kv_empty :: kvdb where
  "kv_empty = \<lparr>kv_hash = (\<lambda>_. []), kv_string = (\<lambda>_. None), kv_zset = (\<lambda>_. [])\<rparr>"

fun kv_run :: "redis_cmd \<Rightarrow> kvdb \<Rightarrow> kvdb" where
  "kv_run (SET k v) db = db\<lparr>kv_string := (kv_string db)(k := Some v)\<rparr>"
| "kv_run (DEL k) db = db\<lparr>kv_hash := (kv_hash db)(k := []), kv_string := (kv_string db)(k := None),
     kv_zset := (kv_zset db)(k := [])\<rparr>"
| "kv_run (EXPIRE k t) db = db"
| "kv_run (HMSET k fvs) db = db\<lparr>kv_hash := (kv_hash db)(k := fold (\<lambda>(f, v). AList.update f v) fvs (kv_hash db k))\<rparr>"
| "kv_run (HDEL k f) db = db\<lparr>kv_hash := (kv_hash db)(k := AList.delete f (kv_hash db k))\<rparr>"
| "kv_run (ZADD k m) db = db\<lparr>kv_zset := (kv_zset db)(k := List.insert m (kv_zset db k))\<rparr>"
| "kv_run (ZREM k m) db = db\<lparr>kv_zset := (kv_zset db)(k := removeAll m (kv_zset db k))\<rparr>"
| "kv_run (INCR k) db = db\<lparr>kv_string := (kv_string db)(k := Some (dec_int (int_of (kv_string db k) + 1)))\<rparr>"
| "kv_run (HINCR k f) db = db\<lparr>kv_hash := (kv_hash db)(k :=
     AList.update f (dec_int (int_of (map_of (kv_hash db k) f) + 1)) (kv_hash db k))\<rparr>"

definition kv_redis :: "kvdb redis" where
  "kv_redis = \<lparr>run = kv_run,
     r_exists = (\<lambda>k db. kv_hash db k \<noteq> [] \<or> kv_string db k \<noteq> None \<or> kv_zset db k \<noteq> []),
     r_get = (\<lambda>k db. kv_string db k),
     r_hget = (\<lambda>k f db. map_of (kv_hash db k) f),
     r_zscan = (\<lambda>k c db. (''0'', concat (map (\<lambda>m. [m, ''1'']) (remdups (kv_zset db k))))),
     r_hscan = (\<lambda>k c db. (''0'', concat (map (\<lambda>(f, v). [f, v]) (kv_hash db k)))),
     r_scan_match = (\<lambda>p c db. (''0'', [])),
     r_hgetall = (\<lambda>k db. concat (map (\<lambda>(f, v). [f, v]) (kv_hash db k)))\<rparr>"

lemma evens_concat_map: "evens (concat (map (\<lambda>x. [f x, g x]) xs)) = map f xs"
  by (induction xs) auto

lemma evens_concat_pairs: "evens (concat (map (\<lambda>(f, v). [f, v]) xs)) = map fst xs"
  by (induction xs) auto

lemma kv_scans:
  "zset_scan kv_redis k db = Some (concat (map (\<lambda>m. [m, ''1'']) (remdups (kv_zset db k))))"
  "hash_scan kv_redis k db = Some (concat (map (\<lambda>(f, v). [f, v]) (kv_hash db k)))"
  by (simp_all add: zset_scan_def hash_scan_def kv_redis_def scan_loop.simps atoi_def strtol10_def
      isspace_def isdigit_def digit_val_def c_string_def nul_def)

lemma pairs_concat_pairs: "pairs (concat (map (\<lambda>(f, v). [f, v]) xs)) = xs"
  by (induction xs) auto

lemma map_of_fold_update:
  "map_of (fold (\<lambda>(f, v). AList.update f v) fvs h) f =
     (case map_of (rev fvs) f of None \<Rightarrow> map_of h f | Some v \<Rightarrow> Some v)"
  by (induction fvs arbitrary: h) (auto simp: update_conv' map_add_def split: option.splits)

lemma fold_update_nonempty:
  "fvs \<noteq> [] \<Longrightarrow> fold (\<lambda>(f, v). AList.update f v) fvs h \<noteq> []"
proof (induction fvs arbitrary: h)
  case (Cons p fvs)
  have ne: "AList.update f v h \<noteq> []" for f v and h :: "(string \<times> string) list" by (cases h) auto
  show ?case using Cons.IH ne by (cases p; cases fvs) auto
qed simp

lemma even_pairs: "even (length (concat (map (\<lambda>(f, v). [f, v]) xs)))"
  by (induction xs) auto

lemma kv_hget: "r_hget kv_redis k f db = map_of (kv_hash db k) f"
  by (simp add: kv_redis_def)

interpretation kv: redis_server kv_redis
proof
  fix k and db :: kvdb
  show "\<exists>xs. zset_scan kv_redis k db = Some xs \<and> even (length xs)"
    by (simp add: kv_scans evens_concat_map length_concat sum_list_triv comp_def)
  show "\<exists>xs. hash_scan kv_redis k db = Some xs \<and> even (length xs) \<and>
      (\<forall>f. f \<in> set (evens xs) \<longleftrightarrow> r_hget kv_redis k f db \<noteq> None)"
    by (simp add: kv_scans evens_concat_pairs even_pairs kv_hget map_of_eq_None_iff)
  fix fvs f
  show "r_hget kv_redis k f (run kv_redis (HMSET k fvs) db) =
      (case map_of (rev fvs) f of None \<Rightarrow> r_hget kv_redis k f db | Some v \<Rightarrow> Some v)"
    unfolding kv_hget by (simp add: kv_redis_def map_of_fold_update)
  show "fvs \<noteq> [] \<Longrightarrow> r_exists kv_redis k (run kv_redis (HMSET k fvs) db)"
    by (simp add: kv_redis_def fold_update_nonempty)
  fix m
  show "zmembers kv_redis k (run kv_redis (ZADD k m) db) = insert m (zmembers kv_redis k db)"
    by (simp add: zmembers_def kv_scans evens_concat_map) (simp add: kv_redis_def)
  show "zmembers kv_redis k (run kv_redis (ZREM k m) db) = zmembers kv_redis k db - {m}"
    by (simp add: zmembers_def kv_scans evens_concat_map) (simp add: kv_redis_def)
  fix f'
  show "r_hget kv_redis k f (run kv_redis (HDEL k f') db) = (if f = f' then None else r_hget kv_redis k f db)"
    by (simp add: kv_redis_def delete_conv')
  fix n
  show "r_get kv_redis k db = map_option dec_int n \<Longrightarrow> n \<noteq> Some 0x7FFFFFFF \<Longrightarrow>
      r_get kv_redis k (run kv_redis (INCR k) db) = Some (dec_int (case n of None \<Rightarrow> 1 | Some i \<Rightarrow> i + 1))"
    by (cases n) (simp_all add: kv_redis_def int_of_def)
  show "r_hget kv_redis k f db = map_option dec_int n \<Longrightarrow> n \<noteq> Some 0x7FFFFFFF \<Longrightarrow>
      r_hget kv_redis k f (run kv_redis (HINCR k f) db) = Some (dec_int (case n of None \<Rightarrow> 1 | Some i \<Rightarrow> i + 1))"
    by (cases n) (simp_all add: kv_redis_def int_of_def update_conv')
  show "f' \<noteq> f \<Longrightarrow> r_hget kv_redis k f' (run kv_redis (HINCR k f) db) = r_hget kv_redis k f' db"
    by (simp add: kv_redis_def update_conv')
  show "map_of (pairs (r_hgetall kv_redis k db)) f = r_hget kv_redis k f db"
    by (simp add: kv_redis_def pairs_concat_pairs)
  show "even (length (snd (r_zscan kv_redis k cur db)))" for cur
    by (simp add: kv_redis_def length_concat sum_list_triv comp_def)
  fix c
  show "cmd_key c \<noteq> k \<Longrightarrow> r_exists kv_redis k (run kv_redis c db) = r_exists kv_redis k db"
    "cmd_key c \<noteq> k \<Longrightarrow> r_get kv_redis k (run kv_redis c db) = r_get kv_redis k db"
    "cmd_key c \<noteq> k \<Longrightarrow> r_hget kv_redis k f (run kv_redis c db) = r_hget kv_redis k f db"
    "cmd_key c \<noteq> k \<Longrightarrow> r_zscan kv_redis k cur (run kv_redis c db) = r_zscan kv_redis k cur db"
    "cmd_key c \<noteq> k \<Longrightarrow> r_hscan kv_redis k cur (run kv_redis c db) = r_hscan kv_redis k cur db"
    "cmd_key c \<noteq> k \<Longrightarrow> r_hgetall kv_redis k (run kv_redis c db) = r_hgetall kv_redis k db" for cur
    by (cases c; auto simp: kv_redis_def)+
qed (simp_all add: kv_redis_def)

end
