(* ===== verification/NetAddress.thy ===== *)
theory NetAddress
  imports Buffer
begin

text \<open>
  \<open>OS::Address\<close> (\<open>core/OS/Address.cpp\<close>, \<open>OpenSpy.h\<close>): an address and port in network byte order. The
  library calls \<open>inet_addr\<close> and \<open>inet_ntop\<close> are parameters.
\<close>

text \<open>The port has no value when the text had none.\<close>

record Address =
  ip :: u32
  port :: "u16 option"

definition htons :: "u16 \<Rightarrow> u16" where
  "htons w = push_bit 8 w + drop_bit 8 w"

definition ntohl :: "u32 \<Rightarrow> u32" where
  "ntohl w = word_of_nat (le_val (rev (le_bytes 4 (unat w))))"

definition Address_default :: Address where
  "Address_default = \<lparr>ip = 0, port = Some 0\<rparr>"

definition Address_new :: "u32 \<Rightarrow> u16 \<Rightarrow> Address" where
  "Address_new a p = \<lparr>ip = a, port = Some (htons p)\<rparr>"

definition Address_parse :: "(string \<Rightarrow> u32) \<Rightarrow> string \<Rightarrow> Address" where
  "Address_parse inet_addr input =
     (case dropWhile (\<lambda>c. c \<noteq> CHR '':'') input of
        [] \<Rightarrow> \<lparr>ip = inet_addr input, port = None\<rparr>
      | _ # rest \<Rightarrow> \<lparr>ip = inet_addr (takeWhile (\<lambda>c. c \<noteq> CHR '':'') input),
          port = Some (htons (ucast (atoi rest)))\<rparr>)"

definition GetPort :: "Address \<Rightarrow> u16 option" where
  "GetPort a = map_option htons (port a)"

definition Address_ToString :: "(u32 \<Rightarrow> string) \<Rightarrow> bool \<Rightarrow> Address \<Rightarrow> string option" where
  "Address_ToString inet_ntop ip_only a =
     (if ip_only then Some (inet_ntop (ip a))
      else map_option (\<lambda>p. inet_ntop (ip a) @ '':'' @ dec_nat (unat (htons p))) (port a))"

definition Address_eq :: "Address \<Rightarrow> Address \<Rightarrow> bool" where
  "Address_eq a b \<longleftrightarrow> ip a = ip b \<and> GetPort a = GetPort b"

section \<open>Texts as bytes\<close>

definition response_chars :: "byte list \<Rightarrow> string" where
  "response_chars bs = map (\<lambda>b. char_of (unat b)) bs"

definition string_bytes :: "string \<Rightarrow> byte list" where
  "string_bytes s = map (\<lambda>c. word_of_nat (code c)) s"

definition read_text :: "buffer \<Rightarrow> (string \<times> buffer) option" where
  "read_text b = map_option (map_prod response_chars id) (ReadNTS b)"

section \<open>Texts of addresses\<close>

text \<open>What the code relies on: \<open>inet_addr\<close> reads the text of \<open>inet_ntop\<close>, which has no colon.\<close>

locale inet =
  fixes aton :: "string \<Rightarrow> u32" and ntop :: "u32 \<Rightarrow> string"
  assumes aton_ntop [simp]: "aton (ntop a) = a"
    and ntop_chars: "list_all (\<lambda>c. isdigit c \<or> c = CHR ''.'') (ntop a)"
begin

lemma colon_notin_ntop: "CHR '':'' \<notin> set (ntop a)"
  using ntop_chars [of a] by (auto simp: list_all_iff isdigit_def)

end

lemma htons_htons [simp]: "htons (htons w) = w"
proof -
  have "bit (htons v) n \<longleftrightarrow> (if n < 8 then bit v (n + 8) else n < 16 \<and> bit v (n - 8))" for v :: u16 and n
  proof -
    have "push_bit 8 v + drop_bit 8 v = push_bit 8 v OR drop_bit 8 v"
      by (rule disjunctive_add) (auto simp: bit_simps dest: bit_imp_le_length)
    then show ?thesis
      by (auto simp: htons_def bit_simps add.commute dest: bit_imp_le_length)
  qed
  note bits = this
  show ?thesis by (rule bit_eqI) (auto simp: bits)
qed

lemma atoi_dec_nat_31: "n < 2 ^ 31 \<Longrightarrow> atoi (dec_nat n) = word_of_nat n"
  by (simp add: atoi_def strtol10_dec_nat nul_notin_dec_nat)

lemma ntohl_ntohl [simp]: "ntohl (ntohl w) = w"
proof -
  have "le_bytes 4 (unat (ntohl w)) = rev (le_bytes 4 (unat w))"
    unfolding ntohl_def by (rule le_bytes_word) simp
  then show ?thesis
    using le_val_word(3) [of w] by (simp add: ntohl_def)
qed

lemma ucast_ucast_16_32: "ucast (ucast (w :: u16) :: i32) = w"
  by (rule bit_eqI) (auto simp: bit_simps)

context inet begin

lemma ToString_ascii: "port a = Some p \<Longrightarrow> Address_ToString ntop False a =
    Some (ntop (ip a) @ CHR '':'' # dec_nat (unat (htons p)))"
  by (simp add: Address_ToString_def)

text \<open>The text of an address reads back as the address.\<close>

lemma parse_ToString:
  assumes "port a = Some p" and "Address_ToString ntop False a = Some t"
  shows "Address_parse aton t = a"
proof -
  have t: "t = ntop (ip a) @ CHR '':'' # dec_nat (unat (htons p))"
    using assms by (simp add: Address_ToString_def)
  have split: "takeWhile (\<lambda>c. c \<noteq> CHR '':'') t = ntop (ip a)"
    "dropWhile (\<lambda>c. c \<noteq> CHR '':'') t = CHR '':'' # dec_nat (unat (htons p))"
    using colon_notin_ntop [of "ip a"] by (auto simp: t takeWhile_append dropWhile_append)
  have "unat (htons p) < 2 ^ 31" using unat_less [of "htons p"] by simp
  then have "ucast (atoi (dec_nat (unat (htons p)))) = htons p"
    by (simp add: atoi_dec_nat_31 ucast_ucast_16_32)
  then show ?thesis
    using assms(1) by (cases a) (simp add: Address_parse_def split)
qed

end

subsection \<open>Dotted quads\<close>

definition quad_ntop :: "u32 \<Rightarrow> string" where
  "quad_ntop a = (let n = unat a in
     dec_nat (n mod 256) @ CHR ''.'' # dec_nat (n div 256 mod 256) @ CHR ''.'' #
     dec_nat (n div 65536 mod 256) @ CHR ''.'' # dec_nat (n div 16777216))"

definition quad_aton :: "string \<Rightarrow> u32" where
  "quad_aton s = (case map (digits_val 0) (getlines (CHR ''.'') s) of
     [a, b, c, d] \<Rightarrow> word_of_nat (a + 256 * b + 65536 * c + 16777216 * d)
   | _ \<Rightarrow> - 1)"

lemma dot_notin_dec_nat: "CHR ''.'' \<notin> set (dec_nat n)"
  using dec_nat_digits [of "CHR ''.''" n] by (auto simp: isdigit_def)

lemma getlines_last: "s \<noteq> [] \<Longrightarrow> d \<notin> set s \<Longrightarrow> getlines d s = [s]"
proof -
  assume a: "s \<noteq> []" "d \<notin> set s"
  then have "takeWhile (\<lambda>c. c \<noteq> d) s = s" "dropWhile (\<lambda>c. c \<noteq> d) s = []"
    by (auto simp: takeWhile_eq_all_conv dropWhile_eq_Nil_conv)
  then show ?thesis using a(1) by (subst getlines.simps) (simp only: list.case if_False)
qed

lemma quad_value: "n mod 256 + 256 * (n div 256 mod 256) + 65536 * (n div 65536 mod 256) + 16777216 * (n div 16777216) = (n :: nat)"
proof -
  have "n = n mod 256 + 256 * (n div 256)" by simp
  moreover have "n div 256 = n div 256 mod 256 + 256 * (n div 65536)" by (simp add: div_mult2_eq [of n 256 256, simplified])
  moreover have "n div 65536 = n div 65536 mod 256 + 256 * (n div 16777216)"
    by (simp add: div_mult2_eq [of n 65536 256, simplified])
  ultimately show ?thesis by linarith
qed

interpretation quad: inet quad_aton quad_ntop
proof
  fix a :: u32
  define n where "n = unat a"
  define b0 b1 b2 b3 where b: "b0 = n mod 256" "b1 = n div 256 mod 256" "b2 = n div 65536 mod 256" "b3 = n div 16777216"
  have n: "b0 + 256 * b1 + 65536 * b2 + 16777216 * b3 = n" unfolding b by (rule quad_value)
  have ntop: "quad_ntop a = dec_nat b0 @ CHR ''.'' # dec_nat b1 @ CHR ''.'' # dec_nat b2 @ CHR ''.'' # dec_nat b3"
    by (simp add: quad_ntop_def Let_def b n_def)
  have "quad_aton (quad_ntop a) = word_of_nat (b0 + 256 * b1 + 65536 * b2 + 16777216 * b3)"
    unfolding ntop quad_aton_def
    by (simp add: getlines_token getlines_last dot_notin_dec_nat digits_val_dec_nat del: of_nat_add of_nat_mult)
  then show "quad_aton (quad_ntop a) = a" by (simp only: n) (simp add: n_def)
  show "list_all (\<lambda>c. isdigit c \<or> c = CHR ''.'') (quad_ntop a)"
    using dec_nat_digits by (auto simp: list_all_iff ntop)
qed

end
