(* ===== verification/PeerchatChannel.thy ===== *)
theory PeerchatChannel
  imports PeerchatModes Redis NetAddress
begin

text \<open>
  The channels of peerchat as its backend tasks keep them in Redis (\<open>peerchat/tasks/User.cpp\<close>,
  \<open>Channel.cpp\<close>, \<open>Perform_UpdateChannelModes.cpp\<close>, \<open>Perform_UserPartChannel.cpp\<close>,
  \<open>Perform_UserKickChannel.cpp\<close>): looking up users and channels, adding and removing users, and changing
  modes. A task returns its response code and the new state: the database, the messages sent to the
  broker, and the replies to the peer. Outer \<open>None\<close> is undefined behaviour or a scan that never ends.
\<close>

section \<open>State\<close>

record UserSummary =
  uid :: i32
  nick :: string
  username :: string
  hostname :: string
  realname :: string
  address :: Address
  gameid :: i32
  profileid :: i32
  userid :: i32
  modeflags :: i32
  operflags :: i32

definition new_user :: UserSummary where
  "new_user = \<lparr>uid = 0, nick = [], username = [], hostname = [], realname = [], address = Address_default,
     gameid = -1, profileid = 0, userid = 0, modeflags = 0, operflags = 0\<rparr>"

text \<open>What the tasks use of their surroundings: Redis, library functions, the server's name and clock.\<close>

record 'r env =
  store :: "'r redis"
  base64 :: "string \<Rightarrow> string"
  inet_addr :: "string \<Rightarrow> u32"
  inet_ntop :: "u32 \<Rightarrow> string"
  server_name :: string
  now :: i32

record 'r chat =
  db :: 'r
  amqp :: "(string \<times> string) list"
  replies :: "numeric list"

datatype response_code =
    WebErrorCode_Success | WebErrorCode_NoSuchUser | WebErrorCode_AuthInvalidCredentials
  | WebErrorCode_UniqueNickInUse

definition peerchat_client_message_routingkey :: string where
  "peerchat_client_message_routingkey = ''peerchat.client-messages''"

definition peerchat_key_updates_routingkey :: string where
  "peerchat_key_updates_routingkey = ''peerchat.keyupdate-messages''"

text \<open>A message is a list of keys and values, each after a backslash.\<close>

definition kv_message :: "(string \<times> string) list \<Rightarrow> string" where
  "kv_message kvs = concat (map (\<lambda>(k, v). CHR 0x5C # k @ CHR 0x5C # v) kvs)"

definition sendAMQPMessage :: "string \<Rightarrow> string \<Rightarrow> 'r chat \<Rightarrow> 'r chat" where
  "sendAMQPMessage routingkey message s = s\<lparr>amqp := amqp s @ [(routingkey, message)]\<rparr>"

definition redis_cmds :: "'r env \<Rightarrow> redis_cmd list \<Rightarrow> 'r chat \<Rightarrow> 'r chat" where
  "redis_cmds E cmds s = s\<lparr>db := run_all (store E) cmds (db s)\<rparr>"

definition send_replies :: "numeric list \<Rightarrow> 'r chat \<Rightarrow> 'r chat" where
  "send_replies ns s = s\<lparr>replies := replies s @ ns\<rparr>"

lemma chat_frame [simp]:
  "db (sendAMQPMessage k m s) = db s" "replies (sendAMQPMessage k m s) = replies s"
  "amqp (sendAMQPMessage k m s) = amqp s @ [(k, m)]"
  "db (redis_cmds E cs s) = run_all (store E) cs (db s)"
  "amqp (redis_cmds E cs s) = amqp s" "replies (redis_cmds E cs s) = replies s"
  "db (send_replies ns s) = db s" "amqp (send_replies ns s) = amqp s"
  "replies (send_replies ns s) = replies s @ ns"
  by (simp_all add: sendAMQPMessage_def redis_cmds_def send_replies_def)

text \<open>A value read as a C string, and as a number.\<close>

definition hget_str :: "'r env \<Rightarrow> string \<Rightarrow> string \<Rightarrow> 'r \<Rightarrow> string option" where
  "hget_str E k f d = map_option c_string (r_hget (store E) k f d)"

definition hget_int :: "'r env \<Rightarrow> string \<Rightarrow> string \<Rightarrow> 'r \<Rightarrow> i32 option" where
  "hget_int E k f d = map_option atoi (r_hget (store E) k f d)"

definition or_else :: "'a \<Rightarrow> 'a option \<Rightarrow> 'a" where
  "or_else d v = (case v of None \<Rightarrow> d | Some x \<Rightarrow> x)"

lemma or_else_simps [simp]: "or_else d None = d" "or_else d (Some x) = x"
  by (simp_all add: or_else_def)

text \<open>The names of keys.\<close>

definition user_key :: "i32 \<Rightarrow> string" where
  "user_key u = ''user_'' @ dec_int u"

definition channel_key :: "i32 \<Rightarrow> string" where
  "channel_key c = ''channel_'' @ dec_int c"

definition channel_users_key :: "i32 \<Rightarrow> string" where
  "channel_users_key c = channel_key c @ ''_users''"

definition channel_usermodes_key :: "i32 \<Rightarrow> string" where
  "channel_usermodes_key c = channel_key c @ ''_usermodes''"

definition channel_user_key :: "i32 \<Rightarrow> i32 \<Rightarrow> string" where
  "channel_user_key c u = channel_key c @ ''_user_'' @ dec_int u"

definition user_channels_key :: "i32 \<Rightarrow> string" where
  "user_channels_key u = user_key u @ ''_channels''"

definition USER_EXPIRE_TIME :: nat where "USER_EXPIRE_TIME = 900"
definition CHANNEL_EXPIRE_TIME :: nat where "CHANNEL_EXPIRE_TIME = 3600"
definition CHANNEL_DELETE_EXPIRE_TIME :: nat where "CHANNEL_DELETE_EXPIRE_TIME = 30"

section \<open>Users\<close>

definition UserSummary_ToString :: "'r env \<Rightarrow> UserSummary \<Rightarrow> bool \<Rightarrow> string" where
  "UserSummary_ToString E u includeId =
     nick u @ ''!'' @ username u @ ''@'' @ inet_ntop E (ip (address u)) @ (if includeId then ''+'' @ dec_int (uid u) else [])"

definition ToBase64String :: "'r env \<Rightarrow> UserSummary \<Rightarrow> bool \<Rightarrow> string" where
  "ToBase64String E u includeId = base64 E (UserSummary_ToString E u includeId)"

definition server_userSummary :: "'r env \<Rightarrow> UserSummary" where
  "server_userSummary E = new_user\<lparr>nick := ''SERVER'', username := ''SERVER'', hostname := server_name E, uid := -1\<rparr>"

definition LookupUserById :: "'r env \<Rightarrow> i32 \<Rightarrow> 'r \<Rightarrow> UserSummary" where
  "LookupUserById E user_id d =
     (if user_id = -1 then server_userSummary E
      else let k = user_key user_id in
        if \<not> r_exists (store E) k d then new_user
        else \<lparr>uid = user_id,
          nick = or_else [] (hget_str E k ''nick'' d),
          username = or_else [] (hget_str E k ''username'' d),
          hostname = or_else [] (hget_str E k ''hostname'' d),
          realname = or_else [] (hget_str E k ''realname'' d),
          address = or_else Address_default (map_option (Address_parse (inet_addr E)) (hget_str E k ''address'' d)),
          gameid = or_else (-1) (hget_int E k ''gameid'' d),
          profileid = or_else 0 (hget_int E k ''profileid'' d),
          userid = or_else 0 (hget_int E k ''userid'' d),
          modeflags = or_else 0 (hget_int E k ''modeflags'' d),
          operflags = or_else 0 (hget_int E k ''operflags'' d)\<rparr>)"

definition usernick_key :: "string \<Rightarrow> string" where
  "usernick_key name = ''usernick_'' @ map tolower name"

definition GetUserSummaryByName :: "'r env \<Rightarrow> string \<Rightarrow> 'r \<Rightarrow> UserSummary" where
  "GetUserSummaryByName E name d =
     (if \<not> r_exists (store E) (usernick_key name) d then new_user
      else LookupUserById E (or_else 0 (map_option atoi (r_get (store E) (usernick_key name) d))) d)"

definition LookupUserChannelModeFlags :: "'r env \<Rightarrow> i32 \<Rightarrow> i32 \<Rightarrow> 'r \<Rightarrow> i32" where
  "LookupUserChannelModeFlags E channel_id user_id d =
     or_else 0 (hget_int E (channel_user_key channel_id user_id) ''modeflags'' d)"

text \<open>The keys of a user: public ones and, on request, private ones.\<close>

definition ApplyUserKeys :: "'r env \<Rightarrow> string \<Rightarrow> UserSummary \<Rightarrow> string \<Rightarrow> bool \<Rightarrow> 'r chat \<Rightarrow> 'r chat" where
  "ApplyUserKeys E base_key u user_base show_private s =
     (let k = (if base_key = [] then user_key (uid u) else base_key) @ user_base in
      redis_cmds E
        [HMSET k ([(''username'', username u), (''nick'', nick u), (''realname'', realname u),
            (''gameid'', dec_int (gameid u)), (''hostname'', hostname u), (''profileid'', dec_int (profileid u)),
            (''userid'', dec_int (userid u)), (''backendid'', dec_int (uid u))] @
            (if show_private then
               [(''address'', inet_ntop E (ip (address u))), (''modeflags'', dec_int (modeflags u)),
                (''operflags'', dec_int (operflags u))] else [])),
         EXPIRE k USER_EXPIRE_TIME] s)"

section \<open>Channels\<close>

record ChannelUserSummary =
  cu_channel_id :: i32
  cu_user_id :: i32
  cu_modeflags :: i32
  userSummary :: UserSummary

record ChannelSummary =
  channel_name :: string
  entrymsg :: string
  channel_id :: i32
  basic_mode_flags :: i32
  ch_password :: string
  ch_limit :: i32
  created_at :: i32
  ch_topic :: string
  topic_time :: i32
  topic_user_summary :: string
  ch_users :: "ChannelUserSummary list"

definition new_channel :: ChannelSummary where
  "new_channel = \<lparr>channel_name = [], entrymsg = [], channel_id = 0, basic_mode_flags = 0, ch_password = [],
     ch_limit = 0, created_at = 0, ch_topic = [], topic_time = 0, topic_user_summary = [], ch_users = []\<rparr>"

text \<open>Users whose own entry is gone are left out.\<close>

definition GetChannelUsers :: "'r env \<Rightarrow> i32 \<Rightarrow> 'r \<Rightarrow> ChannelUserSummary list option" where
  "GetChannelUsers E cid d =
     map_option
       (\<lambda>xs. map (\<lambda>(u, us). \<lparr>cu_channel_id = cid, cu_user_id = u,
            cu_modeflags = LookupUserChannelModeFlags E cid u d, userSummary = us\<rparr>)
          (filter (\<lambda>(u, us). uid us \<noteq> 0) (map (\<lambda>m. (atoi m, LookupUserById E (atoi m) d)) (evens xs))))
       (zset_scan (store E) (channel_users_key cid) d)"

definition CountChannelUsers :: "'r env \<Rightarrow> i32 \<Rightarrow> 'r \<Rightarrow> nat option" where
  "CountChannelUsers E cid d = map_option (\<lambda>xs. length xs div 2) (zset_scan (store E) (channel_users_key cid) d)"

definition KeepaliveChannel :: "'r env \<Rightarrow> i32 \<Rightarrow> 'r chat \<Rightarrow> 'r chat" where
  "KeepaliveChannel E cid =
     redis_cmds E [EXPIRE (channel_key cid) CHANNEL_EXPIRE_TIME, EXPIRE (channel_users_key cid) CHANNEL_EXPIRE_TIME,
       EXPIRE (channel_usermodes_key cid) CHANNEL_EXPIRE_TIME]"

definition LookupChannelById :: "'r env \<Rightarrow> i32 \<Rightarrow> 'r chat \<Rightarrow> (ChannelSummary \<times> 'r chat) option" where
  "LookupChannelById E cid s =
     (let d = db s; k = channel_key cid in
      map_option
        (\<lambda>us. (\<lparr>channel_name = or_else [] (hget_str E k ''name'' d),
            entrymsg = or_else [] (hget_str E k ''entrymsg'' d),
            channel_id = cid,
            basic_mode_flags = or_else 0 (hget_int E k ''modeflags'' d),
            ch_password = or_else [] (hget_str E k ''password'' d),
            ch_limit = or_else 0 (hget_int E k ''limit'' d),
            created_at = or_else 0 (hget_int E k ''created_at'' d),
            ch_topic = or_else [] (hget_str E k ''topic'' d),
            topic_time = or_else 0 (hget_int E k ''topic_time'' d),
            topic_user_summary = or_else [] (hget_str E k ''topic_user'' d),
            ch_users = us\<rparr>, KeepaliveChannel E cid s))
        (GetChannelUsers E cid d))"

definition channelname_key :: "string \<Rightarrow> string" where
  "channelname_key name = ''channelname_'' @ name"

definition GetChannelIdByName :: "'r env \<Rightarrow> string \<Rightarrow> 'r chat \<Rightarrow> i32 \<times> 'r chat" where
  "GetChannelIdByName E name s =
     (let id = or_else 0 (map_option atoi (r_get (store E) (channelname_key (c_string name)) (db s))) in
      if id \<noteq> 0 then
        (if r_exists (store E) (channel_key id) (db s) then id else 0,
         redis_cmds E [EXPIRE (channel_key id) CHANNEL_EXPIRE_TIME] s)
      else (0, s))"

text \<open>The lookup that does not create the channel.\<close>

definition GetChannelSummaryByName :: "'r env \<Rightarrow> string \<Rightarrow> 'r chat \<Rightarrow> (ChannelSummary \<times> 'r chat) option" where
  "GetChannelSummaryByName E name s =
     (let (id, s') = GetChannelIdByName E (map tolower name) s in
      if id \<noteq> 0 then LookupChannelById E id s' else Some (new_channel\<lparr>channel_name := name\<rparr>, s'))"

definition SendUpdateUserChanModeflags :: "i32 \<Rightarrow> i32 \<Rightarrow> i32 \<Rightarrow> i32 \<Rightarrow> 'r chat \<Rightarrow> 'r chat" where
  "SendUpdateUserChanModeflags cid user_id flags old_modeflags =
     sendAMQPMessage peerchat_key_updates_routingkey
       (kv_message [(''type'', ''UPDATE_USER_CHANMODEFLAGS''), (''channel_id'', dec_int cid), (''user_id'', dec_int user_id),
          (''modeflags'', dec_int flags), (''old_modeflags'', dec_int old_modeflags)])"

definition AddUserToChannel :: "'r env \<Rightarrow> UserSummary \<Rightarrow> i32 \<Rightarrow> i32 \<Rightarrow> 'r chat \<Rightarrow> 'r chat" where
  "AddUserToChannel E user cid initial_flags s =
     (let k = channel_user_key cid (uid user);
          s1 = redis_cmds E
            [ZADD (user_channels_key (uid user)) (dec_int cid),
             ZADD (channel_users_key cid) (dec_int (uid user)),
             EXPIRE (user_channels_key (uid user)) USER_EXPIRE_TIME,
             EXPIRE (channel_users_key cid) CHANNEL_EXPIRE_TIME,
             HMSET k [(''modeflags'', dec_int initial_flags), (''channel_id'', dec_int cid)],
             EXPIRE k CHANNEL_EXPIRE_TIME] s;
          user = user\<lparr>modeflags := 0\<rparr>;
          s2 = ApplyUserKeys E k user ''_custkeys'' False s1;
          s3 = SendUpdateUserChanModeflags cid (uid user) initial_flags 0 s2
      in sendAMQPMessage peerchat_client_message_routingkey
           (kv_message [(''type'', ''JOIN''), (''toChannelId'', dec_int cid),
              (''fromUserSummary'', ToBase64String E user True), (''includeSelf'', ''1'')]) s3)"

text \<open>
  The scan looks for a text where the reply has a list, so it finds nothing to delete: only the loop is
  left.
\<close>

definition DeleteTemporaryUsermodesForChannel :: "'r env \<Rightarrow> i32 \<Rightarrow> 'r chat \<Rightarrow> 'r chat option" where
  "DeleteTemporaryUsermodesForChannel E cid s =
     map_option (\<lambda>_. s) (hash_scan (store E) (channel_usermodes_key cid) (db s))"

definition DeleteChannelById :: "'r env \<Rightarrow> i32 \<Rightarrow> 'r chat \<Rightarrow> 'r chat option" where
  "DeleteChannelById E cid s =
     do {
       (channel, s1) \<leftarrow> LookupChannelById E cid s;
       let s2 = redis_cmds E [EXPIRE (channel_key cid) CHANNEL_DELETE_EXPIRE_TIME, DEL (channelname_key (channel_name channel)),
            HDEL ''channels'' (channel_name channel)] s1;
       s3 \<leftarrow> DeleteTemporaryUsermodesForChannel E cid s2;
       Some (redis_cmds E [DEL (channel_usermodes_key cid)] s3)
     }"

definition RemoveUserFromChannel ::
  "'r env \<Rightarrow> UserSummary \<Rightarrow> ChannelSummary \<Rightarrow> string \<Rightarrow> string \<Rightarrow> UserSummary \<Rightarrow> bool \<Rightarrow> i32 \<Rightarrow> 'r chat \<Rightarrow> 'r chat option"
where
  "RemoveUserFromChannel E user channel type remove_message target silent requiredChanUserModes s =
     (let cid = channel_id channel;
          k = channel_user_key cid (uid user);
          s1 = redis_cmds E
            [ZREM (channel_users_key cid) (dec_int (if uid target \<noteq> 0 then uid target else uid user)),
             DEL k, DEL (k @ ''_custkeys''),
             ZREM (user_channels_key (uid user)) (dec_int cid)] s;
          old_modeflags = LookupUserChannelModeFlags E cid (uid user) (db s1);
          s2 = (if silent then s1
            else sendAMQPMessage peerchat_client_message_routingkey
              (kv_message ([(''type'', type), (''toChannelId'', dec_int cid), (''fromUserSummary'', ToBase64String E user True),
                 (''message'', base64 E remove_message), (''includeSelf'', ''1''),
                 (''requiredChanUserModes'', dec_int requiredChanUserModes)] @
                 (if uid target \<noteq> 0 then [(''toUserSummary'', ToBase64String E target True)] else []))) s1)
      in do {
        s3 \<leftarrow> (if \<not> has (basic_mode_flags channel) (cm EChannelMode_StayOpen) then
            do {
              count \<leftarrow> CountChannelUsers E cid (db s2);
              if count = 0 then DeleteChannelById E cid s2 else Some s2
            }
          else Some s2);
        Some (SendUpdateUserChanModeflags cid (uid target) 0 old_modeflags s3)
      })"

end
