(* ===== verification/PeerchatTasks.thy ===== *)
theory PeerchatTasks
  imports PeerchatChannel
begin

text \<open>
  The tasks that act on a channel for a peer: changing modes, leaving and kicking, with the permission
  tests of \<open>Channel.cpp\<close>, and the test for joining (\<open>Perform_UserJoinChannel.cpp\<close>). The peer is its
  user details; the callback and the reference count are left to the caller.
\<close>

section \<open>Permissions\<close>

definition TestChannelUserModeChangeItem ::
  "'r env \<Rightarrow> UserSummary \<Rightarrow> ChannelSummary \<Rightarrow> string \<Rightarrow> i32 \<Rightarrow> i32 \<Rightarrow> 'r chat \<Rightarrow> bool \<times> 'r chat" where
  "TestChannelUserModeChangeItem E peer channel target_username from_mode_flags update_flags s =
     (let target = GetUserSummaryByName E target_username (db s) in
      if uid target = 0 then
        (False, send_replies [Numeric 401 ''No such nick/channel'' False target_username] s)
      else if has (operflags peer) (oper OPERPRIVS_OPEROVERRIDE) then (True, s)
      else
        let to_mode_flags = LookupUserChannelModeFlags E (channel_id channel) (uid target) (db s);
            (ok, ns) = CheckActionPermissions (operflags peer) (channel_name channel) from_mode_flags to_mode_flags
              (uc (GetMinimumModeFlagsFromUpdateSet to_mode_flags))
        in (ok, send_replies ns s))"

fun test_items :: "'r env \<Rightarrow> UserSummary \<Rightarrow> ChannelSummary \<Rightarrow> i32 \<Rightarrow> (string, i32) smap \<Rightarrow> 'r chat \<Rightarrow> bool \<times> 'r chat" where
  "test_items E peer channel from_mode_flags [] s = (True, s)"
| "test_items E peer channel from_mode_flags ((name, modes) # items) s =
     (case TestChannelUserModeChangeItem E peer channel name from_mode_flags modes s of
        (True, s') \<Rightarrow> test_items E peer channel from_mode_flags items s'
      | (False, s') \<Rightarrow> (False, s'))"

definition CheckChannelUserModeChange ::
  "'r env \<Rightarrow> UserSummary \<Rightarrow> string \<Rightarrow> i32 \<Rightarrow> (string, i32) smap \<Rightarrow> (string, i32) smap \<Rightarrow> 'r chat
     \<Rightarrow> (bool \<times> 'r chat) option" where
  "CheckChannelUserModeChange E peer channel from_mode_flags sets unsets s =
     do {
       (channel_summary, s1) \<leftarrow> GetChannelSummaryByName E channel s;
       if has (operflags peer) (oper OPERPRIVS_OPEROVERRIDE) then Some (True, s1)
       else Some (case test_items E peer channel_summary from_mode_flags sets s1 of
           (True, s2) \<Rightarrow> test_items E peer channel_summary from_mode_flags unsets s2
         | (False, s2) \<Rightarrow> (False, s2))
     }"

section \<open>Changing modes\<close>

text \<open>The text so far, the names so far, and the state.\<close>

definition set_usermode_step ::
  "'r env \<Rightarrow> i32 \<Rightarrow> bool \<Rightarrow> string \<times> i32 \<Rightarrow> string \<times> string \<times> 'r chat \<Rightarrow> string \<times> string \<times> 'r chat" where
  "set_usermode_step E cid unset = (\<lambda>(name, modes) (ss, user_ss, s).
     (let target = GetUserSummaryByName E name (db s); k = channel_user_key cid (uid target) in
      if uid target = 0 then (ss, user_ss, s)
      else
        let voice = has modes (uc EUserChannelFlag_Voice);
            ops = has modes (uc EUserChannelFlag_Op) \<or> has modes (uc EUserChannelFlag_HalfOp)
              \<or> has modes (uc EUserChannelFlag_Owner);
            original = or_else 0 (hget_int E k ''modeflags'' (db s));
            flags = (if unset then original AND NOT modes else original OR modes)
        in (ss @ (if voice then ''v'' else []) @ (if ops then ''o'' else []),
            user_ss @ (if voice then name @ '' '' else []) @ (if ops then name @ '' '' else []),
            SendUpdateUserChanModeflags cid (uid target) flags original
              (redis_cmds E [HSET k ''modeflags'' (dec_int flags)] s))))"

definition HandleSetUsermodes :: "'r env \<Rightarrow> i32 \<Rightarrow> (string, i32) smap \<Rightarrow> bool \<Rightarrow> 'r chat \<Rightarrow> string \<times> 'r chat" where
  "HandleSetUsermodes E cid items unset s =
     (let (ss, user_ss, s') = fold (set_usermode_step E cid unset) items ([], [], s)
      in (ss @ '' '' @ user_ss, s'))"

text \<open>A sign is written before the first letter of its part only.\<close>

definition add_text :: "char \<Rightarrow> string \<Rightarrow> bool \<times> string \<Rightarrow> bool \<times> string" where
  "add_text sign txt = (\<lambda>(started, message). (True, message @ (if started then [] else [sign]) @ txt))"

definition set_flags_step :: "i32 \<Rightarrow> ModeFlagMap \<Rightarrow> (bool \<times> string) \<times> i32 \<Rightarrow> (bool \<times> string) \<times> i32" where
  "set_flags_step set_mask = (\<lambda>(f, character) (m, basic).
     if has set_mask f \<and> has (NOT basic) f then (add_text (CHR ''+'') [character] m, basic OR f) else (m, basic))"

definition unset_flags_step :: "i32 \<Rightarrow> ModeFlagMap \<Rightarrow> (bool \<times> string) \<times> i32 \<Rightarrow> (bool \<times> string) \<times> i32" where
  "unset_flags_step unset_mask = (\<lambda>(f, character) (m, basic).
     if has unset_mask f \<and> has basic f then (add_text (CHR ''-'') [character] m, basic AND NOT f) else (m, basic))"

text \<open>The part of the message for what is set; \<open>lim\<close> is the value of \<open>limit\<close>, read when the limit is updated.\<close>

definition apply_sets ::
  "'r env \<Rightarrow> i32 \<Rightarrow> ChannelModifyRequest \<Rightarrow> i32 \<Rightarrow> i32 \<Rightarrow> 'r chat \<Rightarrow> string \<times> i32 \<times> 'r chat" where
  "apply_sets E cid m lim basic s =
     (if set_mode_flags m \<noteq> 0 \<or> update_password m \<or> update_limit m \<or> set_usermodes m \<noteq> [] then
        (let (m1, basic') = fold (set_flags_step (set_mode_flags m)) channel_mode_flag_map ((False, []), basic);
             (m2, s') = (if set_usermodes m \<noteq> [] then
                 (let (txt, s') = HandleSetUsermodes E cid (set_usermodes m) False s in (add_text (CHR ''+'') txt m1, s'))
               else (m1, s));
             key = update_password m \<and> password m \<noteq> [];
             limited = update_limit m \<and> lim \<noteq> 0;
             m3 = (if key then add_text (CHR ''+'') ''k'' m2 else m2);
             m4 = (if limited then add_text (CHR ''+'') ''l'' m3 else m3)
         in (snd m4 @ (if key then '' '' @ password m else []) @ (if limited then '' '' @ dec_int lim else []), basic', s'))
      else ([], basic, s))"

definition apply_unsets ::
  "'r env \<Rightarrow> i32 \<Rightarrow> ChannelModifyRequest \<Rightarrow> i32 \<Rightarrow> i32 \<Rightarrow> 'r chat \<Rightarrow> string \<times> i32 \<times> 'r chat" where
  "apply_unsets E cid m lim basic s =
     (if unset_mode_flags m \<noteq> 0 \<or> update_password m \<or> update_limit m \<or> unset_usermodes m \<noteq> [] then
        (let (m1, basic') = fold (unset_flags_step (unset_mode_flags m)) channel_mode_flag_map ((False, []), basic);
             m2 = (if update_password m \<and> password m = [] then add_text (CHR ''-'') ''k'' m1 else m1);
             m3 = (if update_limit m \<and> lim = 0 then add_text (CHR ''-'') ''l'' m2 else m2);
             (m4, s') = (if unset_usermodes m \<noteq> [] then
                 (let (txt, s') = HandleSetUsermodes E cid (unset_usermodes m) True s in (add_text (CHR ''-'') txt m3, s'))
               else (m3, s))
         in (snd m4, basic', s'))
      else ([], basic, s))"

text \<open>What is written to the channel's entry.\<close>

definition channel_updates :: "'r env \<Rightarrow> UserSummary \<Rightarrow> string \<Rightarrow> ChannelModifyRequest \<Rightarrow> i32 \<Rightarrow> i32 \<Rightarrow> redis_cmd list" where
  "channel_updates E peer k m lim basic =
     [HSET k ''modeflags'' (dec_int basic)] @
     (if update_limit m then [if lim \<noteq> 0 then HSET k ''limit'' (dec_int lim) else HDEL k ''limit''] else []) @
     (if update_password m then
        [if password m \<noteq> [] then HSET k ''password'' (c_string (password m)) else HDEL k ''password''] else []) @
     (if update_topic m then
        (if topic m \<noteq> [] then
           [HSET k ''topic'' (c_string (topic m)), HSET k ''topic_time'' (dec_int (now E)),
            HSET k ''topic_user'' (c_string (UserSummary_ToString E peer False))]
         else [HDEL k ''topic'', HDEL k ''topic_time'', HDEL k ''topic_user''])
      else [])"

definition mode_messages ::
  "'r env \<Rightarrow> i32 \<Rightarrow> i32 \<Rightarrow> ChannelModifyRequest \<Rightarrow> string \<Rightarrow> i32 \<Rightarrow> i32 \<Rightarrow> 'r chat \<Rightarrow> 'r chat" where
  "mode_messages E cid from_user m message old_modeflags new_modeflags s =
     (let s1 = (if message \<noteq> [] then
            sendAMQPMessage peerchat_client_message_routingkey
              (kv_message [(''type'', ''MODE''), (''toChannelId'', dec_int cid), (''message'', base64 E message),
                 (''fromUserId'', dec_int from_user), (''includeSelf'', ''1''),
                 (''oldModeflags'', dec_int old_modeflags), (''newModeflags'', dec_int new_modeflags)]) s
          else s)
      in (if topic m \<noteq> [] then
            sendAMQPMessage peerchat_client_message_routingkey
              (kv_message [(''type'', ''TOPIC''), (''toChannelId'', dec_int cid), (''message'', base64 E (topic m)),
                 (''fromUserId'', dec_int from_user), (''includeSelf'', ''1'')]) s1
          else s1))"

definition apply_channel_modes ::
  "'r env \<Rightarrow> UserSummary \<Rightarrow> i32 \<Rightarrow> ChannelModifyRequest \<Rightarrow> ChannelSummary \<Rightarrow> i32 \<Rightarrow> 'r chat \<Rightarrow> 'r chat" where
  "apply_channel_modes E peer from_user m channel lim s =
     (let cid = channel_id channel; old = basic_mode_flags channel;
          (plus, basic1, s1) = apply_sets E cid m lim old s;
          (minus, basic2, s2) = apply_unsets E cid m lim basic1 s1;
          s3 = redis_cmds E (channel_updates E peer (channel_key cid) m lim basic2) s2
      in mode_messages E cid from_user m (plus @ minus) old basic2 s3)"

definition Perform_UpdateChannelModes ::
  "'r env \<Rightarrow> UserSummary \<Rightarrow> string \<Rightarrow> i32 \<Rightarrow> ChannelModifyRequest \<Rightarrow> 'r chat \<Rightarrow> (response_code \<times> 'r chat) option" where
  "Perform_UpdateChannelModes E peer channel from_user m s =
     do {
       (summary, s1) \<leftarrow> GetChannelSummaryByName E channel s;
       let from_mode_flags = LookupUserChannelModeFlags E (channel_id summary) (uid peer) (db s1);
       if channel_id summary = 0 then Some (WebErrorCode_NoSuchUser, s1)
       else
         (case CheckActionPermissions (operflags peer) channel from_mode_flags 0 (uc EUserChannelFlag_HalfOp) of
            (False, ns) \<Rightarrow> Some (WebErrorCode_AuthInvalidCredentials, send_replies ns s1)
          | (True, ns) \<Rightarrow>
              do {
                (ok, s2) \<leftarrow> CheckChannelUserModeChange E peer channel from_mode_flags (set_usermodes m) (unset_usermodes m) s1;
                if \<not> ok then Some (WebErrorCode_AuthInvalidCredentials, s2)
                else if update_limit m \<and> limit m = None then None
                else Some (WebErrorCode_Success, apply_channel_modes E peer from_user m summary (or_else 0 (limit m)) s2)
              })
     }"

text \<open>The modes of a user.\<close>

definition user_flags_step :: "i32 \<Rightarrow> i32 \<Rightarrow> ModeFlagMap \<Rightarrow> i32 \<Rightarrow> i32" where
  "user_flags_step set_mask unset_mask = (\<lambda>(f, character) flags.
     (let flags = (if has set_mask f \<and> has (NOT flags) f then flags OR f else flags) in
      if has unset_mask f \<and> has flags f then flags AND NOT f else flags))"

definition Perform_UpdateUserModes ::
  "'r env \<Rightarrow> UserSummary \<Rightarrow> ChannelModifyRequest \<Rightarrow> 'r chat \<Rightarrow> UserSummary \<times> 'r chat" where
  "Perform_UpdateUserModes E peer m s =
     (let u = LookupUserById E (uid peer) (db s);
          flags = fold (user_flags_step (set_mode_flags m) (unset_mode_flags m)) user_mode_flag_map (modeflags u);
          u' = u\<lparr>modeflags := flags\<rparr>
      in (u', redis_cmds E [HSET (user_key (uid u')) ''modeflags'' (dec_int flags)] s))"

section \<open>Leaving and kicking\<close>

definition invisible_notice :: "'r env \<Rightarrow> i32 \<Rightarrow> string \<Rightarrow> UserSummary \<Rightarrow> 'r chat \<Rightarrow> 'r chat" where
  "invisible_notice E cid message u =
     sendAMQPMessage peerchat_client_message_routingkey
       (kv_message [(''type'', ''NOTICE''), (''toChannelId'', dec_int cid), (''message'', base64 E message),
          (''fromUserSummary'', ToBase64String E u True),
          (''requiredChanUserModes'', dec_int (uc EUserChannelFlag_Invisible)), (''includeSelf'', ''1'')])"

definition Perform_UserPartChannel ::
  "'r env \<Rightarrow> UserSummary \<Rightarrow> UserSummary \<Rightarrow> string \<Rightarrow> string \<Rightarrow> 'r chat \<Rightarrow> (response_code \<times> 'r chat) option" where
  "Perform_UserPartChannel E peer user channel message s =
     do {
       (summary, s1) \<leftarrow> GetChannelSummaryByName E channel s;
       if channel_id summary \<noteq> 0 then
         (let from_mode_flags = LookupUserChannelModeFlags E (channel_id summary) (uid peer) (db s1) in
          if has from_mode_flags (uc EUserChannelFlag_IsInChannel) then
            (let invisible = has from_mode_flags (uc EUserChannelFlag_Invisible);
                 s2 = (if invisible then
                     invisible_notice E (channel_id summary) (''INVISIBLE USER '' @ nick user @ '' PARTED CHANNEL'') user s1
                   else s1)
             in map_option (Pair WebErrorCode_Success)
                  (RemoveUserFromChannel E user summary ''PART'' message new_user False
                     (if invisible then uc EUserChannelFlag_Invisible else 0) s2))
          else Some (WebErrorCode_AuthInvalidCredentials, s1))
       else Some (WebErrorCode_NoSuchUser, s1)
     }"

definition Perform_UserKickChannel ::
  "'r env \<Rightarrow> UserSummary \<Rightarrow> UserSummary \<Rightarrow> string \<Rightarrow> string \<Rightarrow> string \<Rightarrow> 'r chat \<Rightarrow> (response_code \<times> 'r chat) option" where
  "Perform_UserKickChannel E peer user channel target message s =
     do {
       (summary, s1) \<leftarrow> GetChannelSummaryByName E channel s;
       let to = GetUserSummaryByName E target (db s1);
       let from_mode_flags = LookupUserChannelModeFlags E (channel_id summary) (uid peer) (db s1);
       let to_mode_flags = LookupUserChannelModeFlags E (channel_id summary) (uid to) (db s1);
       (case CheckActionPermissions (operflags peer) channel from_mode_flags to_mode_flags (uc EUserChannelFlag_HalfOp) of
          (False, ns) \<Rightarrow> Some (WebErrorCode_AuthInvalidCredentials, send_replies ns s1)
        | (True, ns) \<Rightarrow>
            if uid to \<noteq> 0 then
              (let invisible = has to_mode_flags (uc EUserChannelFlag_Invisible);
                   s2 = (if invisible then
                       invisible_notice E (channel_id summary) (''INVISIBLE USER '' @ nick to @ '' KICKED FROM CHANNEL'') to s1
                     else s1)
               in map_option (Pair WebErrorCode_Success)
                    (RemoveUserFromChannel E user summary ''KICK'' message to False
                       (if invisible then uc EUserChannelFlag_Invisible else 0) s2))
            else Some (WebErrorCode_NoSuchUser, s1))
     }"

section \<open>Joining\<close>

definition MAX_USER_CHANNELS :: nat where "MAX_USER_CHANNELS = 32"

text \<open>
  \<open>user_channels\<close> is the result of \<open>CountUserChannels\<close>, \<open>peer_flags\<close> what the peer keeps of its flags in
  the channel. The limit is compared as an unsigned number.
\<close>

definition CheckUserCanJoinChannel ::
  "UserSummary \<Rightarrow> nat \<Rightarrow> i32 \<Rightarrow> ChannelSummary \<Rightarrow> string \<Rightarrow> i32 \<Rightarrow> bool \<times> numeric list" where
  "CheckUserCanJoinChannel peer user_channels peer_flags channel pass initial_flags =
     (let refuse = (\<lambda>n txt. (False, [Numeric n txt False (channel_name channel)])) in
      if has (operflags peer) (oper OPERPRIVS_OPEROVERRIDE) then (True, [])
      else if user_channels > MAX_USER_CHANNELS then refuse 405 ''You have joined too many channels''
      else if has (basic_mode_flags channel) (cm EChannelMode_InviteOnly)
          \<and> (has (NOT peer_flags) (uc EUserChannelFlag_Invited) \<or> has initial_flags (uc EUserChannelFlag_Invited))
        then refuse 473 ''Cannot join channel (+i)''
      else if ch_limit channel \<noteq> 0 \<and> word_of_int (sint (ch_limit channel)) \<le> (word_of_nat (length (ch_users channel)) :: u64)
          \<and> (has (basic_mode_flags channel) (cm EChannelMode_OpsObeyChannelLimit)
             \<or> GetUserChannelModeLevel initial_flags < 3)
        then refuse 471 ''Cannot join channel (+l)''
      else if ch_password channel \<noteq> [] \<and> ch_password channel \<noteq> pass then refuse 475 ''Cannot join channel (+k)''
      else if has initial_flags (uc EUserChannelFlag_Banned) then refuse 474 ''Cannot join channel (+b)''
      else (True, []))"

section \<open>Reads\<close>

text \<open>Two databases that answer every read alike, as before and after an \<open>EXPIRE\<close>.\<close>

definition same_reads :: "'r redis \<Rightarrow> 'r \<Rightarrow> 'r \<Rightarrow> bool" where
  "same_reads R d d' \<longleftrightarrow>
     (\<forall>k. r_exists R k d' = r_exists R k d \<and> r_get R k d' = r_get R k d
        \<and> (\<forall>f. r_hget R k f d' = r_hget R k f d)
        \<and> (\<forall>c. r_zscan R k c d' = r_zscan R k c d) \<and> (\<forall>c. r_hscan R k c d' = r_hscan R k c d))"

lemma same_reads_refl [simp]: "same_reads R d d"
  by (simp add: same_reads_def)

lemma same_reads_trans [trans]: "same_reads R d d' \<Longrightarrow> same_reads R d' d'' \<Longrightarrow> same_reads R d d''"
  by (simp add: same_reads_def)

lemma same_readsD:
  assumes "same_reads (store E) d d'"
  shows "hget_int E k f d' = hget_int E k f d" "hget_str E k f d' = hget_str E k f d"
    and "LookupUserById E u d' = LookupUserById E u d"
    and "GetUserSummaryByName E name d' = GetUserSummaryByName E name d"
    and "LookupUserChannelModeFlags E cid u d' = LookupUserChannelModeFlags E cid u d"
    and "zset_scan (store E) k d' = zset_scan (store E) k d"
    and "GetChannelUsers E cid d' = GetChannelUsers E cid d"
proof -
  show 1: "hget_int E k f d' = hget_int E k f d" "hget_str E k f d' = hget_str E k f d" for k f
    using assms by (simp_all add: hget_int_def hget_str_def same_reads_def)
  show 2: "LookupUserById E u d' = LookupUserById E u d" for u
    using assms by (simp add: LookupUserById_def Let_def 1 same_reads_def)
  show "GetUserSummaryByName E name d' = GetUserSummaryByName E name d"
    using assms by (simp add: GetUserSummaryByName_def 2 same_reads_def)
  show 3: "LookupUserChannelModeFlags E cid u d' = LookupUserChannelModeFlags E cid u d" for cid u
    by (simp add: LookupUserChannelModeFlags_def 1)
  show 4: "zset_scan (store E) k d' = zset_scan (store E) k d" for k
    using assms by (simp add: zset_scan_def same_reads_def)
  show "GetChannelUsers E cid d' = GetChannelUsers E cid d"
    by (simp add: GetChannelUsers_def 2 3 4)
qed

context redis_server
begin

lemma same_reads_expire: "0 < t \<Longrightarrow> same_reads R d (run R (EXPIRE k t) d)"
  unfolding same_reads_def by (metis cmd_key.simps(3) expire frame)

lemma same_reads_expires:
  "list_all (\<lambda>c. \<exists>k t. c = EXPIRE k t \<and> 0 < t) cs \<Longrightarrow> same_reads R d (run_all R cs d)"
  by (induction cs arbitrary: d) (auto intro: same_reads_trans same_reads_expire)

end

lemmas expire_times = USER_EXPIRE_TIME_def CHANNEL_EXPIRE_TIME_def CHANNEL_DELETE_EXPIRE_TIME_def

lemma GetChannelIdByName_reads:
  assumes "redis_server (store E)"
  shows "same_reads (store E) (db s) (db (snd (GetChannelIdByName E name s)))"
    and "amqp (snd (GetChannelIdByName E name s)) = amqp s" "replies (snd (GetChannelIdByName E name s)) = replies s"
  using redis_server.same_reads_expire [OF assms]
  by (simp_all add: GetChannelIdByName_def Let_def expire_times)

text \<open>The channel's id, by its name in any case.\<close>

definition channel_id_of :: "'r env \<Rightarrow> string \<Rightarrow> 'r chat \<Rightarrow> i32" where
  "channel_id_of E name s = fst (GetChannelIdByName E (map tolower name) s)"

lemma channel_id_of_reads:
  assumes "same_reads (store E) (db s) (db s')"
  shows "channel_id_of E name s' = channel_id_of E name s"
  using assms by (simp add: channel_id_of_def GetChannelIdByName_def Let_def same_reads_def)

lemma LookupChannelById_total:
  assumes "redis_server (store E)"
  shows "\<exists>c s'. LookupChannelById E cid s = Some (c, s') \<and> channel_id c = cid
    \<and> basic_mode_flags c = or_else 0 (hget_int E (channel_key cid) ''modeflags'' (db s))
    \<and> channel_name c = or_else [] (hget_str E (channel_key cid) ''name'' (db s))
    \<and> same_reads (store E) (db s) (db s') \<and> amqp s' = amqp s \<and> replies s' = replies s"
proof -
  obtain xs where "zset_scan (store E) (channel_users_key cid) (db s) = Some xs"
    using redis_server.scan(1) [OF assms] by blast
  then show ?thesis
    using redis_server.same_reads_expires [OF assms]
    by (simp add: LookupChannelById_def GetChannelUsers_def Let_def KeepaliveChannel_def expire_times del: run_all_simps)
qed

lemma GetChannelSummaryByName_total:
  assumes "redis_server (store E)"
  shows "\<exists>c s'. GetChannelSummaryByName E name s = Some (c, s') \<and> channel_id c = channel_id_of E name s
    \<and> (channel_id c \<noteq> 0 \<longrightarrow>
        basic_mode_flags c = or_else 0 (hget_int E (channel_key (channel_id c)) ''modeflags'' (db s)))
    \<and> same_reads (store E) (db s) (db s') \<and> amqp s' = amqp s \<and> replies s' = replies s"
proof -
  obtain cid s1 where g: "GetChannelIdByName E (map tolower name) s = (cid, s1)" by force
  have s1: "same_reads (store E) (db s) (db s1)" "amqp s1 = amqp s" "replies s1 = replies s"
    using GetChannelIdByName_reads [OF assms, where s = s and name = "map tolower name"] g by simp_all
  show ?thesis
  proof (cases "cid = 0")
    case True
    then show ?thesis using g s1 by (simp add: GetChannelSummaryByName_def channel_id_of_def new_channel_def)
  next
    case False
    then show ?thesis
      using g s1 LookupChannelById_total [OF assms, of cid s1] same_readsD(1) [OF s1(1)]
      by (auto simp: GetChannelSummaryByName_def channel_id_of_def intro: same_reads_trans)
  qed
qed

section \<open>Who may change what\<close>

text \<open>The rank the permission test asks for: the target's own, or the owner's for a target without one.\<close>

definition may_change :: "'r env \<Rightarrow> i32 \<Rightarrow> i32 \<Rightarrow> 'r \<Rightarrow> string \<Rightarrow> bool" where
  "may_change E cid from_mode_flags d name \<longleftrightarrow>
     (let target = GetUserSummaryByName E name d;
          rank = GetUserChannelModeLevel (LookupUserChannelModeFlags E cid (uid target) d)
      in uid target \<noteq> 0 \<and> (if rank = 0 then 4 else rank) \<le> GetUserChannelModeLevel from_mode_flags)"

lemma TestChannelUserModeChangeItem_verdict:
  assumes "\<not> has (operflags peer) (oper OPERPRIVS_OPEROVERRIDE)"
  shows "fst (TestChannelUserModeChangeItem E peer channel name f upd s)
      \<longleftrightarrow> may_change E (channel_id channel) f (db s) name"
    and "db (snd (TestChannelUserModeChangeItem E peer channel name f upd s)) = db s"
    and "amqp (snd (TestChannelUserModeChangeItem E peer channel name f upd s)) = amqp s"
  using assms
  by (auto simp: TestChannelUserModeChangeItem_def may_change_def Let_def CheckActionPermissions_verdict
      level_minimum split: prod.splits dest: arg_cong [of _ _ fst])

lemma test_items_verdict:
  assumes "\<not> has (operflags peer) (oper OPERPRIVS_OPEROVERRIDE)"
  shows "(fst (test_items E peer channel f items s)
        \<longleftrightarrow> (\<forall>name \<in> fst ` set items. may_change E (channel_id channel) f (db s) name))
    \<and> db (snd (test_items E peer channel f items s)) = db s
    \<and> amqp (snd (test_items E peer channel f items s)) = amqp s"
proof (induction items arbitrary: s)
  case (Cons item items)
  obtain name modes where item: "item = (name, modes)" by force
  obtain ok s1 where t: "TestChannelUserModeChangeItem E peer channel name f modes s = (ok, s1)" by force
  have "db s1 = db s" "amqp s1 = amqp s" "ok \<longleftrightarrow> may_change E (channel_id channel) f (db s) name"
    using TestChannelUserModeChangeItem_verdict [OF assms, of E channel name f modes s] t by simp_all
  then show ?case using Cons.IH [of s1] t item by (cases ok) simp_all
qed simp

text \<open>Whether a request to change the modes of a channel is granted.\<close>

definition modes_granted :: "'r env \<Rightarrow> UserSummary \<Rightarrow> i32 \<Rightarrow> ChannelModifyRequest \<Rightarrow> 'r \<Rightarrow> bool" where
  "modes_granted E peer cid m d \<longleftrightarrow>
     has (operflags peer) (oper OPERPRIVS_OPEROVERRIDE) \<or>
     (let f = LookupUserChannelModeFlags E cid (uid peer) d in
      2 \<le> GetUserChannelModeLevel f
      \<and> (\<forall>name \<in> fst ` set (set_usermodes m @ unset_usermodes m). may_change E cid f d name))"

lemma level_HalfOp [simp]: "GetUserChannelModeLevel (uc EUserChannelFlag_HalfOp) = 2" "GetUserChannelModeLevel 0 = 0"
  "GetUserChannelModeLevel (flag 2) = 2"
  by (simp_all add: GetUserChannelModeLevel_def)

lemma may_change_reads:
  "same_reads (store E) d d' \<Longrightarrow> may_change E cid f d' name \<longleftrightarrow> may_change E cid f d name"
  by (simp add: may_change_def Let_def same_readsD)

lemma CheckChannelUserModeChange_total:
  assumes "redis_server (store E)"
  shows "\<exists>ok s'. CheckChannelUserModeChange E peer channel f sets unsets s = Some (ok, s')
    \<and> (ok \<longleftrightarrow> has (operflags peer) (oper OPERPRIVS_OPEROVERRIDE)
          \<or> (\<forall>name \<in> fst ` set (sets @ unsets). may_change E (channel_id_of E channel s) f (db s) name))
    \<and> same_reads (store E) (db s) (db s') \<and> amqp s' = amqp s"
proof -
  obtain c s1 where c: "GetChannelSummaryByName E channel s = Some (c, s1)"
    "channel_id c = channel_id_of E channel s" "same_reads (store E) (db s) (db s1)" "amqp s1 = amqp s"
    using GetChannelSummaryByName_total [OF assms] by blast
  show ?thesis
  proof (cases "has (operflags peer) (oper OPERPRIVS_OPEROVERRIDE)")
    case True
    then have "CheckChannelUserModeChange E peer channel f sets unsets s = Some (True, s1)"
      using c by (simp add: CheckChannelUserModeChange_def)
    then show ?thesis using True c by blast
  next
    case False
    obtain ok2 s2 where 2: "test_items E peer c f sets s1 = (ok2, s2)" by force
    obtain ok3 s3 where 3: "test_items E peer c f unsets s2 = (ok3, s3)" by force
    let ?may = "may_change E (channel_id_of E channel s) f (db s)"
    have v2: "ok2 \<longleftrightarrow> (\<forall>name \<in> fst ` set sets. ?may name)" "db s2 = db s1" "amqp s2 = amqp s1"
      using test_items_verdict [OF False, of E c f sets s1] 2 c(2) may_change_reads [OF c(3)] by simp_all
    have v3: "ok3 \<longleftrightarrow> (\<forall>name \<in> fst ` set unsets. ?may name)" "db s3 = db s1" "amqp s3 = amqp s1"
      using test_items_verdict [OF False, of E c f unsets s2] 3 c(2) v2 may_change_reads [OF c(3)] by simp_all
    have "CheckChannelUserModeChange E peer channel f sets unsets s = Some (if ok2 then (ok3, s3) else (False, s2))"
      using c(1) 2 3 False by (cases ok2) (simp_all add: CheckChannelUserModeChange_def)
    then show ?thesis using False c v2 v3 by (cases ok2) (auto simp: ball_Un image_Un)
  qed
qed

lemma Perform_UpdateChannelModes_result:
  assumes R: "redis_server (store E)" and lim: "update_limit m \<Longrightarrow> limit m \<noteq> None"
    and cid_def: "cid = channel_id_of E channel s"
  shows "\<exists>s'. Perform_UpdateChannelModes E peer channel from_user m s = Some
      (if cid = 0 then WebErrorCode_NoSuchUser
       else if modes_granted E peer cid m (db s) then WebErrorCode_Success
       else WebErrorCode_AuthInvalidCredentials, s')
    \<and> (if cid \<noteq> 0 \<and> modes_granted E peer cid m (db s)
       then (\<exists>c s1. s' = apply_channel_modes E peer from_user m c (or_else 0 (limit m)) s1
          \<and> channel_id c = cid \<and> amqp s1 = amqp s \<and> same_reads (store E) (db s) (db s1)
          \<and> basic_mode_flags c = or_else 0 (hget_int E (channel_key cid) ''modeflags'' (db s)))
       else same_reads (store E) (db s) (db s') \<and> amqp s' = amqp s)"
proof -
  obtain c s1 where c: "GetChannelSummaryByName E channel s = Some (c, s1)" "channel_id c = cid"
    "cid \<noteq> 0 \<longrightarrow> basic_mode_flags c = or_else 0 (hget_int E (channel_key cid) ''modeflags'' (db s))"
    "same_reads (store E) (db s) (db s1)" "amqp s1 = amqp s"
    unfolding cid_def using GetChannelSummaryByName_total [OF R, of channel s] by auto
  let ?f = "LookupUserChannelModeFlags E cid (uid peer) (db s)"
  have f: "LookupUserChannelModeFlags E cid (uid peer) (db s1) = ?f" by (rule same_readsD(5) [OF c(4)])
  obtain ok ns where chk: "CheckActionPermissions (operflags peer) channel ?f 0 (uc EUserChannelFlag_HalfOp) = (ok, ns)"
    by force
  then have ok: "ok \<longleftrightarrow> has (operflags peer) (oper OPERPRIVS_OPEROVERRIDE) \<or> 2 \<le> GetUserChannelModeLevel ?f"
    using CheckActionPermissions_verdict [of "operflags peer" channel ?f 0 "uc EUserChannelFlag_HalfOp"] by auto
  obtain ok2 s2 where 2: "CheckChannelUserModeChange E peer channel ?f (set_usermodes m) (unset_usermodes m) s1 = Some (ok2, s2)"
    "ok2 \<longleftrightarrow> has (operflags peer) (oper OPERPRIVS_OPEROVERRIDE)
       \<or> (\<forall>name \<in> fst ` set (set_usermodes m @ unset_usermodes m). may_change E cid ?f (db s) name)"
    "same_reads (store E) (db s1) (db s2)" "amqp s2 = amqp s1"
    using CheckChannelUserModeChange_total [OF R, of peer channel ?f "set_usermodes m" "unset_usermodes m" s1]
      channel_id_of_reads [OF c(4)] may_change_reads [OF c(4)] by (auto simp: cid_def)
  have granted: "modes_granted E peer cid m (db s) \<longleftrightarrow> ok \<and> ok2"
    using ok 2(2) by (auto simp: modes_granted_def Let_def)
  have s2: "same_reads (store E) (db s) (db s2)" using c(4) 2(3) by (rule same_reads_trans)
  show ?thesis
  proof (cases "cid = 0 \<or> \<not> ok \<or> \<not> ok2")
    case True
    then show ?thesis
      using c f chk 2 granted s2
      by (cases "cid = 0"; cases ok) (auto simp: Perform_UpdateChannelModes_def Let_def)
  next
    case False
    then have "Perform_UpdateChannelModes E peer channel from_user m s
        = Some (WebErrorCode_Success, apply_channel_modes E peer from_user m c (or_else 0 (limit m)) s2)"
      using c f chk 2 lim by (auto simp: Perform_UpdateChannelModes_def Let_def)
    then show ?thesis using False granted c s2 2 by auto
  qed
qed

section \<open>What a change of modes does\<close>

lemma set_flags_step_has:
  assumes "is_flag f" "n < 32"
  shows "has (snd (set_flags_step S (f, c) (m, b))) (flag n) \<longleftrightarrow> has b (flag n) \<or> f = flag n \<and> has S f"
proof -
  obtain k where "f = flag k" "k < 32" using assms(1) by (auto simp: is_flag_def)
  then show ?thesis using assms(2) by (auto simp: set_flags_step_def has_flag bit_simps)
qed

lemma unset_flags_step_has:
  assumes "is_flag f" "n < 32"
  shows "has (snd (unset_flags_step S (f, c) (m, b))) (flag n) \<longleftrightarrow> has b (flag n) \<and> \<not> (f = flag n \<and> has S f)"
proof -
  obtain k where "f = flag k" "k < 32" using assms(1) by (auto simp: is_flag_def)
  then show ?thesis using assms(2) by (auto simp: unset_flags_step_def has_flag bit_simps)
qed

lemma fold_set_flags_has:
  assumes "list_all is_flag (map fst tab)" "n < 32"
  shows "has (snd (fold (set_flags_step S) tab (m, b))) (flag n)
    \<longleftrightarrow> has b (flag n) \<or> flag n \<in> fst ` set tab \<and> has S (flag n)"
  using assms(1)
proof (induction tab arbitrary: m b)
  case (Cons t tab)
  obtain f c where t: "t = (f, c)" by force
  obtain m' b' where s: "set_flags_step S (f, c) (m, b) = (m', b')"
    by (cases "set_flags_step S (f, c) (m, b)") auto
  have "has b' (flag n) \<longleftrightarrow> has b (flag n) \<or> f = flag n \<and> has S f"
    using set_flags_step_has [of f n S c m b] Cons.prems assms(2) s t by simp
  then show ?case using Cons s t by auto
qed simp

lemma fold_unset_flags_has:
  assumes "list_all is_flag (map fst tab)" "n < 32"
  shows "has (snd (fold (unset_flags_step S) tab (m, b))) (flag n)
    \<longleftrightarrow> has b (flag n) \<and> \<not> (flag n \<in> fst ` set tab \<and> has S (flag n))"
  using assms(1)
proof (induction tab arbitrary: m b)
  case (Cons t tab)
  obtain f c where t: "t = (f, c)" by force
  obtain m' b' where s: "unset_flags_step S (f, c) (m, b) = (m', b')"
    by (cases "unset_flags_step S (f, c) (m, b)") auto
  have "has b' (flag n) \<longleftrightarrow> has b (flag n) \<and> \<not> (f = flag n \<and> has S f)"
    using unset_flags_step_has [of f n S c m b] Cons.prems assms(2) s t by simp
  then show ?case using Cons s t by auto
qed simp

lemma channel_table_flags: "list_all is_flag (map fst channel_mode_flag_map)"
  using channel_mode_table_ok by (simp add: table_ok_def)

definition channel_flag :: "nat \<Rightarrow> bool" where
  "channel_flag n \<longleftrightarrow> flag n \<in> fst ` set channel_mode_flag_map"

lemma channel_flag_iff: "channel_flag n \<longleftrightarrow> n < 11"
proof -
  have "n < 11 \<longleftrightarrow> n \<in> {0, 1, 2, 3, 4, 5, 6, 7, 8, 9, 10}" by (simp; arith)
  moreover have "flag n = flag k \<longleftrightarrow> n = k" if "k < 32" for k using flag_eq_iff [OF that, of n] by auto
  ultimately show ?thesis by (auto simp: channel_flag_def channel_mode_flag_map_def image_iff)
qed

lemma apply_sets_basic:
  assumes "n < 32"
  shows "has (fst (snd (apply_sets E cid m lim basic s))) (flag n)
    \<longleftrightarrow> has basic (flag n) \<or> channel_flag n \<and> has (set_mode_flags m) (flag n)"
  using fold_set_flags_has [OF channel_table_flags assms, of "set_mode_flags m" "(False, [])" basic]
  by (auto simp: apply_sets_def Let_def channel_flag_def split: prod.splits)

lemma apply_unsets_basic:
  assumes "n < 32"
  shows "has (fst (snd (apply_unsets E cid m lim basic s))) (flag n)
    \<longleftrightarrow> has basic (flag n) \<and> \<not> (channel_flag n \<and> has (unset_mode_flags m) (flag n))"
  using fold_unset_flags_has [OF channel_table_flags assms, of "unset_mode_flags m" "(False, [])" basic]
  by (auto simp: apply_unsets_def Let_def channel_flag_def split: prod.splits)

lemma apply_sets_state:
  "snd (snd (apply_sets E cid m lim basic s)) =
     snd (HandleSetUsermodes E cid (set_usermodes m) False s)"
  by (auto simp: apply_sets_def Let_def HandleSetUsermodes_def split: prod.splits)


lemma apply_unsets_state:
  "snd (snd (apply_unsets E cid m lim basic s)) =
     snd (HandleSetUsermodes E cid (unset_usermodes m) True s)"
  by (auto simp: apply_unsets_def Let_def HandleSetUsermodes_def split: prod.splits)

text \<open>Reads of a user's own keys, whose names begin with \<open>u\<close>; a channel's begin with \<open>c\<close>.\<close>

definition same_user_reads :: "'r redis \<Rightarrow> 'r \<Rightarrow> 'r \<Rightarrow> bool" where
  "same_user_reads R d d' \<longleftrightarrow>
     (\<forall>k. k \<noteq> [] \<and> hd k = CHR ''u'' \<longrightarrow>
        r_exists R k d' = r_exists R k d \<and> r_get R k d' = r_get R k d \<and> (\<forall>f. r_hget R k f d' = r_hget R k f d))"

lemma same_user_reads_refl [simp]: "same_user_reads R d d"
  by (simp add: same_user_reads_def)

lemma same_user_reads_trans: "same_user_reads R d d' \<Longrightarrow> same_user_reads R d' d'' \<Longrightarrow> same_user_reads R d d''"
  by (auto simp: same_user_reads_def)

lemma user_keys: "user_key u \<noteq> []" "hd (user_key u) = CHR ''u''" "usernick_key nm \<noteq> []" "hd (usernick_key nm) = CHR ''u''"
  by (simp_all add: user_key_def usernick_key_def)

lemma same_user_reads_lookup:
  assumes "same_user_reads (store E) d d'"
  shows "GetUserSummaryByName E name d' = GetUserSummaryByName E name d"
proof -
  have k: "r_exists (store E) k d' = r_exists (store E) k d" "r_get (store E) k d' = r_get (store E) k d"
    "hget_int E k f d' = hget_int E k f d" "hget_str E k f d' = hget_str E k f d"
    if "k \<noteq> []" "hd k = CHR ''u''" for k f
    using assms that by (simp_all add: same_user_reads_def hget_int_def hget_str_def)
  have "LookupUserById E u d' = LookupUserById E u d" for u
    by (simp add: LookupUserById_def Let_def k user_keys)
  then show ?thesis by (simp add: GetUserSummaryByName_def k user_keys)
qed

lemma channel_keys [simp]: "hd (channel_user_key c u) = CHR ''c''" "hd (channel_key c) = CHR ''c''"
  by (simp_all add: channel_user_key_def channel_key_def)

lemma dec_int_inject [simp]: "dec_int a = dec_int b \<longleftrightarrow> a = b"
  by (metis atoi_dec_int)

lemma underscore_notin_dec_int: "CHR ''_'' \<notin> set (dec_int w)"
  using dec_nat_digits [of "CHR ''_''"] by (auto simp: dec_int_def Let_def isdigit_def)

lemma channel_user_key_inject [simp]: "channel_user_key c u = channel_user_key c u' \<longleftrightarrow> u = u'"
  by (simp add: channel_user_key_def)

lemma channel_user_key_neq [simp]:
  "channel_user_key c u \<noteq> channel_key c" "channel_key c \<noteq> channel_user_key c u"
  "channel_user_key c u \<noteq> channel_user_key c u' @ ''_custkeys''"
proof -
  show "channel_user_key c u \<noteq> channel_key c" "channel_key c \<noteq> channel_user_key c u"
    by (simp_all add: channel_user_key_def)
  have "CHR ''_'' \<in> set (dec_int u' @ ''_custkeys'')" by simp
  then have "dec_int u \<noteq> dec_int u' @ ''_custkeys''" using underscore_notin_dec_int [of u] by metis
  then show "channel_user_key c u \<noteq> channel_user_key c u' @ ''_custkeys''"
    by (simp add: channel_user_key_def)
qed

context redis_server
begin

lemma same_user_reads_run: "cmd_key c \<noteq> [] \<Longrightarrow> hd (cmd_key c) \<noteq> CHR ''u'' \<Longrightarrow> same_user_reads R d (run R c d)"
  unfolding same_user_reads_def using frame(1-3) by metis

end


text \<open>A user's flags after a list of changes by name, in order.\<close>

definition user_flags_after :: "'r env \<Rightarrow> bool \<Rightarrow> 'r \<Rightarrow> i32 \<Rightarrow> (string \<times> i32) list \<Rightarrow> i32 \<Rightarrow> i32" where
  "user_flags_after E unset d u items flags =
     fold (\<lambda>(name, modes) fl. if uid (GetUserSummaryByName E name d) = u
         then (if unset then fl AND NOT modes else fl OR modes) else fl) items flags"

lemma user_flags_after_reads:
  "same_user_reads (store E) d d' \<Longrightarrow> user_flags_after E unset d' u items flags = user_flags_after E unset d u items flags"
  by (simp add: user_flags_after_def same_user_reads_lookup)

lemma set_usermode_step_effect:
  assumes R: "redis_server (store E)" and u: "u \<noteq> 0"
    and st: "set_usermode_step E cid unset (name, modes) (ss, us, s) = (ss', us', s')"
  shows "same_user_reads (store E) (db s) (db s')"
    and "LookupUserChannelModeFlags E cid u (db s') =
      user_flags_after E unset (db s) u [(name, modes)] (LookupUserChannelModeFlags E cid u (db s))"
proof -
  let ?t = "uid (GetUserSummaryByName E name (db s))"
  let ?k = "channel_user_key cid ?t"
  have k: "?k \<noteq> []" by (simp add: channel_user_key_def channel_key_def)
  show "same_user_reads (store E) (db s) (db s')"
    using st k redis_server.same_user_reads_run [OF R]
    by (auto simp: set_usermode_step_def Let_def SendUpdateUserChanModeflags_def split: if_splits)
  have get: "r_hget (store E) (channel_user_key cid u) ''modeflags'' (run (store E) (HSET ?k ''modeflags'' v) (db s))
      = (if u = ?t then Some v else r_hget (store E) (channel_user_key cid u) ''modeflags'' (db s))" for v
    using redis_server.hset [OF R] redis_server.frame(3) [OF R] by auto
  show "LookupUserChannelModeFlags E cid u (db s') =
      user_flags_after E unset (db s) u [(name, modes)] (LookupUserChannelModeFlags E cid u (db s))"
    using st u get
    by (auto simp: set_usermode_step_def Let_def SendUpdateUserChanModeflags_def user_flags_after_def
        LookupUserChannelModeFlags_def hget_int_def split: if_splits)
qed

lemma HandleSetUsermodes_fold:
  assumes R: "redis_server (store E)" and u: "u \<noteq> 0"
  shows "same_user_reads (store E) (db s) (db (snd (snd (fold (set_usermode_step E cid unset) items (ss, us, s)))))
    \<and> LookupUserChannelModeFlags E cid u (db (snd (snd (fold (set_usermode_step E cid unset) items (ss, us, s))))) =
      user_flags_after E unset (db s) u items (LookupUserChannelModeFlags E cid u (db s))"
proof (induction items arbitrary: ss us s)
  case (Cons item items)
  obtain name modes where item: "item = (name, modes)" by force
  obtain ss' us' s' where st: "set_usermode_step E cid unset (name, modes) (ss, us, s) = (ss', us', s')"
    by (cases "set_usermode_step E cid unset (name, modes) (ss, us, s)") auto
  note e = set_usermode_step_effect [OF R u st]
  show ?case
    using Cons.IH [where ss = ss' and us = us' and s = s'] st item e user_flags_after_reads [OF e(1)] same_user_reads_trans [OF e(1)]
    by (simp add: user_flags_after_def)
qed (simp add: user_flags_after_def)

lemma HandleSetUsermodes_effect:
  assumes "redis_server (store E)" "u \<noteq> 0"
  shows "same_user_reads (store E) (db s) (db (snd (HandleSetUsermodes E cid items unset s)))"
    and "LookupUserChannelModeFlags E cid u (db (snd (HandleSetUsermodes E cid items unset s))) =
      user_flags_after E unset (db s) u items (LookupUserChannelModeFlags E cid u (db s))"
  using HandleSetUsermodes_fold [OF assms, where s = s and cid = cid and items = items and unset = unset and ss = "[]" and us = "[]"]
  by (auto simp: HandleSetUsermodes_def split: prod.splits)

lemma mode_messages_db [simp]: "db (mode_messages E cid u m txt o1 n1 s) = db s"
  by (simp add: mode_messages_def Let_def)

lemma channel_updates_key: "c \<in> set (channel_updates E peer k m lim basic) \<Longrightarrow> cmd_key c = k"
  by (auto simp: channel_updates_def split: if_splits)

lemma apply_channel_modes_effect:
  assumes R: "redis_server (store E)"
  shows "u \<noteq> 0 \<Longrightarrow> LookupUserChannelModeFlags E (channel_id c) u (db (apply_channel_modes E peer fu m c lim s)) =
      user_flags_after E True (db s) u (unset_usermodes m)
        (user_flags_after E False (db s) u (set_usermodes m) (LookupUserChannelModeFlags E (channel_id c) u (db s)))"
    and "\<exists>new. hget_int E (channel_key (channel_id c)) ''modeflags'' (db (apply_channel_modes E peer fu m c lim s)) = Some new
      \<and> (\<forall>n < 32. has new (flag n) \<longleftrightarrow>
          (has (basic_mode_flags c) (flag n) \<or> channel_flag n \<and> has (set_mode_flags m) (flag n))
          \<and> \<not> (channel_flag n \<and> has (unset_mode_flags m) (flag n)))"
proof -
  let ?cid = "channel_id c"
  obtain plus b1 s1 where 1: "apply_sets E ?cid m lim (basic_mode_flags c) s = (plus, b1, s1)"
    by (cases "apply_sets E ?cid m lim (basic_mode_flags c) s") auto
  obtain minus b2 s2 where 2: "apply_unsets E ?cid m lim b1 s1 = (minus, b2, s2)"
    by (cases "apply_unsets E ?cid m lim b1 s1") auto
  let ?ups = "channel_updates E peer (channel_key ?cid) m lim b2"
  have db: "db (apply_channel_modes E peer fu m c lim s) = run_all (store E) ?ups (db s2)"
    using 1 2 by (simp add: apply_channel_modes_def Let_def)
  have s1: "s1 = snd (HandleSetUsermodes E ?cid (set_usermodes m) False s)"
    using apply_sets_state [of E ?cid m lim "basic_mode_flags c" s] 1 by simp
  have s2: "s2 = snd (HandleSetUsermodes E ?cid (unset_usermodes m) True s1)"
    using apply_unsets_state [of E ?cid m lim b1 s1] 2 by simp
  show "LookupUserChannelModeFlags E ?cid u (db (apply_channel_modes E peer fu m c lim s)) =
      user_flags_after E True (db s) u (unset_usermodes m)
        (user_flags_after E False (db s) u (set_usermodes m) (LookupUserChannelModeFlags E ?cid u (db s)))"
    if u: "u \<noteq> 0"
  proof -
    note h1 = HandleSetUsermodes_effect [OF R u, where s = s and cid = ?cid and items = "set_usermodes m" and unset = False, folded s1]
    note h2 = HandleSetUsermodes_effect [OF R u, where s = s1 and cid = ?cid and items = "unset_usermodes m" and unset = True, folded s2]
    have "list_all (\<lambda>cmd. cmd_key cmd \<noteq> channel_user_key ?cid u) ?ups"
      using channel_updates_key [of _ E peer "channel_key ?cid" m lim b2] by (force simp: list_all_iff)
    from redis_server.hget_frames [OF R this] show ?thesis
      using h1 h2 user_flags_after_reads [OF h1(1)]
      by (simp add: db LookupUserChannelModeFlags_def hget_int_def)
  qed
  have "r_hget (store E) (channel_key ?cid) ''modeflags'' (run_all (store E) ?ups (db s2)) = Some (dec_int b2)"
    by (auto simp: channel_updates_def redis_server.hset [OF R] redis_server.hdel [OF R])
  moreover have "\<forall>n < 32. has b2 (flag n) \<longleftrightarrow>
      (has (basic_mode_flags c) (flag n) \<or> channel_flag n \<and> has (set_mode_flags m) (flag n))
      \<and> \<not> (channel_flag n \<and> has (unset_mode_flags m) (flag n))"
    using apply_sets_basic [of _ E ?cid m lim "basic_mode_flags c" s] apply_unsets_basic [of _ E ?cid m lim b1 s1] 1 2
    by simp
  ultimately show "\<exists>new. hget_int E (channel_key ?cid) ''modeflags'' (db (apply_channel_modes E peer fu m c lim s)) = Some new
      \<and> (\<forall>n < 32. has new (flag n) \<longleftrightarrow>
          (has (basic_mode_flags c) (flag n) \<or> channel_flag n \<and> has (set_mode_flags m) (flag n))
          \<and> \<not> (channel_flag n \<and> has (unset_mode_flags m) (flag n)))"
    by (simp add: db hget_int_def)
qed

section \<open>What leaving does\<close>

lemma more_keys [simp]:
  "channel_users_key c \<noteq> channel_user_key c u" "channel_user_key c u \<noteq> channel_users_key c"
  "channel_users_key c \<noteq> channel_user_key c u @ x" "channel_user_key c u @ x \<noteq> channel_users_key c"
  "channel_users_key c \<noteq> user_channels_key u" "user_channels_key u \<noteq> channel_users_key c"
  "user_channels_key u \<noteq> channel_user_key c u'" "channel_user_key c u' \<noteq> user_channels_key u"
  "user_channels_key u \<noteq> channel_user_key c u' @ x" "channel_user_key c u' @ x \<noteq> user_channels_key u"
  "channelname_key nm \<noteq> channel_user_key c u" "channelname_key nm \<noteq> channel_users_key c"
  "channelname_key nm \<noteq> user_channels_key u" "channelname_key nm \<noteq> channel_user_key c u @ x"
  "channelname_key nm \<noteq> ''channels''" "''channels'' \<noteq> channelname_key nm"
  "''channels'' \<noteq> channel_user_key c u" "''channels'' \<noteq> channel_users_key c" "''channels'' \<noteq> user_channels_key u"
  "channel_usermodes_key c \<noteq> channel_user_key c u" "channel_usermodes_key c \<noteq> channel_users_key c"
  "channel_usermodes_key c \<noteq> user_channels_key u" "channel_usermodes_key c \<noteq> channelname_key nm"
  by (auto simp: channel_users_key_def channel_user_key_def user_channels_key_def channel_key_def user_key_def
      channelname_key_def channel_usermodes_key_def)

lemma user_channels_key_inject [simp]: "user_channels_key u = user_channels_key u' \<longleftrightarrow> u = u'"
  by (simp add: user_channels_key_def user_key_def)

lemma dec_int_0: "dec_int 0 = ''0''"
  by code_simp

text \<open>The parts of the database about who is where.\<close>

definition same_places :: "'r env \<Rightarrow> i32 \<Rightarrow> 'r \<Rightarrow> 'r \<Rightarrow> bool" where
  "same_places E cid d d' \<longleftrightarrow>
     (\<forall>u. LookupUserChannelModeFlags E cid u d' = LookupUserChannelModeFlags E cid u d)
     \<and> zmembers (store E) (channel_users_key cid) d' = zmembers (store E) (channel_users_key cid) d
     \<and> (\<forall>u. zmembers (store E) (user_channels_key u) d' = zmembers (store E) (user_channels_key u) d)"

lemma same_places_trans: "same_places E cid d d' \<Longrightarrow> same_places E cid d' d'' \<Longrightarrow> same_places E cid d d''"
  by (simp add: same_places_def)

lemma same_places_reads: "same_reads (store E) d d' \<Longrightarrow> same_places E cid d d'"
  by (simp add: same_places_def same_readsD zmembers_def)

lemma same_places_run:
  assumes "redis_server (store E)" and "\<And>u. cmd_key c \<noteq> channel_user_key cid u"
    "cmd_key c \<noteq> channel_users_key cid" "\<And>u. cmd_key c \<noteq> user_channels_key u"
  shows "same_places E cid d (run (store E) c d)"
  using assms redis_server.frame(3) [OF assms(1)] redis_server.zmembers_frame [OF assms(1)]
  by (simp add: same_places_def LookupUserChannelModeFlags_def hget_int_def)

lemma DeleteChannelById_effect:
  assumes R: "redis_server (store E)"
  shows "\<exists>s'. DeleteChannelById E cid s = Some s' \<and> amqp s' = amqp s \<and> same_places E cid (db s) (db s')
    \<and> r_get (store E) (channelname_key (or_else [] (hget_str E (channel_key cid) ''name'' (db s)))) (db s') = None"
proof -
  obtain c s1 where c: "LookupChannelById E cid s = Some (c, s1)"
    "channel_name c = or_else [] (hget_str E (channel_key cid) ''name'' (db s))"
    "same_reads (store E) (db s) (db s1)" "amqp s1 = amqp s"
    using LookupChannelById_total [OF R, of cid s] by auto
  let ?cs = "[EXPIRE (channel_key cid) CHANNEL_DELETE_EXPIRE_TIME, DEL (channelname_key (channel_name c)),
      HDEL ''channels'' (channel_name c)]"
  let ?d1 = "run (store E) (EXPIRE (channel_key cid) CHANNEL_DELETE_EXPIRE_TIME) (db s1)"
  let ?d2 = "run (store E) (DEL (channelname_key (channel_name c))) ?d1"
  let ?d3 = "run (store E) (HDEL ''channels'' (channel_name c)) ?d2"
  let ?d4 = "run (store E) (DEL (channel_usermodes_key cid)) ?d3"
  obtain xs where xs: "hash_scan (store E) (channel_usermodes_key cid) ?d3 = Some xs"
    using redis_server.scan(2) [OF R] by blast
  have "same_places E cid (db s1) ?d1"
    by (rule same_places_reads, rule redis_server.same_reads_expire [OF R]) (simp add: expire_times)
  moreover have "same_places E cid ?d1 ?d2"
    by (rule same_places_run [OF R]) (simp_all)
  moreover have "same_places E cid ?d2 ?d3"
    by (rule same_places_run [OF R]) simp_all
  moreover have "same_places E cid ?d3 ?d4"
    by (rule same_places_run [OF R]) simp_all
  ultimately have "same_places E cid (db s) ?d4"
    using same_places_reads [OF c(3), of cid] unfolding same_places_def by simp
  moreover have "r_get (store E) (channelname_key (channel_name c)) ?d4 = None"
    by (simp add: redis_server.frame(2) [OF R] redis_server.del [OF R])
  moreover have "DeleteChannelById E cid s =
      Some (redis_cmds E [DEL (channel_usermodes_key cid)] (redis_cmds E ?cs s1))"
    using c(1) xs by (simp add: DeleteChannelById_def DeleteTemporaryUsermodesForChannel_def)
  moreover have "db (redis_cmds E [DEL (channel_usermodes_key cid)] (redis_cmds E ?cs s1)) = ?d4"
    "amqp (redis_cmds E [DEL (channel_usermodes_key cid)] (redis_cmds E ?cs s1)) = amqp s" using c(4) by simp_all
  ultimately show ?thesis unfolding c(2) by metis
qed

lemma RemoveUserFromChannel_effect:
  fixes user target :: UserSummary
  assumes R: "redis_server (store E)"
  defines "gone \<equiv> if uid target \<noteq> 0 then uid target else uid user"
  shows "\<exists>s'. RemoveUserFromChannel E user c type msg target silent req s = Some s'
    \<and> (\<forall>u. LookupUserChannelModeFlags E (channel_id c) u (db s') =
          (if u = uid user then 0 else LookupUserChannelModeFlags E (channel_id c) u (db s)))
    \<and> zmembers (store E) (channel_users_key (channel_id c)) (db s') =
        zmembers (store E) (channel_users_key (channel_id c)) (db s) - {dec_int gone}
    \<and> (\<forall>u. zmembers (store E) (user_channels_key u) (db s') =
          zmembers (store E) (user_channels_key u) (db s) - (if u = uid user then {dec_int (channel_id c)} else {}))
    \<and> last (amqp s') = (peerchat_key_updates_routingkey,
        kv_message [(''type'', ''UPDATE_USER_CHANMODEFLAGS''), (''channel_id'', dec_int (channel_id c)),
          (''user_id'', dec_int (uid target)), (''modeflags'', ''0''), (''old_modeflags'', ''0'')])"
proof -
  let ?cid = "channel_id c"
  let ?k = "channel_user_key ?cid (uid user)"
  let ?cs = "[ZREM (channel_users_key ?cid) (dec_int gone), DEL ?k, DEL (?k @ ''_custkeys''),
      ZREM (user_channels_key (uid user)) (dec_int ?cid)]"
  let ?d = "run_all (store E) ?cs (db s)"
  note fr = redis_server.frame [OF R] and zfr = redis_server.zmembers_frame [OF R]
    and zr = redis_server.zrem [OF R] and dl = redis_server.del [OF R]
  have ck: "channel_user_key ?cid u \<noteq> ?k @ ''_custkeys''" "?k @ ''_custkeys'' \<noteq> channel_user_key ?cid u" for u
    by (rule channel_user_key_neq(3), metis channel_user_key_neq(3))
  have flags: "LookupUserChannelModeFlags E ?cid u ?d =
      (if u = uid user then 0 else LookupUserChannelModeFlags E ?cid u (db s))" for u
    by (auto simp: LookupUserChannelModeFlags_def hget_int_def fr dl ck)
  have users: "zmembers (store E) (channel_users_key ?cid) ?d =
      zmembers (store E) (channel_users_key ?cid) (db s) - {dec_int gone}"
    by (simp add: zfr zr)
  have chans: "zmembers (store E) (user_channels_key u) ?d =
      zmembers (store E) (user_channels_key u) (db s) - (if u = uid user then {dec_int ?cid} else {})" for u
    by (auto simp: zfr zr)
  let ?s1 = "redis_cmds E ?cs s"
  let ?txt = "kv_message ([(''type'', type), (''toChannelId'', dec_int ?cid), (''fromUserSummary'', ToBase64String E user True),
      (''message'', base64 E msg), (''includeSelf'', ''1''), (''requiredChanUserModes'', dec_int req)] @
      (if uid target \<noteq> 0 then [(''toUserSummary'', ToBase64String E target True)] else []))"
  define s2 where "s2 = (if silent then ?s1 else sendAMQPMessage peerchat_client_message_routingkey ?txt ?s1)"
  have old: "LookupUserChannelModeFlags E ?cid (uid user) (db ?s1) = 0" using flags [of "uid user"] by simp
  have s2: "db s2 = ?d" by (simp add: s2_def)
  have eq: "RemoveUserFromChannel E user c type msg target silent req s =
       do { s3 \<leftarrow> (if \<not> has (basic_mode_flags c) (cm EChannelMode_StayOpen) then
              do { count \<leftarrow> CountChannelUsers E ?cid (db s2); if count = 0 then DeleteChannelById E ?cid s2 else Some s2 }
            else Some s2);
         Some (SendUpdateUserChanModeflags ?cid (uid target) 0 0 s3) }"
    unfolding RemoveUserFromChannel_def Let_def s2_def gone_def [symmetric] old by (rule refl)
  obtain xs where xs: "zset_scan (store E) (channel_users_key ?cid) (db s2) = Some xs"
    using redis_server.scan(1) [OF R] by blast
  obtain s4 where s4: "DeleteChannelById E ?cid s2 = Some s4" "same_places E ?cid (db s2) (db s4)"
    using DeleteChannelById_effect [OF R, of ?cid s2] by blast
  have "\<exists>s3. (if \<not> has (basic_mode_flags c) (cm EChannelMode_StayOpen) then
        do { count \<leftarrow> CountChannelUsers E ?cid (db s2); if count = 0 then DeleteChannelById E ?cid s2 else Some s2 }
      else Some s2) = Some s3 \<and> same_places E ?cid (db s2) (db s3)"
    using xs s4 by (simp add: CountChannelUsers_def same_places_def [of E ?cid "db s2" "db s2"])
  then obtain s3 where "RemoveUserFromChannel E user c type msg target silent req s =
      Some (SendUpdateUserChanModeflags ?cid (uid target) 0 0 s3)" "same_places E ?cid ?d (db s3)"
    unfolding eq s2 by auto
  then show ?thesis
    using flags users chans
    by (auto simp: same_places_def SendUpdateUserChanModeflags_def dec_int_0)
qed

section \<open>Properties\<close>

text \<open>
  A server for the witnesses: the channel \<open>#a\<close> with id 1, the half-operator \<open>hal\<close> with id 2 and the
  user \<open>bob\<close> with id 3 and voice.
\<close>

definition demo_env :: "kvdb env" where
  "demo_env = \<lparr>store = kv_redis, base64 = (\<lambda>s. s), inet_addr = (\<lambda>s. 0), inet_ntop = (\<lambda>a. ''0.0.0.0''),
     server_name = ''s'', now = 0\<rparr>"

definition demo_state :: "kvdb chat" where
  "demo_state = \<lparr>db = run_all kv_redis
      [SET (channelname_key ''#a'') ''1'', HMSET (channel_key 1) [(''name'', ''#a''), (''modeflags'', ''0'')],
       SET (usernick_key ''hal'') ''2'', HMSET (user_key 2) [(''nick'', ''hal'')],
       SET (usernick_key ''bob'') ''3'', HMSET (user_key 3) [(''nick'', ''bob'')],
       ZADD (channel_users_key 1) ''2'', ZADD (channel_users_key 1) ''3'',
       HMSET (channel_user_key 1 2) [(''modeflags'', ''5'')],
       HMSET (channel_user_key 1 3) [(''modeflags'', ''3'')]] kv_empty,
     amqp = [], replies = []\<rparr>"

definition hal :: UserSummary where "hal = new_user\<lparr>uid := 2, nick := ''hal''\<rparr>"

lemma demo_keys:
  "dec_int 1 = ''1''" "dec_int 2 = ''2''" "dec_int 3 = ''3''"
  by code_simp+

lemma demo_server: "redis_server (store demo_env)"
  using kv.redis_server_axioms by (simp add: demo_env_def)

lemma demo_facts:
  "channel_id_of demo_env ''#a'' demo_state = 1"
  "LookupUserChannelModeFlags demo_env 1 2 (db demo_state) = 5"
  "LookupUserChannelModeFlags demo_env 1 3 (db demo_state) = 3"
  "uid (GetUserSummaryByName demo_env ''hal'' (db demo_state)) = 2"
  "uid (GetUserSummaryByName demo_env ''bob'' (db demo_state)) = 3"
  by code_simp+

lemma demo_zset: "zmembers kv_redis (channel_users_key 1) (db demo_state) = {''2'', ''3''}"
  by (simp add: zmembers_def kv_scans evens_concat_map demo_state_def) code_simp


text \<open>C27. A request to change the modes of a channel is answered with \<open>Success\<close> exactly when the peer may
  override, or has at least half-operator rank and, for every user named, a rank no lower than the
  user's own (the owner's rank for a user without one; a name that is no user's is refused too); otherwise, and for an
  unknown channel, nothing is written to the database or sent to other servers. A request to set the limit has one (a bare
  \<open>MODE +l\<close> has none: the program then reads memory that nothing set).\<close>

theorem mode_request_authorised:
  fixes E :: "'r env"
  assumes "redis_server (store E)" and "update_limit m \<Longrightarrow> limit m \<noteq> None"
  shows "\<exists>s'. Perform_UpdateChannelModes E peer channel from_user m s = Some
      (if channel_id_of E channel s = 0 then WebErrorCode_NoSuchUser
       else if modes_granted E peer (channel_id_of E channel s) m (db s) then WebErrorCode_Success
       else WebErrorCode_AuthInvalidCredentials, s')
    \<and> (channel_id_of E channel s = 0 \<or> \<not> modes_granted E peer (channel_id_of E channel s) m (db s)
       \<longrightarrow> same_reads (store E) (db s) (db s') \<and> amqp s' = amqp s)"
  using Perform_UpdateChannelModes_result [OF assms refl, where channel = channel and s = s and peer = peer and from_user = from_user] by auto

lemma hal_not_granted: "\<not> modes_granted demo_env hal 1 (new_modify\<lparr>set_usermodes := [(''zed'', uc EUserChannelFlag_Op)]\<rparr>) (db demo_state)"
  by code_simp

theorem mode_request_authorised_witness:
  "\<exists>s'. Perform_UpdateChannelModes demo_env hal ''#a'' 2 (new_modify\<lparr>set_usermodes := [(''zed'', uc EUserChannelFlag_Op)]\<rparr>) demo_state
      = Some (WebErrorCode_AuthInvalidCredentials, s') \<and> amqp s' = []"
proof -
  let ?m = "new_modify\<lparr>set_usermodes := [(''zed'', uc EUserChannelFlag_Op)]\<rparr>"
  have "update_limit ?m \<Longrightarrow> limit ?m \<noteq> None" by (simp add: new_modify_def)
  from mode_request_authorised [OF demo_server this, where peer = hal and channel = "''#a''" and from_user = 2 and s = demo_state] show ?thesis
    using hal_not_granted by (auto simp: demo_facts) (simp add: demo_state_def)
qed

text \<open>C28. A granted request sets and unsets exactly the modes it names: each mode of the channel is
  afterwards on when it was on or was to be set, and was not to be unset, and each user's flags are changed by
  the requests under the user's name, sets before unsets. As in C27, a request to set the limit has one.\<close>

theorem mode_request_effect:
  fixes E :: "'r env"
  assumes "redis_server (store E)" and "update_limit m \<Longrightarrow> limit m \<noteq> None"
    and "cid = channel_id_of E channel s" "cid \<noteq> 0" and "modes_granted E peer cid m (db s)"
  shows "\<exists>s' new. Perform_UpdateChannelModes E peer channel from_user m s = Some (WebErrorCode_Success, s')
    \<and> hget_int E (channel_key cid) ''modeflags'' (db s') = Some new
    \<and> (\<forall>n < 32. has new (flag n) \<longleftrightarrow>
        (has (or_else 0 (hget_int E (channel_key cid) ''modeflags'' (db s))) (flag n) \<or> channel_flag n \<and> has (set_mode_flags m) (flag n))
        \<and> \<not> (channel_flag n \<and> has (unset_mode_flags m) (flag n)))
    \<and> (\<forall>u. u \<noteq> 0 \<longrightarrow> LookupUserChannelModeFlags E cid u (db s') =
        user_flags_after E True (db s) u (unset_usermodes m)
          (user_flags_after E False (db s) u (set_usermodes m) (LookupUserChannelModeFlags E cid u (db s))))"
proof -
  obtain c s1 where c: "Perform_UpdateChannelModes E peer channel from_user m s =
      Some (WebErrorCode_Success, apply_channel_modes E peer from_user m c (or_else 0 (limit m)) s1)"
    "channel_id c = cid" "same_reads (store E) (db s) (db s1)"
    "basic_mode_flags c = or_else 0 (hget_int E (channel_key cid) ''modeflags'' (db s))"
    using Perform_UpdateChannelModes_result [OF assms(1-3), where peer = peer and from_user = from_user] assms(4,5) by auto
  let ?s' = "apply_channel_modes E peer from_user m c (or_else 0 (limit m)) s1"
  have ur: "same_user_reads (store E) (db s) (db s1)"
    using c(3) by (simp add: same_reads_def same_user_reads_def)
  have flags: "LookupUserChannelModeFlags E cid u (db ?s') =
      user_flags_after E True (db s) u (unset_usermodes m)
        (user_flags_after E False (db s) u (set_usermodes m) (LookupUserChannelModeFlags E cid u (db s)))"
    if "u \<noteq> 0" for u
    using apply_channel_modes_effect(1) [OF assms(1) that, where c = c] c(2)
    by (simp add: same_readsD(5) [OF c(3)] user_flags_after_reads [OF ur])
  obtain new where "hget_int E (channel_key cid) ''modeflags'' (db ?s') = Some new"
    "\<forall>n < 32. has new (flag n) \<longleftrightarrow>
        (has (basic_mode_flags c) (flag n) \<or> channel_flag n \<and> has (set_mode_flags m) (flag n))
        \<and> \<not> (channel_flag n \<and> has (unset_mode_flags m) (flag n))"
    using apply_channel_modes_effect(2) [OF assms(1), where c = c] c(2) by blast
  then show ?thesis unfolding c(4) using c(1) flags by blast
qed

theorem mode_request_effect_witness:
  "\<exists>s' new. Perform_UpdateChannelModes demo_env hal ''#a'' 2 (new_modify\<lparr>set_mode_flags := cm EChannelMode_Moderated\<rparr>) demo_state
      = Some (WebErrorCode_Success, s')
    \<and> hget_int demo_env (channel_key 1) ''modeflags'' (db s') = Some new \<and> has new (cm EChannelMode_Moderated)"
proof -
  let ?m = "new_modify\<lparr>set_mode_flags := cm EChannelMode_Moderated\<rparr>"
  have 1: "update_limit ?m \<Longrightarrow> limit ?m \<noteq> None" by (simp add: new_modify_def)
  have 2: "modes_granted demo_env hal 1 ?m (db demo_state)" by code_simp
  obtain s' new where "Perform_UpdateChannelModes demo_env hal ''#a'' 2 ?m demo_state = Some (WebErrorCode_Success, s')"
    "hget_int demo_env (channel_key 1) ''modeflags'' (db s') = Some new"
    "\<forall>n < 32. has new (flag n) \<longleftrightarrow>
        (has (or_else 0 (hget_int demo_env (channel_key 1) ''modeflags'' (db demo_state))) (flag n)
          \<or> channel_flag n \<and> has (set_mode_flags ?m) (flag n))
        \<and> \<not> (channel_flag n \<and> has (unset_mode_flags ?m) (flag n))"
    using mode_request_effect [OF demo_server 1 demo_facts(1) [symmetric] _ 2, where from_user = 2] demo_facts
    by auto
  then show ?thesis by (auto simp: channel_flag_iff new_modify_def dest!: spec [of _ 2])
qed

text \<open>C29. A half-operator can make himself the owner of a channel: the test of a change of a user's flags
  looks at the rank the user has, never at the rank that is given.\<close>

theorem halfop_becomes_owner:
  fixes E :: "'r env"
  assumes "redis_server (store E)" and "channel_id_of E channel s = cid" "cid \<noteq> 0"
    and "uid (GetUserSummaryByName E name (db s)) = uid peer" "uid peer \<noteq> 0"
    and "GetUserChannelModeLevel (LookupUserChannelModeFlags E cid (uid peer) (db s)) = 2"
  shows "\<exists>m s'. handle_channel_mode_command [''MODE'', channel, ''+O'', name] = [Req_UpdateChannelModes channel m]
    \<and> Perform_UpdateChannelModes E peer channel (uid peer) m s = Some (WebErrorCode_Success, s')
    \<and> GetUserChannelModeLevel (LookupUserChannelModeFlags E cid (uid peer) (db s')) = 4"
proof -
  let ?m = "new_modify\<lparr>set_usermodes := [(name, uc EUserChannelFlag_Owner)]\<rparr>"
  have req: "handle_channel_mode_command [''MODE'', channel, ''+O'', name] = [Req_UpdateChannelModes channel ?m]"
    by (simp add: handle_channel_mode_command_def parse_channel_mode_def channel_mode_letter_def mode_letter_defs
        no_param_def mode_start_def new_modify_def or_into_def smap_index_def smap_find_def)
  have granted: "modes_granted E peer cid ?m (db s)"
    using assms(4-6) by (simp add: modes_granted_def may_change_def new_modify_def Let_def)
  have "update_limit ?m \<Longrightarrow> limit ?m \<noteq> None" by (simp add: new_modify_def)
  from Perform_UpdateChannelModes_result [OF assms(1) this assms(2) [symmetric], where peer = peer and from_user = "uid peer"] granted assms(3)
  obtain c s1 where c: "Perform_UpdateChannelModes E peer channel (uid peer) ?m s =
      Some (WebErrorCode_Success, apply_channel_modes E peer (uid peer) ?m c (or_else 0 (limit ?m)) s1)"
    "channel_id c = cid" "same_reads (store E) (db s) (db s1)" by auto
  have "LookupUserChannelModeFlags E cid (uid peer) (db (apply_channel_modes E peer (uid peer) ?m c (or_else 0 (limit ?m)) s1)) =
      LookupUserChannelModeFlags E cid (uid peer) (db s) OR uc EUserChannelFlag_Owner"
    using apply_channel_modes_effect(1) [OF assms(1,5), where c = c and peer = peer and fu = "uid peer" and m = ?m and lim = "or_else 0 (limit ?m)" and s = s1] c(2)
      same_readsD(4,5) [OF c(3)] assms(4)
    by (simp add: user_flags_after_def new_modify_def)
  then show ?thesis using req c(1) by (auto simp: GetUserChannelModeLevel_def)
qed

theorem halfop_becomes_owner_witness:
  "\<exists>m s'. handle_channel_mode_command [''MODE'', ''#a'', ''+O'', ''hal''] = [Req_UpdateChannelModes ''#a'' m]
    \<and> Perform_UpdateChannelModes demo_env hal ''#a'' (uid hal) m demo_state = Some (WebErrorCode_Success, s')
    \<and> GetUserChannelModeLevel (LookupUserChannelModeFlags demo_env 1 (uid hal) (db s')) = 4"
proof -
  have "uid hal = 2" by (simp add: hal_def)
  moreover have "GetUserChannelModeLevel (5 :: i32) = 2" by code_simp
  ultimately show ?thesis
    using halfop_becomes_owner [OF demo_server demo_facts(1), where name = "''hal''" and peer = hal] demo_facts by simp
qed

text \<open>A kick clears the flags of the wrong user: the kicked user leaves the channel's list of users but
  keeps his flags in it (membership among them), and the user who kicks loses all of his own and has
  the channel taken off his list of channels.\<close>

theorem kick_clears_the_kickers_flags:
  fixes E :: "'r env"
  assumes "redis_server (store E)" and "channel_id_of E channel s = cid" "cid \<noteq> 0"
    and "uid (GetUserSummaryByName E target (db s)) = t" "t \<noteq> 0" "t \<noteq> uid peer"
    and "fst (CheckActionPermissions (operflags peer) channel (LookupUserChannelModeFlags E cid (uid peer) (db s))
      (LookupUserChannelModeFlags E cid t (db s)) (uc EUserChannelFlag_HalfOp))"
  shows "\<exists>s'. Perform_UserKickChannel E peer peer channel target msg s = Some (WebErrorCode_Success, s')
    \<and> LookupUserChannelModeFlags E cid (uid peer) (db s') = 0
    \<and> LookupUserChannelModeFlags E cid t (db s') = LookupUserChannelModeFlags E cid t (db s)
    \<and> dec_int t \<notin> zmembers (store E) (channel_users_key cid) (db s')
    \<and> dec_int cid \<notin> zmembers (store E) (user_channels_key (uid peer)) (db s')
    \<and> zmembers (store E) (user_channels_key t) (db s') = zmembers (store E) (user_channels_key t) (db s)"
proof -
  obtain c s1 where c: "GetChannelSummaryByName E channel s = Some (c, s1)" "channel_id c = cid"
    "same_reads (store E) (db s) (db s1)"
    using GetChannelSummaryByName_total [OF assms(1), of channel s] assms(2) by auto
  let ?to = "GetUserSummaryByName E target (db s)"
  note reads = same_readsD(4,5,6) [OF c(3)]
  obtain s2 req where kick: "Perform_UserKickChannel E peer peer channel target msg s =
      map_option (Pair WebErrorCode_Success) (RemoveUserFromChannel E peer c ''KICK'' msg ?to False req s2)"
    "db s2 = db s1"
    using c assms(4,5,7) reads
    by (fastforce simp: Perform_UserKickChannel_def Let_def invisible_notice_def split: prod.splits bool.splits)
  have "zmembers (store E) k (db s2) = zmembers (store E) k (db s)"
    "LookupUserChannelModeFlags E cid u (db s2) = LookupUserChannelModeFlags E cid u (db s)" for k u
    using kick(2) reads by (simp_all add: zmembers_def)
  then show ?thesis
    using RemoveUserFromChannel_effect [OF assms(1), where user = peer and c = c and target = ?to and s = s2
        and type = "''KICK''" and msg = msg and silent = False and req = req] kick c(2) assms(4-6)
    by auto
qed

theorem kick_clears_the_kickers_flags_witness:
  "\<exists>s'. Perform_UserKickChannel demo_env hal hal ''#a'' ''bob'' ''bye'' demo_state = Some (WebErrorCode_Success, s')
    \<and> LookupUserChannelModeFlags demo_env 1 2 (db s') = 0 \<and> LookupUserChannelModeFlags demo_env 1 3 (db s') = 3"
proof -
  have "uid hal = 2" "operflags hal = 0" by (simp_all add: hal_def new_user_def)
  moreover have "fst (CheckActionPermissions 0 ''#a'' 5 3 (uc EUserChannelFlag_HalfOp))" by code_simp
  ultimately show ?thesis
    using kick_clears_the_kickers_flags [OF demo_server demo_facts(1) _ demo_facts(5), where peer = hal and msg = "''bye''"] demo_facts
    by auto
qed

end
