(* ===== verification/PeerchatUsermode.thy ===== *)
theory PeerchatUsermode
  imports PeerchatChannel
begin

text \<open>
  Usermodes (\<open>peerchat/tasks/Usermode.cpp\<close>): records that give flags to users by channel, host, machine,
  profile and game, such as bans. They are kept in Redis under \<open>USERMODE_id\<close> and per channel.
\<close>

section \<open>Records\<close>

text \<open>Who set the record; made from a text it has no profile.\<close>

record SetBy =
  sb_nick :: string
  sb_hostname :: string
  sb_profileid :: "i32 option"

record UsermodeRecord =
  usermodeid :: i32
  chanmask :: string
  hostmask :: string
  comment :: string
  machineid :: string
  um_profileid :: i32
  um_modeflags :: i32
  isGlobal :: bool
  expires_at :: "64 word"
  set_at :: "64 word"
  setByUserSummary :: SetBy
  has_gameid :: bool
  um_gameid :: i32

definition new_usermode :: UsermodeRecord where
  "new_usermode = \<lparr>usermodeid = 0, chanmask = [], hostmask = [], comment = [], machineid = [], um_profileid = 0,
     um_modeflags = 0, isGlobal = False, expires_at = 0, set_at = 0,
     setByUserSummary = \<lparr>sb_nick = [], sb_hostname = [], sb_profileid = Some 0\<rparr>, has_gameid = False, um_gameid = -1\<rparr>"

definition usermode_key :: "string \<Rightarrow> string" where
  "usermode_key i = ''USERMODE_'' @ i"

definition dec_long :: "64 word \<Rightarrow> string" where
  "dec_long w = (let i = sint w in if i < 0 then CHR ''-'' # dec_nat (nat (- i)) else dec_nat (nat i))"

text \<open>
  \<open>UserSummary(std::string)\<close> on \<open>nick!user@address+id\<close>: positions of markers that are missing are
  \<open>npos\<close>, which the arithmetic wraps to the start or the end of the text.
\<close>

definition marker :: "char \<Rightarrow> string \<Rightarrow> nat option" where
  "marker c s = (if c \<in> set s then Some (length (takeWhile (\<lambda>x. x \<noteq> c) s)) else None)"

definition after_marker :: "nat option \<Rightarrow> nat" where
  "after_marker p = (case p of None \<Rightarrow> 0 | Some i \<Rightarrow> i + 1)"

text \<open>\<open>s.substr(b, e - b)\<close> with an end that may lie before the beginning, when the count wraps to a huge one.\<close>

definition substr_to :: "string \<Rightarrow> nat \<Rightarrow> nat option \<Rightarrow> string" where
  "substr_to s b e =
     (case e of None \<Rightarrow> drop b s | Some i \<Rightarrow> if i < b then drop b s else take (i - b) (drop b s))"

definition SetBy_parse :: "'r env \<Rightarrow> string \<Rightarrow> SetBy" where
  "SetBy_parse E s =
     (let um = marker (CHR ''!'') s; am = marker (CHR ''@'') s; im = marker (CHR ''+'') s;
          addr = Address_parse (inet_addr E) (substr_to s (after_marker am) im)
      in \<lparr>sb_nick = substr_to s 0 um, sb_hostname = inet_ntop E (ip addr), sb_profileid = None\<rparr>)"

definition LoadUsermodeFromCache :: "'r env \<Rightarrow> string \<Rightarrow> 'r \<Rightarrow> UsermodeRecord \<Rightarrow> UsermodeRecord" where
  "LoadUsermodeFromCache E k d r =
     \<lparr>usermodeid = or_else (usermodeid r) (hget_int E k ''id'' d),
      chanmask = or_else (chanmask r) (hget_str E k ''chanmask'' d),
      hostmask = or_else (hostmask r) (hget_str E k ''hostname'' d),
      comment = or_else (comment r) (hget_str E k ''comment'' d),
      machineid = or_else (machineid r) (hget_str E k ''machineid'' d),
      um_profileid = or_else (um_profileid r) (hget_int E k ''profileid'' d),
      um_modeflags = or_else (um_modeflags r) (hget_int E k ''modeflags'' d),
      isGlobal = isGlobal r,
      expires_at = or_else (expires_at r) (map_option scast (hget_int E k ''expiresAt'' d)),
      set_at = or_else (set_at r) (map_option scast (hget_int E k ''setAt'' d)),
      setByUserSummary =
        (case hget_str E k ''setBy'' d of
           Some txt \<Rightarrow> SetBy_parse E txt
         | None \<Rightarrow>
             \<lparr>sb_nick = or_else (sb_nick (setByUserSummary r)) (hget_str E k ''setByNick'' d),
              sb_hostname = or_else (sb_hostname (setByUserSummary r)) (hget_str E k ''setByHost'' d),
              sb_profileid = (case hget_int E k ''setByPid'' d of None \<Rightarrow> sb_profileid (setByUserSummary r) | Some p \<Rightarrow> Some p)\<rparr>),
      has_gameid = (hget_int E k ''gameid'' d \<noteq> None),
      um_gameid = or_else (um_gameid r) (hget_int E k ''gameid'' d)\<rparr>"

text \<open>Undefined when the profile of the user who set the record was never set.\<close>

definition usermode_fields :: "UsermodeRecord \<Rightarrow> i32 \<Rightarrow> (string \<times> string) list" where
  "usermode_fields r setbypid =
     [(''id'', dec_int (usermodeid r)), (''chanmask'', c_string (chanmask r)), (''hostmask'', c_string (hostmask r)),
      (''comment'', c_string (comment r)), (''machineid'', c_string (machineid r)),
      (''profileid'', dec_int (um_profileid r)), (''modeflags'', dec_int (um_modeflags r)),
      (''isGlobal'', if sint (usermodeid r) > 0 then ''1'' else ''0''),
      (''setByNick'', c_string (sb_nick (setByUserSummary r))), (''setByHost'', c_string (sb_hostname (setByUserSummary r))),
      (''setByPid'', dec_int setbypid), (''expiresAt'', dec_long (expires_at r))] @
     (if has_gameid r then [(''gameid'', dec_int (um_gameid r))] else [])"

definition WriteUsermodeToCache :: "'r env \<Rightarrow> UsermodeRecord \<Rightarrow> 'r chat \<Rightarrow> 'r chat option" where
  "WriteUsermodeToCache E r s =
     (case sb_profileid (setByUserSummary r) of
        None \<Rightarrow> None
      | Some pid \<Rightarrow> Some (redis_cmds E
          [HMSET (usermode_key (dec_int (usermodeid r))) (usermode_fields r pid),
           ZADD ''usermodes'' (dec_int (usermodeid r))] s))"

definition AssociateUsermodeToChannel :: "'r env \<Rightarrow> UsermodeRecord \<Rightarrow> i32 \<Rightarrow> 'r chat \<Rightarrow> 'r chat" where
  "AssociateUsermodeToChannel E r cid =
     redis_cmds E
       [HSET (channel_usermodes_key cid) (dec_int (usermodeid r)) (c_string (chanmask r)),
        EXPIRE (channel_usermodes_key cid) CHANNEL_EXPIRE_TIME]"

section \<open>Matching\<close>

definition stricmp_eq :: "string \<Rightarrow> string \<Rightarrow> bool" where
  "stricmp_eq a b \<longleftrightarrow> map tolower (c_string a) = map tolower (c_string b)"

definition UsermodeMatchesUser :: "UsermodeRecord \<Rightarrow> UserSummary \<Rightarrow> bool" where
  "UsermodeMatchesUser r u =
     (if um_profileid r \<noteq> 0 \<and> profileid u \<noteq> um_profileid r then False
      else if hostmask r \<noteq> [] \<and> (stricmp_eq (hostmask r) (hostname u) \<or> peerchat_match (hostmask r) (hostname u) \<noteq> 0)
        then False
      else if machineid r \<noteq> [] \<and> (stricmp_eq (machineid r) (realname u) \<or> peerchat_match (machineid r) (realname u) \<noteq> 0)
        then False
      else if has_gameid r then
        (if um_gameid r = -2 then gameid u = -1
         else if um_gameid r = -3 then True
         else if um_gameid r = -4 then gameid u \<noteq> -1
         else gameid u = um_gameid r)
      else True)"

text \<open>The flags of all records of the channel that match the user.\<close>

definition effective_step :: "'r env \<Rightarrow> UserSummary \<Rightarrow> 'r \<Rightarrow> string \<Rightarrow> i32 \<Rightarrow> i32" where
  "effective_step E u d field flags =
     (let r = LoadUsermodeFromCache E (usermode_key (c_string field)) d new_usermode in
      if UsermodeMatchesUser r u then flags OR um_modeflags r else flags)"

definition getEffectiveUsermode :: "'r env \<Rightarrow> i32 \<Rightarrow> UserSummary \<Rightarrow> 'r \<Rightarrow> i32 option" where
  "getEffectiveUsermode E cid u d =
     map_option (\<lambda>xs. fold (effective_step E u d) (evens xs) 0) (hash_scan (store E) (channel_usermodes_key cid) d)"

text \<open>The part of a ban mask that is kept: what follows the last \<open>@\<close>.\<close>

definition GetFormattedHostMask :: "string \<Rightarrow> string" where
  "GetFormattedHostMask m =
     (if CHR ''@'' \<in> set m then rev (takeWhile (\<lambda>c. c \<noteq> CHR ''@'') (rev m)) else m)"

section \<open>What the cache keeps\<close>

text \<open>A time is written with 64 bits and read with 32.\<close>

lemma atoi_dec_long: "atoi (dec_long w) = scast w"
proof -
  have b: "- (2 ^ 63) \<le> sint w" "sint w < 2 ^ 63"
    using sint_greater_eq [of w] sint_less [of w] by simp_all
  have "nul \<noteq> CHR ''-''" by (simp add: nul_def)
  then have n: "nul \<notin> set (dec_long w)" by (cases "sint w < 0") (simp_all add: dec_long_def nul_notin_dec_nat)
  have "strtol10 (dec_long w) = sint w"
  proof (cases "sint w < 0")
    case True
    then show ?thesis using b strtol10_neg_dec_nat [of "nat (- sint w)"] by (simp add: dec_long_def)
  next
    case False
    then show ?thesis using b strtol10_dec_nat [of "nat (sint w)"] by (simp add: dec_long_def)
  qed
  then have "atoi (dec_long w) = word_of_int (sint w)" unfolding atoi_def c_string_id [OF n] by (rule arg_cong)
  also have "\<dots> = scast w" by (simp only: scast_eq)
  finally show ?thesis .
qed

definition clean :: "string \<Rightarrow> bool" where
  "clean s \<longleftrightarrow> nul \<notin> set s"

lemma clean_c_string [simp]: "clean s \<Longrightarrow> c_string s = s"
  by (simp add: clean_def)

text \<open>What \<open>LoadUsermodeFromCache\<close> reads after \<open>WriteUsermodeToCache\<close>.\<close>

definition cached :: "UsermodeRecord \<Rightarrow> UsermodeRecord" where
  "cached r = r\<lparr>hostmask := [], isGlobal := False, set_at := 0, um_gameid := if has_gameid r then um_gameid r else -1,
     expires_at := scast (scast (expires_at r) :: i32)\<rparr>"

definition clean_record :: "UsermodeRecord \<Rightarrow> bool" where
  "clean_record r \<longleftrightarrow> clean (chanmask r) \<and> clean (comment r) \<and> clean (machineid r)
     \<and> clean (sb_nick (setByUserSummary r)) \<and> clean (sb_hostname (setByUserSummary r))"

text \<open>The fields that are read and not written.\<close>

definition left_over :: "UsermodeRecord \<Rightarrow> string set" where
  "left_over r = {''hostname'', ''setAt'', ''setBy''} \<union> (if has_gameid r then {} else {''gameid''})"

lemma WriteUsermodeToCache_reads:
  fixes E :: "'r env"
  assumes "redis_server (store E)" and "sb_profileid (setByUserSummary r) = Some p" and "clean_record r"
    and "\<And>f. f \<in> left_over r \<Longrightarrow> r_hget (store E) (usermode_key (dec_int (usermodeid r))) f (db s) = None"
  shows "\<exists>s'. WriteUsermodeToCache E r s = Some s'
    \<and> LoadUsermodeFromCache E (usermode_key (dec_int (usermodeid r))) (db s') new_usermode = cached r"
proof -
  let ?k = "usermode_key (dec_int (usermodeid r))"
  let ?s = "redis_cmds E [HMSET ?k (usermode_fields r p), ZADD ''usermodes'' (dec_int (usermodeid r))] s"
  have k: "''usermodes'' \<noteq> ?k" by (simp add: usermode_key_def)
  obtain d where d: "db ?s = d" by simp
  have get: "r_hget (store E) ?k f d = (case map_of (rev (usermode_fields r p)) f of
      None \<Rightarrow> r_hget (store E) ?k f (db s) | Some v \<Rightarrow> Some v)" for f
    using redis_server.frame(3) [OF assms(1), of "ZADD ''usermodes'' (dec_int (usermodeid r))" ?k] k
    by (simp add: d [symmetric] redis_server.hset [OF assms(1)])
  have none: "r_hget (store E) ?k ''hostname'' (db s) = None" "r_hget (store E) ?k ''setAt'' (db s) = None"
    "r_hget (store E) ?k ''setBy'' (db s) = None" "\<not> has_gameid r \<Longrightarrow> r_hget (store E) ?k ''gameid'' (db s) = None"
    by (auto intro!: assms(4) simp: left_over_def)
  have "LoadUsermodeFromCache E ?k d new_usermode = cached r"
    using assms(2,3) none atoi_dec_long [of "expires_at r"]
    by (cases "setByUserSummary r")
      (simp add: LoadUsermodeFromCache_def hget_str_def hget_int_def get usermode_fields_def cached_def
        clean_record_def new_usermode_def)
  then show ?thesis using assms(2) by (simp add: WriteUsermodeToCache_def flip: d)
qed


lemma fold_effective_keeps: "has flags (flag n) \<Longrightarrow> has (fold (effective_step E u d) xs flags) (flag n)"
  by (induction xs arbitrary: flags) (auto simp: effective_step_def Let_def)

lemma fold_effective_member:
  assumes "x \<in> set xs" and "LoadUsermodeFromCache E (usermode_key (c_string x)) d new_usermode = r"
    and "UsermodeMatchesUser r u" and "has (um_modeflags r) (flag n)"
  shows "has (fold (effective_step E u d) xs flags) (flag n)"
  using assms(1)
proof (induction xs arbitrary: flags)
  case (Cons y xs)
  show ?case
  proof (cases "y = x")
    case True
    have "effective_step E u d x flags = flags OR um_modeflags r"
      using assms(2,3) by (simp add: effective_step_def)
    then show ?thesis using True assms(4) fold_effective_keeps [of "flags OR um_modeflags r" n E u d xs] by simp
  next
    case False
    then show ?thesis using Cons by simp
  qed
qed simp

lemma effective_of_associated:
  fixes E :: "'r env"
  assumes srv: "redis_server (store E)"
    and load: "LoadUsermodeFromCache E (usermode_key (dec_int (usermodeid r))) (db s) new_usermode = r'"
    and hit: "UsermodeMatchesUser r' u"
  shows "\<exists>flags. getEffectiveUsermode E cid u (db (AssociateUsermodeToChannel E r cid s)) = Some flags
    \<and> (\<forall>n < 32. has (um_modeflags r') (flag n) \<longrightarrow> has flags (flag n))"
proof -
  let ?k = "channel_usermodes_key cid" and ?f = "dec_int (usermodeid r)"
  let ?s = "AssociateUsermodeToChannel E r cid s"
  have pos: "0 < CHANNEL_EXPIRE_TIME" by (simp add: CHANNEL_EXPIRE_TIME_def)
  have "?k \<noteq> usermode_key ?f" by (simp add: channel_usermodes_key_def channel_key_def usermode_key_def)
  then have frame: "r_hget (store E) (usermode_key ?f) f (db ?s) = r_hget (store E) (usermode_key ?f) f (db s)" for f
    using redis_server.hget_frames [OF srv] by (simp add: AssociateUsermodeToChannel_def del: run_all_simps)
  have same: "hget_str E (usermode_key ?f) f (db ?s) = hget_str E (usermode_key ?f) f (db s)"
    "hget_int E (usermode_key ?f) f (db ?s) = hget_int E (usermode_key ?f) f (db s)" for f
    by (simp_all add: hget_str_def hget_int_def frame)
  have "r_hget (store E) ?k ?f (db ?s) \<noteq> None"
    by (simp add: AssociateUsermodeToChannel_def redis_server.hget_expire [OF srv pos] redis_server.hset [OF srv])
  with redis_server.scan(2) [OF srv, of ?k "db ?s"] obtain xs where
    xs: "hash_scan (store E) ?k (db ?s) = Some xs" "?f \<in> set (evens xs)" by auto
  have "LoadUsermodeFromCache E (usermode_key (c_string ?f)) (db ?s) new_usermode = r'"
    using load unfolding LoadUsermodeFromCache_def c_string_id [OF nul_notin_dec_int] same by simp
  from fold_effective_member [OF xs(2) this hit] show ?thesis
    by (auto simp: getEffectiveUsermode_def xs(1))
qed


section \<open>Properties\<close>

text \<open>C31. A usermode record whose texts have no NUL and whose setter's profile id is set, written to the cache over a hash that has none of the fields the
  writer leaves out, is read back with its host mask lost: it is written as \<open>hostmask\<close> and read as \<open>hostname\<close>.
  Of its time of expiry the low 32 bits come back, sign-extended. All else that is written survives (\<open>isGlobal\<close> is never
  read, \<open>set_at\<close> never written, and the game only with \<open>has_gameid\<close>).\<close>

theorem usermode_cache_roundtrip:
  fixes E :: "'r env"
  assumes "redis_server (store E)" and "sb_profileid (setByUserSummary r) = Some p" and "clean_record r"
    and "\<And>f. f \<in> left_over r \<Longrightarrow> r_hget (store E) (usermode_key (dec_int (usermodeid r))) f (db s) = None"
  shows "\<exists>s'. WriteUsermodeToCache E r s = Some s'
    \<and> LoadUsermodeFromCache E (usermode_key (dec_int (usermodeid r))) (db s') new_usermode =
        r\<lparr>hostmask := [], isGlobal := False, set_at := 0, um_gameid := if has_gameid r then um_gameid r else -1,
          expires_at := scast (scast (expires_at r) :: i32)\<rparr>"
  using WriteUsermodeToCache_reads [OF assms] by (simp add: cached_def)

definition demo_store :: "kvdb env" where
  "demo_store = \<lparr>store = kv_redis, base64 = (\<lambda>s. s), inet_addr = (\<lambda>s. 0), inet_ntop = (\<lambda>a. ''0.0.0.0''),
     server_name = ''s'', now = 0\<rparr>"

definition demo_ban :: UsermodeRecord where
  "demo_ban = new_usermode\<lparr>usermodeid := 7, chanmask := ''#a'', hostmask := ''10.0.0.*'', um_modeflags := uc EUserChannelFlag_Banned\<rparr>"

definition empty_chat :: "kvdb chat" where
  "empty_chat = \<lparr>db = kv_empty, amqp = [], replies = []\<rparr>"

lemma demo_ban_facts:
  "redis_server (store demo_store)" "sb_profileid (setByUserSummary demo_ban) = Some 0" "clean_record demo_ban"
  "r_hget (store demo_store) k f (db empty_chat) = None"
  using kv.redis_server_axioms
  by (simp_all add: demo_store_def demo_ban_def new_usermode_def clean_record_def clean_def nul_def empty_chat_def
      kv_hget kv_empty_def)

theorem usermode_cache_roundtrip_witness:
  "\<exists>s'. WriteUsermodeToCache demo_store demo_ban empty_chat = Some s'
    \<and> hostmask (LoadUsermodeFromCache demo_store (usermode_key (dec_int 7)) (db s') new_usermode) = []
    \<and> chanmask (LoadUsermodeFromCache demo_store (usermode_key (dec_int 7)) (db s') new_usermode) = ''#a''"
  using usermode_cache_roundtrip [OF demo_ban_facts]
  by (auto simp: demo_ban_def)

text \<open>C30. A ban on a host, as \<open>MODE +b\<close> makes it, bans every user from the channel once it is in the cache.\<close>

theorem host_ban_bans_everyone:
  fixes E :: "'r env"
  assumes "redis_server (store E)" and "sb_profileid (setByUserSummary r) = Some p" and "clean_record r"
    and "\<And>f. r_hget (store E) (usermode_key (dec_int (usermodeid r))) f (db s) = None"
    and "um_profileid r = 0" "machineid r = []" "\<not> has_gameid r" "has (um_modeflags r) (uc EUserChannelFlag_Banned)"
  shows "\<exists>s' flags. WriteUsermodeToCache E r s = Some s'
    \<and> getEffectiveUsermode E cid u (db (AssociateUsermodeToChannel E r cid s')) = Some flags
    \<and> has flags (uc EUserChannelFlag_Banned)"
proof -
  obtain s' where s': "WriteUsermodeToCache E r s = Some s'"
    "LoadUsermodeFromCache E (usermode_key (dec_int (usermodeid r))) (db s') new_usermode = cached r"
    using WriteUsermodeToCache_reads [OF assms(1-3) assms(4)] by blast
  have "UsermodeMatchesUser (cached r) u" using assms(5-7) by (simp add: UsermodeMatchesUser_def cached_def)
  from effective_of_associated [OF assms(1) s'(2) this] show ?thesis using s'(1) assms(8)
    by (fastforce simp: cached_def)
qed

theorem host_ban_bans_everyone_witness:
  "\<exists>s' flags. WriteUsermodeToCache demo_store demo_ban empty_chat = Some s'
    \<and> getEffectiveUsermode demo_store 1 (new_user\<lparr>hostname := ''192.168.0.1''\<rparr>)
        (db (AssociateUsermodeToChannel demo_store demo_ban 1 s')) = Some flags
    \<and> has flags (uc EUserChannelFlag_Banned)"
  by (rule host_ban_bans_everyone [OF demo_ban_facts]) (simp_all add: demo_ban_def new_usermode_def)

end
