(* ===== verification/PeerchatQueue.thy ===== *)
theory PeerchatQueue
  imports Main
begin

text \<open>
  The tasks a peer asks for (\<open>Peer::AddTaskRequest\<close>, \<open>Peer::ProcessNextTask\<close> in
  \<open>peerchat/server/Peer.cpp\<close>, \<open>PerformUVWorkRequest\<close> and \<open>AddPeerchatTaskRequest\<close> in
  \<open>peerchat/tasks/tasks.cpp\<close>). Tasks run on the threads of a pool; requests about keys wait while another
  task of the peer is pending, and each task that ends takes the next one off the queue.
\<close>

section \<open>Requests and the queue\<close>

datatype EPeerchatRequestType =
    EPeerchatRequestType_SetUserDetails
  | EPeerchatRequestType_SendMessageToTarget
  | EPeerchatRequestType_LookupUserDetailsByName
  | EPeerchatRequestType_LookupChannelDetails
  | EPeerchatRequestType_UserJoinChannel
  | EPeerchatRequestType_UserPartChannel
  | EPeerchatRequestType_UpdateChannelModes
  | EPeerchatRequestType_UpdateUserModes
  | EPeerchatRequestType_ListChannels
  | EPeerchatRequestType_SetChannelUserKeys
  | EPeerchatRequestType_GetChannelUserKeys
  | EPeerchatRequestType_SetUserKeys
  | EPeerchatRequestType_GetUserKeys
  | EPeerchatRequestType_SetChannelKeys
  | EPeerchatRequestType_GetChannelKeys
  | EPeerchatRequestType_UserKickChannel
  | EPeerchatRequestType_SetBroadcastToVisibleUsers
  | EPeerchatRequestType_SetBroadcastToVisibleUsers_SendSummary
  | EPeerchatRequestType_SetBroadcastToVisibleUsers_SkipSource
  | EPeerchatRequestType_DeleteUser
  | EPeerchatRequestType_KeepaliveUser
  | EPeerchatRequestType_UserJoinEvents
  | EPeerchatRequestType_CreateUserMode
  | EPeerchatRequestType_ListUserModes
  | EPeerchatRequestType_ListUserModes_CacheLookup
  | EPeerchatRequestType_DeleteUserMode
  | EPeerchatRequestType_SetChanProps
  | EPeerchatRequestType_ListChanProps
  | EPeerchatRequestType_DeleteChanProps
  | EPeerchatRequestType_LookupGameInfo
  | EPeerchatRequestType_LookupGlobalUsermode
  | EPeerchatRequestType_RemoteKill_ByName
  | EPeerchatRequestType_UpdateChannelModes_BanMask
  | EPeerchatRequestType_OperCheck
  | EPeerchatRequestType_CountServerUsers

text \<open>The type of a request and the rest of it.\<close>

type_synonym 'a request = "EPeerchatRequestType \<times> 'a"

definition queue_event :: "'a request \<Rightarrow> bool" where
  "queue_event r = (fst r \<in> {EPeerchatRequestType_SetChannelUserKeys, EPeerchatRequestType_GetChannelUserKeys,
     EPeerchatRequestType_SetUserKeys, EPeerchatRequestType_GetUserKeys, EPeerchatRequestType_SetChannelKeys,
     EPeerchatRequestType_GetChannelKeys})"

text \<open>\<open>handed\<close> is all that was given to the pool so far, in order, and \<open>in_flight\<close> what of it has not ended.\<close>

record 'a tasks =
  m_pending_request :: bool
  m_request_queue :: "'a request list"
  in_flight :: "'a request list"
  handed :: "'a request list"

definition idle :: "'a tasks" where
  "idle = \<lparr>m_pending_request = False, m_request_queue = [], in_flight = [], handed = []\<rparr>"

definition AddPeerchatTaskRequest :: "'a request \<Rightarrow> 'a tasks \<Rightarrow> 'a tasks" where
  "AddPeerchatTaskRequest r s = s\<lparr>in_flight := in_flight s @ [r], handed := handed s @ [r]\<rparr>"

definition AddTaskRequest :: "'a request \<Rightarrow> 'a tasks \<Rightarrow> 'a tasks" where
  "AddTaskRequest r s =
     (if queue_event r then
        if m_pending_request s then s\<lparr>m_request_queue := m_request_queue s @ [r]\<rparr>
        else AddPeerchatTaskRequest r s
      else AddPeerchatTaskRequest r (s\<lparr>m_pending_request := True\<rparr>))"

definition ProcessNextTask :: "'a tasks \<Rightarrow> 'a tasks" where
  "ProcessNextTask s =
     (case m_request_queue s of
        r # rs \<Rightarrow> AddPeerchatTaskRequest r (s\<lparr>m_request_queue := rs\<rparr>)
      | [] \<Rightarrow> s\<lparr>m_pending_request := False\<rparr>)"

text \<open>
  The end of a task in \<open>PerformUVWorkRequest\<close>: when the request has a peer, the next one is taken. Every request a
  peer asks for has it as its peer, except the farewell of the destructor, after which the queue is gone too.
\<close>

definition work_done :: "bool \<Rightarrow> 'a request \<Rightarrow> 'a tasks \<Rightarrow> 'a tasks" where
  "work_done has_peer r s =
     (let s = s\<lparr>in_flight := remove1 r (in_flight s)\<rparr> in if has_peer then ProcessNextTask s else s)"

definition task_done :: "'a request \<Rightarrow> 'a tasks \<Rightarrow> 'a tasks" where
  "task_done = work_done True"

lemma task_done_eq: "task_done r s = ProcessNextTask (s\<lparr>in_flight := remove1 r (in_flight s)\<rparr>)"
  by (simp add: task_done_def work_done_def)

section \<open>Runs\<close>

text \<open>Requests are asked for, and tasks end in any order.\<close>

datatype 'a event = Ask "'a request" | Done "'a request"

inductive task_step :: "'a tasks \<Rightarrow> 'a event \<Rightarrow> 'a tasks \<Rightarrow> bool" where
  ask: "task_step s (Ask r) (AddTaskRequest r s)"
| ends: "r \<in> set (in_flight s) \<Longrightarrow> task_step s (Done r) (task_done r s)"

inductive_cases task_stepE: "task_step s e s'"
inductive_simps task_step_Ask [simp]: "task_step s (Ask r) s'"
inductive_simps task_step_Done [simp]: "task_step s (Done r) s'"

inductive task_run :: "'a tasks \<Rightarrow> 'a event list \<Rightarrow> 'a tasks \<Rightarrow> bool" where
  stop: "task_run s [] s"
| next_step: "task_run s es s' \<Longrightarrow> task_step s' e s'' \<Longrightarrow> task_run s (es @ [e]) s''"

fun asked :: "'a event list \<Rightarrow> 'a request list" where
  "asked [] = []"
| "asked (Ask r # es) = r # asked es"
| "asked (Done r # es) = asked es"

lemma asked_append [simp]: "asked (es @ fs) = asked es @ asked fs"
  by (induction es rule: asked.induct) auto

text \<open>
  What holds between two calls: a request waits only while a task is pending, and a task is pending only
  while one is in flight; only requests about keys wait.
\<close>

definition tasks_ok :: "'a tasks \<Rightarrow> bool" where
  "tasks_ok s \<longleftrightarrow> (m_request_queue s \<noteq> [] \<longrightarrow> m_pending_request s) \<and> (m_pending_request s \<longrightarrow> in_flight s \<noteq> [])
     \<and> list_all queue_event (m_request_queue s)"

lemma tasks_ok_idle [simp]: "tasks_ok idle"
  by (simp add: tasks_ok_def idle_def)

lemma tasks_ok_AddTaskRequest: "tasks_ok s \<Longrightarrow> tasks_ok (AddTaskRequest r s)"
  by (auto simp: tasks_ok_def AddTaskRequest_def AddPeerchatTaskRequest_def)

lemma tasks_ok_task_done: "tasks_ok s \<Longrightarrow> tasks_ok (task_done r s)"
  by (auto simp: tasks_ok_def task_done_eq ProcessNextTask_def AddPeerchatTaskRequest_def split: list.splits)

lemma tasks_ok_step: "task_step s e s' \<Longrightarrow> tasks_ok s \<Longrightarrow> tasks_ok s'"
  by (erule task_stepE) (auto intro: tasks_ok_AddTaskRequest tasks_ok_task_done)

lemma tasks_ok_run: "task_run s es s' \<Longrightarrow> tasks_ok s \<Longrightarrow> tasks_ok s'"
  by (induction rule: task_run.induct) (auto intro: tasks_ok_step)

text \<open>Requests about keys are handed over in the order they were asked for.\<close>

definition keys_of :: "'a request list \<Rightarrow> 'a request list" where
  "keys_of rs = filter queue_event rs"

lemma keys_of_simps [simp]: "keys_of [] = []" "keys_of (rs @ qs) = keys_of rs @ keys_of qs"
  "keys_of (r # rs) = (if queue_event r then r # keys_of rs else keys_of rs)"
  by (simp_all add: keys_of_def)

lemma keys_in_order_step:
  assumes "task_step s e s'" "tasks_ok s"
  shows "keys_of (handed s') @ m_request_queue s' = keys_of (handed s) @ m_request_queue s @ keys_of (asked [e])"
  using assms
  by (cases rule: task_step.cases)
    (auto simp: AddTaskRequest_def AddPeerchatTaskRequest_def task_done_eq ProcessNextTask_def tasks_ok_def split: list.splits)

lemma keys_in_order_run:
  "task_run s es s' \<Longrightarrow> tasks_ok s \<Longrightarrow>
     keys_of (handed s') @ m_request_queue s' = keys_of (handed s) @ m_request_queue s @ keys_of (asked es)"
proof (induction rule: task_run.induct)
  case (next_step s es s' e s'')
  from keys_in_order_step [OF next_step.hyps(2) tasks_ok_run [OF next_step.hyps(1) next_step.prems]] next_step.IH [OF next_step.prems]
  show ?case by simp
qed simp

lemma handed_done: "handed (task_done r s) @ m_request_queue (task_done r s) = handed s @ m_request_queue s"
  by (simp add: task_done_eq ProcessNextTask_def AddPeerchatTaskRequest_def split: list.splits)

lemma work_left_done:
  "r \<in> set (in_flight s) \<Longrightarrow>
     Suc (length (in_flight (task_done r s)) + length (m_request_queue (task_done r s)))
       = length (in_flight s) + length (m_request_queue s)"
  using length_pos_if_in_set [of r "in_flight s"]
  by (auto simp: task_done_eq ProcessNextTask_def AddPeerchatTaskRequest_def length_remove1 split: list.splits)

text \<open>Without new requests each task that ends leaves one less to do.\<close>

lemma drain_run:
  "task_run s (map Done ds) s' \<Longrightarrow>
     length ds + length (in_flight s') + length (m_request_queue s') = length (in_flight s) + length (m_request_queue s)
     \<and> handed s' @ m_request_queue s' = handed s @ m_request_queue s"
proof (induction ds arbitrary: s' rule: rev_induct)
  case Nil
  then show ?case by (auto elim: task_run.cases)
next
  case (snoc d ds)
  from snoc.prems obtain s1 where s1: "task_run s (map Done ds) s1" "task_step s1 (Done d) s'"
    by (cases rule: task_run.cases) auto
  with snoc.IH work_left_done [of d s1] handed_done [of d s1] show ?case by (fastforce simp del: task_step_Ask)
qed

section \<open>Calls that are not atomic\<close>

text \<open>
  \<open>AddTaskRequest\<close> reads and sets \<open>m_pending_request\<close> outside the mutex, and acts on it later: between the
  two a task may end on another thread. \<open>pushing\<close> are the calls that have seen the flag set and not yet
  pushed their request, \<open>starting\<close> those that have yet to hand theirs over.
\<close>

record 'a race =
  now_tasks :: "'a tasks"
  pushing :: "'a request list"
  starting :: "'a request list"

definition calm :: "'a tasks \<Rightarrow> 'a race" where
  "calm s = \<lparr>now_tasks = s, pushing = [], starting = []\<rparr>"

definition test_request :: "'a request \<Rightarrow> 'a race \<Rightarrow> 'a race" where
  "test_request r s =
     (if queue_event r then
        if m_pending_request (now_tasks s) then s\<lparr>pushing := pushing s @ [r]\<rparr>
        else s\<lparr>starting := starting s @ [r]\<rparr>
      else s\<lparr>now_tasks := now_tasks s\<lparr>m_pending_request := True\<rparr>, starting := starting s @ [r]\<rparr>)"

definition push_request :: "'a request \<Rightarrow> 'a race \<Rightarrow> 'a race" where
  "push_request r s =
     s\<lparr>now_tasks := now_tasks s\<lparr>m_request_queue := m_request_queue (now_tasks s) @ [r]\<rparr>, pushing := remove1 r (pushing s)\<rparr>"

definition start_request :: "'a request \<Rightarrow> 'a race \<Rightarrow> 'a race" where
  "start_request r s = s\<lparr>now_tasks := AddPeerchatTaskRequest r (now_tasks s), starting := remove1 r (starting s)\<rparr>"

datatype 'a act = Test "'a request" | Push "'a request" | Start "'a request" | End "'a request"

inductive race_step :: "'a race \<Rightarrow> 'a act \<Rightarrow> 'a race \<Rightarrow> bool" where
  test: "race_step s (Test r) (test_request r s)"
| push: "r \<in> set (pushing s) \<Longrightarrow> race_step s (Push r) (push_request r s)"
| start: "r \<in> set (starting s) \<Longrightarrow> race_step s (Start r) (start_request r s)"
| ends: "r \<in> set (in_flight (now_tasks s)) \<Longrightarrow> race_step s (End r) (s\<lparr>now_tasks := task_done r (now_tasks s)\<rparr>)"

inductive_simps race_step_simps [simp]:
  "race_step s (Test r) s'" "race_step s (Push r) s'" "race_step s (Start r) s'" "race_step s (End r) s'"

fun race_run :: "'a race \<Rightarrow> 'a act list \<Rightarrow> 'a race \<Rightarrow> bool" where
  "race_run s [] s' \<longleftrightarrow> s' = s"
| "race_run s (a # acts) s' \<longleftrightarrow> (\<exists>t. race_step s a t \<and> race_run t acts s')"

text \<open>A call whose two halves follow each other is \<open>AddTaskRequest\<close>.\<close>

lemma atomic_call:
  "race_run (calm s) [Test r, if queue_event r \<and> m_pending_request s then Push r else Start r] (calm (AddTaskRequest r s))"
  by (auto simp: calm_def test_request_def push_request_def start_request_def AddTaskRequest_def AddPeerchatTaskRequest_def)

section \<open>Properties\<close>

text \<open>C35. When calls do not overlap, whatever is asked for and in whatever order tasks end, a request about
  keys waits only while another task is in flight, and these requests are handed over in the order in
  which they were asked for, none lost and none twice.\<close>

theorem key_requests_in_order:
  assumes "task_run idle es s"
  shows "(m_request_queue s \<noteq> [] \<longrightarrow> in_flight s \<noteq> [])
    \<and> keys_of (handed s) @ m_request_queue s = keys_of (asked es)"
  using tasks_ok_run [OF assms] keys_in_order_run [OF assms] by (simp add: tasks_ok_def idle_def)

abbreviation nick_request :: "string request" where "nick_request \<equiv> (EPeerchatRequestType_SetUserDetails, ''a'')"
abbreviation setkey_request :: "string request" where "setkey_request \<equiv> (EPeerchatRequestType_SetUserKeys, ''b'')"
abbreviation getkey_request :: "string request" where "getkey_request \<equiv> (EPeerchatRequestType_GetUserKeys, ''c'')"

definition demo_tasks :: "string tasks" where
  "demo_tasks = AddTaskRequest getkey_request (AddTaskRequest setkey_request (AddTaskRequest nick_request idle))"

lemma task_run_ask: "task_run s es s' \<Longrightarrow> task_run s (es @ [Ask r]) (AddTaskRequest r s')"
  by (erule task_run.next_step) simp

lemma demo_run: "task_run idle [Ask nick_request, Ask setkey_request, Ask getkey_request] demo_tasks"
  using task_run_ask [OF task_run_ask [OF task_run_ask [OF task_run.stop]]] by (simp add: demo_tasks_def)

lemma demo_tasks: "in_flight demo_tasks = [nick_request]" "m_request_queue demo_tasks = [setkey_request, getkey_request]"
  by (simp_all add: demo_tasks_def AddTaskRequest_def AddPeerchatTaskRequest_def idle_def queue_event_def)

theorem key_requests_in_order_witness:
  "in_flight demo_tasks \<noteq> [] \<and> keys_of (handed demo_tasks) @ m_request_queue demo_tasks = [setkey_request, getkey_request]"
  using key_requests_in_order [OF demo_run] by (simp add: queue_event_def demo_tasks)

text \<open>C36. When calls do not overlap, every request is carried out: once nothing new is asked for, the tasks in flight
  can always be ended until none is left and nothing waits, after exactly as many endings as there were tasks in
  flight and requests waiting, and all that waited has been handed over, in order.\<close>

theorem key_requests_carried_out:
  assumes "task_run idle es s" and "task_run s (map Done ds) s'"
  shows "length ds \<le> length (in_flight s) + length (m_request_queue s)
    \<and> (length ds < length (in_flight s) + length (m_request_queue s) \<longrightarrow> (\<exists>r s''. task_step s' (Done r) s''))
    \<and> (length ds = length (in_flight s) + length (m_request_queue s) \<longrightarrow>
        in_flight s' = [] \<and> m_request_queue s' = [] \<and> handed s' = handed s @ m_request_queue s)"
proof -
  have ok: "tasks_ok s'" using tasks_ok_run [OF assms(2) tasks_ok_run [OF assms(1)]] by simp
  have "\<exists>r s''. task_step s' (Done r) s''" if "in_flight s' \<noteq> []"
    using that by (cases "in_flight s'") (auto intro: exI [of _ "hd (in_flight s')"])
  with ok drain_run [OF assms(2)] show ?thesis by (cases "in_flight s' = []") (auto simp: tasks_ok_def)
qed

lemma task_run_done: "task_run s es s' \<Longrightarrow> r \<in> set (in_flight s') \<Longrightarrow> task_run s (es @ [Done r]) (task_done r s')"
  by (erule task_run.next_step) simp

lemma demo_ends:
  "task_run demo_tasks (map Done [nick_request, setkey_request, getkey_request])
     (task_done getkey_request (task_done setkey_request (task_done nick_request demo_tasks)))"
  using task_run_done [OF task_run_done [OF task_run_done [OF task_run.stop, of nick_request demo_tasks],
        of setkey_request], of getkey_request]
  by (simp add: demo_tasks task_done_eq ProcessNextTask_def AddPeerchatTaskRequest_def)

theorem key_requests_carried_out_witness:
  "\<exists>s'. task_run demo_tasks (map Done [nick_request, setkey_request, getkey_request]) s' \<and> in_flight s' = []
     \<and> m_request_queue s' = [] \<and> handed s' = [nick_request, setkey_request, getkey_request]"
proof -
  have "handed demo_tasks = [nick_request]"
    by (simp add: demo_tasks_def AddTaskRequest_def AddPeerchatTaskRequest_def idle_def queue_event_def)
  with key_requests_carried_out [OF demo_run demo_ends] show ?thesis
    using demo_ends by (auto simp: demo_tasks)
qed

text \<open>Only a task that ends takes a request out of the queue.\<close>

lemma race_step_queue:
  "race_step s a t \<Longrightarrow> a \<notin> range End \<Longrightarrow> \<exists>rest. m_request_queue (now_tasks t) = m_request_queue (now_tasks s) @ rest"
  by (cases rule: race_step.cases)
    (auto simp: test_request_def push_request_def start_request_def AddPeerchatTaskRequest_def)

lemma race_run_queue:
  "race_run s acts t \<Longrightarrow> set acts \<inter> range End = {} \<Longrightarrow>
     \<exists>rest. m_request_queue (now_tasks t) = m_request_queue (now_tasks s) @ rest"
proof (induction acts arbitrary: s)
  case (Cons a acts)
  then obtain u where u: "race_step s a u" "race_run u acts t" by auto
  from race_step_queue [OF u(1)] Cons.IH [OF u(2)] Cons.prems(2) show ?case by fastforce
qed simp

text \<open>C37. Since the flag is tested before the mutex is taken, a request about keys can be lost: when the only task in
  flight ends after the test and before the request is pushed, and nothing else waits, the request is left in the
  queue with nothing in flight and the flag clear. Then nothing is left to do but to ask for something else; whatever
  is asked for, the request stays where it is until a task of a later request has ended, and a request about
  keys that is asked for later is handed over before it.\<close>

theorem key_request_lost_wakeup:
  assumes t: "m_pending_request t" "in_flight t = [r]" "m_request_queue t = []" and k: "queue_event k" "queue_event later"
  shows "\<exists>s. race_run (calm t) [Test k, End r, Push k] s
    \<and> m_request_queue (now_tasks s) = [k] \<and> in_flight (now_tasks s) = [] \<and> \<not> m_pending_request (now_tasks s)
    \<and> {a. \<exists>u. race_step s a u} \<subseteq> range Test
    \<and> (\<forall>acts u. race_run s acts u \<and> set acts \<inter> range End = {} \<longrightarrow> (\<exists>rest. m_request_queue (now_tasks u) = k # rest))
    \<and> (\<exists>u. race_run s [Test later, Start later] u \<and> handed (now_tasks u) = handed t @ [later])"
proof -
  note defs = calm_def test_request_def push_request_def start_request_def task_done_eq ProcessNextTask_def
    AddPeerchatTaskRequest_def
  define s where "s = calm (t\<lparr>m_pending_request := False, m_request_queue := [k], in_flight := []\<rparr>)"
  have run: "race_run (calm t) [Test k, End r, Push k] s" using t k by (simp add: s_def defs)
  have acts: "\<exists>q. a = Test q" if "race_step s a u" for a u
    using that by (cases rule: race_step.cases) (simp_all add: s_def calm_def)
  have stays: "\<exists>rest. m_request_queue (now_tasks u) = k # rest" if "race_run s acts u" "set acts \<inter> range End = {}" for acts u
    using race_run_queue [OF that] by (simp add: s_def calm_def)
  have later: "\<exists>u. race_run s [Test later, Start later] u \<and> handed (now_tasks u) = handed t @ [later]"
    using k by (simp add: s_def defs)
  show ?thesis
  proof (rule exI [of _ s], intro conjI)
    show "{a. \<exists>u. race_step s a u} \<subseteq> range Test" using acts by blast
    show "\<forall>acts u. race_run s acts u \<and> set acts \<inter> range End = {} \<longrightarrow> (\<exists>rest. m_request_queue (now_tasks u) = k # rest)"
      using stays by blast
  qed (rule run later | simp add: s_def calm_def)+
qed

theorem key_request_lost_wakeup_witness:
  "\<exists>s. race_run (calm (AddTaskRequest nick_request idle)) [Test setkey_request, End nick_request, Push setkey_request] s
    \<and> m_request_queue (now_tasks s) = [setkey_request] \<and> in_flight (now_tasks s) = []"
proof -
  have "m_pending_request (AddTaskRequest nick_request idle)" "in_flight (AddTaskRequest nick_request idle) = [nick_request]"
    "m_request_queue (AddTaskRequest nick_request idle) = []" "queue_event setkey_request" "queue_event getkey_request"
    by (simp_all add: AddTaskRequest_def AddPeerchatTaskRequest_def idle_def queue_event_def)
  from key_request_lost_wakeup [OF this] show ?thesis by blast
qed

end
