(* ===== verification/LinkedList.thy ===== *)
theory LinkedList
  imports Main "HOL-Library.Monad_Syntax"
begin

text \<open>
  The intrusive singly linked list of \<open>core/OS/LinkedList.h\<close> over an explicit memory: an item is an address,
  and every access to an item that was deleted is \<open>None\<close>. The lemmas show that the operations do what the
  same operations on a plain list do, also when the callback of an iteration removes and deletes the item
  it is called with.
\<close>

section \<open>Memory and operations\<close>

record 'v cell =
  val :: 'v
  mp_next :: "nat option"

type_synonym 'v memory = "nat \<Rightarrow> 'v cell option"

record 'v heap =
  mp_head :: "nat option"
  mem :: "'v memory"

definition SetNext :: "nat \<Rightarrow> nat option \<Rightarrow> 'v heap \<Rightarrow> 'v heap option" where
  "SetNext p q s = do { c \<leftarrow> mem s p; Some (s\<lparr>mem := (mem s)(p \<mapsto> c\<lparr>mp_next := q\<rparr>)\<rparr>) }"

text \<open>The loops run until a pointer is null, so they may not end on a cyclic list.\<close>

partial_function (option) find_previous :: "'v memory \<Rightarrow> nat \<Rightarrow> nat \<Rightarrow> nat option option" where
  "find_previous m item p =
     do {
       c \<leftarrow> m p;
       if mp_next c = Some item then Some (Some p)
       else (case mp_next c of None \<Rightarrow> Some None | Some q \<Rightarrow> find_previous m item q)
     }"

definition FindPrevious :: "nat \<Rightarrow> 'v heap \<Rightarrow> nat option option" where
  "FindPrevious item s = (case mp_head s of None \<Rightarrow> Some None | Some p \<Rightarrow> find_previous (mem s) item p)"

definition unlink :: "nat \<Rightarrow> nat option \<Rightarrow> 'v heap \<Rightarrow> 'v heap option" where
  "unlink item target s =
     do {
       previous \<leftarrow> FindPrevious item s;
       (case previous of None \<Rightarrow> Some s | Some p \<Rightarrow> SetNext p target s)
     }"

definition RemoveFromList :: "nat \<Rightarrow> 'v heap \<Rightarrow> 'v heap option" where
  "RemoveFromList item s =
     do {
       c \<leftarrow> mem s item;
       if mp_head s = Some item then Some (s\<lparr>mp_head := mp_next c\<rparr>)
       else (case mp_next c of
           Some n \<Rightarrow>
             do {
               cn \<leftarrow> mem s n;
               s1 \<leftarrow> SetNext n (mp_next cn) s;
               unlink item (mp_next c) s1
             }
         | None \<Rightarrow> unlink item None s)
     }"

partial_function (option) last_of :: "'v memory \<Rightarrow> nat \<Rightarrow> nat option" where
  "last_of m p = do { c \<leftarrow> m p; (case mp_next c of None \<Rightarrow> Some p | Some q \<Rightarrow> last_of m q) }"

definition AddToList :: "nat \<Rightarrow> 'v heap \<Rightarrow> 'v heap option" where
  "AddToList item s =
     (case mp_head s of
        None \<Rightarrow> Some (s\<lparr>mp_head := Some item\<rparr>)
      | Some h \<Rightarrow> do { p \<leftarrow> last_of (mem s) h; SetNext p (Some item) s })"

text \<open>The callback gets the item, and returns whether to go on.\<close>

partial_function (option) iterate_from ::
  "(nat \<Rightarrow> 'v heap \<times> 's \<Rightarrow> (bool \<times> 'v heap \<times> 's) option) \<Rightarrow> nat \<Rightarrow> 'v heap \<times> 's \<Rightarrow> ('v heap \<times> 's) option" where
  "iterate_from callback p s =
     do {
       c \<leftarrow> mem (fst s) p;
       (go, s') \<leftarrow> callback p s;
       if \<not> go then Some s'
       else (case mp_next c of None \<Rightarrow> Some s' | Some q \<Rightarrow> iterate_from callback q s')
     }"

definition Iterate :: "(nat \<Rightarrow> 'v heap \<times> 's \<Rightarrow> (bool \<times> 'v heap \<times> 's) option) \<Rightarrow> 'v heap \<times> 's \<Rightarrow> ('v heap \<times> 's) option" where
  "Iterate callback s = (case mp_head (fst s) of None \<Rightarrow> Some s | Some p \<Rightarrow> iterate_from callback p s)"

text \<open>A new item has no successor; a deleted one may not be used again.\<close>

definition new_item :: "nat \<Rightarrow> 'v \<Rightarrow> 'v heap \<Rightarrow> 'v heap" where
  "new_item p v s = s\<lparr>mem := (mem s)(p \<mapsto> \<lparr>val = v, mp_next = None\<rparr>)\<rparr>"

definition delete_item :: "nat \<Rightarrow> 'v heap \<Rightarrow> 'v heap" where
  "delete_item p s = s\<lparr>mem := (mem s)(p := None)\<rparr>"

section \<open>The list in memory\<close>

text \<open>The items from a pointer on, with their values.\<close>

fun chain :: "'v memory \<Rightarrow> nat option \<Rightarrow> (nat \<times> 'v) list \<Rightarrow> nat option \<Rightarrow> bool" where
  "chain m h [] t \<longleftrightarrow> h = t"
| "chain m h ((p, v) # ps) t \<longleftrightarrow> h = Some p \<and> (\<exists>n. m p = Some \<lparr>val = v, mp_next = n\<rparr> \<and> chain m n ps t)"

definition holds :: "'v heap \<Rightarrow> (nat \<times> 'v) list \<Rightarrow> bool" where
  "holds s ps \<longleftrightarrow> chain (mem s) (mp_head s) ps None \<and> distinct (map fst ps)"

lemma chain_append: "chain m h (ps @ qs) t \<longleftrightarrow> (\<exists>n. chain m h ps n \<and> chain m n qs t)"
  by (induction ps arbitrary: h) (simp, clarsimp, blast)

lemma chain_cong: "(\<And>p. p \<in> fst ` set ps \<Longrightarrow> m' p = m p) \<Longrightarrow> chain m' h ps t = chain m h ps t"
  by (induction ps arbitrary: h) auto

lemma chain_update [simp]: "p \<notin> fst ` set ps \<Longrightarrow> chain (m(p := c)) h ps t = chain m h ps t"
  by (rule chain_cong) auto

lemma holds_new_item: "holds s ps \<Longrightarrow> p \<notin> fst ` set ps \<Longrightarrow> holds (new_item p v s) ps"
  by (simp add: holds_def new_item_def)

lemma holds_delete_item: "holds s ps \<Longrightarrow> p \<notin> fst ` set ps \<Longrightarrow> holds (delete_item p s) ps"
  by (simp add: holds_def delete_item_def)

lemma find_previous_found:
  "chain m (Some p) (ps @ [(q, v), (item, w)] @ zs) t \<Longrightarrow> item \<notin> fst ` set (ps @ [(q, v)]) \<Longrightarrow>
     find_previous m item p = Some (Some q)"
proof (induction ps arbitrary: p)
  case Nil
  then show ?case by (auto simp: find_previous.simps)
next
  case (Cons x ps)
  then obtain v' n where x: "x = (p, v')" "m p = Some \<lparr>val = v', mp_next = n\<rparr>" "chain m n (ps @ [(q, v), (item, w)] @ zs) t"
    by (cases x) auto
  then obtain r where r: "n = Some r" "r \<in> fst ` set (ps @ [(q, v)])" by (cases ps) auto
  then have "r \<noteq> item" using Cons.prems(2) by auto
  then show ?case using x r Cons.IH [of r] Cons.prems(2) by (simp add: find_previous.simps)
qed

text \<open>\<open>RemoveFromList\<close> takes the item out; the values and the other items' memory stay.\<close>

lemma RemoveFromList_holds:
  assumes "holds s (ps @ (item, v) # qs)"
  shows "\<exists>s'. RemoveFromList item s = Some s' \<and> holds s' (ps @ qs) \<and> dom (mem s') = dom (mem s)
    \<and> mem s' item = mem s item"
proof (cases ps rule: rev_cases)
  case Nil
  then show ?thesis using assms by (auto simp: holds_def RemoveFromList_def)
next
  case (snoc rs x)
  obtain q w where x: "x = (q, w)" by (cases x)
  obtain h where h: "mp_head s = Some h" "h \<in> fst ` set (rs @ [(q, w)])" "h \<noteq> item"
    using assms by (cases rs) (auto simp: holds_def snoc x)
  obtain n where ch: "chain (mem s) (Some h) rs (Some q)" "mem s q = Some \<lparr>val = w, mp_next = Some item\<rparr>"
      "mem s item = Some \<lparr>val = v, mp_next = n\<rparr>" "chain (mem s) n qs None"
    using assms h(1) by (auto simp: holds_def snoc x chain_append)
  have dist: "distinct (map fst (rs @ [(q, w), (item, v)] @ qs))" using assms by (simp add: holds_def snoc x)
  have "find_previous (mem s) item h = Some (Some q)"
    using ch dist by (intro find_previous_found [where ps = rs and v = w and w = v and zs = qs and t = None])
      (auto simp: chain_append)
  then have prev: "FindPrevious item s = Some (Some q)" by (simp add: FindPrevious_def h(1))
  let ?s = "s\<lparr>mem := (mem s)(q \<mapsto> \<lparr>val = w, mp_next = n\<rparr>)\<rparr>"
  have "RemoveFromList item s = Some ?s"
  proof (cases n)
    case None
    then show ?thesis using h prev ch by (simp add: RemoveFromList_def unlink_def SetNext_def)
  next
    case (Some k)
    then obtain cn where cn: "mem s k = Some cn" using ch(4) by (cases qs) auto
    have "(mem s)(k \<mapsto> cn\<lparr>mp_next := mp_next cn\<rparr>) = mem s" using cn by (auto simp: fun_upd_idem)
    then show ?thesis using h prev ch cn Some by (simp add: RemoveFromList_def unlink_def SetNext_def)
  qed
  moreover have "holds ?s (ps @ qs)"
    using ch dist h(1) by (auto simp: holds_def snoc x chain_append)
  ultimately show ?thesis using ch(2,3) dist by auto
qed

lemma last_of_chain:
  "chain m (Some p) (ps @ [(q, v)]) None \<Longrightarrow> last_of m p = Some q"
proof (induction ps arbitrary: p)
  case Nil
  then show ?case by (auto simp: last_of.simps)
next
  case (Cons x ps)
  then obtain v' n where x: "x = (p, v')" "m p = Some \<lparr>val = v', mp_next = n\<rparr>" "chain m n (ps @ [(q, v)]) None"
    by (cases x) auto
  then obtain r where "n = Some r" by (cases ps) auto
  then show ?case using x Cons.IH [of r] by (simp add: last_of.simps)
qed

lemma AddToList_holds:
  assumes "holds s ps" "p \<notin> fst ` set ps" "mem s p = Some \<lparr>val = v, mp_next = None\<rparr>"
  shows "\<exists>s'. AddToList p s = Some s' \<and> holds s' (ps @ [(p, v)])"
proof (cases ps rule: rev_cases)
  case Nil
  then show ?thesis using assms by (auto simp: AddToList_def holds_def)
next
  case (snoc rs x)
  obtain q w where x: "x = (q, w)" by (cases x)
  obtain h where h: "mp_head s = Some h" using assms(1) by (cases rs) (auto simp: holds_def snoc x)
  have ch: "chain (mem s) (Some h) rs (Some q)" "mem s q = Some \<lparr>val = w, mp_next = None\<rparr>"
    using assms(1) h by (auto simp: holds_def snoc x chain_append)
  have "last_of (mem s) h = Some q"
    using ch by (intro last_of_chain [where ps = rs and v = w]) (auto simp: chain_append)
  then have "AddToList p s = Some (s\<lparr>mem := (mem s)(q \<mapsto> \<lparr>val = w, mp_next = Some p\<rparr>)\<rparr>)"
    using h ch by (simp add: AddToList_def SetNext_def)
  then show ?thesis using assms ch h by (auto simp: holds_def snoc x chain_append)
qed


section \<open>Iterations\<close>

text \<open>A callback that takes out and deletes the items with \<open>P\<close>, and one that looks for one of them.\<close>

definition remove_callback :: "('v \<Rightarrow> bool) \<Rightarrow> nat \<Rightarrow> 'v heap \<times> 's \<Rightarrow> (bool \<times> 'v heap \<times> 's) option" where
  "remove_callback P p = (\<lambda>(s, st).
     do {
       c \<leftarrow> mem s p;
       if P (val c) then do { s' \<leftarrow> RemoveFromList p s; Some (True, delete_item p s', st) }
       else Some (True, s, st)
     })"

definition find_callback :: "('v \<Rightarrow> bool) \<Rightarrow> nat \<Rightarrow> 'v heap \<times> bool \<Rightarrow> (bool \<times> 'v heap \<times> bool) option" where
  "find_callback P p = (\<lambda>(s, found).
     do {
       c \<leftarrow> mem s p;
       if P (val c) then Some (False, s, True) else Some (True, s, found)
     })"

lemma callback_simps:
  "mem s p = Some c \<Longrightarrow> remove_callback P p (s, st) =
     (if P (val c) then do { s' \<leftarrow> RemoveFromList p s; Some (True, delete_item p s', st) } else Some (True, s, st))"
  "mem s p = Some c \<Longrightarrow> find_callback P p (s, found) = Some (if P (val c) then (False, s, True) else (True, s, found))"
  by (simp_all add: remove_callback_def find_callback_def)

lemma iterate_remove:
  "holds s (ks @ (p, v) # qs) \<Longrightarrow>
     \<exists>s'. iterate_from (remove_callback P) p (s, st) = Some (s', st) \<and>
       holds s' (ks @ filter (\<lambda>(_, w). \<not> P w) ((p, v) # qs)) \<and> dom (mem s') \<subseteq> dom (mem s)"
proof (induction qs arbitrary: ks p v s)
  case Nil
  then have c: "mem s p = Some \<lparr>val = v, mp_next = None\<rparr>" by (auto simp: holds_def chain_append)
  obtain s' where s': "RemoveFromList p s = Some s'" "holds s' ks" "dom (mem s') = dom (mem s)"
    using RemoveFromList_holds [OF Nil] by auto
  have "holds (delete_item p s') ks" using s'(2) Nil by (intro holds_delete_item) (auto simp: holds_def)
  then show ?case using Nil c s' by (auto simp: iterate_from.simps callback_simps delete_item_def)
next
  case (Cons x qs)
  obtain q w where x: "x = (q, w)" by (cases x)
  have c: "mem s p = Some \<lparr>val = v, mp_next = Some q\<rparr>" using Cons.prems by (auto simp: holds_def chain_append x)
  show ?case
  proof (cases "P v")
    case True
    obtain s' where s': "RemoveFromList p s = Some s'" "holds s' (ks @ (q, w) # qs)" "dom (mem s') = dom (mem s)"
      using RemoveFromList_holds [OF Cons.prems] by (auto simp: x)
    have "holds (delete_item p s') (ks @ (q, w) # qs)"
      using s'(2) Cons.prems by (intro holds_delete_item) (auto simp: holds_def x)
    from Cons.IH [OF this] obtain s'' where
      "iterate_from (remove_callback P) q (delete_item p s', st) = Some (s'', st)"
      "holds s'' (ks @ filter (\<lambda>(_, w). \<not> P w) ((q, w) # qs))" "dom (mem s'') \<subseteq> dom (mem (delete_item p s'))"
      by blast
    then show ?thesis using True c s'
      by (subst iterate_from.simps) (auto simp: callback_simps x delete_item_def)
  next
    case False
    have "holds s ((ks @ [(p, v)]) @ (q, w) # qs)" using Cons.prems by (simp add: x)
    from Cons.IH [OF this] obtain s'' where
      "iterate_from (remove_callback P) q (s, st) = Some (s'', st)"
      "holds s'' ((ks @ [(p, v)]) @ filter (\<lambda>(_, w). \<not> P w) ((q, w) # qs))" "dom (mem s'') \<subseteq> dom (mem s)"
      by blast
    then show ?thesis using False c
      by (subst iterate_from.simps) (auto simp: callback_simps x)
  qed
qed

lemma Iterate_remove:
  assumes "holds s ps"
  shows "\<exists>s'. Iterate (remove_callback P) (s, st) = Some (s', st) \<and> holds s' (filter (\<lambda>(_, w). \<not> P w) ps)
    \<and> dom (mem s') \<subseteq> dom (mem s)"
proof (cases ps)
  case Nil
  then show ?thesis using assms by (auto simp: Iterate_def holds_def)
next
  case (Cons x qs)
  then obtain p v where x: "x = (p, v)" "mp_head s = Some p" using assms by (cases x) (auto simp: holds_def)
  from iterate_remove [of s "[]" p v qs P st] assms show ?thesis by (auto simp: Iterate_def Cons x)
qed

lemma iterate_find:
  "chain (mem s) (Some p) ((p, v) # qs) None \<Longrightarrow>
     iterate_from (find_callback P) p (s, found) = Some (s, (\<exists>w \<in> snd ` set ((p, v) # qs). P w) \<or> found)"
proof (induction qs arbitrary: p v)
  case Nil
  then show ?case by (auto simp: iterate_from.simps callback_simps)
next
  case (Cons x qs)
  then obtain q w where x: "x = (q, w)" "mem s p = Some \<lparr>val = v, mp_next = Some q\<rparr>"
    "chain (mem s) (Some q) ((q, w) # qs) None" by (cases x) auto
  from Cons.IH [OF x(3)] x show ?case by (subst iterate_from.simps) (auto simp: callback_simps)
qed

lemma Iterate_find:
  "holds s ps \<Longrightarrow> Iterate (find_callback P) (s, found) = Some (s, (\<exists>w \<in> snd ` set ps. P w) \<or> found)"
  using iterate_find [of s] by (cases ps) (auto simp: Iterate_def holds_def)


section \<open>The list as its clients see it\<close>

text \<open>Clients add an item, take out all items of a kind, and ask whether there is one of a kind.\<close>

datatype 'v item_op = Add_item 'v | Drop_items "'v \<Rightarrow> bool"

fun item_run :: "('v \<Rightarrow> 's \<Rightarrow> 's option) \<Rightarrow> (('v \<Rightarrow> bool) \<Rightarrow> 's \<Rightarrow> 's option) \<Rightarrow> 'v item_op list \<Rightarrow> 's \<Rightarrow> 's option" where
  "item_run add drop_if [] s = Some s"
| "item_run add drop_if (Add_item v # ops) s = do { s' \<leftarrow> add v s; item_run add drop_if ops s' }"
| "item_run add drop_if (Drop_items P # ops) s = do { s' \<leftarrow> drop_if P s; item_run add drop_if ops s' }"

fun item_spec :: "'v item_op list \<Rightarrow> 'v list \<Rightarrow> 'v list" where
  "item_spec [] xs = xs"
| "item_spec (Add_item v # ops) xs = item_spec ops (xs @ [v])"
| "item_spec (Drop_items P # ops) xs = item_spec ops (filter (\<lambda>x. \<not> P x) xs)"

locale item_list =
  fixes rep :: "'s \<Rightarrow> 'v list \<Rightarrow> bool"
    and add :: "'v \<Rightarrow> 's \<Rightarrow> 's option"
    and drop_if :: "('v \<Rightarrow> bool) \<Rightarrow> 's \<Rightarrow> 's option"
    and member :: "('v \<Rightarrow> bool) \<Rightarrow> 's \<Rightarrow> bool option"
  assumes add: "rep s xs \<Longrightarrow> \<exists>s'. add v s = Some s' \<and> rep s' (xs @ [v])"
    and drop_if: "rep s xs \<Longrightarrow> \<exists>s'. drop_if P s = Some s' \<and> rep s' (filter (\<lambda>x. \<not> P x) xs)"
    and member: "rep s xs \<Longrightarrow> member P s = Some (\<exists>x \<in> set xs. P x)"
begin

text \<open>Any sequence of calls is defined and does what it does to a plain list.\<close>

lemma run:
  "rep s xs \<Longrightarrow> \<exists>s'. item_run add drop_if ops s = Some s' \<and> rep s' (item_spec ops xs)
     \<and> (\<forall>P. member P s' = Some (\<exists>x \<in> set (item_spec ops xs). P x))"
proof (induction ops arbitrary: s xs)
  case Nil
  then show ?case using member by auto
next
  case (Cons a ops)
  show ?case
  proof (cases a)
    case (Add_item v)
    obtain s' where "add v s = Some s'" "rep s' (xs @ [v])" using add [OF Cons.prems] by blast
    then show ?thesis using Cons.IH [of s' "xs @ [v]"] by (simp add: Add_item)
  next
    case (Drop_items P)
    obtain s' where "drop_if P s = Some s'" "rep s' (filter (\<lambda>x. \<not> P x) xs)" using drop_if [OF Cons.prems] by blast
    then show ?thesis using Cons.IH [of s' "filter (\<lambda>x. \<not> P x) xs"] by (simp add: Drop_items)
  qed
qed

end

text \<open>The free-store gives out addresses that are not in use, while there is only a finite number in use.\<close>

locale allocator =
  fixes alloc :: "'v memory \<Rightarrow> nat"
  assumes fresh: "finite (dom m) \<Longrightarrow> m (alloc m) = None"

definition heap_rep :: "'v heap \<Rightarrow> 'v list \<Rightarrow> bool" where
  "heap_rep s xs \<longleftrightarrow> finite (dom (mem s)) \<and> (\<exists>ps. holds s ps \<and> map snd ps = xs)"

definition add_item :: "('v memory \<Rightarrow> nat) \<Rightarrow> 'v \<Rightarrow> 'v heap \<Rightarrow> 'v heap option" where
  "add_item alloc v s = AddToList (alloc (mem s)) (new_item (alloc (mem s)) v s)"

definition remove_items :: "('v \<Rightarrow> bool) \<Rightarrow> 'v heap \<Rightarrow> 'v heap option" where
  "remove_items P s = map_option fst (Iterate (remove_callback P) (s, ()))"

definition find_item :: "('v \<Rightarrow> bool) \<Rightarrow> 'v heap \<Rightarrow> bool option" where
  "find_item P s = map_option snd (Iterate (find_callback P) (s, False))"

lemma SetNext_dom: "SetNext p q s = Some s' \<Longrightarrow> dom (mem s') = dom (mem s)"
  by (auto simp: SetNext_def dom_def split: bind_splits if_splits)

lemma AddToList_dom: "AddToList p s = Some s' \<Longrightarrow> dom (mem s') = dom (mem s)"
  by (auto simp: AddToList_def SetNext_dom split: option.splits bind_splits)

lemma chain_allocated: "chain m h ps t \<Longrightarrow> p \<in> fst ` set ps \<Longrightarrow> p \<in> dom m"
proof (induction ps arbitrary: h)
  case (Cons x ps)
  show ?case
  proof (cases "p = fst x")
    case True
    then show ?thesis using Cons.prems by (cases x) auto
  next
    case False
    with Cons.prems obtain n where "chain m n ps t" "p \<in> fst ` set ps" by (cases x) auto
    then show ?thesis by (rule Cons.IH)
  qed
qed simp

lemma heap_rep_empty: "heap_rep \<lparr>mp_head = None, mem = Map.empty\<rparr> []"
  by (auto simp: heap_rep_def holds_def intro!: exI [of _ "[]"])

sublocale allocator \<subseteq> items: item_list heap_rep "add_item alloc" remove_items find_item
proof
  fix s :: "'v heap" and xs v P
  assume rep: "heap_rep s xs"
  then obtain ps where ps: "holds s ps" "map snd ps = xs" and fin: "finite (dom (mem s))"
    by (auto simp: heap_rep_def)
  let ?p = "alloc (mem s)"
  have "chain (mem s) (mp_head s) ps None" using ps(1) by (simp add: holds_def)
  from chain_allocated [OF this] have new: "?p \<notin> fst ` set ps" using fresh [OF fin] by (metis domIff)
  obtain s' where s': "AddToList ?p (new_item ?p v s) = Some s'" "holds s' (ps @ [(?p, v)])"
    using AddToList_holds [OF holds_new_item [OF ps(1) new] new] by (auto simp: new_item_def)
  have "finite (dom (mem s'))" using AddToList_dom [OF s'(1)] fin by (simp add: new_item_def)
  then show "\<exists>s'. add_item alloc v s = Some s' \<and> heap_rep s' (xs @ [v])"
    using s' ps(2) by (auto simp: add_item_def heap_rep_def intro!: exI [of _ "ps @ [(?p, v)]"])
  obtain s' where s': "Iterate (remove_callback P) (s, ()) = Some (s', ())"
    "holds s' (filter (\<lambda>(_, w). \<not> P w) ps)" "dom (mem s') \<subseteq> dom (mem s)"
    using Iterate_remove [OF ps(1), of P "()"] by blast
  have "map snd (filter (\<lambda>(_, w). \<not> P w) ps) = filter (\<lambda>x. \<not> P x) xs"
    by (auto simp: ps(2) [symmetric] filter_map comp_def case_prod_unfold)
  then show "\<exists>s'. remove_items P s = Some s' \<and> heap_rep s' (filter (\<lambda>x. \<not> P x) xs)"
    using s'(1,2) finite_subset [OF s'(3) fin] by (fastforce simp only: remove_items_def heap_rep_def option.map fst_conv)
  show "find_item P s = Some (\<exists>x\<in>set xs. P x)"
    using Iterate_find [OF ps(1)] by (simp add: find_item_def ps(2) [symmetric])
qed

context allocator
begin

lemma run_items:
  "heap_rep s xs \<Longrightarrow> \<exists>s'. item_run (add_item alloc) remove_items ops s = Some s' \<and> heap_rep s' (item_spec ops xs)"
  using items.run by blast

end

text \<open>The address after the last one in use.\<close>

definition next_free :: "'v memory \<Rightarrow> nat" where
  "next_free m = Suc (Max (insert 0 (dom m)))"

interpretation next_free: allocator next_free
proof
  fix m :: "'v memory"
  assume "finite (dom m)"
  then have "p \<le> Max (insert 0 (dom m))" if "p \<in> dom m" for p using that by simp
  then have "next_free m \<notin> dom m" unfolding next_free_def using Suc_n_not_le_n by blast
  then show "m (next_free m) = None" by auto
qed

end
