(* ===== verification/PeerchatPeer.thy ===== *)
theory PeerchatPeer
  imports PeerchatUsermode PeerchatQueue LinkedList KVReader SBCrypt GameSpy
begin

text \<open>
  A connected peer of the chat server (\<open>peerchat/server/Peer.cpp\<close>): its state, what it sends, its channel
  flags, the users whose addresses it may see, its timers, and reading and dispatching commands. Clocks,
  random texts, the free-store and the command handlers are parameters.
\<close>

section \<open>State\<close>

record UserAddressVisibiltyInfo =
  vis_user :: i32
  vis_channel :: i32

record ChanpropsRecord =
  cp_id :: i32
  channel_mask :: string
  cp_password :: string
  cp_entrymsg :: string
  cp_comment :: string
  cp_expires_at :: "64 word"
  groupname :: string
  cp_limit :: i32
  cp_modeflags :: i32
  onlyOwner :: bool
  cp_topic :: string
  cp_set_at :: "64 word"
  setByNick :: string
  setByPid :: i32
  setByHost :: string
  kickExisting :: bool

definition new_chanprops :: ChanpropsRecord where
  "new_chanprops = \<lparr>cp_id = 0, channel_mask = [], cp_password = [], cp_entrymsg = [], cp_comment = [],
     cp_expires_at = 0, groupname = [], cp_limit = 0, cp_modeflags = 0, onlyOwner = False, cp_topic = [],
     cp_set_at = 0, setByNick = [], setByPid = 0, setByHost = [], kickExisting = False\<rparr>"

text \<open>What is called with the answer of a task: a pointer that the constructor of a request leaves without a value.\<close>

datatype task_callback = Callback_unset | Callback_null | Callback string

record PeerchatBackendRequest =
  req_summary :: UserSummary
  req_channel_name :: string
  req_channel_id :: i32
  req_password :: string
  req_modify :: ChannelModifyRequest
  req_message_type :: string
  req_message_target :: string
  req_message :: string
  req_gamename :: string
  req_uniquenick :: string
  req_profileid :: i32
  req_channel_list :: "int list"
  req_channel_flags :: "(int, i32) smap"
  req_usermode :: UsermodeRecord
  req_limit :: i32
  req_kv_data :: kv_pairs
  req_chanprops :: ChanpropsRecord
  req_callback :: task_callback

definition new_request :: PeerchatBackendRequest where
  "new_request = \<lparr>req_summary = new_user, req_channel_name = [], req_channel_id = 0, req_password = [],
     req_modify = new_modify, req_message_type = [], req_message_target = [], req_message = [], req_gamename = [],
     req_uniquenick = [], req_profileid = 0, req_channel_list = [], req_channel_flags = [], req_usermode = new_usermode,
     req_limit = 0, req_kv_data = [], req_chanprops = new_chanprops, req_callback = Callback_unset\<rparr>"

text \<open>Numbers the code leaves without a value (\<open>limit\<close>, \<open>modeflags\<close>, \<open>setByPid\<close>) are 0 here.\<close>

text \<open>The requests for the account service: \<open>TaskShared::AuthRequest\<close> and the change of a profile.\<close>

record AuthRequest =
  auth_type :: "string option"   \<comment> \<open>without a value until it is set\<close>
  namespaceid :: i32
  auth_uniquenick :: string
  auth_nick :: string
  auth_email :: string
  auth_password :: string
  partnercode :: i32
  auth_token :: string
  auth_token_challenge :: string

datatype account_request =
    Account_auth string AuthRequest
  | Account_update_profile i32 string i32

text \<open>
  \<open>account_tasks\<close> are the requests for the account service, with the name of their callback; \<open>sent\<close> is all
  that was appended to the send buffer, \<open>beside\<close> what the handlers keep besides.
\<close>

record 'w peer =
  m_user_details :: UserSummary
  m_uniquenick :: string
  m_profileid :: i32
  m_sent_client_init :: bool
  m_using_encryption :: bool
  m_crypt_key_in :: gs_peerchat_ctx
  m_crypt_key_out :: gs_peerchat_ctx
  m_accumulator_buffer :: string
  m_flood_weight :: i32
  m_delete_flag :: bool
  m_timeout_flag :: bool
  m_quit_reason :: string
  m_last_recv :: int
  m_last_sent_ping :: int
  m_connect_time :: int
  m_last_keepalive :: int
  m_channel_flags :: "(int, i32) smap"
  visibility_list :: "UserAddressVisibiltyInfo heap"
  task_queue :: "PeerchatBackendRequest tasks"
  account_tasks :: "account_request list"
  sent :: "byte list"
  beside :: 'w

definition GetOperFlags :: "'w peer \<Rightarrow> i32" where
  "GetOperFlags s = operflags (m_user_details s)"

definition GetBackendId :: "'w peer \<Rightarrow> i32" where
  "GetBackendId s = uid (m_user_details s)"

definition add_task :: "EPeerchatRequestType \<Rightarrow> PeerchatBackendRequest \<Rightarrow> 'w peer \<Rightarrow> 'w peer" where
  "add_task t r s = s\<lparr>task_queue := AddTaskRequest (t, r) (task_queue s)\<rparr>"

section \<open>Sending\<close>

definition crlf :: string where "crlf = [CHR 0x0D, CHR 0x0A]"

definition string_of :: "byte list \<Rightarrow> string" where
  "string_of bs = map (\<lambda>b. char_of (unat b)) bs"

text \<open>
  A peer that is marked to be deleted gets nothing more, although its cipher moves on. Its socket is closed only
  once it is marked, so \<open>m_socket_deleted\<close> is not kept apart.
\<close>

definition append_send_buffer :: "byte list \<Rightarrow> 'w peer \<Rightarrow> 'w peer" where
  "append_send_buffer bs s = (if m_delete_flag s then s else s\<lparr>sent := sent s @ bs\<rparr>)"

definition SendPacket :: "string \<Rightarrow> 'w peer \<Rightarrow> 'w peer" where
  "SendPacket data s =
     (if m_using_encryption s then
        (let (bs, ctx) = gs_peerchat (m_crypt_key_out s) (bytes_of data)
         in append_send_buffer bs (s\<lparr>m_crypt_key_out := ctx\<rparr>))
      else append_send_buffer (bytes_of data) s)"

definition setw3 :: "nat \<Rightarrow> string" where
  "setw3 n = (let d = dec_nat n in replicate (3 - length d) (CHR ''0'') @ d)"

definition send_numeric :: "'r env \<Rightarrow> nat \<Rightarrow> string \<Rightarrow> bool \<Rightarrow> string \<Rightarrow> bool \<Rightarrow> string \<Rightarrow> 'w peer \<Rightarrow> 'w peer" where
  "send_numeric E num str no_colon target_name append_name default_name s =
     (let own = (if nick (m_user_details s) \<noteq> [] then nick (m_user_details s) else default_name);
          name = (if target_name = [] then own else if append_name then own @ '' '' @ target_name else target_name)
      in SendPacket ('':'' @ server_name E @ '' '' @ setw3 num @ '' '' @ name @ '' '' @
           (if no_colon then [] else '':'') @ str @ crlf) s)"

definition ToIRCString :: "'r env \<Rightarrow> UserSummary \<Rightarrow> bool \<Rightarrow> string" where
  "ToIRCString E u address_visible =
     nick u @ ''!'' @ username u @ ''@'' @ (if address_visible then inet_ntop E (ip (address u)) else ''*'')"

definition IsUserAddressVisible :: "i32 \<Rightarrow> 'w peer \<Rightarrow> bool option" where
  "IsUserAddressVisible user s =
     (if has (GetOperFlags s) (oper OPERPRIVS_GLOBALOWNER) then Some True
      else find_item (\<lambda>i. vis_user i = user) (visibility_list s))"

definition send_message :: "'r env \<Rightarrow> string \<Rightarrow> string \<Rightarrow> UserSummary \<Rightarrow> string \<Rightarrow> string \<Rightarrow> bool \<Rightarrow> 'w peer \<Rightarrow> 'w peer option" where
  "send_message E messageType content from to target no_colon s =
     (if has (modeflags (m_user_details s)) (um EUserMode_Quiet) then Some s
      else do {
        from_string \<leftarrow> (if uid from = 0 then Some (server_name E)
          else map_option (ToIRCString E from) (IsUserAddressVisible (uid from) s));
        Some (SendPacket ('':'' @ from_string @ '' '' @ messageType @
          (if to \<noteq> [] then '' '' @ to else []) @ (if target \<noteq> [] then '' '' @ target else []) @
          (if content \<noteq> [] then '' '' @ (if no_colon then [] else '':'') @ content else []) @ crlf) s)
      })"

text \<open>The flag is set before the line is sent, so the line never goes out.\<close>

definition Delete_peer :: "'r env \<Rightarrow> bool \<Rightarrow> string \<Rightarrow> 'w peer \<Rightarrow> 'w peer" where
  "Delete_peer E timeout reason s =
     (if m_delete_flag s then s
      else SendPacket (''ERROR: Closing Link: '' @ server_name E @ '' ('' @ reason @ '')'' @ crlf)
        (s\<lparr>m_timeout_flag := timeout, m_delete_flag := True, m_quit_reason := reason\<rparr>))"

definition OnRecvDirectMsg :: "'r env \<Rightarrow> UserSummary \<Rightarrow> string \<Rightarrow> string \<Rightarrow> 'w peer \<Rightarrow> 'w peer option" where
  "OnRecvDirectMsg E from msg type s =
     send_message E type msg from (UserSummary_ToString E from False) (nick (m_user_details s)) False s"

definition send_no_such_target_error :: "'r env \<Rightarrow> string \<Rightarrow> 'w peer \<Rightarrow> 'w peer" where
  "send_no_such_target_error E channel = send_numeric E 401 ''No such nick/channel'' False channel True ''*''"

definition send_flood_warning :: "'r env \<Rightarrow> 'w peer \<Rightarrow> 'w peer option" where
  "send_flood_warning E s =
     send_message E ''PRIVMSG'' (''Excess Flood: '' @ dec_int (m_flood_weight s)) (server_userSummary E)
       (nick (m_user_details s)) [] False s"

section \<open>Registration\<close>

definition refresh_user_details :: "bool \<Rightarrow> 'w peer \<Rightarrow> 'w peer" where
  "refresh_user_details user_registration s =
     add_task EPeerchatRequestType_SetUserDetails
       (new_request\<lparr>req_summary := m_user_details s,
          req_callback := if user_registration then Callback ''OnUserRegistered'' else Callback_null\<rparr>) s"

definition OnUserMaybeRegistered :: "'w peer \<Rightarrow> 'w peer" where
  "OnUserMaybeRegistered s =
     (if nick (m_user_details s) = [] \<or> username (m_user_details s) = [] \<or> m_sent_client_init s then s
      else add_task EPeerchatRequestType_LookupGlobalUsermode
        (new_request\<lparr>req_summary := m_user_details s, req_callback := Callback ''OnLookupGlobalUsermode''\<rparr>)
        (s\<lparr>m_sent_client_init := True\<rparr>))"

definition OnLookupGlobalUsermode :: "'r env \<Rightarrow> i32 \<Rightarrow> 'w peer \<Rightarrow> 'w peer" where
  "OnLookupGlobalUsermode E flags s =
     (if has flags (uc EUserChannelFlag_Banned) then Delete_peer E False ''KILLED - KLINE'' s
      else refresh_user_details True
        (if has flags (uc EUserChannelFlag_Gagged) then
           s\<lparr>m_user_details := (m_user_details s)\<lparr>modeflags := modeflags (m_user_details s) OR um EUserMode_Gagged\<rparr>\<rparr>
         else s))"

definition OnUserRegistered :: "'r env \<Rightarrow> UserSummary \<Rightarrow> 'w peer \<Rightarrow> 'w peer" where
  "OnUserRegistered E summary s =
     (let num = (\<lambda>n str no_colon. send_numeric E n str no_colon [] True ''*'') in
      fold (\<lambda>(n, str, no_colon). num n str no_colon)
        [(1, ''Welcome to the '' @ server_name E @ '' '' @ nick summary, False),
         (2, ''Your host is '' @ server_name E @ '', running version 1.0'', False),
         (3, ''This server was created Fri Oct 19 1979 at 21:50:00 PDT'', False),
         (4, ''s 1.0 iq biklmnopqustvhe'', True),
         (375, ''- (M) Message of the day - '', False),
         (372, ''- Welcome to GameSpy'', False),
         (376, ''End of MOTD command'', False),
         (377, ''Your backend ID is '' @ dec_int (uid summary), False)]
        (s\<lparr>m_user_details := summary\<rparr>))"

section \<open>Timers\<close>

definition PEERCHAT_PING_TIMEOUT_TIME :: int where "PEERCHAT_PING_TIMEOUT_TIME = 300"
definition PEERCHAT_PING_INTERVAL :: int where "PEERCHAT_PING_INTERVAL = 120"
definition PEERCHAT_MIN_KEEPALIVE :: int where "PEERCHAT_MIN_KEEPALIVE = 30"
definition MAX_FLOOD_WEIGHT :: int where "MAX_FLOOD_WEIGHT = 10000"
definition FLOOD_DECR_PER_TICK :: i32 where "FLOOD_DECR_PER_TICK = 25"
definition WARNING_FLOOD_WEIGHT_THRESHOLD :: int where "WARNING_FLOOD_WEIGHT_THRESHOLD = 5500"
definition REGISTRATION_TIMEOUT :: int where "REGISTRATION_TIMEOUT = 60"
definition ACCUMULATOR_MAX_BYTES :: nat where "ACCUMULATOR_MAX_BYTES = 1024"

text \<open>\<open>now\<close> is the monotonic clock in seconds, \<open>ping_key\<close> the random text.\<close>

definition send_ping :: "int \<Rightarrow> string \<Rightarrow> 'w peer \<Rightarrow> 'w peer" where
  "send_ping time ping_key s =
     (if time - m_last_sent_ping s > PEERCHAT_PING_INTERVAL then
        SendPacket (''PING  :'' @ ping_key @ crlf) (s\<lparr>m_last_sent_ping := time\<rparr>)
      else s)"

definition perform_keepalive :: "int \<Rightarrow> 'w peer \<Rightarrow> 'w peer" where
  "perform_keepalive time s =
     (if time - m_last_keepalive s > PEERCHAT_MIN_KEEPALIVE then
        add_task EPeerchatRequestType_KeepaliveUser
          (new_request\<lparr>req_summary := m_user_details s, req_channel_flags := m_channel_flags s, req_callback := Callback_null\<rparr>)
          (s\<lparr>m_last_keepalive := time\<rparr>)
      else s)"

definition think :: "'r env \<Rightarrow> int \<Rightarrow> string \<Rightarrow> 'w peer \<Rightarrow> 'w peer" where
  "think E time ping_key s =
     (if m_delete_flag s then s
      else
        let s1 = perform_keepalive time (send_ping time ping_key s) in
        if \<not> has (GetOperFlags s1) (oper OPERPRIVS_FLOODEXCEMPT) \<and> sint (m_flood_weight s1) \<ge> MAX_FLOOD_WEIGHT
        then Delete_peer E False ''Excess flood'' s1
        else
          let w = (if sint (m_flood_weight s1) > 0 then m_flood_weight s1 - FLOOD_DECR_PER_TICK else m_flood_weight s1);
              s2 = s1\<lparr>m_flood_weight := if sint w < 0 then 0 else w\<rparr>
          in if time - m_connect_time s2 > REGISTRATION_TIMEOUT \<and> \<not> m_sent_client_init s2
             then Delete_peer E True ''Registration Timeout'' s2
             else if time - m_last_recv s2 > PEERCHAT_PING_TIMEOUT_TIME
             then Delete_peer E True ''Ping Timeout'' s2
             else s2)"


section \<open>Channel flags and address visibility\<close>

text \<open>\<open>alloc\<close> is the free-store: an address that is not in use.\<close>

definition AddUserToAddressVisbilityList ::
  "(UserAddressVisibiltyInfo memory \<Rightarrow> nat) \<Rightarrow> i32 \<Rightarrow> i32 \<Rightarrow> 'w peer \<Rightarrow> 'w peer option" where
  "AddUserToAddressVisbilityList alloc user chan s =
     map_option (\<lambda>l. s\<lparr>visibility_list := l\<rparr>)
       (add_item alloc \<lparr>vis_user = user, vis_channel = chan\<rparr> (visibility_list s))"

definition remove_visible :: "(UserAddressVisibiltyInfo \<Rightarrow> bool) \<Rightarrow> 'w peer \<Rightarrow> 'w peer option" where
  "remove_visible P s =
     map_option (\<lambda>l. s\<lparr>visibility_list := l\<rparr>) (remove_items P (visibility_list s))"

definition RemoveUserAddressVisibility_ByChannel :: "i32 \<Rightarrow> 'w peer \<Rightarrow> 'w peer option" where
  "RemoveUserAddressVisibility_ByChannel chan = remove_visible (\<lambda>i. vis_channel i = chan)"

definition RemoveUserAddressVisibility_ByChannelUser :: "i32 \<Rightarrow> i32 \<Rightarrow> 'w peer \<Rightarrow> 'w peer option" where
  "RemoveUserAddressVisibility_ByChannelUser user chan =
     remove_visible (\<lambda>i. vis_channel i = chan \<and> vis_user i = user)"

definition RemoveUserAddressVisibility_ByUser :: "i32 \<Rightarrow> 'w peer \<Rightarrow> 'w peer option" where
  "RemoveUserAddressVisibility_ByUser user = remove_visible (\<lambda>i. vis_user i = user)"

text \<open>The callback used is that for one user, and the user of the iteration's state stays 0.\<close>

definition PurgeUserAddressVisibility :: "'w peer \<Rightarrow> 'w peer option" where
  "PurgeUserAddressVisibility = remove_visible (\<lambda>i. vis_user i = 0)"

definition GetChannelFlags :: "i32 \<Rightarrow> 'w peer \<Rightarrow> i32" where
  "GetChannelFlags chan s = (case smap_find (m_channel_flags s) (sint chan) of None \<Rightarrow> 0 | Some f \<Rightarrow> f)"

definition GetChannels :: "'w peer \<Rightarrow> int list" where
  "GetChannels s = map fst (m_channel_flags s)"

definition RefreshUserAddressVisibility_ByChannel :: "i32 \<Rightarrow> 'w peer \<Rightarrow> 'w peer" where
  "RefreshUserAddressVisibility_ByChannel chan =
     add_task EPeerchatRequestType_LookupChannelDetails
       (new_request\<lparr>req_channel_id := chan, req_callback := Callback ''OnLookup_RefreshUserAddressVisibility_ByChannel''\<rparr>)"

text \<open>The answer to that request: the channel's users as the task found them.\<close>

fun OnLookup_RefreshUserAddressVisibility_ByChannel ::
  "(UserAddressVisibiltyInfo memory \<Rightarrow> nat) \<Rightarrow> ChannelUserSummary list \<Rightarrow> i32 \<Rightarrow> 'w peer \<Rightarrow> 'w peer option" where
  "OnLookup_RefreshUserAddressVisibility_ByChannel alloc [] cid s = Some s"
| "OnLookup_RefreshUserAddressVisibility_ByChannel alloc (u # us) cid s =
     do {
       s' \<leftarrow> (if uid (userSummary u) \<noteq> GetBackendId s
         then AddUserToAddressVisbilityList alloc (uid (userSummary u)) cid s else Some s);
       OnLookup_RefreshUserAddressVisibility_ByChannel alloc us cid s'
     }"

definition SetChannelFlags :: "i32 \<Rightarrow> i32 \<Rightarrow> 'w peer \<Rightarrow> 'w peer option" where
  "SetChannelFlags chan mode_flags s =
     (let current_modelevel = GetUserChannelModeLevel (GetChannelFlags chan s);
          modelevel = GetUserChannelModeLevel mode_flags;
          s1 = s\<lparr>m_channel_flags := smap_put (sint chan) mode_flags (m_channel_flags s)\<rparr>
      in if current_modelevel \<le> 1 \<and> modelevel > 1 then Some (RefreshUserAddressVisibility_ByChannel chan s1)
         else if modelevel \<le> 1 then RemoveUserAddressVisibility_ByChannel chan s1
         else Some s1)"

text \<open>The flags themselves, not their level, are compared with the level of the other user.\<close>

definition OnSetExternalUserChanModeFlags ::
  "(UserAddressVisibiltyInfo memory \<Rightarrow> nat) \<Rightarrow> i32 \<Rightarrow> i32 \<Rightarrow> i32 \<Rightarrow> 'w peer \<Rightarrow> 'w peer option" where
  "OnSetExternalUserChanModeFlags alloc user chan flags s =
     (let current = GetChannelFlags chan s; has_op = GetUserChannelModeLevel current > 1 in
      if has flags (uc EUserChannelFlag_IsInChannel) \<and> has current (uc EUserChannelFlag_IsInChannel) \<and> has_op
         \<and> sint current \<ge> int (GetUserChannelModeLevel flags)
      then AddUserToAddressVisbilityList alloc user chan s
      else if \<not> has flags (uc EUserChannelFlag_IsInChannel)
      then RemoveUserAddressVisibility_ByChannelUser user chan s
      else Some s)"

section \<open>Reading commands\<close>

record CommandEntry =
  ce_name :: string
  login_required :: bool
  minimum_args :: nat
  required_operflags :: i32
  weight :: i32

definition entry :: "string \<Rightarrow> bool \<Rightarrow> nat \<Rightarrow> i32 \<Rightarrow> i32 \<Rightarrow> CommandEntry" where
  "entry n login args flags w =
     \<lparr>ce_name = n, login_required = login, minimum_args = args, required_operflags = flags, weight = w\<rparr>"

definition m_commands :: "CommandEntry list" where
  "m_commands =
    [entry ''CRYPT'' False 3 0 50, entry ''NICK'' False 1 0 150, entry ''REGISTERNICK'' False 1 0 150,
     entry ''USER'' False 4 0 50, entry ''PING'' False 0 0 50, entry ''PONG'' False 0 0 50,
     entry ''CDKEY'' False 1 0 50, entry ''OPER'' False 3 0 250, entry ''LOGIN'' False 3 0 250,
     entry ''LOGINPREAUTH'' False 2 0 250, entry ''PRIVMSG'' True 2 0 50, entry ''NOTICE'' True 2 0 50,
     entry ''UTM'' True 2 0 50, entry ''ATM'' True 2 0 50, entry ''JOIN'' True 1 0 100, entry ''PART'' True 1 0 50,
     entry ''QUIT'' False 1 0 50, entry ''MODE'' True 1 0 100, entry ''NAMES'' True 1 0 50,
     entry ''USRIP'' False 0 0 50, entry ''USERHOST'' False 0 0 50, entry ''TOPIC'' True 1 0 100,
     entry ''LIST'' True 0 0 300, entry ''LISTLIMIT'' True 2 0 300, entry ''WHOIS'' True 1 0 100,
     entry ''WHO'' True 1 0 50, entry ''SETCKEY'' True 3 0 10, entry ''GETCKEY'' True 5 0 10,
     entry ''SETCHANKEY'' True 2 0 10, entry ''GETCHANKEY'' True 4 0 10, entry ''SETKEY'' True 1 0 10,
     entry ''GETKEY'' True 4 0 10, entry ''KICK'' True 2 0 200, entry ''SETGROUP'' True 2 0 100,
     entry ''LUSERS'' True 0 (oper OPERPRIVS_LISTOPERS) 50, entry ''KILL'' True 2 (oper OPERPRIVS_KILL) 50,
     entry ''SETUSERMODE'' True 2 (oper OPERPRIVS_GLOBALOWNER) 50, entry ''DELUSERMODE'' True 1 (oper OPERPRIVS_GLOBALOWNER) 50,
     entry ''LISTUSERMODES'' True 1 (oper OPERPRIVS_GLOBALOWNER) 50, entry ''LISTCHANPROPS'' True 1 (oper OPERPRIVS_GLOBALOWNER) 50,
     entry ''SETCHANPROPS'' True 1 (oper OPERPRIVS_GLOBALOWNER) 50, entry ''DELCHANPROPS'' True 1 (oper OPERPRIVS_GLOBALOWNER) 50]"

text \<open>The handler of a command gets the words of the line; \<open>None\<close> is undefined behaviour or an exception.\<close>

type_synonym 'w handlers = "string \<Rightarrow> string list \<Rightarrow> 'w peer \<Rightarrow> 'w peer option"

definition may_run :: "CommandEntry \<Rightarrow> 'w peer \<Rightarrow> bool" where
  "may_run e s \<longleftrightarrow>
     \<not> (login_required e \<and> (GetBackendId s = 0 \<or> \<not> m_sent_client_init s))
     \<and> (required_operflags e = 0 \<or> has (GetOperFlags s) (required_operflags e))"

definition run_command :: "'r env \<Rightarrow> 'w handlers \<Rightarrow> CommandEntry \<Rightarrow> string \<Rightarrow> string list \<Rightarrow> 'w peer \<Rightarrow> 'w peer option" where
  "run_command E hs e upper items s =
     (if \<not> may_run e s then Some (send_numeric E 421 (upper @ '' :Unknown Command'') True [] True ''*'' s)
      else if length items \<ge> minimum_args e + 1 then
        (let s1 = s\<lparr>m_flood_weight := m_flood_weight s + weight e\<rparr> in
         do {
           s2 \<leftarrow> (if sint (m_flood_weight s1) \<ge> WARNING_FLOOD_WEIGHT_THRESHOLD then send_flood_warning E s1 else Some s1);
           hs (ce_name e) items s2
         })
      else Some (send_numeric E 461 (upper @ '' :Not enough parameters'') True [] True ''*'' s))"

definition handle_command :: "'r env \<Rightarrow> 'w handlers \<Rightarrow> string \<Rightarrow> 'w peer \<Rightarrow> 'w peer option" where
  "handle_command E hs input s =
     do {
       items \<leftarrow> KeyStringToVector input False (CHR '' '');
       (case items of [] \<Rightarrow> Some s
        | command # _ \<Rightarrow>
          (let upper = map toupper command in
           case find (\<lambda>e. ce_name e = upper) m_commands of
             Some e \<Rightarrow> run_command E hs e upper items s
           | None \<Rightarrow> Some (send_numeric E 421 (upper @ '' :Unknown Command'') True [] True ''*'' s)))
     }"

fun run_lines :: "'r env \<Rightarrow> 'w handlers \<Rightarrow> string list \<Rightarrow> 'w peer \<Rightarrow> 'w peer option" where
  "run_lines E hs [] s = Some s"
| "run_lines E hs (l # ls) s =
     (if m_delete_flag s then Some s
      else do { s' \<leftarrow> handle_command E hs (strip_whitespace l False) s; run_lines E hs ls s' })"

definition handle_commands :: "'r env \<Rightarrow> 'w handlers \<Rightarrow> string \<Rightarrow> 'w peer \<Rightarrow> 'w peer option" where
  "handle_commands E hs input s =
     do { commands \<leftarrow> KeyStringToVector input False (CHR 0x0A); run_lines E hs commands s }"

text \<open>The loop over what was received: each piece up to a newline is handled with what was left before it.\<close>

function read_loop :: "'r env \<Rightarrow> 'w handlers \<Rightarrow> string \<Rightarrow> 'w peer \<Rightarrow> 'w peer option" where
  "read_loop E hs p s =
     (if p = [] then Some s
      else if CHR 0x0A \<in> set p then
        (let line = takeWhile (\<lambda>c. c \<noteq> CHR 0x0A) p @ [CHR 0x0A] in
         do {
           s' \<leftarrow> handle_commands E hs (m_accumulator_buffer s @ line) (s\<lparr>m_accumulator_buffer := []\<rparr>);
           read_loop E hs (drop (length line) p) s'
         })
      else Some (s\<lparr>m_accumulator_buffer := m_accumulator_buffer s @ p\<rparr>))"
  by pat_completeness auto
termination by (relation "measure (\<lambda>(E, hs, p, s). length p)") auto

declare read_loop.simps [simp del]

definition decrypt_input :: "byte list \<Rightarrow> 'w peer \<Rightarrow> string \<times> 'w peer" where
  "decrypt_input data s =
     (if m_using_encryption s then
        (let (bs, ctx) = gs_peerchat (m_crypt_key_in s) data in (string_of bs, s\<lparr>m_crypt_key_in := ctx\<rparr>))
      else (string_of data, s))"

definition on_stream_read :: "'r env \<Rightarrow> 'w handlers \<Rightarrow> int \<Rightarrow> byte list \<Rightarrow> 'w peer \<Rightarrow> 'w peer option" where
  "on_stream_read E hs time data s =
     (let (p, s1) = decrypt_input data (s\<lparr>m_last_recv := time\<rparr>) in
      do {
        s2 \<leftarrow> read_loop E hs p s1;
        Some (if length (m_accumulator_buffer s2) > ACCUMULATOR_MAX_BYTES then Delete_peer E False ''Excess flood'' s2 else s2)
      })"

section \<open>Address visibility as a set\<close>

datatype vis_event =
    Vis_add i32 i32
  | Vis_drop_channel i32
  | Vis_drop_channel_user i32 i32
  | Vis_drop_user i32
  | Vis_purge

primrec vis_step :: "(UserAddressVisibiltyInfo memory \<Rightarrow> nat) \<Rightarrow> vis_event \<Rightarrow> 'w peer \<Rightarrow> 'w peer option" where
  "vis_step alloc (Vis_add user chan) s = AddUserToAddressVisbilityList alloc user chan s"
| "vis_step alloc (Vis_drop_channel chan) s = RemoveUserAddressVisibility_ByChannel chan s"
| "vis_step alloc (Vis_drop_channel_user user chan) s = RemoveUserAddressVisibility_ByChannelUser user chan s"
| "vis_step alloc (Vis_drop_user user) s = RemoveUserAddressVisibility_ByUser user s"
| "vis_step alloc Vis_purge s = PurgeUserAddressVisibility s"

fun vis_run :: "(UserAddressVisibiltyInfo memory \<Rightarrow> nat) \<Rightarrow> vis_event list \<Rightarrow> 'w peer \<Rightarrow> 'w peer option" where
  "vis_run alloc [] s = Some s"
| "vis_run alloc (e # es) s = do { s' \<leftarrow> vis_step alloc e s; vis_run alloc es s' }"

text \<open>What the list stands for: a set of users and channels.\<close>

primrec vis_after :: "vis_event \<Rightarrow> (i32 \<times> i32) set \<Rightarrow> (i32 \<times> i32) set" where
  "vis_after (Vis_add user chan) V = insert (user, chan) V"
| "vis_after (Vis_drop_channel chan) V = {(u, c) \<in> V. c \<noteq> chan}"
| "vis_after (Vis_drop_channel_user user chan) V = V - {(user, chan)}"
| "vis_after (Vis_drop_user user) V = {(u, c) \<in> V. u \<noteq> user}"
| "vis_after Vis_purge V = {(u, c) \<in> V. u \<noteq> 0}"

primrec vis_op :: "vis_event \<Rightarrow> UserAddressVisibiltyInfo item_op" where
  "vis_op (Vis_add user chan) = Add_item \<lparr>vis_user = user, vis_channel = chan\<rparr>"
| "vis_op (Vis_drop_channel chan) = Drop_items (\<lambda>i. vis_channel i = chan)"
| "vis_op (Vis_drop_channel_user user chan) = Drop_items (\<lambda>i. vis_channel i = chan \<and> vis_user i = user)"
| "vis_op (Vis_drop_user user) = Drop_items (\<lambda>i. vis_user i = user)"
| "vis_op Vis_purge = Drop_items (\<lambda>i. vis_user i = 0)"

definition pairs_of :: "UserAddressVisibiltyInfo list \<Rightarrow> (i32 \<times> i32) set" where
  "pairs_of xs = (\<lambda>i. (vis_user i, vis_channel i)) ` set xs"

lemma vis_run_items:
  "vis_run alloc es s = map_option (\<lambda>l. s\<lparr>visibility_list := l\<rparr>)
     (item_run (add_item alloc) remove_items (map vis_op es) (visibility_list s))"
proof (induction es arbitrary: s)
  case (Cons e es)
  then show ?case
    by (cases e) (auto simp: AddUserToAddressVisbilityList_def RemoveUserAddressVisibility_ByChannel_def
        RemoveUserAddressVisibility_ByChannelUser_def RemoveUserAddressVisibility_ByUser_def
        PurgeUserAddressVisibility_def remove_visible_def bind_map_option comp_def map_option_bind
        split: bind_splits)
qed simp

lemma pairs_of_spec: "pairs_of (item_spec (map vis_op es) xs) = fold vis_after es (pairs_of xs)"
proof (induction es arbitrary: xs)
  case (Cons e es)
  show ?case
  proof (cases e)
    case (Vis_add u c)
    then show ?thesis by (simp add: Cons.IH) (simp add: pairs_of_def)
  qed (simp_all add: Cons.IH, auto simp: pairs_of_def image_iff intro!: arg_cong [where f = "fold vis_after es"])
qed simp



lemma IsUserAddressVisible_items:
  "heap_rep (visibility_list s) xs \<Longrightarrow>
     IsUserAddressVisible user s =
       Some (has (GetOperFlags s) (oper OPERPRIVS_GLOBALOWNER) \<or> user \<in> fst ` pairs_of xs)"
  using next_free.items.member [of "visibility_list s" xs "\<lambda>i. vis_user i = user"]
  by (auto simp: IsUserAddressVisible_def pairs_of_def image_image image_iff)

lemma vis_run_set:
  assumes "allocator alloc" "heap_rep (visibility_list s) xs"
  shows "\<exists>l ys. vis_run alloc es s = Some (s\<lparr>visibility_list := l\<rparr>) \<and> heap_rep l ys
    \<and> pairs_of ys = fold vis_after es (pairs_of xs)"
proof -
  obtain l where "item_run (add_item alloc) remove_items (map vis_op es) (visibility_list s) = Some l"
    "heap_rep l (item_spec (map vis_op es) xs)"
    using allocator.run_items [OF assms] by blast
  then show ?thesis by (auto simp: vis_run_items pairs_of_spec intro!: exI [of _ l])
qed

lemma refresh_set:
  assumes "allocator alloc"
  shows "heap_rep (visibility_list s) xs \<Longrightarrow>
    \<exists>l ys. OnLookup_RefreshUserAddressVisibility_ByChannel alloc us chan s = Some (s\<lparr>visibility_list := l\<rparr>) \<and> heap_rep l ys
    \<and> pairs_of ys = pairs_of xs \<union> {(uid (userSummary u), chan) | u. u \<in> set us \<and> uid (userSummary u) \<noteq> GetBackendId s}"
proof (induction us arbitrary: s xs)
  case Nil
  then show ?case by (auto intro!: exI [of _ "visibility_list s"] exI [of _ xs])
next
  case (Cons u us)
  let ?u = "uid (userSummary u)"
  show ?case
  proof (cases "?u = GetBackendId s")
    case True
    from Cons.IH [OF Cons.prems] True show ?thesis by (auto; blast)
  next
    case False
    obtain l ys where l: "AddUserToAddressVisbilityList alloc ?u chan s = Some (s\<lparr>visibility_list := l\<rparr>)"
      "heap_rep l ys" "pairs_of ys = insert (?u, chan) (pairs_of xs)"
      using vis_run_set [OF assms Cons.prems, of "[Vis_add ?u chan]"] by (auto split: bind_splits)
    have "heap_rep (visibility_list (s\<lparr>visibility_list := l\<rparr>)) ys" using l(2) by simp
    from Cons.IH [OF this] False l(1,3) show ?thesis
      by (fastforce simp: GetBackendId_def)
  qed
qed

lemma smap_find_put_same: "smap_find (smap_put k v m) k = Some v"
  unfolding smap_find_def by (induction k v m rule: smap_put.induct) auto

lemma SetChannelFlags_set:
  assumes "heap_rep (visibility_list s) xs"
  shows "\<exists>s' ys. SetChannelFlags chan flags s = Some s' \<and> heap_rep (visibility_list s') ys \<and> GetChannelFlags chan s' = flags
    \<and> m_user_details s' = m_user_details s"
proof -
  obtain l where "remove_items (\<lambda>i. vis_channel i = chan) (visibility_list s) = Some l"
    "heap_rep l (filter (\<lambda>i. vis_channel i \<noteq> chan) xs)"
    using next_free.items.drop_if [OF assms, of "\<lambda>i. vis_channel i = chan"] by auto
  then show ?thesis using assms
    by (auto simp: SetChannelFlags_def Let_def RemoveUserAddressVisibility_ByChannel_def remove_visible_def
        RefreshUserAddressVisibility_ByChannel_def add_task_def GetChannelFlags_def smap_find_put_same)
qed


section \<open>Properties\<close>

definition no_items :: "'v heap" where
  "no_items = \<lparr>mp_head = None, mem = Map.empty\<rparr>"

text \<open>C38. Whatever users and channels are added to the list of visible addresses and taken out again, in
  any order, the peer never uses an item that was deleted, and sees the address of exactly those users that
  the same changes leave in a set of pairs (or of all users, as a global owner).\<close>

theorem visibility_is_a_set:
  assumes "allocator alloc" and "visibility_list s = no_items"
  shows "\<exists>s'. vis_run alloc es s = Some s' \<and> s' = s\<lparr>visibility_list := visibility_list s'\<rparr>
    \<and> IsUserAddressVisible user s' = Some (has (GetOperFlags s) (oper OPERPRIVS_GLOBALOWNER)
        \<or> user \<in> fst ` fold vis_after es {})"
proof -
  have "heap_rep (visibility_list s) []" using assms(2) heap_rep_empty by (simp add: no_items_def)
  moreover have "pairs_of [] = {}" by (simp add: pairs_of_def)
  ultimately obtain l ys where l: "vis_run alloc es s = Some (s\<lparr>visibility_list := l\<rparr>)"
    "heap_rep l ys" "pairs_of ys = fold vis_after es {}" using vis_run_set [OF assms(1)] by metis
  have "heap_rep (visibility_list (s\<lparr>visibility_list := l\<rparr>)) ys" using l(2) by simp
  from IsUserAddressVisible_items [OF this] l show ?thesis by (simp add: GetOperFlags_def)
qed

definition demo_peer :: "unit peer" where
  "demo_peer = \<lparr>m_user_details = new_user\<lparr>uid := 2, nick := ''hal''\<rparr>, m_uniquenick = [], m_profileid = 0, m_sent_client_init = True, m_using_encryption = False,
     m_crypt_key_in = \<lparr>gs_peerchat_1 = 0, gs_peerchat_2 = 0, gs_peerchat_crypt = []\<rparr>,
     m_crypt_key_out = \<lparr>gs_peerchat_1 = 0, gs_peerchat_2 = 0, gs_peerchat_crypt = []\<rparr>,
     m_accumulator_buffer = [], m_flood_weight = 0, m_delete_flag = False, m_timeout_flag = False, m_quit_reason = [],
     m_last_recv = 0, m_last_sent_ping = 0, m_connect_time = 0, m_last_keepalive = 0, m_channel_flags = [],
     visibility_list = no_items, task_queue = idle, account_tasks = [], sent = [], beside = ()\<rparr>"

lemma demo_peer_simps [simp]:
  "visibility_list demo_peer = no_items" "GetBackendId demo_peer = 2" "GetOperFlags demo_peer = 0"
  "m_channel_flags demo_peer = []"
  by (simp_all add: demo_peer_def GetBackendId_def GetOperFlags_def new_user_def)

theorem visibility_is_a_set_witness:
  "\<exists>s'. vis_run next_free [Vis_add 5 1, Vis_add 6 1, Vis_drop_user 5] demo_peer = Some s'
    \<and> IsUserAddressVisible 6 s' = Some True \<and> IsUserAddressVisible 5 s' = Some False"
proof -
  let ?es = "[Vis_add 5 1, Vis_add 6 1, Vis_drop_user 5]"
  note * = visibility_is_a_set [OF next_free.allocator_axioms, where s = demo_peer and es = ?es]
  from * [of 6] * [of 5] show ?thesis by (auto simp: image_iff)
qed

text \<open>A peer that is given operator rank in a channel and loses it again before the list of the channel's
  users arrives still sees the addresses of all those users: the answer is not checked against the rank.\<close>

theorem visibility_outlives_rank:
  assumes "allocator alloc" and "visibility_list s = no_items"
    and "GetUserChannelModeLevel f > 1" and "GetUserChannelModeLevel g \<le> 1"
    and "u \<in> set us" and "uid (userSummary u) \<noteq> GetBackendId s"
  shows "\<exists>s1 s2 s3. SetChannelFlags chan f s = Some s1 \<and> SetChannelFlags chan g s1 = Some s2
    \<and> OnLookup_RefreshUserAddressVisibility_ByChannel alloc us chan s2 = Some s3
    \<and> GetUserChannelModeLevel (GetChannelFlags chan s3) \<le> 1
    \<and> IsUserAddressVisible (uid (userSummary u)) s3 = Some True"
proof -
  have "heap_rep (visibility_list s) []" using assms(2) heap_rep_empty by (simp add: no_items_def)
  from SetChannelFlags_set [OF this] obtain s1 xs where s1: "SetChannelFlags chan f s = Some s1"
    "heap_rep (visibility_list s1) xs" "m_user_details s1 = m_user_details s" by blast
  from SetChannelFlags_set [OF s1(2)] obtain s2 ys where s2: "SetChannelFlags chan g s1 = Some s2"
    "heap_rep (visibility_list s2) ys" "GetChannelFlags chan s2 = g" "m_user_details s2 = m_user_details s1" by blast
  from refresh_set [OF assms(1) s2(2)] obtain l zs where
    s3: "OnLookup_RefreshUserAddressVisibility_ByChannel alloc us chan s2 = Some (s2\<lparr>visibility_list := l\<rparr>)"
    "heap_rep l zs" "pairs_of zs = pairs_of ys \<union> {(uid (userSummary u), chan) | u. u \<in> set us \<and> uid (userSummary u) \<noteq> GetBackendId s2}"
    by blast
  have "(uid (userSummary u), chan) \<in> pairs_of zs" using assms(5,6) s1(3) s2(4) s3(3) by (auto simp: GetBackendId_def)
  then have "uid (userSummary u) \<in> fst ` pairs_of zs" by force
  then have "IsUserAddressVisible (uid (userSummary u)) (s2\<lparr>visibility_list := l\<rparr>) = Some True"
    using IsUserAddressVisible_items [of "s2\<lparr>visibility_list := l\<rparr>" zs "uid (userSummary u)"] s3(2) by simp
  moreover have "GetChannelFlags chan (s2\<lparr>visibility_list := l\<rparr>) = g" using s2(3) by (simp add: GetChannelFlags_def)
  ultimately show ?thesis using s1(1) s2(1) s3(1) assms(4) by auto
qed

definition demo_entry :: ChannelUserSummary where
  "demo_entry = \<lparr>cu_channel_id = 1, cu_user_id = 5, cu_modeflags = 0, userSummary = new_user\<lparr>uid := 5\<rparr>\<rparr>"

theorem visibility_outlives_rank_witness:
  "\<exists>s1 s2 s3. SetChannelFlags 1 (uc EUserChannelFlag_Op) demo_peer = Some s1 \<and> SetChannelFlags 1 0 s1 = Some s2
    \<and> OnLookup_RefreshUserAddressVisibility_ByChannel next_free [demo_entry] 1 s2 = Some s3
    \<and> IsUserAddressVisible 5 s3 = Some True"
  using visibility_outlives_rank [OF next_free.allocator_axioms, where s = demo_peer and us = "[demo_entry]" and u = demo_entry
      and f = "uc EUserChannelFlag_Op" and g = 0 and chan = 1]
  by (fastforce simp: GetUserChannelModeLevel_def demo_entry_def)

section \<open>Which handlers can run\<close>

text \<open>The commands of the table that a peer may use in its present state.\<close>

definition open_commands :: "string set" where
  "open_commands = {''CRYPT'', ''NICK'', ''REGISTERNICK'', ''USER'', ''PING'', ''PONG'', ''CDKEY'', ''OPER'', ''LOGIN'',
     ''LOGINPREAUTH'', ''QUIT'', ''USRIP'', ''USERHOST''}"

definition user_commands :: "string set" where
  "user_commands = {''PRIVMSG'', ''NOTICE'', ''UTM'', ''ATM'', ''JOIN'', ''PART'', ''MODE'', ''NAMES'', ''TOPIC'', ''LIST'',
     ''LISTLIMIT'', ''WHOIS'', ''WHO'', ''SETCKEY'', ''GETCKEY'', ''SETCHANKEY'', ''GETCHANKEY'', ''SETKEY'', ''GETKEY'',
     ''KICK'', ''SETGROUP''}"

definition owner_commands :: "string set" where
  "owner_commands = {''SETUSERMODE'', ''DELUSERMODE'', ''LISTUSERMODES'', ''LISTCHANPROPS'', ''SETCHANPROPS'', ''DELCHANPROPS''}"

definition allowed :: "'w peer \<Rightarrow> string set" where
  "allowed s = open_commands \<union>
     (if GetBackendId s \<noteq> 0 \<and> m_sent_client_init s then
        user_commands \<union> (if has (GetOperFlags s) (oper OPERPRIVS_LISTOPERS) then {''LUSERS''} else {})
          \<union> (if has (GetOperFlags s) (oper OPERPRIVS_KILL) then {''KILL''} else {})
          \<union> (if has (GetOperFlags s) (oper OPERPRIVS_GLOBALOWNER) then owner_commands else {})
      else {})"

lemma flag_nonzero: "n < 32 \<Longrightarrow> flag n \<noteq> 0"
  using has_simps(4) [of n n] by (auto simp del: has_simps(4) simp: has_def)

lemma m_commands_allowed: "list_all (\<lambda>e. may_run e s \<longrightarrow> ce_name e \<in> allowed s) m_commands"
  by (simp add: m_commands_def entry_def may_run_def allowed_def open_commands_def user_commands_def owner_commands_def flag_nonzero)

lemma find_allowed: "find P m_commands = Some e \<Longrightarrow> may_run e s \<Longrightarrow> ce_name e \<in> allowed s"
  using m_commands_allowed [of s] nth_mem by (fastforce simp: find_Some_iff list_all_iff)

text \<open>A handler runs only when the peer may use its command: whatever line is sent, the outcome is the same
  as with a table in which every other handler fails. Before registration only 13 commands can run, and the
  operators' commands only with the right they need.\<close>

theorem only_allowed_handlers_run:
  "handle_command E hs input s = handle_command E (\<lambda>name. if name \<in> allowed s then hs name else (\<lambda>_ _. None)) input s"
proof -
  let ?hs = "\<lambda>name. if name \<in> allowed s then hs name else (\<lambda>_ _. None)"
  have "run_command E hs e upper items s = run_command E ?hs e upper items s"
    if "find (\<lambda>e. ce_name e = name) m_commands = Some e" for name e upper items
    using find_allowed [OF that, of s] by (cases "may_run e s") (simp_all add: run_command_def)
  then show ?thesis
    by (cases "KeyStringToVector input False (CHR '' '')") (simp_all add: handle_command_def Let_def split: list.split option.split)
qed


section \<open>Reading a stream in pieces\<close>

text \<open>What the reading loop relies on: the handlers leave its own state alone.\<close>

locale reader_handlers =
  fixes hs :: "'w handlers"
  assumes crypt: "hs n items (s\<lparr>m_crypt_key_in := k\<rparr>) = map_option (\<lambda>t. t\<lparr>m_crypt_key_in := k\<rparr>) (hs n items s)"
    and kept: "hs n items s = Some t \<Longrightarrow> m_using_encryption t = m_using_encryption s
      \<and> m_accumulator_buffer t = m_accumulator_buffer s \<and> m_last_recv t = m_last_recv s"

definition reader_kept :: "'w peer \<Rightarrow> 'w peer \<Rightarrow> bool" where
  "reader_kept s t \<longleftrightarrow> m_using_encryption t = m_using_encryption s
     \<and> m_accumulator_buffer t = m_accumulator_buffer s \<and> m_last_recv t = m_last_recv s"

lemma reader_kept_refl [simp]: "reader_kept s s"
  by (simp add: reader_kept_def)

abbreviation with_key :: "gs_peerchat_ctx \<Rightarrow> 'w peer \<Rightarrow> 'w peer" where
  "with_key k s \<equiv> s\<lparr>m_crypt_key_in := k\<rparr>"

lemma with_key_update:
  "(with_key k s)\<lparr>m_flood_weight := w\<rparr> = with_key k (s\<lparr>m_flood_weight := w\<rparr>)"
  "(with_key k s)\<lparr>m_accumulator_buffer := b\<rparr> = with_key k (s\<lparr>m_accumulator_buffer := b\<rparr>)"
  by simp_all

lemma SendPacket_reader:
  "SendPacket data (with_key k s) = with_key k (SendPacket data s)" "reader_kept s (SendPacket data s)"
  by (simp_all add: SendPacket_def append_send_buffer_def reader_kept_def split: prod.split)

lemma send_numeric_reader:
  "send_numeric E n str c t a d (with_key k s) = with_key k (send_numeric E n str c t a d s)"
  "reader_kept s (send_numeric E n str c t a d s)"
  by (simp_all add: send_numeric_def Let_def SendPacket_reader)

lemma send_flood_warning_reader:
  "send_flood_warning E (with_key k s) = map_option (with_key k) (send_flood_warning E s)"
  "send_flood_warning E s = Some t \<Longrightarrow> reader_kept s t"
proof -
  have "IsUserAddressVisible u (with_key k s) = IsUserAddressVisible u s" for u
    by (simp add: IsUserAddressVisible_def GetOperFlags_def)
  then show "send_flood_warning E (with_key k s) = map_option (with_key k) (send_flood_warning E s)"
    by (simp add: send_flood_warning_def send_message_def SendPacket_reader map_option_bind comp_def)
  show "send_flood_warning E s = Some t \<Longrightarrow> reader_kept s t"
    by (auto simp: send_flood_warning_def send_message_def SendPacket_reader
        split: if_splits bind_splits)
qed

text \<open>The loop by lines.\<close>

definition first_line :: "string \<Rightarrow> string" where
  "first_line p = takeWhile (\<lambda>c. c \<noteq> CHR 0x0A) p @ [CHR 0x0A]"

lemma read_loop_line:
  "CHR 0x0A \<in> set p \<Longrightarrow> read_loop E hs p s =
     do {
       s' \<leftarrow> handle_commands E hs (m_accumulator_buffer s @ first_line p) (s\<lparr>m_accumulator_buffer := []\<rparr>);
       read_loop E hs (drop (length (first_line p)) p) s'
     }"
  by (subst read_loop.simps) (auto simp: first_line_def Let_def)

lemma read_loop_rest:
  "CHR 0x0A \<notin> set p \<Longrightarrow> read_loop E hs p s = Some (s\<lparr>m_accumulator_buffer := m_accumulator_buffer s @ p\<rparr>)"
  by (subst read_loop.simps) auto

lemma line_induct [case_names rest line]:
  assumes "\<And>p. CHR 0x0A \<notin> set p \<Longrightarrow> P p"
    and "\<And>p. CHR 0x0A \<in> set p \<Longrightarrow> P (drop (length (first_line p)) p) \<Longrightarrow> P p"
  shows "P p"
proof (induction "length p" arbitrary: p rule: less_induct)
  case less
  show ?case
  proof (cases "CHR 0x0A \<in> set p")
    case True
    then have "length (drop (length (first_line p)) p) < length p" by (cases p) (auto simp: first_line_def)
    from assms(2) [OF True less [OF this]] show ?thesis .
  qed (rule assms(1))
qed

lemma takeWhile_rest [simp]: "CHR 0x0A \<notin> set ys \<Longrightarrow> takeWhile (\<lambda>c. c \<noteq> CHR 0x0A) (ys @ zs) = ys @ takeWhile (\<lambda>c. c \<noteq> CHR 0x0A) zs"
  by (induction ys) auto

lemma takeWhile_all_rest [simp]: "CHR 0x0A \<notin> set ys \<Longrightarrow> takeWhile (\<lambda>c. c \<noteq> CHR 0x0A) ys = ys"
  by (induction ys) auto

lemma first_line_split:
  assumes "CHR 0x0A \<in> set p"
  obtains zs where "p = first_line p @ zs" "drop (length (first_line p)) p = zs"
proof -
  obtain ys zs where p: "p = ys @ CHR 0x0A # zs" "CHR 0x0A \<notin> set ys" using split_list_first [OF assms] by blast
  then have "first_line p = ys @ [CHR 0x0A]" by (simp add: first_line_def)
  with p that [of zs] show ?thesis by simp
qed

lemma first_line_append:
  assumes "CHR 0x0A \<in> set p"
  shows "first_line (p @ q) = first_line p"
    "drop (length (first_line p)) (p @ q) = drop (length (first_line p)) p @ q"
proof -
  obtain ys zs where p: "p = ys @ CHR 0x0A # zs" "CHR 0x0A \<notin> set ys" using split_list_first [OF assms] by blast
  then show "first_line (p @ q) = first_line p" by (simp add: first_line_def)
  from p show "drop (length (first_line p)) (p @ q) = drop (length (first_line p)) p @ q"
    by (simp add: first_line_def)
qed

lemma first_line_rest:
  "CHR 0x0A \<notin> set p \<Longrightarrow> first_line (p @ q) = p @ first_line q"
  by (simp add: first_line_def)

text \<open>Reading two pieces one after the other is reading them at once.\<close>

lemma read_loop_append:
  "read_loop E hs (p @ q) s = do { s' \<leftarrow> read_loop E hs p s; read_loop E hs q s' }"
proof (induction p arbitrary: s rule: line_induct)
  case (rest p)
  show ?case
  proof (cases "CHR 0x0A \<in> set q")
    case True
    then show ?thesis using rest by (simp add: read_loop_line read_loop_rest first_line_rest)
  next
    case False
    then show ?thesis using rest by (simp add: read_loop_rest)
  qed
next
  case (line p)
  then show ?case
    by (simp add: read_loop_line first_line_append [OF line.hyps] line.IH del: drop_append)
qed

definition last_part :: "string \<Rightarrow> string" where
  "last_part t = rev (takeWhile (\<lambda>c. c \<noteq> CHR 0x0A) (rev t))"

lemma last_part_append: "last_part (x @ y) = (if CHR 0x0A \<in> set y then last_part y else last_part x @ y)"
  by (auto simp: last_part_def takeWhile_append1 takeWhile_append2 takeWhile_append)

lemma newline_notin_last_part [simp]: "CHR 0x0A \<notin> set (last_part t)"
  by (auto simp: last_part_def dest: set_takeWhileD)

lemma last_part_id [simp]: "CHR 0x0A \<notin> set t \<Longrightarrow> last_part t = t"
  by (simp add: last_part_def)

lemma last_part_absorb: "last_part (last_part x @ y) = last_part (x @ y)"
  by (simp add: last_part_append)

lemma gs_peerchat_append:
  "gs_peerchat ctx (a @ b) =
     (let (x, c1) = gs_peerchat ctx a; (y, c2) = gs_peerchat c1 b in (x @ y, c2))"
  by (induction a arbitrary: ctx) (auto simp: Let_def split: prod.splits)

lemma decrypt_input_append:
  "decrypt_input (a @ b) s =
     (let (p, s1) = decrypt_input a s; (q, s2) = decrypt_input b s1 in (p @ q, s2))"
  by (auto simp: decrypt_input_def gs_peerchat_append string_of_def split: prod.splits)

text \<open>No line is too long, counting what was left before.\<close>

definition lines_fit :: "string \<Rightarrow> string \<Rightarrow> bool" where
  "lines_fit x y \<longleftrightarrow> list_all (\<lambda>i. length (last_part (x @ take i y)) \<le> ACCUMULATOR_MAX_BYTES) [0..<length y + 1]"

lemma lines_fitD: "lines_fit x y \<Longrightarrow> i \<le> length y \<Longrightarrow> length (last_part (x @ take i y)) \<le> ACCUMULATOR_MAX_BYTES"
  by (auto simp: lines_fit_def list_all_iff)

lemma lines_fit_append:
  assumes "lines_fit x (p @ q)"
  shows "length (last_part (x @ p)) \<le> ACCUMULATOR_MAX_BYTES" "lines_fit (last_part (x @ p)) q"
proof -
  show "length (last_part (x @ p)) \<le> ACCUMULATOR_MAX_BYTES" using lines_fitD [OF assms, of "length p"] by simp
  have "length (last_part (x @ p @ take i q)) \<le> ACCUMULATOR_MAX_BYTES" if "i \<le> length q" for i
    using lines_fitD [OF assms, of "length p + i"] that by simp
  then show "lines_fit (last_part (x @ p)) q" by (auto simp: lines_fit_def list_all_iff last_part_absorb simp del: upt_Suc)
qed

fun read_chunks :: "'r env \<Rightarrow> 'w handlers \<Rightarrow> int \<Rightarrow> byte list list \<Rightarrow> 'w peer \<Rightarrow> 'w peer option" where
  "read_chunks E hs time [] s = Some s"
| "read_chunks E hs time (d # ds) s = do { s' \<leftarrow> on_stream_read E hs time d s; read_chunks E hs time ds s' }"

context reader_handlers
begin

lemma run_command_key:
  "run_command E hs e upper items (with_key k s) = map_option (with_key k) (run_command E hs e upper items s)"
proof -
  have "may_run e (with_key k s) = may_run e s" by (simp add: may_run_def GetBackendId_def GetOperFlags_def)
  then show ?thesis
    unfolding run_command_def Let_def with_key_update
    by (simp add: send_numeric_reader send_flood_warning_reader(1) bind_map_option map_option_bind comp_def crypt)
qed

lemma run_command_kept: "run_command E hs e upper items s = Some t \<Longrightarrow> reader_kept s t"
  by (auto simp: run_command_def Let_def reader_kept_def send_numeric_reader(2) [unfolded reader_kept_def]
      dest!: kept send_flood_warning_reader(2) [unfolded reader_kept_def] split: if_splits bind_splits)

lemma handle_command_key:
  "handle_command E hs input (with_key k s) = map_option (with_key k) (handle_command E hs input s)"
  by (cases "KeyStringToVector input False (CHR '' '')")
    (auto simp: handle_command_def Let_def run_command_key send_numeric_reader split: list.split option.split)

lemma handle_command_kept: "handle_command E hs input s = Some t \<Longrightarrow> reader_kept s t"
  by (auto simp: handle_command_def Let_def run_command_kept send_numeric_reader
      split: list.splits option.splits bind_splits)

lemma handle_commands_key:
  "handle_commands E hs input (with_key k s) = map_option (with_key k) (handle_commands E hs input s)"
proof -
  have "run_lines E hs ls (with_key k s) = map_option (with_key k) (run_lines E hs ls s)" for ls
    by (induction ls arbitrary: s) (simp_all add: handle_command_key bind_map_option map_option_bind comp_def)
  then show ?thesis by (simp add: handle_commands_def map_option_bind comp_def)
qed

lemma handle_commands_kept: "handle_commands E hs input s = Some t \<Longrightarrow> reader_kept s t"
proof -
  have "run_lines E hs ls s = Some t \<Longrightarrow> reader_kept s t" for ls
  proof (induction ls arbitrary: s)
    case (Cons l ls)
    then show ?case
      by (fastforce simp: reader_kept_def dest!: handle_command_kept split: if_splits bind_splits)
  qed (simp add: reader_kept_def)
  then show "handle_commands E hs input s = Some t \<Longrightarrow> reader_kept s t"
    by (auto simp: handle_commands_def split: bind_splits)
qed

lemma read_loop_key: "read_loop E hs p (with_key k s) = map_option (with_key k) (read_loop E hs p s)"
proof (induction p arbitrary: s rule: line_induct)
  case (line p)
  then show ?case
    by (simp only: read_loop_line with_key_update handle_commands_key)
      (simp add: line.IH bind_map_option map_option_bind comp_def)
qed (simp add: read_loop_rest)

lemma read_loop_kept:
  "read_loop E hs p s = Some t \<Longrightarrow> CHR 0x0A \<notin> set (m_accumulator_buffer s) \<Longrightarrow>
     m_accumulator_buffer t = last_part (m_accumulator_buffer s @ p)
     \<and> m_using_encryption t = m_using_encryption s \<and> m_last_recv t = m_last_recv s"
proof (induction p arbitrary: s rule: line_induct)
  case (rest p)
  then show ?case by (auto simp: read_loop_rest)
next
  case (line p)
  let ?l = "first_line p" and ?r = "drop (length (first_line p)) p"
  obtain s1 where s1: "handle_commands E hs (m_accumulator_buffer s @ ?l) (s\<lparr>m_accumulator_buffer := []\<rparr>) = Some s1"
    "read_loop E hs ?r s1 = Some t" using line.prems line.hyps by (auto simp: read_loop_line split: bind_splits)
  have p: "p = ?l @ ?r" using first_line_split [OF line.hyps] by metis
  have "last_part (x @ p) = last_part ?r" for x
    by (subst p) (auto simp: last_part_append first_line_def last_part_def [of "[_]"] simp flip: append_assoc)
  then show ?case using line.IH [OF s1(2)] handle_commands_kept [OF s1(1)] by (auto simp: reader_kept_def)
qed

lemma read_loop_same_key: "read_loop E hs p s = Some t \<Longrightarrow> m_crypt_key_in t = m_crypt_key_in s"
proof -
  assume "read_loop E hs p s = Some t"
  then have "t = with_key (m_crypt_key_in s) t"
    using read_loop_key [where E = E and p = p and s = s and k = "m_crypt_key_in s"] by simp
  from arg_cong [OF this, of m_crypt_key_in] show ?thesis by simp
qed

lemma read_chunks_at_once:
  assumes "m_last_recv s = time" "CHR 0x0A \<notin> set (m_accumulator_buffer s)"
    and "lines_fit (m_accumulator_buffer s) (fst (decrypt_input (concat ds) s))"
  shows "read_chunks E hs time ds s = read_loop E hs (fst (decrypt_input (concat ds) s)) (snd (decrypt_input (concat ds) s))"
  using assms
proof (induction ds arbitrary: s)
  case Nil
  then show ?case by (simp add: decrypt_input_def string_of_def read_loop.simps)
next
  case (Cons d ds)
  obtain p s1 where d: "decrypt_input d s = (p, s1)" by (cases "decrypt_input d s")
  define k where "k = m_crypt_key_in (snd (decrypt_input (concat ds) s1))"
  have key: "snd (decrypt_input b u) = with_key (m_crypt_key_in (snd (decrypt_input b u))) u" for b and u :: "'w peer"
    by (simp add: decrypt_input_def split: prod.splits)
  have all: "decrypt_input (concat (d # ds)) s = (p @ fst (decrypt_input (concat ds) s1), with_key k s1)"
    using key [of "concat ds" s1] by (simp add: decrypt_input_append d k_def split: prod.splits)
  have s1: "m_last_recv s1 = time" "m_accumulator_buffer s1 = m_accumulator_buffer s"
    "m_using_encryption s1 = m_using_encryption s"
  proof -
    have "s1 = with_key (m_crypt_key_in s1) s" using key [of d s] by (simp add: d)
    then obtain k1 where "s1 = with_key k1 s" by blast
    then show "m_last_recv s1 = time" "m_accumulator_buffer s1 = m_accumulator_buffer s"
      "m_using_encryption s1 = m_using_encryption s" using Cons.prems(1) by simp_all
  qed
  have recv: "s\<lparr>m_last_recv := time\<rparr> = s" using Cons.prems(1) by simp
  show ?case
  proof (cases "read_loop E hs p s1")
    case None
    then show ?thesis by (simp only: all fst_conv snd_conv read_loop_append read_loop_key)
        (simp add: on_stream_read_def recv d)
  next
    case (Some t)
    note kept = read_loop_kept [OF Some] read_loop_same_key [OF Some]
    have fit: "length (last_part (m_accumulator_buffer s @ p)) \<le> ACCUMULATOR_MAX_BYTES"
      "lines_fit (last_part (m_accumulator_buffer s @ p)) (fst (decrypt_input (concat ds) s1))"
      using lines_fit_append [OF Cons.prems(3) [unfolded all fst_conv]] by simp_all
    have t: "m_accumulator_buffer t = last_part (m_accumulator_buffer s @ p)" "m_using_encryption t = m_using_encryption s1"
      "m_last_recv t = time"
      using kept s1 Cons.prems(2) by auto
    have dec: "fst (decrypt_input b t) = fst (decrypt_input b s1)"
      "snd (decrypt_input b t) = with_key (m_crypt_key_in (snd (decrypt_input b s1))) t" for b
      using kept t by (simp_all add: decrypt_input_def split: prod.splits)
    have "on_stream_read E hs time d s = Some t" using fit(1) t Some by (simp add: on_stream_read_def recv d)
    moreover have "read_chunks E hs time ds t = read_loop E hs (fst (decrypt_input (concat ds) s1)) (with_key k t)"
      using Cons.IH [of t] t fit(2) by (simp add: dec k_def)
    ultimately show ?thesis
      by (simp only: all fst_conv snd_conv read_loop_append read_loop_key Some) (simp add: read_loop_key)
  qed
qed

end


lemma gs_peerchat_twice: "gs_peerchat ctx (fst (gs_peerchat ctx data)) = (data, snd (gs_peerchat ctx data))"
  by (induction data arbitrary: ctx) (simp_all add: Let_def case_prod_beta)

lemma string_of_bytes_of [simp]: "string_of (bytes_of t) = t"
proof -
  have "unat (of_char c :: byte) = code c" for c
    using unat_word_of_nat_byte [OF code_less, of c] by (simp only: of_nat_of_char)
  then show ?thesis by (induction t) (simp_all add: string_of_def bytes_of_def)
qed

end
