(* ===== verification/IrcNames.thy ===== *)
theory IrcNames
  imports PeerchatUsermode
begin

text \<open>
  Names on the chat server: the character table and the tests of nicks and channel names
  (\<open>peerchat/server/irc_common.cpp\<close>), and the text form of a user, \<open>nick!user@address+id\<close>, that the
  servers pass to each other (\<open>UserSummary\<close> in \<open>peerchat/server/Peer.h\<close>).
\<close>

section \<open>Characters\<close>

definition PRINT :: byte where "PRINT = 1"
definition CNTRL :: byte where "CNTRL = 2"
definition ALPHA :: byte where "ALPHA = 4"
definition DIGIT :: byte where "DIGIT = 16"
definition SPACE :: byte where "SPACE = 32"
definition GAMESPY :: byte where "GAMESPY = 64"
definition BLOCK_START :: byte where "BLOCK_START = 128"

definition char_atribs :: "byte list" where
  "char_atribs =
     replicate 9 CNTRL @ replicate 5 (CNTRL OR SPACE) @ replicate 18 CNTRL @
     [PRINT OR SPACE,
      PRINT, PRINT, PRINT OR GAMESPY OR BLOCK_START, PRINT OR GAMESPY, PRINT OR GAMESPY, PRINT OR GAMESPY, PRINT, PRINT OR GAMESPY,
      PRINT OR GAMESPY, PRINT OR GAMESPY, PRINT OR GAMESPY OR BLOCK_START, PRINT OR GAMESPY, PRINT OR GAMESPY, PRINT OR GAMESPY,
      PRINT OR GAMESPY] @
     replicate 10 (PRINT OR DIGIT) @ [PRINT OR GAMESPY OR BLOCK_START, PRINT OR GAMESPY] @ replicate 4 PRINT @
     [PRINT OR GAMESPY OR BLOCK_START] @ replicate 30 (PRINT OR ALPHA) @ replicate 2 PRINT @
     replicate 30 (PRINT OR ALPHA) @ replicate 129 0"

lemma length_char_atribs: "length char_atribs = 256"
  by (simp add: char_atribs_def)

definition atrib :: "char \<Rightarrow> byte \<Rightarrow> bool" where
  "atrib c flags \<longleftrightarrow> char_atribs ! code c AND flags \<noteq> 0"

definition IsSpace :: "char \<Rightarrow> bool" where "IsSpace c \<longleftrightarrow> atrib c SPACE"
definition IsDigit :: "char \<Rightarrow> bool" where "IsDigit c \<longleftrightarrow> atrib c DIGIT"
definition IsAlnum :: "char \<Rightarrow> bool" where "IsAlnum c \<longleftrightarrow> atrib c (DIGIT OR ALPHA)"
definition IsGamespy :: "char \<Rightarrow> bool" where "IsGamespy c \<longleftrightarrow> atrib c GAMESPY"
definition IsBlockStart :: "char \<Rightarrow> bool" where "IsBlockStart c \<longleftrightarrow> atrib c BLOCK_START"

text \<open>A \<open>char\<close> is signed, so one above 127 is less than \<open>A\<close>.\<close>

definition isvalid :: "char \<Rightarrow> bool" where
  "isvalid c \<longleftrightarrow> (65 \<le> code c \<and> code c < 126) \<or> IsDigit c \<or> c = CHR ''-'' \<or> IsGamespy c"

section \<open>Nicks and channel names\<close>

definition NICKLEN :: nat where "NICKLEN = 32"

definition char_at :: "string \<Rightarrow> nat \<Rightarrow> char" where
  "char_at s i = (if i < length s then s ! i else nul)"

text \<open>Both tests return how many characters are valid before the first that is not.\<close>

definition is_nick_valid :: "string \<Rightarrow> nat" where
  "is_nick_valid name =
     (let s = c_string name in
      if length s > NICKLEN then 0
      else if length s = 1 \<and> char_at s 0 = CHR ''*'' then 0
      else if IsBlockStart (char_at s 0) then 0
      else length (takeWhile (\<lambda>c. isvalid c \<and> \<not> IsSpace c) (take NICKLEN s)))"

definition is_chan_valid :: "string \<Rightarrow> nat" where
  "is_chan_valid name =
     (let s = c_string name in
      if length s > NICKLEN \<and> length s > 1 then 0
      else if char_at s 0 \<noteq> CHR ''#'' then 0
      else length (takeWhile IsAlnum (take NICKLEN (drop 1 s))))"

section \<open>The text form of a user\<close>

text \<open>The members that the constructor sets; \<open>id\<close> stays uninitialised without a \<open>+\<close>.\<close>

record ParsedSummary =
  ps_nick :: string
  ps_username :: string
  ps_id :: "i32 option"
  ps_address :: Address
  ps_hostname :: string

definition UserSummary_parse :: "'r env \<Rightarrow> string \<Rightarrow> ParsedSummary" where
  "UserSummary_parse E s =
     (let um = marker (CHR ''!'') s; am = marker (CHR ''@'') s; im = marker (CHR ''+'') s;
          addr = Address_parse (inet_addr E) (substr_to s (after_marker am) im)
      in \<lparr>ps_nick = substr_to s 0 um,
          ps_username = substr_to s (after_marker um) am,
          ps_id = map_option (\<lambda>i. atoi (drop (i + 1) s)) im,
          ps_address = addr,
          ps_hostname = inet_ntop E (ip addr)\<rparr>)"

lemma marker_append:
  "marker c (x @ y) = (if c \<in> set x then marker c x else map_option (\<lambda>i. length x + i) (marker c y))"
  by (auto simp: marker_def takeWhile_append1 takeWhile_append2 takeWhile_append)

lemma marker_Cons: "marker c (x # y) = (if c = x then Some 0 else map_option Suc (marker c y))"
  by (auto simp: marker_def)

lemma marker_None [simp]: "c \<notin> set s \<Longrightarrow> marker c s = None"
  by (simp add: marker_def)

text \<open>The documented behaviour of \<open>inet_ntop\<close> and \<open>inet_addr\<close>: the dotted form has digits and dots only,
  and is read back.\<close>

definition dotted_form :: "'r env \<Rightarrow> bool" where
  "dotted_form E \<longleftrightarrow> (\<forall>a. inet_addr E (inet_ntop E a) = a \<and> list_all (\<lambda>c. isdigit c \<or> c = CHR ''.'') (inet_ntop E a))"

lemma dotted_formD:
  assumes "dotted_form E"
  shows "inet_addr E (inet_ntop E a) = a" "CHR ''+'' \<notin> set (inet_ntop E a)" "CHR ''@'' \<notin> set (inet_ntop E a)"
    "CHR ''!'' \<notin> set (inet_ntop E a)" "CHR '':'' \<notin> set (inet_ntop E a)"
proof -
  have "\<forall>c \<in> set (inet_ntop E a). isdigit c \<or> c = CHR ''.''" "inet_addr E (inet_ntop E a) = a"
    using assms by (auto simp: dotted_form_def list_all_iff)
  moreover have "\<not> isdigit (CHR ''+'')" "\<not> isdigit (CHR ''@'')" "\<not> isdigit (CHR ''!'')" "\<not> isdigit (CHR '':'')"
    by (simp_all add: isdigit_def)
  ultimately show "inet_addr E (inet_ntop E a) = a" "CHR ''+'' \<notin> set (inet_ntop E a)" "CHR ''@'' \<notin> set (inet_ntop E a)"
    "CHR ''!'' \<notin> set (inet_ntop E a)" "CHR '':'' \<notin> set (inet_ntop E a)" by fastforce+
qed

lemma digits_val_stop: "\<not> isdigit c \<Longrightarrow> digits_val a (s @ c # t) = digits_val a s"
  by (induction s arbitrary: a) auto

lemma strtol10_stop: "\<not> isspace x \<Longrightarrow> \<not> isdigit c \<Longrightarrow> strtol10 (x # xs @ c # t) = strtol10 (x # xs)"
  using digits_val_stop [of c _ xs t] digits_val_stop [of c _ "x # xs" t] by (simp add: strtol10_def)

lemma c_string_append: "nul \<notin> set s \<Longrightarrow> c_string (s @ t) = s @ c_string t"
  by (induction s) (auto simp: c_string_Cons)

lemma dec_int_first: "\<exists>x xs. dec_int w = x # xs \<and> \<not> isspace x"
proof (cases "dec_int w")
  case Nil
  then show ?thesis by (auto simp: dec_int_def Let_def split: if_splits)
next
  case (Cons x xs)
  moreover have "\<not> isspace x"
  proof (cases "sint w < 0")
    case True
    then show ?thesis using Cons by (auto simp: dec_int_def Let_def isspace_def)
  next
    case False
    then have "isdigit x" using Cons dec_nat_digits [of x "nat (sint w)"] by (auto simp: dec_int_def Let_def)
    then show ?thesis by (rule isdigit_not_space)
  qed
  ultimately show ?thesis by blast
qed

lemma atoi_dec_int_stop: "\<not> isdigit c \<Longrightarrow> c \<noteq> nul \<Longrightarrow> atoi (dec_int w @ c # t) = w"
proof -
  assume c: "\<not> isdigit c" "c \<noteq> nul"
  obtain x xs where x: "dec_int w = x # xs" "\<not> isspace x" using dec_int_first by blast
  have "c_string (dec_int w @ c # t) = x # xs @ c # c_string t"
    using c(2) nul_notin_dec_int [of w] by (auto simp: c_string_append c_string_Cons x)
  then have "atoi (dec_int w @ c # t) = word_of_int (strtol10 (x # xs))"
    by (simp add: atoi_def strtol10_stop [OF x(2) c(1)])
  also have "\<dots> = w" using atoi_dec_int [of w] nul_notin_dec_int [of w] by (simp add: atoi_def x)
  finally show ?thesis .
qed

lemma dec_int_chars: "c \<in> set (dec_int w) \<Longrightarrow> isdigit c \<or> c = CHR ''-''"
  using dec_nat_digits by (auto simp: dec_int_def Let_def split: if_splits)

lemma digit_codes:
  "isdigit c \<Longrightarrow> code c = 48 \<or> code c = 49 \<or> code c = 50 \<or> code c = 51 \<or> code c = 52 \<or> code c = 53 \<or> code c = 54
    \<or> code c = 55 \<or> code c = 56 \<or> code c = 57"
proof -
  have "n = 48 \<or> n = 49 \<or> n = 50 \<or> n = 51 \<or> n = 52 \<or> n = 53 \<or> n = 54 \<or> n = 55 \<or> n = 56 \<or> n = 57"
    if "48 \<le> n" "n \<le> 57" for n :: nat
    using that by presburger
  then show "isdigit c \<Longrightarrow> ?thesis" by (simp add: isdigit_def)
qed

lemma isvalid_digit: "isdigit c \<Longrightarrow> isvalid c \<and> \<not> IsSpace c"
  using digit_codes [of c]
  by (auto simp: isvalid_def IsSpace_def IsDigit_def atrib_def char_atribs_def nth_append PRINT_def DIGIT_def SPACE_def)

section \<open>Properties\<close>

text \<open>C39. The text form of a user is read back, with nick, user name, id and address, when neither name has one
  of the characters that mark the parts.\<close>

theorem UserSummary_text_roundtrip:
  fixes E :: "'r env"
  assumes "dotted_form E" and "set (nick u) \<inter> set ''!@+'' = {}" and "set (username u) \<inter> set ''!@+'' = {}"
  shows "UserSummary_parse E (UserSummary_ToString E u True) =
    \<lparr>ps_nick = nick u, ps_username = username u, ps_id = Some (uid u),
     ps_address = \<lparr>ip = ip (address u), port = None\<rparr>, ps_hostname = inet_ntop E (ip (address u))\<rparr>"
proof -
  note a = dotted_formD [OF assms(1), of "ip (address u)"]
  let ?t = "UserSummary_ToString E u True"
  have m: "marker (CHR ''!'') ?t = Some (length (nick u))"
    "marker (CHR ''@'') ?t = Some (length (nick u) + length (username u) + 1)"
    "marker (CHR ''+'') ?t = Some (length (nick u) + length (username u) + length (inet_ntop E (ip (address u))) + 2)"
    using assms(2,3) a by (simp_all add: UserSummary_ToString_def marker_append marker_Cons)
  have p: "Address_parse (inet_addr E) (inet_ntop E (ip (address u))) = \<lparr>ip = ip (address u), port = None\<rparr>"
  proof -
    have "dropWhile (\<lambda>c. c \<noteq> CHR '':'') s = []" if "CHR '':'' \<notin> set s" for s using that by (induction s) auto
    note this [OF a(5)]
    then show ?thesis unfolding Address_parse_def by (simp only: list.case a(1))
  qed
  show ?thesis
    unfolding UserSummary_parse_def Let_def m
    by (simp add: UserSummary_ToString_def after_marker_def substr_to_def p eval_nat_numeral)
qed

text \<open>Addresses written as one number, which \<open>inet_addr\<close> accepts too.\<close>

definition number_env :: "kvdb env" where
  "number_env = \<lparr>store = kv_redis, base64 = (\<lambda>s. s), inet_addr = (\<lambda>s. word_of_nat (digits_val 0 s)),
     inet_ntop = (\<lambda>a. dec_nat (unat a)), server_name = ''s'', now = 0\<rparr>"

lemma number_env_dotted: "dotted_form number_env"
  using dec_nat_digits by (auto simp: dotted_form_def number_env_def digits_val_dec_nat list_all_iff)

theorem UserSummary_text_roundtrip_witness:
  "ps_id (UserSummary_parse number_env (UserSummary_ToString number_env (new_user\<lparr>uid := 7, nick := ''bob'', username := ''u''\<rparr>) True))
    = Some 7"
  using UserSummary_text_roundtrip [OF number_env_dotted, of "new_user\<lparr>uid := 7, nick := ''bob'', username := ''u''\<rparr>"] by simp

lemma dec_nat_length: "n < 10 ^ Suc k \<Longrightarrow> length (dec_nat n) \<le> Suc k"
proof (induction k arbitrary: n)
  case (Suc k)
  then show ?case using Suc.IH [of "n div 10"] by (subst dec_nat.simps) auto
qed (simp add: dec_nat.simps)

lemma dec_int_length: "length (dec_int w) \<le> 11"
proof -
  have "nat \<bar>sint w\<bar> < 10 ^ Suc 9" using sint_greater_eq [of w] sint_less [of w] by simp
  then have "length (dec_nat (nat \<bar>sint w\<bar>)) \<le> 10" using dec_nat_length by fastforce
  then show ?thesis by (auto simp: dec_int_def Let_def abs_if split: if_splits)
qed

lemma forged_nick_valid: "is_nick_valid (''x+'' @ dec_int i) = length (''x+'' @ dec_int i)"
proof -
  have "isvalid c \<and> \<not> IsSpace c" if "c \<in> set (''x+'' @ dec_int i)" for c
  proof -
    have "isdigit c \<or> c \<in> {CHR ''x'', CHR ''+'', CHR ''-''}" using that dec_int_chars [of c i] by auto
    then consider "isdigit c" | "c \<in> {CHR ''x'', CHR ''+'', CHR ''-''}" by blast
    then show ?thesis
    proof cases
      case 1
      then show ?thesis by (rule isvalid_digit)
    next
      case 2
      then show ?thesis
        by (auto simp: isvalid_def IsSpace_def IsGamespy_def atrib_def char_atribs_def nth_append PRINT_def GAMESPY_def
            SPACE_def ALPHA_def BLOCK_START_def)
    qed
  qed
  then have "takeWhile (\<lambda>c. isvalid c \<and> \<not> IsSpace c) (''x+'' @ dec_int i) = ''x+'' @ dec_int i"
    by (intro takeWhile_eq_all_conv [THEN iffD2]) blast
  moreover have "\<not> IsBlockStart (CHR ''x'')"
    by (simp add: IsBlockStart_def atrib_def char_atribs_def nth_append BLOCK_START_def ALPHA_def PRINT_def)
  moreover have "c_string (''x+'' @ dec_int i) = ''x+'' @ dec_int i"
    by (intro c_string_id) (simp add: nul_def nul_notin_dec_int [unfolded nul_def])
  ultimately show ?thesis
    using dec_int_length [of i] by (simp add: is_nick_valid_def NICKLEN_def char_at_def)
qed

text \<open>A user can pass for another one: a nick \<open>x+\<close> followed by any id is accepted, and whoever reads the
  text form of its owner finds that id in the place of the owner's.\<close>

theorem user_id_forged:
  fixes E :: "'r env"
  shows "is_nick_valid (''x+'' @ dec_int i) = length (''x+'' @ dec_int i)
    \<and> ps_id (UserSummary_parse E (UserSummary_ToString E (u\<lparr>nick := ''x+'' @ dec_int i\<rparr>) True)) = Some i"
proof -
  have "marker (CHR ''+'') (UserSummary_ToString E (u\<lparr>nick := ''x+'' @ dec_int i\<rparr>) True) = Some 1"
    by (simp add: UserSummary_ToString_def marker_Cons)
  moreover have "drop 2 (UserSummary_ToString E (u\<lparr>nick := ''x+'' @ dec_int i\<rparr>) True) =
      dec_int i @ CHR ''!'' # (username u @ ''@'' @ inet_ntop E (ip (address u)) @ ''+'' @ dec_int (uid u))"
    by (simp add: UserSummary_ToString_def)
  ultimately have "ps_id (UserSummary_parse E (UserSummary_ToString E (u\<lparr>nick := ''x+'' @ dec_int i\<rparr>) True)) = Some i"
    by (simp add: UserSummary_parse_def Let_def atoi_dec_int_stop isdigit_def nul_def numeral_2_eq_2)
  with forged_nick_valid show ?thesis by blast
qed

end
