(* ===== verification/PeerchatCommands.thy ===== *)
theory PeerchatCommands
  imports PeerchatPeer IrcNames
begin

text \<open>
  The commands of the chat server (\<open>peerchat/server/commands\<close>): each handler reads the words of its line and
  asks for tasks; the functions named \<open>On\<dots>\<close> take a task's answer. Requests to the
  account service (\<open>LOGIN\<close>, \<open>LOGINPREAUTH\<close>, \<open>OPER\<close>, \<open>REGISTERNICK\<close>) are handed over as data; what it answers is an argument.
\<close>

section \<open>Words\<close>

text \<open>\<open>std::vector::at\<close>, which throws out of range.\<close>

definition at :: "'a list \<Rightarrow> nat \<Rightarrow> 'a option" where
  "at xs i = (if i < length xs then Some (xs ! i) else None)"

text \<open>A text that starts with a colon goes on over the words from \<open>j\<close>.\<close>

definition combine :: "nat \<Rightarrow> string list \<Rightarrow> string \<Rightarrow> string" where
  "combine j ws message =
     (if char_at message 0 = CHR '':'' then drop 1 message @ concat (map (\<lambda>w. '' '' @ w) (drop j ws)) else message)"

definition combine_keys :: "nat \<Rightarrow> string list \<Rightarrow> string \<Rightarrow> string" where
  "combine_keys j ws kv =
     (if length kv > 1 \<and> char_at kv 0 = CHR '':'' then drop 1 kv @ concat (map (\<lambda>w. '' '' @ w) (drop j ws)) else kv)"

definition strip_colon :: "string \<Rightarrow> string" where
  "strip_colon s = (if length s > 1 \<and> char_at s 0 = CHR '':'' then drop 1 s else s)"

text \<open>The keys of \<open>GETCKEY\<close> and its like, each with the value \<open>stub\<close>; a text becomes a list of pairs by the constructor of \<open>KVReader\<close>.\<close>

definition kv_of :: "string \<Rightarrow> kv_pairs option" where
  "kv_of text = (case KVReader text bslash nul [] of Done kv \<Rightarrow> Some kv | Undefined \<Rightarrow> None)"

definition stub_keys :: "string \<Rightarrow> kv_pairs option" where
  "stub_keys kv =
     do {
       ks \<leftarrow> KeyStringToVector kv False bslash;
       kv_of (concat (map (\<lambda>k. [bslash] @ k @ [bslash] @ ''stub'') ks))
     }"

section \<open>Registration\<close>

definition handle_crypt :: "string list \<Rightarrow> 'w peer \<Rightarrow> 'w peer option" where
  "handle_crypt ws s =
     do {
       gamename \<leftarrow> at ws 3;
       Some (add_task EPeerchatRequestType_LookupGameInfo
         (new_request\<lparr>req_gamename := gamename, req_callback := Callback ''OnGetGameInfo_Crypt''\<rparr>) s)
     }"

text \<open>The two random challenges are parameters.\<close>

definition OnGetGameInfo_Crypt :: "'r env \<Rightarrow> string \<Rightarrow> string \<Rightarrow> string \<Rightarrow> i32 \<Rightarrow> 'w peer \<Rightarrow> 'w peer option" where
  "OnGetGameInfo_Crypt E client_challenge server_challenge secretkey game s =
     (if char_at secretkey 0 = nul then Some (Delete_peer E False ''Invalid gamename'' s)
      else do {
        key_in \<leftarrow> gs_peerchat_init (bytes_of client_challenge) (bytes_of (c_string secretkey) @ [0]);
        key_out \<leftarrow> gs_peerchat_init (bytes_of server_challenge) (bytes_of (c_string secretkey) @ [0]);
        let s1 = send_numeric E 705 (client_challenge @ '' '' @ server_challenge) True [] True ''*''
          (s\<lparr>m_crypt_key_in := key_in, m_crypt_key_out := key_out\<rparr>);
        let s2 = s1\<lparr>m_using_encryption := True, m_user_details := (m_user_details s1)\<lparr>gameid := game\<rparr>\<rparr>;
        Some (add_task EPeerchatRequestType_SetUserDetails (new_request\<lparr>req_summary := m_user_details s2, req_callback := Callback_null\<rparr>) s2)
      })"

definition SendNickUpdate :: "string \<Rightarrow> 'w peer \<Rightarrow> 'w peer" where
  "SendNickUpdate newNick s =
     add_task EPeerchatRequestType_SetBroadcastToVisibleUsers_SendSummary
       (new_request\<lparr>req_summary := m_user_details s, req_message := newNick, req_message_type := ''NICK'',
          req_channel_list := map fst (m_channel_flags s), req_callback := Callback_null\<rparr>) s"

definition perform_acquire_uniquenick :: "string \<Rightarrow> 'w peer \<Rightarrow> 'w peer" where
  "perform_acquire_uniquenick target_nick =
     add_task EPeerchatRequestType_RemoteKill_ByName
       (new_request\<lparr>req_summary := new_user\<lparr>username := target_nick\<rparr>,
          req_usermode := new_usermode\<lparr>comment := ''Duplicate Login''\<rparr>, req_callback := Callback ''OnNickReserve_DuplicateRemoteKill''\<rparr>)"

definition OnNickReserve :: "'r env \<Rightarrow> response_code \<Rightarrow> UserSummary \<Rightarrow> string \<Rightarrow> 'w peer \<Rightarrow> 'w peer" where
  "OnNickReserve E rc summary uniquenick s =
     (if rc = WebErrorCode_Success then
        (let s1 = s\<lparr>m_user_details := (m_user_details s)\<lparr>uid := uid summary\<rparr>\<rparr>;
             rename = (\<lambda>t. t\<lparr>m_user_details := (m_user_details t)\<lparr>nick := nick summary\<rparr>\<rparr>)
         in if m_sent_client_init s then rename (SendNickUpdate (nick summary) s1)
            else OnUserMaybeRegistered (rename s1))
      else if rc = WebErrorCode_UniqueNickInUse then
        (if m_profileid s \<noteq> 0 \<and> (uniquenick \<noteq> m_uniquenick s \<or> uniquenick \<noteq> m_uniquenick s @ ''-gs'')
         then perform_acquire_uniquenick (nick summary) s
         else send_numeric E 433 ''Nickname is already in use'' False uniquenick True ''*'' s)
      else s)"

definition OnNickReserve_DuplicateRemoteKill :: "response_code \<Rightarrow> string \<Rightarrow> 'w peer \<Rightarrow> 'w peer" where
  "OnNickReserve_DuplicateRemoteKill rc uniquenick s =
     (if rc = WebErrorCode_Success then
        add_task EPeerchatRequestType_SetUserDetails
          (new_request\<lparr>req_summary := (m_user_details s)\<lparr>nick := uniquenick\<rparr>, req_callback := Callback ''OnNickReserve''\<rparr>) s
      else s)"

definition handle_nick :: "'r env \<Rightarrow> string list \<Rightarrow> 'w peer \<Rightarrow> 'w peer option" where
  "handle_nick E ws s =
     do {
       word \<leftarrow> at ws 1;
       let name = (if char_at word 0 = CHR '':'' then drop 1 word else word);
       let ask = (\<lambda>n. add_task EPeerchatRequestType_SetUserDetails
         (new_request\<lparr>req_summary := (m_user_details s)\<lparr>nick := n\<rparr>, req_callback := Callback ''OnNickReserve''\<rparr>) s);
       Some (if name = ''*'' \<and> length (m_uniquenick s) > 0 then ask (m_uniquenick s @ ''-gs'')
         else if name = ''*'' then send_numeric E 709 ''No uniquenick registered'' False [] True ''*'' s
         else if is_nick_valid name = 0 then send_numeric E 432 ''Erroneous nickname'' False name True ''*'' s
         else ask name)
     }"

definition handle_user :: "'r env \<Rightarrow> string list \<Rightarrow> 'w peer \<Rightarrow> 'w peer option" where
  "handle_user E ws s =
     do {
       user \<leftarrow> at ws 1;
       real \<leftarrow> at ws 4;
       let real = strip_colon real;
       Some (if is_nick_valid user = 0 then send_numeric E 468 ''Erroneous User'' False user True ''*'' s
         else if is_nick_valid real = 0 then send_numeric E 468 ''Erroneous Realname'' False real True ''*'' s
         else OnUserMaybeRegistered (s\<lparr>m_user_details := (m_user_details s)\<lparr>username := user, realname := real\<rparr>\<rparr>))
     }"

text \<open>The destructor calls this; the request has no peer.\<close>

definition send_quit :: "string \<Rightarrow> 'w peer \<Rightarrow> 'w peer" where
  "send_quit reason s =
     add_task EPeerchatRequestType_SetBroadcastToVisibleUsers_SendSummary
       (new_request\<lparr>req_summary := m_user_details s, req_message := reason, req_message_type := ''QUIT'',
          req_channel_flags := m_channel_flags s,
          req_channel_list := map fst (filter (\<lambda>(c, f). has f (uc EUserChannelFlag_IsInChannel)) (m_channel_flags s)),
          req_callback := Callback ''OnQuit_TaskComplete''\<rparr>) s"

definition handle_quit :: "'r env \<Rightarrow> string list \<Rightarrow> 'w peer \<Rightarrow> 'w peer option" where
  "handle_quit E ws s =
     Some (Delete_peer E False (case at ws 1 of None \<Rightarrow> [] | Some w \<Rightarrow> combine 2 ws w) s)"

definition handle_ping :: "'r env \<Rightarrow> int \<Rightarrow> string list \<Rightarrow> 'w peer \<Rightarrow> 'w peer option" where
  "handle_ping E time ws s =
     do {
       let end = (case at ws 1 of None \<Rightarrow> [] | Some w \<Rightarrow> if char_at w 0 = CHR '':'' then drop 1 w else w);
       s' \<leftarrow> send_message E ''PONG'' end new_user (server_name E) [] False (s\<lparr>m_last_sent_ping := time\<rparr>);
       Some (perform_keepalive time s')
     }"

definition handle_pong :: "int \<Rightarrow> 'w peer \<Rightarrow> 'w peer option" where
  "handle_pong time s = Some (perform_keepalive time s)"

definition handle_cdkey :: "'r env \<Rightarrow> 'w peer \<Rightarrow> 'w peer option" where
  "handle_cdkey E s = Some (send_numeric E 706 ''1 Success'' True [] True ''*'' s)"

section \<open>Channels and messages\<close>

definition handle_channel_join_events :: "ChannelSummary \<Rightarrow> 'w peer \<Rightarrow> 'w peer" where
  "handle_channel_join_events channel s =
     add_task EPeerchatRequestType_UserJoinEvents
       (new_request\<lparr>req_channel_name := channel_name channel, req_channel_id := channel_id channel,
          req_modify := new_modify\<lparr>set_mode_flags := GetChannelFlags (channel_id channel) s\<rparr>,
          req_callback := Callback_null\<rparr>) s"

definition OnJoinChannel :: "response_code \<Rightarrow> i32 \<Rightarrow> i32 \<Rightarrow> 'w peer \<Rightarrow> 'w peer" where
  "OnJoinChannel rc chan flags s =
     (if rc = WebErrorCode_Success then s\<lparr>m_channel_flags := smap_put (sint chan) flags (m_channel_flags s)\<rparr> else s)"

fun join_channels :: "'r env \<Rightarrow> PeerchatBackendRequest \<Rightarrow> string list \<Rightarrow> 'w peer \<Rightarrow> 'w peer" where
  "join_channels E req [] s = s"
| "join_channels E req (channel # channels) s =
     (if is_chan_valid channel = 0 then
        join_channels E req channels (send_numeric E 476 ''Bad channel name'' False channel True ''*'' s)
      else join_channels E req channels
        (add_task EPeerchatRequestType_UserJoinChannel
          (req\<lparr>req_channel_name := channel, req_summary := m_user_details s, req_callback := Callback ''OnJoinChannel''\<rparr>) s))"

definition handle_join :: "'r env \<Rightarrow> string list \<Rightarrow> 'w peer \<Rightarrow> 'w peer option" where
  "handle_join E ws s =
     do {
       target \<leftarrow> at ws 1;
       let key = (case at ws 2 of None \<Rightarrow> [] | Some p \<Rightarrow> p);
       let flags = (if has (GetOperFlags s) (oper OPERPRIVS_INVISIBLE)
         then (case at ws 3 of None \<Rightarrow> 0 | Some m \<Rightarrow> channelUserModesStringToFlags m) else 0);
       Some (join_channels E (new_request\<lparr>req_password := key, req_modify := new_modify\<lparr>set_mode_flags := flags\<rparr>\<rparr>)
         (getlines (CHR '','') target) s)
     }"

definition OnPartChannel :: "'r env \<Rightarrow> response_code \<Rightarrow> i32 \<Rightarrow> string \<Rightarrow> 'w peer \<Rightarrow> 'w peer option" where
  "OnPartChannel E rc chan name s =
     (case rc of
        WebErrorCode_Success \<Rightarrow> SetChannelFlags chan 0 s
      | WebErrorCode_NoSuchUser \<Rightarrow> Some (send_no_such_target_error E name s)
      | WebErrorCode_AuthInvalidCredentials \<Rightarrow> Some (send_numeric E 403 ''You're not on that channel'' False name True ''*'' s)
      | _ \<Rightarrow> Some s)"

definition handle_part :: "string list \<Rightarrow> 'w peer \<Rightarrow> 'w peer option" where
  "handle_part ws s =
     do {
       target \<leftarrow> at ws 1;
       let message = (case at ws 2 of None \<Rightarrow> [] | Some w \<Rightarrow> combine 3 ws w);
       Some (add_task EPeerchatRequestType_UserPartChannel
         (new_request\<lparr>req_channel_name := target, req_summary := m_user_details s,
            req_message := if message = [] then ''Parted'' else message, req_callback := Callback ''OnPartChannel''\<rparr>) s)
     }"

definition OnKickCallback :: "'r env \<Rightarrow> response_code \<Rightarrow> string \<Rightarrow> 'w peer \<Rightarrow> 'w peer" where
  "OnKickCallback E rc name s = (if rc = WebErrorCode_NoSuchUser then send_no_such_target_error E name s else s)"

definition handle_kick :: "string list \<Rightarrow> 'w peer \<Rightarrow> 'w peer option" where
  "handle_kick ws s =
     do {
       channel \<leftarrow> at ws 1;
       user \<leftarrow> at ws 2;
       Some (add_task EPeerchatRequestType_UserKickChannel
         (new_request\<lparr>req_channel_name := channel, req_summary := m_user_details s, req_message_target := user,
            req_message := if length ws > 4 then combine 4 ws (ws ! 3) else [], req_callback := Callback ''OnKickCallback''\<rparr>) s)
     }"

text \<open>A client-to-client message other than an action is dropped, for users without the right.\<close>

definition block_message :: "string \<Rightarrow> string \<Rightarrow> 'w peer \<Rightarrow> bool" where
  "block_message type message s \<longleftrightarrow>
     length message > 0 \<and> has (NOT (GetOperFlags s)) (oper OPERPRIVS_CTCP) \<and> char_at message 0 = CHR 0x01
     \<and> type = ''PRIVMSG'' \<and> \<not> (length message \<ge> 7 \<and> take 6 (drop 1 message) = ''ACTION'')"

definition handle_message_command :: "string \<Rightarrow> string list \<Rightarrow> 'w peer \<Rightarrow> 'w peer option" where
  "handle_message_command type ws s =
     do {
       word \<leftarrow> at ws 2;
       target \<leftarrow> at ws 1;
       let message = combine 3 ws word;
       Some (if block_message type message s then s
         else fold (\<lambda>t. add_task EPeerchatRequestType_SendMessageToTarget
             (new_request\<lparr>req_summary := m_user_details s, req_message := message, req_message_type := type,
                req_message_target := t, req_callback := Callback_null\<rparr>)) (getlines (CHR '','') target) s)
     }"

definition gagged :: "'w peer \<Rightarrow> bool" where
  "gagged s \<longleftrightarrow> has (modeflags (m_user_details s)) (um EUserMode_Gagged)"

definition handle_privmsg :: "string list \<Rightarrow> 'w peer \<Rightarrow> 'w peer option" where
  "handle_privmsg ws s = (if gagged s then Some s else handle_message_command ''PRIVMSG'' ws s)"

definition handle_notice :: "string list \<Rightarrow> 'w peer \<Rightarrow> 'w peer option" where
  "handle_notice ws s = (if gagged s then Some s else handle_message_command ''NOTICE'' ws s)"

definition handle_utm :: "string list \<Rightarrow> 'w peer \<Rightarrow> 'w peer option" where
  "handle_utm = handle_message_command ''UTM''"

definition handle_atm :: "string list \<Rightarrow> 'w peer \<Rightarrow> 'w peer option" where
  "handle_atm = handle_message_command ''ATM''"

section \<open>Answers\<close>

text \<open>The members of \<open>TaskResponse\<close> that the answers below use.\<close>

record TaskResponse =
  tr_code :: response_code
  tr_profileid :: i32
  tr_uniquenick :: string
  tr_nick :: string
  tr_summary :: UserSummary
  tr_channel :: ChannelSummary
  tr_channel_user :: ChannelUserSummary
  tr_channels :: "ChannelSummary list"
  tr_kv_data :: kv_pairs
  tr_kv_data_withnames :: kv_pairs
  tr_usermode :: UsermodeRecord
  tr_chanprops :: ChanpropsRecord
  tr_is_end :: bool

definition any_op :: i32 where
  "any_op = uc EUserChannelFlag_Owner OR uc EUserChannelFlag_Op OR uc EUserChannelFlag_HalfOp"

definition see_invisible :: "'w peer \<Rightarrow> bool" where
  "see_invisible s = has (GetOperFlags s) (oper OPERPRIVS_INVISIBLE)"

text \<open>What an auditorium hides from its other users: everybody, or those without a rank.\<close>

definition auditorium_hides :: "i32 \<Rightarrow> i32 \<Rightarrow> i32 \<Rightarrow> 'w peer \<Rightarrow> bool" where
  "auditorium_hides modes flags user s \<longleftrightarrow>
     (if has modes (cm EChannelMode_Auditorium) \<and> user \<noteq> GetBackendId s then True
      else has modes (cm EChannelMode_Auditorium_ShowVOP) \<and> user \<noteq> GetBackendId s
        \<and> \<not> has flags (any_op OR uc EUserChannelFlag_Voice))"

definition rank_mark :: "i32 \<Rightarrow> string" where
  "rank_mark flags = (if has flags any_op then ''@'' else if has flags (uc EUserChannelFlag_Voice) then ''+'' else [])"

definition send_topic :: "string \<Rightarrow> 'w peer \<Rightarrow> 'w peer" where
  "send_topic channel = add_task EPeerchatRequestType_LookupChannelDetails
     (new_request\<lparr>req_channel_name := channel, req_callback := Callback ''OnTopic_FetchChannelInfo''\<rparr>)"

definition handle_topic :: "string list \<Rightarrow> 'w peer \<Rightarrow> 'w peer option" where
  "handle_topic ws s =
     do {
       channel \<leftarrow> at ws 1;
       if length ws = 2 then Some (send_topic channel s)
       else do {
         word \<leftarrow> at ws 2;
         Some (add_task EPeerchatRequestType_UpdateChannelModes
           (new_request\<lparr>req_summary := m_user_details s, req_channel_name := channel,
              req_modify := new_modify\<lparr>update_topic := True, topic := combine 3 ws word\<rparr>, req_callback := Callback_null\<rparr>) s)
       }
     }"

definition OnTopic_FetchChannelInfo :: "'r env \<Rightarrow> TaskResponse \<Rightarrow> 'w peer \<Rightarrow> 'w peer" where
  "OnTopic_FetchChannelInfo E r s =
     (let ch = tr_channel r; num = (\<lambda>n str no_colon. send_numeric E n str no_colon (channel_name ch) True ''*'') in
      if topic_time ch = 0 then num 331 ''No topic set'' False s
      else num 333 (ps_nick (UserSummary_parse E (topic_user_summary ch)) @ '' '' @ dec_int (topic_time ch)) True
        (num 332 (ch_topic ch) False s))"

definition handle_names :: "string list \<Rightarrow> 'w peer \<Rightarrow> 'w peer option" where
  "handle_names ws s =
     map_option (\<lambda>channel. add_task EPeerchatRequestType_LookupChannelDetails
       (new_request\<lparr>req_channel_name := channel, req_callback := Callback ''OnNames_FetchChannelInfo''\<rparr>) s) (at ws 1)"

definition OnNames_FetchChannelInfo :: "'r env \<Rightarrow> TaskResponse \<Rightarrow> 'w peer \<Rightarrow> 'w peer" where
  "OnNames_FetchChannelInfo E r s =
     (let ch = tr_channel r;
          end_list = send_numeric E 366 ''End of /NAMES list.'' False (channel_name ch) True ''*'';
          shown = filter (\<lambda>u. \<not> (has (cu_modeflags u) (uc EUserChannelFlag_Invisible) \<and> \<not> see_invisible s)
            \<and> \<not> auditorium_hides (basic_mode_flags ch) (cu_modeflags u) (uid (userSummary u)) s) (ch_users ch)
      in if \<not> has (GetChannelFlags (channel_id ch) s) (uc EUserChannelFlag_IsInChannel) \<and> \<not> see_invisible s then end_list s
         else end_list (send_numeric E 353
           (concat (map (\<lambda>u. rank_mark (cu_modeflags u) @ nick (userSummary u) @ '' '') shown)) False
           (''= '' @ channel_name ch) True ''*'' s))"

section \<open>Keys\<close>

definition handle_setckey :: "string list \<Rightarrow> 'w peer \<Rightarrow> 'w peer option" where
  "handle_setckey ws s =
     do {
       channel_target \<leftarrow> at ws 1;
       user_target \<leftarrow> at ws 2;
       word \<leftarrow> at ws 3;
       kv \<leftarrow> kv_of (combine_keys 6 ws word);
       Some (add_task EPeerchatRequestType_SetChannelUserKeys
         (new_request\<lparr>req_channel_name := channel_target, req_summary := new_user\<lparr>username := user_target\<rparr>,
            req_kv_data := kv, req_callback := Callback ''OnSetCKey''\<rparr>) s)
     }"

definition handle_getckey :: "string list \<Rightarrow> 'w peer \<Rightarrow> 'w peer option" where
  "handle_getckey ws s =
     do {
       channel_target \<leftarrow> at ws 1;
       user_target \<leftarrow> at ws 2;
       numeric \<leftarrow> at ws 3;
       word \<leftarrow> at ws 5;
       kv \<leftarrow> stub_keys (strip_colon word);
       Some (add_task EPeerchatRequestType_GetChannelUserKeys
         (new_request\<lparr>req_channel_name := channel_target, req_summary := new_user\<lparr>username := user_target\<rparr>,
            req_kv_data := kv, req_uniquenick := numeric, req_callback := Callback ''OnGetCKey''\<rparr>) s)
     }"

definition OnGetCKey :: "'r env \<Rightarrow> TaskResponse \<Rightarrow> 'w peer \<Rightarrow> 'w peer" where
  "OnGetCKey E r s =
     (let ch = tr_channel r; flags = cu_modeflags (tr_channel_user r);
          hidden = auditorium_hides (basic_mode_flags ch) flags (uid (tr_summary r)) s
            \<or> has flags (uc EUserChannelFlag_Invisible) \<and> \<not> see_invisible s;
          num = (\<lambda>n str. send_numeric E n str True (channel_name ch) True ''*'');
          s1 = (if hidden then s
            else num 702 (nick (tr_summary r) @ '' '' @ tr_uniquenick r @ '' :'' @ kv_ToString bslash nul True (tr_kv_data r) @
              (if tr_kv_data_withnames r \<noteq> [] then kv_ToString bslash nul False (tr_kv_data_withnames r) else [])) s)
      in if tr_profileid r = 1 then num 703 (tr_uniquenick r @ '' :End of GETCKEY'') s1 else s1)"

definition handle_setkey :: "string list \<Rightarrow> 'w peer \<Rightarrow> 'w peer option" where
  "handle_setkey ws s =
     do {
       word \<leftarrow> at ws 1;
       kv \<leftarrow> kv_of (strip_colon word);
       Some (add_task EPeerchatRequestType_SetUserKeys
         (new_request\<lparr>req_summary := new_user\<lparr>username := nick (m_user_details s)\<rparr>, req_kv_data := kv,
            req_callback := Callback ''OnSetKey''\<rparr>) s)
     }"

definition handle_getkey :: "string list \<Rightarrow> 'w peer \<Rightarrow> 'w peer option" where
  "handle_getkey ws s =
     do {
       user_target \<leftarrow> at ws 1;
       numeric \<leftarrow> at ws 2;
       word \<leftarrow> at ws 4;
       kv \<leftarrow> stub_keys (strip_colon word);
       Some (add_task EPeerchatRequestType_GetUserKeys
         (new_request\<lparr>req_summary := new_user\<lparr>username := user_target\<rparr>, req_kv_data := kv, req_uniquenick := numeric,
            req_callback := Callback ''OnGetKey''\<rparr>) s)
     }"

definition OnGetKey :: "'r env \<Rightarrow> TaskResponse \<Rightarrow> 'w peer \<Rightarrow> 'w peer" where
  "OnGetKey E r s =
     (if tr_code r = WebErrorCode_Success then
        send_numeric E 700 (nick (tr_summary r) @ '' '' @ nick (tr_summary r) @ '' '' @ tr_uniquenick r @ '' :'' @
          kv_ToString bslash nul True (tr_kv_data r)) True (channel_name (tr_channel r)) True ''*'' s
      else send_no_such_target_error E (tr_nick r) s)"

definition handle_setchankey :: "string list \<Rightarrow> 'w peer \<Rightarrow> 'w peer option" where
  "handle_setchankey ws s =
     do {
       channel_target \<leftarrow> at ws 1;
       word \<leftarrow> at ws 2;
       kv \<leftarrow> kv_of (combine_keys 3 ws word);
       Some (add_task EPeerchatRequestType_SetChannelKeys
         (new_request\<lparr>req_channel_name := channel_target, req_kv_data := kv, req_callback := Callback ''OnSetChanKey''\<rparr>) s)
     }"

definition handle_getchankey :: "string list \<Rightarrow> 'w peer \<Rightarrow> 'w peer option" where
  "handle_getchankey ws s =
     do {
       channel_target \<leftarrow> at ws 1;
       numeric \<leftarrow> at ws 2;
       word \<leftarrow> at ws 4;
       kv \<leftarrow> stub_keys (strip_colon word);
       Some (add_task EPeerchatRequestType_GetChannelKeys
         (new_request\<lparr>req_channel_name := channel_target, req_kv_data := kv, req_uniquenick := numeric,
            req_callback := Callback ''OnGetChanKey''\<rparr>) s)
     }"

definition OnGetChanKey :: "'r env \<Rightarrow> TaskResponse \<Rightarrow> 'w peer \<Rightarrow> 'w peer" where
  "OnGetChanKey E r =
     send_numeric E 704 (channel_name (tr_channel r) @ '' '' @ tr_uniquenick r @ '' :'' @
       kv_ToString bslash nul True (tr_kv_data r) @
       (if tr_kv_data_withnames r \<noteq> [] then kv_ToString bslash nul False (tr_kv_data_withnames r) else [])) True [] True ''*''"

definition handle_setgroup :: "string list \<Rightarrow> 'w peer \<Rightarrow> 'w peer option" where
  "handle_setgroup ws s =
     do {
       channel_target \<leftarrow> at ws 1;
       group \<leftarrow> at ws 2;
       kv \<leftarrow> kv_of ([bslash] @ ''groupname'' @ [bslash] @ group);
       Some (add_task EPeerchatRequestType_SetChannelKeys
         (new_request\<lparr>req_channel_name := channel_target, req_kv_data := kv, req_callback := Callback ''OnSetGroup''\<rparr>) s)
     }"

section \<open>Looking up users and channels\<close>

definition GetIRCAddress :: "'r env \<Rightarrow> UserSummary \<Rightarrow> bool \<Rightarrow> string" where
  "GetIRCAddress E u address_visible = (if address_visible then inet_ntop E (ip (address u)) else ''*'')"

text \<open>The peer's own address is the one kept with its details.\<close>

definition handle_userhost :: "'r env \<Rightarrow> string list \<Rightarrow> 'w peer \<Rightarrow> 'w peer option" where
  "handle_userhost E ws s =
     (case at ws 1 of
        None \<Rightarrow> Some (send_numeric E 302
          (nick (m_user_details s) @ ''=+'' @ username (m_user_details s) @ ''@'' @ inet_ntop E (ip (address (m_user_details s))))
          False [] True [] s)
      | Some target \<Rightarrow> Some (add_task EPeerchatRequestType_LookupUserDetailsByName
          (new_request\<lparr>req_summary := new_user\<lparr>username := target\<rparr>, req_callback := Callback ''OnUsrip_FetchUser''\<rparr>) s))"

definition OnUsrip_FetchUser :: "'r env \<Rightarrow> TaskResponse \<Rightarrow> 'w peer \<Rightarrow> 'w peer option" where
  "OnUsrip_FetchUser E r s =
     (case tr_code r of
        WebErrorCode_Success \<Rightarrow>
          do {
            let u = tr_summary r;
            visible \<leftarrow> (if uid u = GetBackendId s then Some True else IsUserAddressVisible (uid u) s);
            Some (send_numeric E 302 (nick u @ ''=+'' @ username u @ ''@'' @ GetIRCAddress E u visible) False [] True ''*'' s)
          }
      | WebErrorCode_NoSuchUser \<Rightarrow> Some (send_no_such_target_error E (tr_uniquenick r) s)
      | _ \<Rightarrow> Some s)"

definition getChannelSpecialInfo :: "ChannelSummary \<Rightarrow> string" where
  "getChannelSpecialInfo ch =
     (if ch_topic ch \<noteq> [] then [bslash] @ ''topic'' @ [bslash] @ ch_topic ch else []) @
     (if sint (ch_limit ch) > 0 then [bslash] @ ''limit'' @ [bslash] @ dec_int (ch_limit ch) else []) @
     (if ch_password ch \<noteq> [] then [bslash] @ ''key'' @ [bslash] @ ''1'' else [])"

definition GetListUserCount :: "ChannelSummary \<Rightarrow> 'w peer \<Rightarrow> nat" where
  "GetListUserCount ch s =
     (if see_invisible s then length (ch_users ch)
      else length (filter (\<lambda>u. \<not> has (cu_modeflags u) (uc EUserChannelFlag_Invisible)) (ch_users ch)))"

definition list_shows :: "ChannelSummary \<Rightarrow> 'w peer \<Rightarrow> bool" where
  "list_shows ch s \<longleftrightarrow>
     \<not> (\<not> has (GetOperFlags s) (oper OPERPRIVS_OPEROVERRIDE)
        \<and> (has (basic_mode_flags ch) (cm EChannelMode_Private) \<or> has (basic_mode_flags ch) (cm EChannelMode_Secret))
        \<and> \<not> has (GetChannelFlags (channel_id ch) s) (uc EUserChannelFlag_IsInChannel))
     \<and> \<not> (GetListUserCount ch s = 0 \<and> \<not> has (basic_mode_flags ch) (cm EChannelMode_StayOpen))"

fun list_channels :: "'r env \<Rightarrow> bool \<Rightarrow> ChannelSummary list \<Rightarrow> 'w peer \<Rightarrow> 'w peer" where
  "list_channels E special [] s = s"
| "list_channels E special (ch # chs) s =
     list_channels E special chs
       (if list_shows ch s then
          send_numeric E 322 (channel_name ch @ '' '' @ dec_nat (GetListUserCount ch s) @ '' :'' @
            (if special then getChannelSpecialInfo ch else ch_topic ch)) True [] True ''*'' s
        else s)"

definition OnListChannels :: "'r env \<Rightarrow> TaskResponse \<Rightarrow> 'w peer \<Rightarrow> 'w peer" where
  "OnListChannels E r s =
     send_numeric E 323 ''End of /LIST'' False [] True ''*''
       (list_channels E (uid (tr_summary r) = 1) (tr_channels r)
         (send_numeric E 321 ''Channel :Users Name'' True [] True ''*'' s))"

text \<open>The mask and the key dump of a \<open>LIST\<close>: the first word that is not a \<open>k\<close> at the end of the line.\<close>

fun list_words :: "string list \<Rightarrow> string option \<Rightarrow> string option \<times> bool" where
  "list_words [] filtermask = (filtermask, False)"
| "list_words (w # ws) filtermask =
     (if w = ''k'' \<and> ws = [] then (filtermask, True)
      else list_words ws (if filtermask = None then Some w else filtermask))"

definition handle_list :: "string list \<Rightarrow> 'w peer \<Rightarrow> 'w peer option" where
  "handle_list ws s =
     (let (filtermask, keydump) = list_words (drop 1 ws) None in
      Some (add_task EPeerchatRequestType_ListChannels
        (new_request\<lparr>req_channel_id := (if keydump then 1 else 0), req_channel_name := or_else ''*'' filtermask,
           req_callback := Callback ''OnListChannels''\<rparr>) s))"

definition handle_listlimit :: "string list \<Rightarrow> 'w peer \<Rightarrow> 'w peer option" where
  "handle_listlimit ws s =
     Some (add_task EPeerchatRequestType_ListChannels
       (new_request\<lparr>req_channel_name := (if length ws > 3 then ws ! 2 else ''*''),
          req_limit := (if length ws > 2 then atoi (c_string (ws ! 1)) else 0), req_callback := Callback ''OnListChannels''\<rparr>) s)"

definition handle_lusers :: "'w peer \<Rightarrow> 'w peer option" where
  "handle_lusers s =
     Some (add_task EPeerchatRequestType_CountServerUsers (new_request\<lparr>req_callback := Callback ''OnFetch_LUsers''\<rparr>) s)"

definition OnFetch_LUsers :: "'r env \<Rightarrow> TaskResponse \<Rightarrow> 'w peer \<Rightarrow> 'w peer" where
  "OnFetch_LUsers E r =
     send_numeric E 251 (''There are '' @ dec_int (usermodeid (tr_usermode r)) @ '' users'') False [] True ''*''"

definition handle_kill :: "string list \<Rightarrow> 'w peer \<Rightarrow> 'w peer option" where
  "handle_kill ws s =
     do {
       target \<leftarrow> at ws 1;
       word \<leftarrow> at ws 2;
       Some (add_task EPeerchatRequestType_RemoteKill_ByName
         (new_request\<lparr>req_summary := new_user\<lparr>username := target\<rparr>,
            req_usermode := new_usermode\<lparr>comment := ''KILLED by '' @ nick (m_user_details s) @ '': '' @ combine 3 ws word\<rparr>,
            req_callback := Callback ''OnKillUser''\<rparr>) s)
     }"

definition OnKillUser :: "'r env \<Rightarrow> TaskResponse \<Rightarrow> 'w peer \<Rightarrow> 'w peer" where
  "OnKillUser E r s = (if uid (tr_summary r) = 0 then send_no_such_target_error E (tr_uniquenick r) s else s)"

definition handle_who :: "string list \<Rightarrow> 'w peer \<Rightarrow> 'w peer option" where
  "handle_who ws s =
     do {
       target \<leftarrow> at ws 1;
       Some (if char_at target 0 = CHR ''#'' then
           add_task EPeerchatRequestType_LookupChannelDetails
             (new_request\<lparr>req_channel_name := target, req_callback := Callback ''OnWho_FetchChannelInfo''\<rparr>) s
         else
           add_task EPeerchatRequestType_LookupUserDetailsByName
             (new_request\<lparr>req_summary := new_user\<lparr>username := target\<rparr>, req_callback := Callback ''OnWho_FetchUserInfo''\<rparr>) s)
     }"

definition who_line :: "'r env \<Rightarrow> UserSummary \<Rightarrow> string \<Rightarrow> string \<Rightarrow> 'w peer \<Rightarrow> 'w peer option" where
  "who_line E u mark target s =
     map_option (\<lambda>visible. send_numeric E 352
         (username u @ '' '' @ GetIRCAddress E u visible @ '' '' @ server_name E @ '' '' @ nick u @ '' H'' @ mark @
          '' :0 '' @ realname u) True target True ''*'' s)
       (IsUserAddressVisible (uid u) s)"

text \<open>Invisible users are left out for everybody here.\<close>

fun who_users :: "'r env \<Rightarrow> ChannelSummary \<Rightarrow> ChannelUserSummary list \<Rightarrow> 'w peer \<Rightarrow> 'w peer option" where
  "who_users E ch [] s = Some s"
| "who_users E ch (u # us) s =
     (if has (cu_modeflags u) (uc EUserChannelFlag_Invisible)
         \<or> auditorium_hides (basic_mode_flags ch) (cu_modeflags u) (uid (userSummary u)) s
      then who_users E ch us s
      else do {
        s' \<leftarrow> who_line E (userSummary u) (rank_mark (cu_modeflags u)) (channel_name ch) s;
        who_users E ch us s'
      })"

definition OnWho_FetchChannelInfo :: "'r env \<Rightarrow> TaskResponse \<Rightarrow> 'w peer \<Rightarrow> 'w peer option" where
  "OnWho_FetchChannelInfo E r s =
     (if tr_code r \<noteq> WebErrorCode_Success then Some (send_no_such_target_error E (tr_uniquenick r) s)
      else map_option (send_numeric E 315 ''End of /WHO list.'' False [] True ''*'')
        (who_users E (tr_channel r) (ch_users (tr_channel r)) s))"

definition OnWho_FetchUserInfo :: "'r env \<Rightarrow> TaskResponse \<Rightarrow> 'w peer \<Rightarrow> 'w peer option" where
  "OnWho_FetchUserInfo E r s =
     (if tr_code r \<noteq> WebErrorCode_Success then
        Some (send_numeric E 315 ''End of /WHO list.'' False (tr_uniquenick r) True ''*''
          (send_no_such_target_error E (tr_uniquenick r) s))
      else map_option (send_numeric E 315 ''End of /WHO list.'' False (nick (tr_summary r)) True ''*'')
        (who_line E (tr_summary r) [] (nick (tr_summary r)) s))"

definition handle_whois :: "string list \<Rightarrow> 'w peer \<Rightarrow> 'w peer option" where
  "handle_whois ws s =
     map_option (\<lambda>target. add_task EPeerchatRequestType_LookupUserDetailsByName
       (new_request\<lparr>req_summary := new_user\<lparr>username := target\<rparr>, req_callback := Callback ''OnWhois_FetchUser''\<rparr>) s) (at ws 1)"

definition whois_shows :: "ChannelSummary \<Rightarrow> 'w peer \<Rightarrow> bool" where
  "whois_shows ch s \<longleftrightarrow>
     (let flags = GetChannelFlags (channel_id ch) s in
      (\<not> has (basic_mode_flags ch) (cm EChannelMode_Private OR cm EChannelMode_Secret)
        \<or> has flags (uc EUserChannelFlag_IsInChannel) \<or> has (GetOperFlags s) (oper OPERPRIVS_GLOBALOWNER))
      \<and> \<not> (has flags (uc EUserChannelFlag_Invisible) \<and> \<not> see_invisible s))"

definition OnWhois_FetchUser :: "'r env \<Rightarrow> TaskResponse \<Rightarrow> 'w peer \<Rightarrow> 'w peer option" where
  "OnWhois_FetchUser E r s =
     (let u = tr_summary r; num = (\<lambda>n str no_colon. send_numeric E n str no_colon (nick u) True ''*'') in
      if tr_code r = WebErrorCode_Success then
        do {
          visible \<leftarrow> IsUserAddressVisible (uid u) s;
          let s1 = num 311 (username u @ '' '' @ GetIRCAddress E u visible @ '' * :'' @ realname u) True s;
          let shown = filter (\<lambda>ch. whois_shows ch s1) (tr_channels r);
          let s2 = (if shown \<noteq> [] then num 319 (butlast (concat (map (\<lambda>ch. channel_name ch @ '' '') shown))) False s1 else s1);
          let s3 = (if operflags u \<noteq> 0 \<and> has (GetOperFlags s2) (oper OPERPRIVS_LISTOPERS)
            then num 313 (''Is an IRC Operator ('' @ dec_int (operflags u) @ '')'') False s2 else s2);
          Some (num 318 ''End of WHOIS list'' False s3)
        }
      else Some (send_numeric E 318 ''End of WHOIS list'' False (tr_uniquenick r) True ''*''
        (send_no_such_target_error E (tr_uniquenick r) s)))"

section \<open>The MODE command\<close>

text \<open>
  The requests of \<open>PeerchatModes\<close> as tasks. One request object is filled in along the way, so that a later
  task carries what the earlier one set; the bans have objects of their own, whose callback has no value.
\<close>

primrec mode_task :: "UserSummary \<Rightarrow> mode_request \<Rightarrow> PeerchatBackendRequest \<Rightarrow> EPeerchatRequestType \<times> PeerchatBackendRequest" where
  "mode_task u (Req_LookupChannelDetails channel) r =
     (EPeerchatRequestType_LookupChannelDetails, r\<lparr>req_channel_name := channel, req_callback := Callback ''OnMode_FetchChannelInfo''\<rparr>)"
| "mode_task u (Req_UpdateChannelModes channel m) r =
     (EPeerchatRequestType_UpdateChannelModes, r\<lparr>req_summary := u, req_channel_name := channel, req_modify := m, req_callback := Callback_null\<rparr>)"
| "mode_task u (Req_UpdateChannelModes_BanMask channel m) r =
     (EPeerchatRequestType_UpdateChannelModes_BanMask, new_request\<lparr>req_channel_name := channel, req_modify := m\<rparr>)"
| "mode_task u (Req_ListUserModes_CacheLookup channel) r =
     (EPeerchatRequestType_ListUserModes_CacheLookup,
      r\<lparr>req_usermode := (req_usermode r)\<lparr>chanmask := channel\<rparr>, req_callback := Callback ''OnMode_FetchBanInfo''\<rparr>)"
| "mode_task u (Req_LookupUserDetailsByName name) r =
     (EPeerchatRequestType_LookupUserDetailsByName,
      r\<lparr>req_summary := (req_summary r)\<lparr>username := name\<rparr>, req_callback := Callback ''OnMode_FetchUserInfo''\<rparr>)"
| "mode_task u (Req_UpdateUserModes name m) r =
     (EPeerchatRequestType_UpdateUserModes,
      r\<lparr>req_summary := u, req_channel_name := name, req_modify := m, req_callback := Callback ''OnMode_UpdateUserMode''\<rparr>)"
| "mode_task u (Req_LookupChannelNames cid) r =
     (EPeerchatRequestType_LookupChannelDetails,
      r\<lparr>req_channel_id := cid, req_callback := Callback ''OnNames_FetchChannelInfo''\<rparr>)"

fun mode_tasks :: "mode_request list \<Rightarrow> PeerchatBackendRequest \<Rightarrow> 'w peer \<Rightarrow> 'w peer" where
  "mode_tasks [] r s = s"
| "mode_tasks (q # qs) r s =
     (let (t, r') = mode_task (m_user_details s) q r in
      mode_tasks qs (if t = EPeerchatRequestType_UpdateChannelModes_BanMask then r else r') (add_task t r' s))"

definition handle_mode_command :: "string list \<Rightarrow> 'w peer \<Rightarrow> 'w peer option" where
  "handle_mode_command ws s = Some (mode_tasks (handle_mode (m_channel_flags s) ws) new_request s)"

definition OnMode_UpdateUserMode :: "'r env \<Rightarrow> TaskResponse \<Rightarrow> 'w peer \<Rightarrow> 'w peer" where
  "OnMode_UpdateUserMode E r s =
     (case tr_code r of
        WebErrorCode_Success \<Rightarrow> s\<lparr>m_user_details := (m_user_details s)\<lparr>modeflags := modeflags (tr_summary r)\<rparr>\<rparr>
      | WebErrorCode_NoSuchUser \<Rightarrow> send_no_such_target_error E (tr_uniquenick r) s
      | _ \<Rightarrow> s)"

definition OnMode_FetchChannelInfo :: "'r env \<Rightarrow> TaskResponse \<Rightarrow> 'w peer \<Rightarrow> 'w peer" where
  "OnMode_FetchChannelInfo E r s =
     (let ch = tr_channel r; secret = ch_password ch \<noteq> []; limited = sint (ch_limit ch) > 0 in
      case tr_code r of
        WebErrorCode_Success \<Rightarrow>
          send_numeric E 329 (channel_name ch @ '' '' @ dec_int (created_at ch)) True [] True ''*''
            (send_numeric E 324 (channel_name ch @ '' +'' @ mode_letters channel_mode_flag_map (basic_mode_flags ch) @
               (if secret then ''k'' else []) @ (if limited then ''l'' else []) @
               (if secret then '' '' @ ch_password ch else []) @ (if limited then '' '' @ dec_int (ch_limit ch) else []))
              True [] True ''*'' s)
      | WebErrorCode_NoSuchUser \<Rightarrow> send_no_such_target_error E (channel_name ch) s
      | _ \<Rightarrow> s)"

definition OnMode_FetchUserInfo :: "'r env \<Rightarrow> TaskResponse \<Rightarrow> 'w peer \<Rightarrow> 'w peer" where
  "OnMode_FetchUserInfo E r s =
     (case tr_code r of
        WebErrorCode_Success \<Rightarrow>
          send_numeric E 221 (''+'' @ mode_letters user_mode_flag_map (modeflags (tr_summary r))) True [] True ''*'' s
      | WebErrorCode_NoSuchUser \<Rightarrow> send_no_such_target_error E (channel_name (tr_channel r)) s
      | _ \<Rightarrow> s)"

definition OnMode_FetchBanInfo :: "'r env \<Rightarrow> TaskResponse \<Rightarrow> 'w peer \<Rightarrow> 'w peer" where
  "OnMode_FetchBanInfo E r s =
     (let m = tr_usermode r; channel = channel_name (tr_channel r) in
      case tr_code r of
        WebErrorCode_Success \<Rightarrow>
          (let s1 = (if usermodeid m \<noteq> 0 \<and> has (um_modeflags m) (uc EUserChannelFlag_Banned) \<and> hostmask m \<noteq> [] then
             send_numeric E 367 (''*@'' @ hostmask m @ '' '' @ sb_nick (setByUserSummary m) @ '' '' @ dec_long (set_at m))
               True channel True ''*'' s else s)
           in if tr_is_end r then send_numeric E 368 ''End of Channel Ban List'' False channel True ''*'' s1 else s1)
      | WebErrorCode_NoSuchUser \<Rightarrow> send_no_such_target_error E channel s
      | _ \<Rightarrow> s)"

section \<open>Accounts\<close>

definition new_auth :: AuthRequest where
  "new_auth = \<lparr>auth_type = None, namespaceid = 0, auth_uniquenick = [], auth_nick = [], auth_email = [], auth_password = [],
     partnercode = 0, auth_token = [], auth_token_challenge = []\<rparr>"

definition add_account_task :: "account_request \<Rightarrow> 'w peer \<Rightarrow> 'w peer" where
  "add_account_task r s = s\<lparr>account_tasks := account_tasks s @ [r]\<rparr>"

text \<open>
  The nick of \<open>nick@email\<close> has 32 bytes: a longer one is not copied and what is read then has no value; with
  no \<open>@\<close> a string is made of a null pointer. A \<open>LOGIN\<close> with more words leaves the kind of the request open.
\<close>

definition nick_email :: "string \<Rightarrow> (string \<times> string) option" where
  "nick_email text =
     (let t = c_string text in
      case marker (CHR ''@'') t of None \<Rightarrow> None
      | Some i \<Rightarrow> if i < 32 then Some (take i t, drop (i + 1) t) else None)"

definition handle_login :: "string list \<Rightarrow> 'w peer \<Rightarrow> 'w peer option" where
  "handle_login ws s =
     do {
       ns \<leftarrow> at ws 1;
       pass \<leftarrow> at ws 3;
       let r = new_auth\<lparr>namespaceid := atoi (c_string ns), auth_password := pass\<rparr>;
       if length ws = 4 then
         Some (add_account_task (Account_auth ''m_login_auth_cb''
           (r\<lparr>auth_type := Some ''Uniquenick_Password'', auth_uniquenick := ws ! 2\<rparr>)) s)
       else if length ws = 5 then
         do {
           (n, e) \<leftarrow> nick_email (if char_at (ws ! 4) 0 = CHR '':'' then drop 1 (ws ! 4) else ws ! 4);
           Some (add_account_task (Account_auth ''m_login_auth_cb''
             (r\<lparr>auth_type := Some ''User_EmailPassword'', auth_email := e, auth_nick := n\<rparr>)) s)
         }
       else Some (add_account_task (Account_auth ''m_login_auth_cb'' r) s)
     }"

definition handle_loginpreauth :: "string list \<Rightarrow> 'w peer \<Rightarrow> 'w peer option" where
  "handle_loginpreauth ws s =
     do {
       token \<leftarrow> at ws 1;
       challenge \<leftarrow> at ws 2;
       Some (add_account_task (Account_auth ''m_login_auth_cb''
         (new_auth\<lparr>auth_token := token, auth_token_challenge := challenge, auth_type := Some ''TestPreAuth''\<rparr>)) s)
     }"

definition handle_oper :: "string list \<Rightarrow> 'w peer \<Rightarrow> 'w peer option" where
  "handle_oper ws s =
     do {
       uniquenick \<leftarrow> at ws 1;
       email \<leftarrow> at ws 2;
       pass \<leftarrow> at ws 3;
       Some (add_account_task (Account_auth ''m_oper_auth_cb''
         (new_auth\<lparr>auth_type := Some ''Uniquenick_Password'', auth_uniquenick := uniquenick, auth_email := email,
            auth_password := pass, partnercode := 0, namespaceid := 1\<rparr>)) s)
     }"

definition handle_registernick :: "string list \<Rightarrow> 'w peer \<Rightarrow> 'w peer option" where
  "handle_registernick ws s =
     do {
       uniquenick \<leftarrow> at ws 2;
       ns \<leftarrow> at ws 1;
       Some (add_account_task (Account_update_profile (m_profileid s) uniquenick (atoi (c_string ns))) s)
     }"

definition m_registernick_callback :: "'r env \<Rightarrow> response_code \<Rightarrow> 'w peer \<Rightarrow> 'w peer" where
  "m_registernick_callback E rc s =
     (if rc = WebErrorCode_Success then s else send_numeric E 711 (''0 '' @ [bslash]) False [] True ''*'' s)"

definition perform_oper_check :: "'w peer \<Rightarrow> 'w peer" where
  "perform_oper_check s =
     add_task EPeerchatRequestType_OperCheck (new_request\<lparr>req_profileid := m_profileid s, req_callback := Callback ''OnFetchOperStatus''\<rparr>)
       (refresh_user_details False s)"

definition m_login_auth_cb :: "'r env \<Rightarrow> response_code \<Rightarrow> i32 \<Rightarrow> i32 \<Rightarrow> string \<Rightarrow> 'w peer \<Rightarrow> 'w peer" where
  "m_login_auth_cb E rc user profile uniquenick s =
     (if rc = WebErrorCode_Success then
        perform_oper_check
          (send_numeric E 707 (dec_int user @ '' '' @ dec_int profile) True [] True ''*''
            (s\<lparr>m_profileid := profile, m_uniquenick := uniquenick,
               m_user_details := (m_user_details s)\<lparr>profileid := profile\<rparr>\<rparr>))
      else send_numeric E 708 (''Invalid login information ('' @ dec_int profile @ '')'') False [] True ''*'' s)"

definition notice_self :: "'r env \<Rightarrow> string \<Rightarrow> string \<Rightarrow> 'w peer \<Rightarrow> 'w peer option" where
  "notice_self E type message s =
     send_message E type message (server_userSummary E) (nick (m_user_details s)) [] False s"

definition m_oper_auth_cb :: "'r env \<Rightarrow> response_code \<Rightarrow> i32 \<Rightarrow> i32 \<Rightarrow> string \<Rightarrow> 'w peer \<Rightarrow> 'w peer option" where
  "m_oper_auth_cb E rc user profile uniquenick s =
     (if rc = WebErrorCode_Success then
        map_option perform_oper_check
          (notice_self E ''NOTICE'' ''Authenticated''
            (s\<lparr>m_profileid := profile, m_uniquenick := uniquenick,
               m_user_details := (m_user_details s)\<lparr>operflags := 0, profileid := profile, userid := user\<rparr>\<rparr>))
      else Some s)"

definition OnFetchOperStatus :: "'r env \<Rightarrow> response_code \<Rightarrow> i32 \<Rightarrow> 'w peer \<Rightarrow> 'w peer option" where
  "OnFetchOperStatus E rc flags s =
     (if rc = WebErrorCode_Success then
        (let s1 = s\<lparr>m_user_details := (m_user_details s)\<lparr>operflags := flags\<rparr>\<rparr>
         in if flags \<noteq> 0 then notice_self E ''NOTICE'' ''Rights Granted'' s1 else Some s1)
      else Some (s\<lparr>m_user_details := (m_user_details s)\<lparr>operflags := 0\<rparr>\<rparr>))"

section \<open>Usermodes and channel properties\<close>

definition set_by :: "'w peer \<Rightarrow> SetBy" where
  "set_by s = \<lparr>sb_nick = nick (m_user_details s), sb_hostname = hostname (m_user_details s),
     sb_profileid = Some (profileid (m_user_details s))\<rparr>"

text \<open>The record a \<open>SETUSERMODE\<close> text stands for.\<close>

definition usermode_of_kv :: "string \<Rightarrow> SetBy \<Rightarrow> kv_pairs \<Rightarrow> UsermodeRecord" where
  "usermode_of_kv channel_target by kv =
     (let get = (\<lambda>k d. if HasKey kv k then GetValue kv k else d);
          num = (\<lambda>k d. if HasKey kv k then GetValueInt kv k else d)
      in new_usermode\<lparr>chanmask := channel_target,
           um_modeflags := (if HasKey kv ''modeflags'' then channelUserModesStringToFlags (GetValue kv ''modeflags'')
             else if HasKey kv ''mode'' then channelUserModesStringToFlags (GetValue kv ''mode'') else 0),
           hostmask := get ''hostmask'' [], comment := get ''comment'' [], machineid := get ''machineid'' [],
           um_profileid := num ''profileid'' 0, isGlobal := (num ''isGlobal'' 1 \<noteq> 0),
           um_gameid := num ''gameid'' (-1), has_gameid := HasKey kv ''gameid'',
           expires_at := scast (num ''expiressec'' 0), setByUserSummary := by\<rparr>)"

definition handle_setusermode :: "'r env \<Rightarrow> string list \<Rightarrow> 'w peer \<Rightarrow> 'w peer option" where
  "handle_setusermode E ws s =
     do {
       channel_target \<leftarrow> at ws 1;
       word \<leftarrow> at ws 2;
       kv \<leftarrow> kv_of ((if char_at word 0 = CHR '':'' then drop 1 word else word) @ concat (map (\<lambda>w. '' '' @ w) (drop 3 ws)));
       let record = usermode_of_kv channel_target (set_by s) kv;
       s1 \<leftarrow> (if um_modeflags record = 0 then notice_self E ''PRIVMSG'' ''No modeflags specified'' s else Some s);
       Some (add_task EPeerchatRequestType_CreateUserMode
         (new_request\<lparr>req_usermode := record, req_callback := Callback ''OnSetUserMode''\<rparr>) s1)
     }"

definition handle_delusermode :: "string list \<Rightarrow> 'w peer \<Rightarrow> 'w peer option" where
  "handle_delusermode ws s =
     map_option (\<lambda>w. add_task EPeerchatRequestType_DeleteUserMode
       (new_request\<lparr>req_usermode := new_usermode\<lparr>usermodeid := atoi (c_string w), setByUserSummary := set_by s\<rparr>,
          req_callback := Callback ''OnDeleteUserMode''\<rparr>) s) (at ws 1)"

definition OnDeleteUserMode :: "'r env \<Rightarrow> response_code \<Rightarrow> 'w peer \<Rightarrow> 'w peer option" where
  "OnDeleteUserMode E rc =
     notice_self E ''PRIVMSG'' (if rc = WebErrorCode_Success then ''Usermode deleted'' else ''Failed to delete usermode'')"

definition handle_listusermodes :: "string list \<Rightarrow> 'w peer \<Rightarrow> 'w peer option" where
  "handle_listusermodes ws s =
     map_option (\<lambda>mask. add_task EPeerchatRequestType_ListUserModes
       (new_request\<lparr>req_usermode := new_usermode\<lparr>chanmask := mask\<rparr>, req_callback := Callback ''OnListUserModes''\<rparr>) s) (at ws 1)"

text \<open>A printed pair; \<open>local_time\<close> is \<open>localtime\<close> with \<open>strftime\<close>, \<open>None\<close> when the time cannot be converted.\<close>

definition pair :: "string \<Rightarrow> string \<Rightarrow> string" where
  "pair k v = [bslash] @ k @ [bslash] @ v"

definition pair_if :: "bool \<Rightarrow> string \<Rightarrow> string \<Rightarrow> string" where
  "pair_if b k v = (if b then pair k v else [])"

definition pair_time :: "(64 word \<Rightarrow> string option) \<Rightarrow> bool \<Rightarrow> string \<Rightarrow> 64 word \<Rightarrow> string" where
  "pair_time local_time b k t = (case local_time t of None \<Rightarrow> [] | Some v \<Rightarrow> pair_if b k v)"

text \<open>A record whose setter came from a text has no profile: reading it is undefined.\<close>

definition SerializeUsermodeRecord :: "(64 word \<Rightarrow> string option) \<Rightarrow> UsermodeRecord \<Rightarrow> string option" where
  "SerializeUsermodeRecord local_time m =
     map_option (\<lambda>pid.
       pair ''usermodeid'' (dec_int (usermodeid m)) @ pair ''chanmask'' (chanmask m) @
       pair ''modeflags'' (modeFlagsToModeString (um_modeflags m)) @
       pair_if (hostmask m \<noteq> []) ''hostmask'' (hostmask m) @ pair_if (machineid m \<noteq> []) ''machineid'' (machineid m) @
       pair_if (um_profileid m \<noteq> 0) ''profileid'' (dec_int (um_profileid m)) @
       pair_if (has_gameid m) ''gameid'' (dec_int (um_gameid m)) @
       pair ''isGlobal'' (if isGlobal m then ''1'' else ''0'') @
       pair_time local_time (expires_at m \<noteq> 0) ''expires'' (expires_at m) @
       pair_if (sb_nick (setByUserSummary m) \<noteq> []) ''setbynick'' (sb_nick (setByUserSummary m)) @
       pair_if (pid \<noteq> 0) ''setbypid'' (dec_int pid) @
       pair_if (sb_hostname (setByUserSummary m) \<noteq> []) ''setbyhost'' (sb_hostname (setByUserSummary m)) @
       pair_if (comment m \<noteq> []) ''comment'' (comment m) @
       pair_time local_time (set_at m \<noteq> 0) ''setondate'' (set_at m))
     (sb_profileid (setByUserSummary m))"

definition list_record :: "'r env \<Rightarrow> string \<Rightarrow> string option \<Rightarrow> bool \<Rightarrow> 'w peer \<Rightarrow> 'w peer option" where
  "list_record E name text is_end s =
     do {
       s1 \<leftarrow> (case text of None \<Rightarrow> Some s | Some t \<Rightarrow> notice_self E ''PRIVMSG'' (name @ '' '' @ t) s);
       if is_end then notice_self E ''PRIVMSG'' (name @ '' '' @ pair ''final'' ''1'') s1 else Some s1
     }"

definition OnListUserModes :: "(64 word \<Rightarrow> string option) \<Rightarrow> 'r env \<Rightarrow> TaskResponse \<Rightarrow> 'w peer \<Rightarrow> 'w peer option" where
  "OnListUserModes local_time E r s =
     (if tr_code r \<noteq> WebErrorCode_Success then notice_self E ''PRIVMSG'' ''Failed to list usermodes'' s
      else if usermodeid (tr_usermode r) = 0 then list_record E ''LISTUSERMODE'' None (tr_is_end r) s
      else do {
        t \<leftarrow> SerializeUsermodeRecord local_time (tr_usermode r);
        list_record E ''LISTUSERMODE'' (Some t) (tr_is_end r) s
      })"

definition OnSetUserMode :: "(64 word \<Rightarrow> string option) \<Rightarrow> 'r env \<Rightarrow> TaskResponse \<Rightarrow> 'w peer \<Rightarrow> 'w peer option" where
  "OnSetUserMode local_time E r s =
     (if tr_code r \<noteq> WebErrorCode_Success then notice_self E ''PRIVMSG'' ''Failed to set usermode'' s
      else do {
        t \<leftarrow> SerializeUsermodeRecord local_time (tr_usermode r);
        list_record E ''SETUSERMODE'' (Some t) (tr_is_end r) s
      })"

definition GetChanpropsFromKVReader :: "kv_pairs \<Rightarrow> ChanpropsRecord" where
  "GetChanpropsFromKVReader kv =
     new_chanprops\<lparr>cp_password := GetValue kv ''password'', cp_entrymsg := GetValue kv ''entrymsg'',
       cp_comment := GetValue kv ''comment'', cp_topic := GetValue kv ''topic'', groupname := GetValue kv ''groupname'',
       cp_limit := GetValueInt kv ''limit'', kickExisting := (GetValueInt kv ''kickexisting'' \<noteq> 0),
       cp_expires_at := scast (GetValueInt kv ''expiresinsec''),
       cp_modeflags := fold (\<lambda>(f, m) flags. if m \<in> set (GetValue kv ''mode'') then flags OR f else flags)
         channel_mode_flag_map 0\<rparr>"

text \<open>With no properties there is no blank to cut off, and \<open>substr\<close> throws.\<close>

definition handle_setchanprops :: "string list \<Rightarrow> 'w peer \<Rightarrow> 'w peer option" where
  "handle_setchanprops ws s =
     do {
       mask \<leftarrow> at ws 1;
       let text = concat (map (\<lambda>w. '' '' @ w) (drop 2 ws));
       kv \<leftarrow> (if text = [] then None else kv_of (drop 1 text));
       let u = m_user_details s;
       Some (add_task EPeerchatRequestType_SetChanProps
         (new_request\<lparr>req_chanprops := (GetChanpropsFromKVReader kv)\<lparr>channel_mask := mask, setByNick := nick u,
            setByPid := profileid u, setByHost := hostname u\<rparr>, req_callback := Callback ''OnSetChanProps''\<rparr>) s)
     }"

definition OnSetChanProps :: "'r env \<Rightarrow> TaskResponse \<Rightarrow> 'w peer \<Rightarrow> 'w peer option" where
  "OnSetChanProps E r =
     notice_self E ''PRIVMSG'' (if tr_code r \<noteq> WebErrorCode_Success then ''Failed to set chanprops''
       else ''SETCHANPROPS '' @ pair ''id'' (dec_int (cp_id (tr_chanprops r))) @ pair ''final'' ''1'')"

definition handle_listchanprops :: "string list \<Rightarrow> 'w peer \<Rightarrow> 'w peer option" where
  "handle_listchanprops ws s =
     map_option (\<lambda>mask. add_task EPeerchatRequestType_ListChanProps
       (new_request\<lparr>req_chanprops := new_chanprops\<lparr>channel_mask := mask\<rparr>, req_callback := Callback ''OnListChanProps''\<rparr>) s) (at ws 1)"

definition SerializeChanpropsRecord :: "(64 word \<Rightarrow> string option) \<Rightarrow> ChanpropsRecord \<Rightarrow> string" where
  "SerializeChanpropsRecord local_time c =
     pair ''id'' (dec_int (cp_id c)) @ pair ''chanmask'' (channel_mask c) @ pair ''password'' (cp_password c) @
     pair ''entrymsg'' (cp_entrymsg c) @ pair ''comment'' (cp_comment c) @ pair ''groupname'' (groupname c) @
     pair ''limit'' (dec_int (cp_limit c)) @ pair ''modeflags'' (dec_int (cp_modeflags c)) @
     pair ''onlyOwner'' (if onlyOwner c then ''1'' else ''0'') @ pair ''topic'' (cp_topic c) @
     pair ''setByNick'' (setByNick c) @ pair ''setByHost'' (setByHost c) @ pair ''setByPid'' (dec_int (setByPid c)) @
     pair_time local_time True ''setAt'' (cp_set_at c) @
     pair_time local_time (cp_expires_at c \<noteq> 0) ''expiresAt'' (cp_expires_at c)"

definition OnListChanProps :: "(64 word \<Rightarrow> string option) \<Rightarrow> 'r env \<Rightarrow> TaskResponse \<Rightarrow> 'w peer \<Rightarrow> 'w peer option" where
  "OnListChanProps local_time E r s =
     (if tr_code r \<noteq> WebErrorCode_Success then notice_self E ''PRIVMSG'' ''Failed to list chanprops'' s
      else list_record E ''LISTCHANPROPS''
        (if cp_id (tr_chanprops r) \<noteq> 0 then Some (SerializeChanpropsRecord local_time (tr_chanprops r)) else None)
        (tr_is_end r) s)"

definition handle_delchanprops :: "string list \<Rightarrow> 'w peer \<Rightarrow> 'w peer option" where
  "handle_delchanprops ws s =
     map_option (\<lambda>mask. add_task EPeerchatRequestType_DeleteChanProps
       (new_request\<lparr>req_chanprops := new_chanprops\<lparr>channel_mask := mask\<rparr>, req_callback := Callback ''OnDelChanProps''\<rparr>) s) (at ws 1)"

definition OnDelChanProps :: "'r env \<Rightarrow> TaskResponse \<Rightarrow> 'w peer \<Rightarrow> 'w peer option" where
  "OnDelChanProps E r s =
     (if tr_code r \<noteq> WebErrorCode_Success then notice_self E ''PRIVMSG'' ''Failed to delete chanprops'' s else Some s)"

section \<open>The table\<close>

definition command_table :: "'r env \<Rightarrow> int \<Rightarrow> string list \<Rightarrow> (string \<times> ('w peer \<Rightarrow> 'w peer option)) list" where
  "command_table E time ws =
        [(''CRYPT'', handle_crypt ws), (''NICK'', handle_nick E ws), (''REGISTERNICK'', handle_registernick ws),
         (''USER'', handle_user E ws), (''PING'', handle_ping E time ws), (''PONG'', handle_pong time),
         (''CDKEY'', handle_cdkey E), (''OPER'', handle_oper ws), (''LOGIN'', handle_login ws),
         (''LOGINPREAUTH'', handle_loginpreauth ws), (''PRIVMSG'', handle_privmsg ws), (''NOTICE'', handle_notice ws),
         (''UTM'', handle_utm ws), (''ATM'', handle_atm ws), (''JOIN'', handle_join E ws), (''PART'', handle_part ws),
         (''QUIT'', handle_quit E ws), (''MODE'', handle_mode_command ws), (''NAMES'', handle_names ws),
         (''USRIP'', handle_userhost E ws), (''USERHOST'', handle_userhost E ws), (''TOPIC'', handle_topic ws),
         (''LIST'', handle_list ws), (''LISTLIMIT'', handle_listlimit ws), (''WHOIS'', handle_whois ws),
         (''WHO'', handle_who ws), (''SETCKEY'', handle_setckey ws), (''GETCKEY'', handle_getckey ws),
         (''SETCHANKEY'', handle_setchankey ws), (''GETCHANKEY'', handle_getchankey ws), (''SETKEY'', handle_setkey ws),
         (''GETKEY'', handle_getkey ws), (''KICK'', handle_kick ws), (''SETGROUP'', handle_setgroup ws),
         (''LUSERS'', handle_lusers), (''KILL'', handle_kill ws), (''SETUSERMODE'', handle_setusermode E ws),
         (''DELUSERMODE'', handle_delusermode ws), (''LISTUSERMODES'', handle_listusermodes ws),
         (''LISTCHANPROPS'', handle_listchanprops ws), (''SETCHANPROPS'', handle_setchanprops ws),
         (''DELCHANPROPS'', handle_delchanprops ws)]"

definition command_handlers :: "'r env \<Rightarrow> int \<Rightarrow> 'w handlers" where
  "command_handlers E time name ws s =
     (case map_of (command_table E time ws) name of None \<Rightarrow> None | Some h \<Rightarrow> h s)"

section \<open>The handlers leave the reader alone\<close>

definition reader_ok :: "('w peer \<Rightarrow> 'w peer option) \<Rightarrow> bool" where
  "reader_ok f \<longleftrightarrow> (\<forall>k s. f (with_key k s) = map_option (with_key k) (f s)) \<and> (\<forall>s t. f s = Some t \<longrightarrow> reader_kept s t)"

lemma reader_okI:
  "(\<And>k s. f (with_key k s) = map_option (with_key k) (f s)) \<Longrightarrow> (\<And>s t. f s = Some t \<Longrightarrow> reader_kept s t) \<Longrightarrow> reader_ok f"
  by (simp add: reader_ok_def)

lemma reader_kept_trans: "reader_kept s t \<Longrightarrow> reader_kept t u \<Longrightarrow> reader_kept s u"
  by (simp add: reader_kept_def)

named_theorems frame

lemma with_key_updates [frame]:
  "(with_key k s)\<lparr>m_user_details := u\<rparr> = with_key k (s\<lparr>m_user_details := u\<rparr>)"
  "(with_key k s)\<lparr>m_last_keepalive := t\<rparr> = with_key k (s\<lparr>m_last_keepalive := t\<rparr>)"
  "(with_key k s)\<lparr>m_last_sent_ping := t\<rparr> = with_key k (s\<lparr>m_last_sent_ping := t\<rparr>)"
  "(with_key k s)\<lparr>m_sent_client_init := b\<rparr> = with_key k (s\<lparr>m_sent_client_init := b\<rparr>)"
  "(with_key k s)\<lparr>m_timeout_flag := b, m_delete_flag := c, m_quit_reason := q\<rparr> =
     with_key k (s\<lparr>m_timeout_flag := b, m_delete_flag := c, m_quit_reason := q\<rparr>)"
  "reader_kept s (s'\<lparr>m_user_details := u\<rparr>) = reader_kept s s'"
  "reader_kept s (s'\<lparr>m_last_keepalive := t\<rparr>) = reader_kept s s'"
  "reader_kept s (s'\<lparr>m_last_sent_ping := t\<rparr>) = reader_kept s s'"
  "reader_kept (s'\<lparr>m_last_sent_ping := t\<rparr>) s = reader_kept s' s"
  "reader_kept s (s'\<lparr>m_sent_client_init := b\<rparr>) = reader_kept s s'"
  "reader_kept s (s'\<lparr>m_timeout_flag := b, m_delete_flag := c, m_quit_reason := q\<rparr>) = reader_kept s s'"
  by (simp_all add: reader_kept_def)

lemma add_task_frame [frame]:
  "add_task t r (with_key k s) = with_key k (add_task t r s)" "reader_kept s (add_task t r s')  = reader_kept s s'"
  by (simp_all add: add_task_def reader_kept_def)

lemma add_account_task_frame [frame]:
  "add_account_task r (with_key k s) = with_key k (add_account_task r s)" "reader_kept s (add_account_task r s') = reader_kept s s'"
  by (simp_all add: add_account_task_def reader_kept_def)

lemma SendPacket_frame [frame]: "reader_kept s (SendPacket data s') = reader_kept s s'"
  using SendPacket_reader(2) [of s' data] by (simp add: reader_kept_def)

lemma send_numeric_frame [frame]:
  "send_numeric E n str c t a d (with_key k s) = with_key k (send_numeric E n str c t a d s)"
  "reader_kept s (send_numeric E n str c t a d s') = reader_kept s s'"
  by (simp_all add: send_numeric_def Let_def SendPacket_reader frame)

lemma query_frame [frame]:
  "GetOperFlags (with_key k s) = GetOperFlags s" "GetBackendId (with_key k s) = GetBackendId s"
  "GetChannelFlags c (with_key k s) = GetChannelFlags c s" "gagged (with_key k s) = gagged s"
  "block_message ty msg (with_key k s) = block_message ty msg s" "set_by (with_key k s) = set_by s"
  "IsUserAddressVisible u (with_key k s) = IsUserAddressVisible u s"
  by (simp_all add: GetOperFlags_def GetBackendId_def GetChannelFlags_def gagged_def block_message_def set_by_def
      IsUserAddressVisible_def)

lemma send_message_frame [frame]:
  "send_message E ty c from to target b (with_key k s) = map_option (with_key k) (send_message E ty c from to target b s)"
  "send_message E ty c from to target b s = Some t \<Longrightarrow> reader_kept s t"
  by (auto simp: send_message_def frame SendPacket_reader map_option_bind comp_def split: if_splits bind_splits)

lemma notice_self_frame [frame]:
  "notice_self E ty m (with_key k s) = map_option (with_key k) (notice_self E ty m s)"
  "notice_self E ty m s = Some t \<Longrightarrow> reader_kept s t"
  by (auto simp: notice_self_def frame)

lemma Delete_peer_frame [frame]:
  "Delete_peer E b r (with_key k s) = with_key k (Delete_peer E b r s)" "reader_kept s (Delete_peer E b r s)"
  by (simp_all add: Delete_peer_def SendPacket_reader frame)

lemma perform_keepalive_frame [frame]:
  "perform_keepalive time (with_key k s) = with_key k (perform_keepalive time s)" "reader_kept s (perform_keepalive time s') = reader_kept s s'"
  by (simp_all add: perform_keepalive_def frame)

lemma OnUserMaybeRegistered_frame [frame]:
  "OnUserMaybeRegistered (with_key k s) = with_key k (OnUserMaybeRegistered s)"
  "reader_kept s (OnUserMaybeRegistered s') = reader_kept s s'"
  by (simp_all add: OnUserMaybeRegistered_def frame)

lemma join_channels_frame [frame]:
  "join_channels E r cs (with_key k s) = with_key k (join_channels E r cs s)"
  "reader_kept s (join_channels E r cs s') = reader_kept s s'"
  by (induction cs arbitrary: s s') (simp_all add: frame)

lemma mode_tasks_frame [frame]:
  "mode_tasks qs r (with_key k s) = with_key k (mode_tasks qs r s)"
  "reader_kept s (mode_tasks qs r s') = reader_kept s s'"
proof -
  have u: "m_user_details (add_task t r s) = m_user_details s" for t r and s :: "'w peer" by (simp add: add_task_def)
  show "mode_tasks qs r (with_key k s) = with_key k (mode_tasks qs r s)"
    by (induction qs arbitrary: r s) (simp_all add: frame split: prod.split)
  show "reader_kept s (mode_tasks qs r s') = reader_kept s s'"
    by (induction qs arbitrary: r s') (simp_all add: frame split: prod.split)
qed

lemma fold_tasks_frame [frame]:
  "fold (\<lambda>t. add_task ty (f t)) xs (with_key k s) = with_key k (fold (\<lambda>t. add_task ty (f t)) xs s)"
  "reader_kept s (fold (\<lambda>t. add_task ty (f t)) xs s') = reader_kept s s'"
  by (induction xs arbitrary: s s') (simp_all add: frame)

lemma send_message_ok:
  "reader_ok (handle_message_command ty ws)"
  by (rule reader_okI) (auto simp: handle_message_command_def Let_def frame map_option_bind comp_def
      split: if_splits bind_splits)

lemmas handler_defs = handle_crypt_def handle_registernick_def handle_pong_def handle_cdkey_def handle_oper_def handle_login_def
  handle_loginpreauth_def handle_join_def handle_part_def handle_quit_def handle_mode_command_def handle_names_def
  handle_userhost_def handle_topic_def send_topic_def handle_list_def handle_listlimit_def handle_whois_def handle_who_def handle_setckey_def
  handle_getckey_def handle_setchankey_def handle_getchankey_def handle_setkey_def handle_getkey_def handle_kick_def
  handle_setgroup_def handle_lusers_def handle_kill_def handle_delusermode_def handle_listusermodes_def
  handle_listchanprops_def handle_setchanprops_def handle_delchanprops_def

lemma simple_handlers_ok [frame]:
  "reader_ok (handle_crypt ws)" "reader_ok (handle_registernick ws)" "reader_ok (handle_pong time)" "reader_ok (handle_cdkey E)"
  "reader_ok (handle_oper ws)" "reader_ok (handle_loginpreauth ws)" "reader_ok (handle_join E ws)"
  "reader_ok (handle_part ws)" "reader_ok (handle_quit E ws)" "reader_ok (handle_mode_command ws)" "reader_ok (handle_names ws)"
  "reader_ok (handle_userhost E ws)" "reader_ok (handle_topic ws)" "reader_ok (handle_list ws)" "reader_ok (handle_listlimit ws)"
  "reader_ok (handle_whois ws)" "reader_ok (handle_who ws)" "reader_ok (handle_setckey ws)" "reader_ok (handle_getckey ws)"
  "reader_ok (handle_setchankey ws)" "reader_ok (handle_getchankey ws)" "reader_ok (handle_setkey ws)" "reader_ok (handle_getkey ws)"
  "reader_ok (handle_kick ws)" "reader_ok (handle_setgroup ws)" "reader_ok handle_lusers" "reader_ok (handle_kill ws)"
  "reader_ok (handle_delusermode ws)" "reader_ok (handle_listusermodes ws)" "reader_ok (handle_listchanprops ws)"
  "reader_ok (handle_setchanprops ws)" "reader_ok (handle_delchanprops ws)"
  by ((rule reader_okI; auto simp: handler_defs Let_def frame map_option_bind option.map_comp comp_def
      split: if_splits bind_splits option.splits prod.splits)+)


lemma bind_frame: "map_option f (Option.bind x g) = Option.bind x (\<lambda>y. map_option f (g y))"
  by (cases x) auto

lemma other_handlers_ok [frame]:
  "reader_ok (handle_nick E ws)" "reader_ok (handle_user E ws)" "reader_ok (handle_ping E time ws)"
  "reader_ok (handle_privmsg ws)" "reader_ok (handle_notice ws)" "reader_ok (handle_utm ws)" "reader_ok (handle_atm ws)"
  "reader_ok (handle_login ws)"
  using send_message_ok [where ws = ws]
  by (auto simp: bind_frame reader_ok_def handle_nick_def handle_user_def handle_ping_def handle_privmsg_def handle_notice_def
      handle_utm_def handle_atm_def handle_login_def Let_def frame map_option_bind option.map_comp bind_map_option comp_def
      split: if_splits bind_splits option.splits prod.splits dest!: send_message_frame(2))

lemma handle_setusermode_ok [frame]: "reader_ok (handle_setusermode E ws)"
  by (rule reader_okI)
    (auto simp: handle_setusermode_def Let_def frame map_option_bind bind_map_option option.map_comp comp_def
      split: if_splits bind_splits option.splits dest!: notice_self_frame(2))

lemma table_ok: "list_all (\<lambda>(n, h). reader_ok h) (command_table E time ws)"
  by (simp add: command_table_def frame)

interpretation commands: reader_handlers "command_handlers E time"
proof
  fix n ws and s t :: "'w peer" and k
  have ok: "map_of (command_table E time ws) n = Some h \<Longrightarrow> reader_ok h" for h :: "'w peer \<Rightarrow> 'w peer option"
    using table_ok [of E time ws] map_of_SomeD by (fastforce simp: list_all_iff)
  show "command_handlers E time n ws (s\<lparr>m_crypt_key_in := k\<rparr>) =
      map_option (\<lambda>t. t\<lparr>m_crypt_key_in := k\<rparr>) (command_handlers E time n ws s)"
    using ok by (auto simp: command_handlers_def reader_ok_def split: option.split)
  show "command_handlers E time n ws s = Some t \<Longrightarrow> m_using_encryption t = m_using_encryption s
      \<and> m_accumulator_buffer t = m_accumulator_buffer s \<and> m_last_recv t = m_last_recv s"
    using ok by (auto simp: command_handlers_def reader_ok_def reader_kept_def split: option.splits)
qed

section \<open>Lines that end the server\<close>

definition ready :: "'w peer \<Rightarrow> bool" where
  "ready s \<longleftrightarrow> (\<exists>xs. heap_rep (visibility_list s) xs)"

definition line_words :: "string \<Rightarrow> string list" where
  "line_words input = filter (\<lambda>w. w \<noteq> []) (getlines (CHR '' '') input)"

definition bad_words :: "string \<Rightarrow> string list \<Rightarrow> bool" where
  "bad_words command ws \<longleftrightarrow>
     command = ''REGISTERNICK'' \<and> length ws = 2
     \<or> command = ''SETCHANPROPS'' \<and> length ws = 2
     \<or> command = ''LOGIN'' \<and> length ws = 5
         \<and> nick_email (if char_at (ws ! 4) 0 = CHR '':'' then drop 1 (ws ! 4) else ws ! 4) = None"

lemma kv_of_total [simp]: "kv_of t \<noteq> None" "\<exists>kv. kv_of t = Some kv"
  by (simp_all add: kv_of_def KVReader_tokens Let_def split: prod.split)

lemma stub_keys_total [simp]: "stub_keys t \<noteq> None" "\<exists>kv. stub_keys t = Some kv"
  by (simp_all add: stub_keys_def KeyStringToVector_def Let_def)

lemma visible_ready [simp]: "ready s \<Longrightarrow> IsUserAddressVisible u s \<noteq> None"
  by (auto simp: ready_def IsUserAddressVisible_items)

lemma notice_ready [simp]: "ready s \<Longrightarrow> notice_self E ty m s \<noteq> None"
  using visible_ready by (auto simp: notice_self_def send_message_def split: bind_splits)

lemma flood_warning_ready [simp]: "ready s \<Longrightarrow> send_flood_warning E s \<noteq> None"
  using visible_ready by (auto simp: send_flood_warning_def send_message_def split: bind_splits)

lemma bind_None_iff: "Option.bind x f = None \<longleftrightarrow> x = None \<or> (\<exists>y. x = Some y \<and> f y = None)"
  by (cases x) auto

lemma at_None [simp]: "at ws i = None \<longleftrightarrow> length ws \<le> i"
  by (simp add: at_def)

lemma at_Some: "at ws i = Some x \<longleftrightarrow> i < length ws \<and> x = ws ! i"
  by (auto simp: at_def)

lemma message_command_total: "length ws > 2 \<Longrightarrow> handle_message_command ty ws s \<noteq> None"
  by (simp add: handle_message_command_def Let_def bind_None_iff)

lemma pong_total: "send_message E ty c new_user to target b s \<noteq> None"
  by (simp add: send_message_def new_user_def)

named_theorems fails

lemma simple_fails [fails]:
  "handle_crypt ws s = None \<longleftrightarrow> length ws \<le> 3" "handle_registernick ws s = None \<longleftrightarrow> length ws \<le> 2"
  "handle_pong time s \<noteq> None" "handle_cdkey E s \<noteq> None" "handle_oper ws s = None \<longleftrightarrow> length ws \<le> 3"
  "handle_loginpreauth ws s = None \<longleftrightarrow> length ws \<le> 2" "handle_part ws s = None \<longleftrightarrow> length ws \<le> 1"
  "handle_quit E ws s \<noteq> None" "handle_mode_command ws s \<noteq> None" "handle_names ws s = None \<longleftrightarrow> length ws \<le> 1"
  "handle_list ws s \<noteq> None" "handle_listlimit ws s \<noteq> None" "handle_lusers s \<noteq> None"
  "handle_whois ws s = None \<longleftrightarrow> length ws \<le> 1" "handle_who ws s = None \<longleftrightarrow> length ws \<le> 1"
  "handle_kick ws s = None \<longleftrightarrow> length ws \<le> 2" "handle_kill ws s = None \<longleftrightarrow> length ws \<le> 2"
  "handle_delusermode ws s = None \<longleftrightarrow> length ws \<le> 1" "handle_listusermodes ws s = None \<longleftrightarrow> length ws \<le> 1"
  "handle_listchanprops ws s = None \<longleftrightarrow> length ws \<le> 1" "handle_delchanprops ws s = None \<longleftrightarrow> length ws \<le> 1"
  "handle_nick E ws s = None \<longleftrightarrow> length ws \<le> 1" "handle_user E ws s = None \<longleftrightarrow> length ws \<le> 4"
  "handle_join E ws s = None \<longleftrightarrow> length ws \<le> 1"
  by (auto simp: handler_defs handle_nick_def handle_user_def Let_def bind_None_iff at_Some split: prod.split)

lemma key_fails [fails]:
  "handle_setckey ws s = None \<longleftrightarrow> length ws \<le> 3" "handle_getckey ws s = None \<longleftrightarrow> length ws \<le> 5"
  "handle_setchankey ws s = None \<longleftrightarrow> length ws \<le> 2" "handle_getchankey ws s = None \<longleftrightarrow> length ws \<le> 4"
  "handle_setkey ws s = None \<longleftrightarrow> length ws \<le> 1" "handle_getkey ws s = None \<longleftrightarrow> length ws \<le> 4"
  "handle_setgroup ws s = None \<longleftrightarrow> length ws \<le> 2"
  by (auto simp: handler_defs Let_def bind_None_iff at_Some)

lemma message_fails [fails]:
  "length ws > 2 \<Longrightarrow> handle_privmsg ws s \<noteq> None" "length ws > 2 \<Longrightarrow> handle_notice ws s \<noteq> None"
  "length ws > 2 \<Longrightarrow> handle_utm ws s \<noteq> None" "length ws > 2 \<Longrightarrow> handle_atm ws s \<noteq> None"
  using message_command_total [of ws]
  by (auto simp: handle_privmsg_def handle_notice_def handle_utm_def handle_atm_def)

lemma other_fails [fails]:
  "handle_ping E time ws s \<noteq> None" "handle_userhost E ws s \<noteq> None"
  "length ws > 1 \<Longrightarrow> handle_setchanprops ws s = None \<longleftrightarrow> length ws = 2"
  using pong_total
  by (auto simp: handle_ping_def handle_userhost_def handle_setchanprops_def
      Let_def bind_None_iff at_Some split: option.split)

lemma topic_fails [fails]: "length ws > 1 \<Longrightarrow> handle_topic ws s \<noteq> None"
  by (auto simp: handle_topic_def at_def)

lemma setusermode_fails [fails]: "length ws > 2 \<Longrightarrow> ready s \<Longrightarrow> handle_setusermode E ws s \<noteq> None"
  using notice_ready [of s] by (auto simp: handle_setusermode_def Let_def bind_None_iff at_Some simp del: not_None_eq)

lemma login_fails [fails]:
  "length ws > 3 \<Longrightarrow> handle_login ws s = None \<longleftrightarrow> length ws = 5 \<and> nick_email (if char_at (ws ! 4) 0 = CHR '':'' then drop 1 (ws ! 4) else ws ! 4) = None"
  by (auto simp: handle_login_def Let_def bind_None_iff at_Some split: prod.split)

lemma handlers_fail:
  assumes "ready s"
  shows "list_all (\<lambda>e. length ws > minimum_args e \<longrightarrow>
     (command_handlers E time (ce_name e) ws s = None \<longleftrightarrow> bad_words (ce_name e) ws)) m_commands"
  using assms
  by (simp add: m_commands_def entry_def command_handlers_def command_table_def bad_words_def fails) auto


lemma m_commands_allowed_iff: "list_all (\<lambda>e. may_run e s = (ce_name e \<in> allowed s)) m_commands"
  by (simp add: m_commands_def entry_def may_run_def allowed_def open_commands_def user_commands_def owner_commands_def flag_nonzero)

lemma find_in_table: "find P m_commands = Some e \<Longrightarrow> e \<in> set m_commands"
  by (auto simp: find_Some_iff)

lemma run_command_fails:
  assumes "ready s" "find (\<lambda>e. ce_name e = upper) m_commands = Some e"
  shows "run_command E (command_handlers E time) e upper ws s = None \<longleftrightarrow>
    upper \<in> allowed s \<and> length ws > minimum_args e \<and> bad_words upper ws"
proof -
  have e: "e \<in> set m_commands" "ce_name e = upper" using assms(2) by (auto simp: find_Some_iff)
  have r: "ready (s\<lparr>m_flood_weight := w\<rparr>)" for w using assms(1) by (simp add: ready_def)
  have rs: "send_flood_warning E t = Some u \<Longrightarrow> ready t \<Longrightarrow> ready u" for t u
    by (auto simp: send_flood_warning_def send_message_def SendPacket_def append_send_buffer_def ready_def split: if_splits bind_splits prod.splits)
  have h: "length ws > minimum_args e \<Longrightarrow> ready t \<Longrightarrow> command_handlers E time upper ws t = None \<longleftrightarrow> bad_words upper ws" for t
    using handlers_fail [of t ws E time] e by (auto simp: list_all_iff)
  have m: "may_run e s \<longleftrightarrow> upper \<in> allowed s" using m_commands_allowed_iff [of s] e by (auto simp: list_all_iff)
  obtain y where y: "send_flood_warning E (s\<lparr>m_flood_weight := m_flood_weight s + weight e\<rparr>) = Some y"
    using flood_warning_ready [OF r] by blast
  show ?thesis
    using h [OF _ r] h [OF _ rs [OF y r]]
    by (auto simp: run_command_def m e Let_def y Suc_le_eq)
qed

lemma bad_words_long: "find (\<lambda>e. ce_name e = upper) m_commands = Some e \<Longrightarrow> bad_words upper ws \<Longrightarrow> length ws > minimum_args e"
  by (auto simp: bad_words_def m_commands_def entry_def)

lemma bad_words_known: "bad_words upper ws \<Longrightarrow> find (\<lambda>e. ce_name e = upper) m_commands \<noteq> None"
  by (auto simp: bad_words_def m_commands_def entry_def)

text \<open>C33. While the server handles a line it throws or reads what has no value exactly when the line is a
  \<open>REGISTERNICK\<close> with one word, a \<open>LOGIN\<close> with four words whose fourth has no \<open>@\<close> within its first 32 characters,
  or an owner's \<open>SETCHANPROPS\<close> with no properties; the first two need no registration. This is about the handlers. What
  a task does later with a member that the handler left without a value (the callback of a ban, the limit of a bare
  \<open>+l\<close>, the type of a \<open>LOGIN\<close> with more than four words) is not a failure of the line.
\<close>

theorem lines_that_fail:
  assumes "ready s"
  shows "handle_command E (command_handlers E time) input s = None \<longleftrightarrow>
    (case line_words input of [] \<Rightarrow> False
     | command # ws \<Rightarrow> map toupper command \<in> allowed s \<and> bad_words (map toupper command) (command # ws))"
proof -
  have w: "KeyStringToVector input False (CHR '' '') = Some (line_words input)"
    by (simp add: KeyStringToVector_def line_words_def)
  show ?thesis
  proof (cases "line_words input")
    case (Cons command ws)
    let ?u = "map toupper command"
    show ?thesis
    proof (cases "find (\<lambda>e. ce_name e = ?u) m_commands")
      case None
      then show ?thesis using bad_words_known [of ?u "command # ws"] by (auto simp: handle_command_def w Cons Let_def)
    next
      case (Some e)
      then show ?thesis using run_command_fails [OF assms Some, of E time "command # ws"] bad_words_long [OF Some, of "command # ws"]
        by (auto simp: handle_command_def w Cons Let_def)
    qed
  qed (simp add: handle_command_def w)
qed

lemma demo_peer_ready: "ready demo_peer"
  using heap_rep_empty by (auto simp: ready_def demo_peer_def no_items_def)

theorem lines_that_fail_witness:
  "handle_command number_env (command_handlers number_env 0) ''registernick x'' demo_peer = None"
proof -
  have w: "line_words ''registernick x'' = [''registernick'', ''x'']" by code_simp
  have u: "map toupper ''registernick'' = ''REGISTERNICK''" by code_simp
  show ?thesis
    unfolding lines_that_fail [OF demo_peer_ready] w list.case u by (simp add: bad_words_def allowed_def open_commands_def)
qed

section \<open>Reading in pieces\<close>

text \<open>C34. However the enciphered stream of a client is cut into pieces on its way, the server deciphers it
  and handles the client's lines as if the clear text had come at once, as long as no line is longer than
  1024 characters and the handlers leave the reader's own state alone (all pieces are read at one moment of the clock).\<close>

theorem stream_cut_anywhere:
  fixes s :: "'w peer"
  assumes "reader_handlers hs" and "m_using_encryption s" and "CHR 0x0A \<notin> set (m_accumulator_buffer s)"
    and "concat ds = fst (gs_peerchat (m_crypt_key_in s) (bytes_of txt))" and "ds \<noteq> []"
    and "lines_fit (m_accumulator_buffer s) txt"
  shows "read_chunks E hs time ds s =
    read_loop E hs txt (s\<lparr>m_last_recv := time, m_crypt_key_in := snd (gs_peerchat (m_crypt_key_in s) (bytes_of txt))\<rparr>)"
proof -
  let ?s = "s\<lparr>m_last_recv := time\<rparr>"
  have "decrypt_input (concat ds) ?s = (txt, ?s\<lparr>m_crypt_key_in := snd (gs_peerchat (m_crypt_key_in s) (bytes_of txt))\<rparr>)"
    using assms(2) by (simp add: decrypt_input_def assms(4) gs_peerchat_twice)
  moreover have "read_chunks E hs time ds s = read_chunks E hs time ds ?s"
    using assms(5) by (cases ds) (simp_all add: on_stream_read_def)
  ultimately show ?thesis
    using reader_handlers.read_chunks_at_once [OF assms(1), of ?s time ds E] assms(3,6) by simp
qed


definition demo_stream :: "unit peer" where
  "demo_stream = demo_peer\<lparr>m_using_encryption := True\<rparr>"

theorem stream_cut_anywhere_witness:
  "let c = fst (gs_peerchat (m_crypt_key_in demo_stream) (bytes_of ''QUIT x\<newline>'')) in
   read_chunks number_env (command_handlers number_env 0) 1 [take 2 c, drop 2 c] demo_stream =
     read_loop number_env (command_handlers number_env 0) ''QUIT x\<newline>'' (demo_stream\<lparr>m_last_recv := 1,
       m_crypt_key_in := snd (gs_peerchat (m_crypt_key_in demo_stream) (bytes_of ''QUIT x\<newline>''))\<rparr>)"
  unfolding Let_def
proof (rule stream_cut_anywhere)
  show "reader_handlers (command_handlers number_env 0)" by (rule commands.reader_handlers_axioms)
  show "lines_fit (m_accumulator_buffer demo_stream) ''QUIT x\<newline>''"
    by (simp add: demo_stream_def demo_peer_def) code_simp
qed (simp_all add: demo_stream_def demo_peer_def)

end
