(* ===== verification/PeerchatDriver.thy ===== *)
theory PeerchatDriver
  imports PeerchatCommands PeerchatTasks
begin

text \<open>
  The peers of the chat server together (\<open>peerchat/server/Driver.cpp\<close>, \<open>Server.cpp\<close>), and the messages
  between servers that reach them (\<open>Handle_PrivMsg\<close>, \<open>Handle_Broadcast\<close>, \<open>Handle_KeyUpdates\<close>). A driver is the
  list of its peers, in the order of its linked list; the callbacks do not change that list. What a message
  from the broker needs besides is \<open>unb64\<close>, the decoder of base64.
\<close>

section \<open>Iterating over peers\<close>

fun each :: "('p \<Rightarrow> 'p option) \<Rightarrow> 'p list \<Rightarrow> 'p list option" where
  "each f [] = Some []"
| "each f (p # ps) = do { p' \<leftarrow> f p; ps' \<leftarrow> each f ps; Some (p' # ps') }"

lemma each_Some: "each f ps = Some qs \<longleftrightarrow> map f ps = map Some qs"
proof (induction ps arbitrary: qs)
  case (Cons p ps)
  show ?case by (cases qs; cases "f p") (auto simp: Cons.IH Option.bind_eq_Some_conv)
qed auto

lemma each_total:
  "list_all (\<lambda>p. f p \<noteq> None) ps \<Longrightarrow> \<exists>qs. each f ps = Some qs"
  by (induction ps) auto

section \<open>The driver\<close>

text \<open>The first peer with the user's text form, upper and lower case alike, that is not going away.\<close>

definition found_peer :: "'r env \<Rightarrow> UserSummary \<Rightarrow> 'w peer \<Rightarrow> bool" where
  "found_peer E u p \<longleftrightarrow>
     stricmp_eq (UserSummary_ToString E (m_user_details p) False) (UserSummary_ToString E u False) \<and> \<not> m_delete_flag p"

fun with_found_peer :: "'r env \<Rightarrow> UserSummary \<Rightarrow> ('w peer \<Rightarrow> 'w peer option) \<Rightarrow> 'w peer list \<Rightarrow> 'w peer list option" where
  "with_found_peer E u f [] = Some []"
| "with_found_peer E u f (p # ps) =
     (if found_peer E u p then map_option (\<lambda>p'. p' # ps) (f p) else map_option ((#) p) (with_found_peer E u f ps))"





definition in_channel :: "i32 \<Rightarrow> 'w peer \<Rightarrow> bool" where
  "in_channel chan p \<longleftrightarrow> has (GetChannelFlags chan p) (uc EUserChannelFlag_IsInChannel)"

definition LLIterator_OnSetUserChannelKeys :: "'r env \<Rightarrow> ChannelSummary \<Rightarrow> string \<Rightarrow> 'w peer \<Rightarrow> 'w peer option" where
  "LLIterator_OnSetUserChannelKeys E ch keys_message p =
     Some (if in_channel (channel_id ch) p
       then send_numeric E 702 keys_message True (channel_name ch) False ''*'' p else p)"

definition LLIterator_OnSetChannelKeys :: "'r env \<Rightarrow> ChannelSummary \<Rightarrow> string \<Rightarrow> 'w peer \<Rightarrow> 'w peer option" where
  "LLIterator_OnSetChannelKeys E ch keys_message p =
     Some (if in_channel (channel_id ch) p
       then send_numeric E 704 keys_message True (channel_name ch) False ''*'' p else p)"

record OnChannelBroadcastState =
  bc_type :: string
  bc_target :: UserSummary
  bc_channels :: "(int, i32) smap"
  bc_message :: string
  bc_includeSelf :: bool

definition broadcast_to :: "'w peer \<Rightarrow> int \<times> i32 \<Rightarrow> bool" where
  "broadcast_to p = (\<lambda>(chan, flags).
     in_channel (word_of_int chan) p
     \<and> (\<not> has flags (uc EUserChannelFlag_Invisible) \<or> has (GetOperFlags p) (oper OPERPRIVS_INVISIBLE)))"

definition LLIterator_OnChannelBroadcast :: "'r env \<Rightarrow> OnChannelBroadcastState \<Rightarrow> 'w peer \<Rightarrow> 'w peer option" where
  "LLIterator_OnChannelBroadcast E st p =
     (let send = send_message E (bc_type st) (bc_message st) (bc_target st) [] [] False in
      if bc_includeSelf st \<and> GetBackendId p = uid (bc_target st) then send p
      else if find (broadcast_to p) (bc_channels st) \<noteq> None
      then do { p' \<leftarrow> send p; RemoveUserAddressVisibility_ByUser (uid (bc_target st)) p' }
      else Some p)"

definition LLIterator_OnSetUserChanModeFlags ::
  "(UserAddressVisibiltyInfo memory \<Rightarrow> nat) \<Rightarrow> i32 \<Rightarrow> i32 \<Rightarrow> i32 \<Rightarrow> 'w peer \<Rightarrow> 'w peer option" where
  "LLIterator_OnSetUserChanModeFlags alloc user chan flags p =
     (if GetBackendId p = user then SetChannelFlags chan flags p
      else OnSetExternalUserChanModeFlags alloc user chan flags p)"

text \<open>A user made of his text form; what the text does not give is not read by what uses it.\<close>

definition text_summary :: "'r env \<Rightarrow> string \<Rightarrow> UserSummary" where
  "text_summary E t = (let u = UserSummary_parse E t in
     new_user\<lparr>nick := ps_nick u, username := ps_username u, address := ps_address u, hostname := ps_hostname u,
       uid := or_else 0 (ps_id u)\<rparr>)"

text \<open>
  The text is compared with the sender's, and the result of \<open>compare\<close>, which is 0 for equal texts, is taken
  for the truth of their being equal.
\<close>

definition LLIterator_SendUserMessageToVisibleUsers :: "'r env \<Rightarrow> string \<Rightarrow> string \<Rightarrow> string \<Rightarrow> bool \<Rightarrow> 'w peer \<Rightarrow> 'w peer option" where
  "LLIterator_SendUserMessageToVisibleUsers E fromSummary messageType message include_self p =
     (let summaryMatch = (UserSummary_ToString E (m_user_details p) False \<noteq> fromSummary);
          send = (if ps_id (UserSummary_parse E fromSummary) = None then (\<lambda>_. None)
            else send_message E messageType message (text_summary E fromSummary) [] [] False)
      in if summaryMatch \<and> include_self then send p else if \<not> summaryMatch then send p else Some p)"

section \<open>The server\<close>

text \<open>The server's drivers, each with its peers.\<close>

type_synonym 'w server = "'w peer list list"



definition OnSetUserChannelKeys :: "'r env \<Rightarrow> ChannelSummary \<Rightarrow> UserSummary \<Rightarrow> kv_pairs \<Rightarrow> 'w server \<Rightarrow> 'w server option" where
  "OnSetUserChannelKeys E ch u keys =
     each (each (LLIterator_OnSetUserChannelKeys E ch
       (channel_name ch @ '' '' @ nick u @ '' BCAST :'' @ kv_ToString bslash nul False keys)))"

definition OnSetChannelKeys :: "'r env \<Rightarrow> ChannelSummary \<Rightarrow> kv_pairs \<Rightarrow> 'w server \<Rightarrow> 'w server option" where
  "OnSetChannelKeys E ch keys =
     each (each (LLIterator_OnSetChannelKeys E ch (channel_name ch @ '' BCAST :'' @ kv_ToString bslash nul False keys)))"

definition OnChannelBroadcast :: "'r env \<Rightarrow> OnChannelBroadcastState \<Rightarrow> 'w server \<Rightarrow> 'w server option" where
  "OnChannelBroadcast E st = each (each (LLIterator_OnChannelBroadcast E st))"

definition OnUpdateChanUsermode ::
  "(UserAddressVisibiltyInfo memory \<Rightarrow> nat) \<Rightarrow> i32 \<Rightarrow> UserSummary \<Rightarrow> i32 \<Rightarrow> 'w server \<Rightarrow> 'w server option" where
  "OnUpdateChanUsermode alloc chan u flags = each (each (LLIterator_OnSetUserChanModeFlags alloc (uid u) chan flags))"

definition OnRemoteDisconnect :: "'r env \<Rightarrow> string \<Rightarrow> 'w peer \<Rightarrow> 'w peer option" where
  "OnRemoteDisconnect E reason p = Some (Delete_peer E False reason p)"

definition OnKillUser_server :: "'r env \<Rightarrow> UserSummary \<Rightarrow> string \<Rightarrow> 'w server \<Rightarrow> 'w server option" where
  "OnKillUser_server E u reason = each (with_found_peer E u (OnRemoteDisconnect E reason))"

section \<open>Messages from the broker\<close>

definition sender :: "'r env \<Rightarrow> (string \<Rightarrow> string) \<Rightarrow> string \<Rightarrow> string \<Rightarrow> kv_pairs \<Rightarrow> 'r \<Rightarrow> UserSummary option" where
  "sender E unb64 id_key text_key kv d =
     (if HasKey kv id_key then Some (LookupUserById E (GetValueInt kv id_key) d)
      else
        let t = unb64 (c_string (GetValue kv text_key))
        in if ps_id (UserSummary_parse E t) = None then None else Some (text_summary E t))"



definition Handle_KeyUpdates ::
  "(UserAddressVisibiltyInfo memory \<Rightarrow> nat) \<Rightarrow> 'r env \<Rightarrow> (string \<Rightarrow> string) \<Rightarrow> string \<Rightarrow> 'r chat \<Rightarrow> 'w server
     \<Rightarrow> ('r chat \<times> 'w server) option" where
  "Handle_KeyUpdates alloc E unb64 message s srv =
     do {
       kv \<leftarrow> kv_of message;
       keys \<leftarrow> kv_of (unb64 (c_string (GetValue kv ''keys'')));
       (ch, s1) \<leftarrow> (if HasKey kv ''channel_id'' then LookupChannelById E (GetValueInt kv ''channel_id'') s
         else Some (new_channel, s));
       let u = (if HasKey kv ''user_id'' then LookupUserById E (GetValueInt kv ''user_id'') (db s1) else new_user);
       let type = GetValue kv ''type'';
       srv' \<leftarrow> (if type = ''SETCKEY'' then OnSetUserChannelKeys E ch u keys srv
         else if type = ''SETCHANKEY'' then OnSetChannelKeys E ch keys srv
         else if type = ''UPDATE_USER_CHANMODEFLAGS'' then
           OnUpdateChanUsermode alloc (channel_id ch) u (GetValueInt kv ''modeflags'') srv
         else if type = ''REMOTE_KILL'' then
           OnKillUser_server E u (c_string (unb64 (c_string (GetValue kv ''reason'')))) srv
         else Some srv);
       Some (s1, srv')
     }"

text \<open>The lists of channels and of their modes; a list of modes that is too short throws.\<close>

definition broadcast_channels :: "i32 list \<Rightarrow> i32 list \<Rightarrow> (int, i32) smap option" where
  "broadcast_channels chans modes =
     (if length chans \<le> length modes
      then Some (fold (\<lambda>(c, m). smap_put (sint c) m) (zip chans modes) []) else None)"

definition Handle_Broadcast ::
  "'r env \<Rightarrow> (string \<Rightarrow> string) \<Rightarrow> string \<Rightarrow> 'r chat \<Rightarrow> 'w server \<Rightarrow> ('r chat \<times> 'w server) option" where
  "Handle_Broadcast E unb64 message s srv =
     do {
       kv \<leftarrow> kv_of message;
       let text = unb64 (c_string (GetValue kv ''message''));
       from \<leftarrow> (if HasKey kv ''fromUserId'' \<or> HasKey kv ''fromSummary''
         then sender E unb64 ''fromUserId'' ''fromSummary'' kv (db s) else Some new_user);
       let numbers = (\<lambda>k. map (\<lambda>w. atoi (c_string w)) (getlines (CHR '','') (GetValue kv k)));
       chans \<leftarrow> broadcast_channels (numbers ''channels'') (numbers ''channel_modes'');
       srv' \<leftarrow> OnChannelBroadcast E \<lparr>bc_type = GetValue kv ''type'', bc_target = from, bc_channels = chans,
         bc_message = text, bc_includeSelf = (GetValueInt kv ''includeSelf'' \<noteq> 0)\<rparr> srv;
       Some (s, srv')
     }"

section \<open>Messages to the broker\<close>



definition comma_list :: "string list \<Rightarrow> string" where
  "comma_list ws = (let t = concat (map (\<lambda>w. w @ '','') ws) in if t = [] then [] else butlast t)"

text \<open>The flags are those of the peer when the task runs.\<close>

definition Perform_SetBroadcastToVisibleUsers ::
  "'r env \<Rightarrow> EPeerchatRequestType \<Rightarrow> PeerchatBackendRequest \<Rightarrow> (int, i32) smap \<Rightarrow> 'r chat \<Rightarrow> 'r chat" where
  "Perform_SetBroadcastToVisibleUsers E type r flags s =
     (let ids = req_channel_list r;
          mode = (\<lambda>c. case smap_find flags c of None \<Rightarrow> 0 | Some f \<Rightarrow> f);
          summary = (type = EPeerchatRequestType_SetBroadcastToVisibleUsers_SendSummary);
          self = (type = EPeerchatRequestType_SetBroadcastToVisibleUsers \<or> summary)
      in sendAMQPMessage ''peerchat.client-broadcasts''
        (kv_message [(''type'', c_string (req_message_type r)),
          (''message'', if req_message r \<noteq> [] then base64 E (req_message r) else []),
          (''channels'', comma_list (map (\<lambda>c. dec_int (word_of_int c)) ids)),
          (''channel_modes'', comma_list (map (\<lambda>c. dec_int (mode c)) ids)),
          (if summary then (''fromSummary'', ToBase64String E (req_summary r) True)
           else (''fromUserId'', dec_int (uid (req_summary r)))),
          (''includeSelf'', if self then ''1'' else ''0'')]) s)"

definition Perform_RemoteKill_ByName :: "'r env \<Rightarrow> PeerchatBackendRequest \<Rightarrow> 'r chat \<Rightarrow> 'r chat" where
  "Perform_RemoteKill_ByName E r s =
     sendAMQPMessage peerchat_key_updates_routingkey
       (kv_message [(''type'', ''REMOTE_KILL''), (''user_id'', dec_int (uid (GetUserSummaryByName E (username (req_summary r)) (db s)))),
          (''reason'', base64 E (comment (req_usermode r)))]) s"

section \<open>Coming and going\<close>

definition OnGetBackendId :: "i32 \<Rightarrow> 'w peer \<Rightarrow> 'w peer" where
  "OnGetBackendId backend_id s = s\<lparr>m_user_details := (m_user_details s)\<lparr>uid := backend_id\<rparr>\<rparr>"

definition OnConnectionReady :: "'r env \<Rightarrow> Address \<Rightarrow> 'w peer \<Rightarrow> 'w peer" where
  "OnConnectionReady E a s =
     s\<lparr>m_user_details := (m_user_details s)\<lparr>address := a, hostname := inet_ntop E (ip a)\<rparr>\<rparr>"

text \<open>The keys of the ciphers have no value until they are set; \<open>ctx\<close> is what they hold.\<close>

definition new_peer :: "'r env \<Rightarrow> Address \<Rightarrow> int \<Rightarrow> gs_peerchat_ctx \<Rightarrow> 'w \<Rightarrow> 'w peer" where
  "new_peer E a time ctx w =
     add_task EPeerchatRequestType_SetUserDetails (new_request\<lparr>req_callback := Callback ''OnGetBackendId''\<rparr>)
       (OnConnectionReady E a
         \<lparr>m_user_details = new_user, m_uniquenick = [], m_profileid = 0, m_sent_client_init = False, m_using_encryption = False,
          m_crypt_key_in = ctx, m_crypt_key_out = ctx, m_accumulator_buffer = [], m_flood_weight = 0, m_delete_flag = False,
          m_timeout_flag = False, m_quit_reason = [], m_last_recv = time, m_last_sent_ping = time, m_connect_time = time,
          m_last_keepalive = time, m_channel_flags = [], visibility_list = no_items, task_queue = idle, account_tasks = [],
          sent = [], beside = w\<rparr>)"

definition delete_peer :: "'w peer \<Rightarrow> 'w peer option" where
  "delete_peer s = PurgeUserAddressVisibility (send_quit (m_quit_reason s) s)"


section \<open>What a message says\<close>










lemma c_string_dec_int [simp]: "c_string (dec_int w) = dec_int w"
  by (rule c_string_id) simp








section \<open>Properties\<close>








end
