(* ===== verification/Jansson.thy ===== *)
theory Jansson
  imports CLib "HOL-Library.Monad_Syntax"
begin

text \<open>
  The JSON library the services call (jansson): its functions are a parameter, a record whose fields have
  the names of the C functions, and what the code relies on is the locale \<open>jansson_library\<close>. A \<open>json_t *\<close>
  is a value or, where the library may return or take NULL, an option; reference counts are left out. \<open>jtext\<close>
  is a small library with this behaviour, a printer and a parser of JSON texts.
\<close>

section \<open>The interface\<close>

record 'j jansson =
  json_object :: 'j
  json_object_set :: "string \<Rightarrow> 'j \<Rightarrow> 'j \<Rightarrow> 'j"          \<comment> \<open>key, value, object\<close>
  json_object_get :: "'j option \<Rightarrow> string \<Rightarrow> 'j option"
  json_string :: "string \<Rightarrow> 'j option"                  \<comment> \<open>NULL for a text that is not UTF-8\<close>
  json_string_value :: "'j option \<Rightarrow> string option"
  json_integer :: "int \<Rightarrow> 'j"
  json_integer_value :: "'j option \<Rightarrow> int"
  json_boolean :: "bool \<Rightarrow> 'j"                           \<comment> \<open>\<open>json_true()\<close>, \<open>json_false()\<close>\<close>
  json_null :: 'j
  json_array :: 'j
  json_array_append :: "'j \<Rightarrow> 'j \<Rightarrow> 'j"                   \<comment> \<open>value, array\<close>
  json_array_elements :: "'j option \<Rightarrow> 'j list"           \<comment> \<open>\<open>json_array_size\<close> and \<open>json_array_get\<close>\<close>
  json_is_object :: "'j \<Rightarrow> bool"
  json_is_string :: "'j \<Rightarrow> bool"
  json_is_integer :: "'j \<Rightarrow> bool"
  json_is_array :: "'j \<Rightarrow> bool"
  json_is_null :: "'j \<Rightarrow> bool"
  json_is_true :: "'j \<Rightarrow> bool"
  json_dumps :: "'j \<Rightarrow> string"
  json_loads :: "string \<Rightarrow> 'j option"

text \<open>\<open>json_object_set_new\<close> fails, and leaves the object alone, when the value is NULL.\<close>

definition json_object_set_new :: "'j jansson \<Rightarrow> string \<Rightarrow> 'j option \<Rightarrow> 'j \<Rightarrow> 'j" where
  "json_object_set_new J k v obj = (case v of None \<Rightarrow> obj | Some x \<Rightarrow> json_object_set J k x obj)"

definition json_members :: "'j jansson \<Rightarrow> (string \<times> 'j option) list \<Rightarrow> 'j \<Rightarrow> 'j" where
  "json_members J kvs obj = fold (\<lambda>(k, v). json_object_set_new J k v) kvs obj"

text \<open>The texts the library takes for C strings in UTF-8, as far as the model needs them.\<close>

definition ascii_text :: "string \<Rightarrow> bool" where
  "ascii_text s \<longleftrightarrow> list_all (\<lambda>c. 0 < code c \<and> code c < 128) s"

lemma ascii_text_simps [simp]:
  "ascii_text []" "ascii_text (c # s) \<longleftrightarrow> 0 < code c \<and> code c < 128 \<and> ascii_text s"
  "ascii_text (s @ t) \<longleftrightarrow> ascii_text s \<and> ascii_text t"
  by (auto simp: ascii_text_def)

section \<open>Documented behaviour\<close>

locale jansson_library =
  fixes J :: "'j jansson"
  assumes is_object [simp]: "json_is_object J (json_object J)"
      "json_is_object J obj \<Longrightarrow> json_is_object J (json_object_set J k v obj)"
    and get_object [simp]: "json_object_get J (Some (json_object J)) k = None"
    and get_set: "json_is_object J obj \<Longrightarrow>
        json_object_get J (Some (json_object_set J k v obj)) k' =
          (if k = k' then Some v else json_object_get J (Some obj) k')"
    and get_NULL [simp]: "json_object_get J None k = None"
    and string: "ascii_text s \<Longrightarrow> json_string J s \<noteq> None"
      "json_string J s = Some v \<Longrightarrow> json_string_value J (Some v) = Some s"
      "json_string_value J None = None"
    and integer [simp]: "- (2 ^ 63) \<le> i \<Longrightarrow> i < 2 ^ 63 \<Longrightarrow> json_integer_value J (Some (json_integer J i)) = i"
      "json_integer_value J None = 0"
    and kinds [simp]: "json_is_integer J (json_integer J i)"
      "\<not> json_is_string J (json_integer J i)" "\<not> json_is_null J (json_integer J i)"
      "\<not> json_is_true J (json_integer J i)" "json_is_true J (json_boolean J b) = b"
      "json_is_null J (json_null J)"
    and elements [simp]: "json_array_elements J (Some (json_array J)) = []"
      "json_is_array J (json_array J)"
      "json_is_array J a \<Longrightarrow> json_is_array J (json_array_append J v a)"
      "json_is_array J a \<Longrightarrow>
         json_array_elements J (Some (json_array_append J v a)) = json_array_elements J (Some a) @ [v]"
    and loads_dumps [simp]: "json_is_object J obj \<Longrightarrow> json_loads J (json_dumps J obj) = Some obj"
begin

lemma is_object_set_new [simp]:
  "json_is_object J obj \<Longrightarrow> json_is_object J (json_object_set_new J k v obj)"
  by (simp add: json_object_set_new_def split: option.split)

lemma is_object_members [simp]: "json_is_object J obj \<Longrightarrow> json_is_object J (json_members J kvs obj)"
  unfolding json_members_def by (induction kvs arbitrary: obj) (auto split: prod.split)

lemma get_set_new: "json_is_object J obj \<Longrightarrow> json_object_get J (Some (json_object_set_new J k v obj)) k' =
    (if k = k' \<and> v \<noteq> None then v else json_object_get J (Some obj) k')"
  by (auto simp: json_object_set_new_def get_set split: option.split)

text \<open>A member is read back when its key is written once.\<close>

lemma get_members: "json_is_object J obj \<Longrightarrow> distinct (map fst kvs) \<Longrightarrow>
    json_object_get J (Some (json_members J kvs obj)) k =
      (case map_of kvs k of Some (Some v) \<Rightarrow> Some v | _ \<Rightarrow> json_object_get J (Some obj) k)"
proof (induction kvs arbitrary: obj)
  case Nil
  show ?case by (simp add: json_members_def)
next
  case (Cons kv kvs)
  obtain k1 v1 where kv: "kv = (k1, v1)" by (cases kv)
  have step: "json_members J (kv # kvs) obj = json_members J kvs (json_object_set_new J k1 v1 obj)"
    by (simp add: json_members_def kv)
  have notin: "map_of kvs k1 = None" using Cons.prems(2) by (simp add: kv map_of_eq_None_iff)
  have d: "distinct (map fst kvs)" using Cons.prems(2) by simp
  show ?case
    unfolding step Cons.IH [OF is_object_set_new [OF Cons.prems(1)] d] get_set_new [OF Cons.prems(1)]
    using notin by (auto simp: kv split: option.splits)
qed

lemma string_value: "ascii_text s \<Longrightarrow> json_string_value J (json_string J s) = Some s"
  using string(1) [of s] string(2) [of s] by (cases "json_string J s") auto

end

section \<open>A library\<close>

datatype json = JNull | JBool bool | JInt int | JStr string | JArr "json list" | JObj "(string \<times> json) list"

subsection \<open>Printing\<close>

definition hex_char :: "nat \<Rightarrow> char" where
  "hex_char d = char_of (if d < 10 then 48 + d else 87 + d)"

definition hex_digit :: "char \<Rightarrow> nat" where
  "hex_digit c = (if isdigit c then code c - 48 else code c - 87)"

definition jchar :: "char \<Rightarrow> string" where
  "jchar c = (if c = CHR 0x22 \<or> c = CHR 0x5C then [CHR 0x5C, c]
     else if code c < 32 then CHR 0x5C # ''u00'' @ [hex_char (code c div 16), hex_char (code c mod 16)]
     else [c])"

definition jquote :: "string \<Rightarrow> string" where
  "jquote s = CHR 0x22 # concat (map jchar s) @ [CHR 0x22]"

definition jint :: "int \<Rightarrow> string" where
  "jint i = (if i < 0 then CHR ''-'' # dec_nat (nat (- i)) else dec_nat (nat i))"

fun jdump :: "json \<Rightarrow> string" and jitems :: "json list \<Rightarrow> string" and jmembers :: "(string \<times> json) list \<Rightarrow> string" where
  "jdump JNull = ''null''"
| "jdump (JBool b) = (if b then ''true'' else ''false'')"
| "jdump (JInt i) = jint i"
| "jdump (JStr s) = jquote s"
| "jdump (JArr vs) = CHR ''['' # jitems vs @ '']''"
| "jdump (JObj kvs) = CHR ''{'' # jmembers kvs @ ''}''"
| "jitems [] = []"
| "jitems (v # vs) = jdump v @ (if vs = [] then [] else CHR '','' # CHR '' '' # jitems vs)"
| "jmembers [] = []"
| "jmembers ((k, v) # kvs) = jquote k @ CHR '':'' # CHR '' '' # jdump v @
     (if kvs = [] then [] else CHR '','' # CHR '' '' # jmembers kvs)"

subsection \<open>Parsing\<close>

definition ws :: "string \<Rightarrow> string" where
  "ws s = dropWhile isspace s"

text \<open>A string after its opening quote, up to the closing one.\<close>

fun junquote :: "string \<Rightarrow> (string \<times> string) option" where
  "junquote [] = None"
| "junquote (c # s) =
     (if c = CHR 0x22 then Some ([], s)
      else if c = CHR 0x5C then
        (case s of
           u # a # b # d # e # s' \<Rightarrow>
             if u = CHR ''u'' then map_option (apfst ((#) (char_of (16 * hex_digit d + hex_digit e)))) (junquote s')
             else map_option (apfst ((#) u)) (junquote (a # b # d # e # s'))
         | u # s' \<Rightarrow> map_option (apfst ((#) u)) (junquote s')
         | [] \<Rightarrow> None)
      else map_option (apfst ((#) c)) (junquote s))"

fun jparse :: "nat \<Rightarrow> string \<Rightarrow> (json \<times> string) option"
  and jparse_items :: "nat \<Rightarrow> string \<Rightarrow> (json list \<times> string) option"
  and jparse_members :: "nat \<Rightarrow> string \<Rightarrow> ((string \<times> json) list \<times> string) option" where
  "jparse 0 s = None"
| "jparse (Suc n) s =
     (let t = ws s in
      case t of [] \<Rightarrow> None
      | c # r \<Rightarrow>
          if c = CHR 0x22 then map_option (apfst JStr) (junquote r)
          else if c = CHR ''['' then
            (case ws r of d # r' \<Rightarrow> if d = CHR '']'' then Some (JArr [], r')
                                     else map_option (apfst JArr) (jparse_items n r)
             | [] \<Rightarrow> None)
          else if c = CHR ''{'' then
            (case ws r of d # r' \<Rightarrow> if d = CHR ''}'' then Some (JObj [], r')
                                     else map_option (apfst JObj) (jparse_members n r)
             | [] \<Rightarrow> None)
          else if c = CHR ''-'' then
            (case r of d # _ \<Rightarrow> if isdigit d then Some (JInt (- int (digits_val 0 r)), dropWhile isdigit r) else None
             | [] \<Rightarrow> None)
          else if isdigit c then Some (JInt (int (digits_val 0 t)), dropWhile isdigit t)
          else if starts_with ''null'' t then Some (JNull, drop 4 t)
          else if starts_with ''true'' t then Some (JBool True, drop 4 t)
          else if starts_with ''false'' t then Some (JBool False, drop 5 t)
          else None)"
| "jparse_items 0 s = None"
| "jparse_items (Suc n) s =
     do { (v, r) \<leftarrow> jparse n s;
          case ws r of [] \<Rightarrow> None
          | c # r' \<Rightarrow> if c = CHR '','' then map_option (apfst ((#) v)) (jparse_items n r')
                      else if c = CHR '']'' then Some ([v], r') else None }"
| "jparse_members 0 s = None"
| "jparse_members (Suc n) s =
     (case ws s of [] \<Rightarrow> None
      | q # s' \<Rightarrow>
          if q \<noteq> CHR 0x22 then None
          else do { (k, r) \<leftarrow> junquote s';
               case ws r of [] \<Rightarrow> None
               | c # r1 \<Rightarrow> if c \<noteq> CHR '':'' then None else
                   do { (v, r2) \<leftarrow> jparse n r1;
                        case ws r2 of [] \<Rightarrow> None
                        | d # r3 \<Rightarrow> if d = CHR '','' then map_option (apfst ((#) (k, v))) (jparse_members n r3)
                                    else if d = CHR ''}'' then Some ([(k, v)], r3) else None } })"

text \<open>\<open>json_loads\<close> without flags takes an object or an array, and the fuel is more than any text needs.\<close>

definition jload :: "string \<Rightarrow> json option" where
  "jload s =
     (case jparse (2 * length s + 2) s of
        Some (JObj kvs, r) \<Rightarrow> if ws r = [] then Some (JObj kvs) else None
      | Some (JArr vs, r) \<Rightarrow> if ws r = [] then Some (JArr vs) else None
      | _ \<Rightarrow> None)"

subsection \<open>Reading back what was printed\<close>

lemma hex_digit_hex_char: "d < 16 \<Longrightarrow> hex_digit (hex_char d) = d"
  by (auto simp: hex_digit_def hex_char_def isdigit_def)

lemma junquote_jquote: "junquote (concat (map jchar s) @ CHR 0x22 # r) = Some (s, r)"
proof (induction s)
  case (Cons c s)
  have c: "char_of (16 * (code c div 16) + code c mod 16) = c" by simp
  have d: "code c div 16 < 16" using code_less [of c] by linarith
  have two: "junquote (CHR 0x5C # c # t) = map_option (apfst ((#) c)) (junquote t)" if "c \<noteq> CHR ''u''" for c t
    using that by (auto split: list.split)
  show ?case
  proof (cases "c = CHR 0x22 \<or> c = CHR 0x5C")
    case True
    then have "c \<noteq> CHR ''u''" by auto
    from two [OF this] show ?thesis using Cons True by (simp add: jchar_def del: junquote.simps)
  next
    case False
    then show ?thesis using Cons c d by (auto simp: jchar_def hex_digit_hex_char)
  qed
qed simp

lemma takeWhile_digits: "(\<And>c. c \<in> set s \<Longrightarrow> isdigit c) \<Longrightarrow> (r \<noteq> [] \<Longrightarrow> \<not> isdigit (hd r)) \<Longrightarrow>
    dropWhile isdigit (s @ r) = r \<and> digits_val a (s @ r) = digits_val a s"
proof (induction s arbitrary: a)
  case Nil
  then show ?case by (cases r) auto
qed auto

lemma ws_nonspace [simp]: "\<not> isspace c \<Longrightarrow> ws (c # r) = c # r"
  by (simp add: ws_def)

lemma ws_space [simp]: "ws (CHR '' '' # r) = ws r"
  by (simp add: ws_def isspace_def)

lemma ws_Nil [simp]: "ws [] = []"
  by (simp add: ws_def)

abbreviation no_digit :: "string \<Rightarrow> bool" where
  "no_digit r \<equiv> r \<noteq> [] \<longrightarrow> \<not> isdigit (hd r)"

lemma dec_nat_read:
  assumes "no_digit r"
  shows "dropWhile isdigit (dec_nat m @ r) = r \<and> digits_val 0 (dec_nat m @ r) = m"
  using takeWhile_digits [of "dec_nat m" r 0] dec_nat_digits [of _ m] assms digits_val_dec_nat [of m] by auto

lemma jparse_digits:
  assumes "no_digit r"
  shows "jparse (Suc n) (dec_nat m @ r) = Some (JInt (int m), r)"
proof -
  obtain c t where ct: "dec_nat m = c # t" by (cases "dec_nat m") auto
  have dig: "isdigit c" using dec_nat_digits [of c m] ct by simp
  have "c \<noteq> CHR 0x22" "c \<noteq> CHR ''[''" "c \<noteq> CHR ''{''" "c \<noteq> CHR ''-''" "\<not> isspace c"
    using dig isdigit_not_space [OF dig] by (auto simp: isdigit_def)
  then show ?thesis
    using dec_nat_read [OF assms, of m] dig
    by (simp add: ct Let_def del: dropWhile.simps digits_val.simps)
qed

lemma jparse_jint:
  assumes "no_digit r"
  shows "jparse (Suc n) (jint i @ r) = Some (JInt i, r)"
proof (cases "i < 0")
  case True
  obtain c t where ct: "dec_nat (nat (- i)) = c # t" by (cases "dec_nat (nat (- i))") auto
  have dig: "isdigit c" using dec_nat_digits [of c "nat (- i)"] ct by simp
  have nd: "\<not> isdigit (CHR ''-'')" "\<not> isspace (CHR ''-'')" by (simp_all add: isdigit_def isspace_def)
  show ?thesis
    using dec_nat_read [OF assms, of "nat (- i)"] dig True nd
    by (simp add: jint_def ct Let_def del: dropWhile.simps digits_val.simps)
next
  case False
  then show ?thesis using jparse_digits [OF assms] by (simp add: jint_def)
qed

lemma jdump_nonempty [simp]: "jdump v \<noteq> []"
  by (cases v) (auto simp: jint_def jquote_def)

lemma jparse_ws [simp]: "jparse n (CHR '' '' # s) = jparse n s"
  by (cases n) simp_all

lemma jitems_ws [simp]: "jparse_items n (CHR '' '' # s) = jparse_items n s"
  by (cases n) simp_all

lemma jmembers_ws [simp]: "jparse_members n (CHR '' '' # s) = jparse_members n s"
  by (cases n) simp_all

lemma jdump_start: "\<exists>c r. jdump v = c # r \<and> \<not> isspace c \<and> c \<noteq> CHR '']''"
proof (cases v)
  case (JInt i)
  have "\<exists>c r. dec_nat m = c # r \<and> isdigit c" for m
    using dec_nat_digits [of _ m] by (cases "dec_nat m") auto
  then show ?thesis
    using JInt isdigit_not_space by (fastforce simp: jint_def isdigit_def isspace_def)
qed (auto simp: jquote_def isspace_def)


lemma jitems_start: "vs \<noteq> [] \<Longrightarrow> \<exists>c r. jitems vs = c # r \<and> \<not> isspace c \<and> c \<noteq> CHR '']''"
  using jdump_start by (cases vs) fastforce+

lemma jmembers_start: "kvs \<noteq> [] \<Longrightarrow> \<exists>r. jmembers kvs = CHR 0x22 # r"
  by (cases kvs) (auto simp: jquote_def)

lemma jparse_string: "jparse (Suc n) (jquote s @ r) = Some (JStr s, r)"
  by (simp add: jquote_def junquote_jquote isspace_def)

lemma jparse_array:
  assumes "jparse_items n (jitems (v # vs) @ CHR '']'' # r) = Some (v # vs, r)"
  shows "jparse (Suc n) (jdump (JArr (v # vs)) @ r) = Some (JArr (v # vs), r)"
proof -
  obtain c t where ct: "jitems (v # vs) = c # t" "\<not> isspace c" "c \<noteq> CHR '']''"
    using jitems_start [of "v # vs"] by auto
  have b: "\<not> isspace (CHR ''['')" by (simp add: isspace_def)
  show ?thesis
    using assms b ct(2,3) by (simp add: ct(1) Let_def del: jitems.simps)
qed

lemma jparse_object:
  assumes "jparse_members n (jmembers (kv # kvs) @ CHR ''}'' # r) = Some (kv # kvs, r)"
  shows "jparse (Suc n) (jdump (JObj (kv # kvs)) @ r) = Some (JObj (kv # kvs), r)"
proof -
  obtain t where ct: "jmembers (kv # kvs) = CHR 0x22 # t"
    using jmembers_start [of "kv # kvs"] by auto
  have b: "\<not> isspace (CHR ''{'')" "\<not> isspace (CHR 0x22)" by (simp_all add: isspace_def)
  show ?thesis
    using assms b by (simp add: ct Let_def del: jmembers.simps)
qed

lemma no_digit_sep [simp]: "\<not> isdigit (CHR '','')" "\<not> isdigit (CHR '']'')" "\<not> isdigit (CHR ''}'')"
    "\<not> isspace (CHR '','')" "\<not> isspace (CHR '']'')" "\<not> isspace (CHR ''}'')" "\<not> isspace (CHR '':'')"
    "\<not> isspace (CHR 0x22)"
  by (simp_all add: isdigit_def isspace_def)

lemma jparse_jdump:
  "\<And>n r. 2 * length (jdump v) \<le> n \<Longrightarrow> no_digit r \<Longrightarrow> jparse n (jdump v @ r) = Some (v, r)"
  "\<And>n r. vs \<noteq> [] \<Longrightarrow> 2 * length (jitems vs) + 1 \<le> n \<Longrightarrow>
     jparse_items n (jitems vs @ CHR '']'' # r) = Some (vs, r)"
  "\<And>n r. kvs \<noteq> [] \<Longrightarrow> 2 * length (jmembers kvs) + 1 \<le> n \<Longrightarrow>
     jparse_members n (jmembers kvs @ CHR ''}'' # r) = Some (kvs, r)"
proof (induction v and vs and kvs rule: jdump_jitems_jmembers.induct)
  case 1
  then show ?case by (cases n) (simp_all add: isspace_def isdigit_def starts_with_def)
next
  case (2 b)
  then show ?case by (cases b; cases n) (auto simp: isspace_def isdigit_def starts_with_def)
next
  case (3 i)
  then obtain m where m: "n = Suc m" by (cases n) (auto simp: jint_def split: if_splits)
  show ?case unfolding m using jparse_jint [OF 3(2), of m i] by (simp only: jdump.simps)
next
  case (4 s)
  then obtain m where m: "n = Suc m" by (cases n) (auto simp: jquote_def)
  show ?case unfolding m using jparse_string [of m s r] by (simp only: jdump.simps)
next
  case (5 vs)
  then obtain m where m: "n = Suc m" by (cases n) auto
  show ?case
  proof (cases vs)
    case Nil
    then show ?thesis by (simp add: m isspace_def)
  next
    case (Cons v ws)
    have "jparse_items m (jitems vs @ CHR '']'' # r) = Some (vs, r)"
      using 5(2) by (intro 5(1)) (simp_all add: Cons m)
    then show ?thesis unfolding m Cons by (rule jparse_array)
  qed
next
  case (6 kvs)
  then obtain m where m: "n = Suc m" by (cases n) auto
  show ?case
  proof (cases kvs)
    case Nil
    then show ?thesis by (simp add: m isspace_def)
  next
    case (Cons v ws)
    have "jparse_members m (jmembers kvs @ CHR ''}'' # r) = Some (kvs, r)"
      using 6(2) by (intro 6(1)) (simp_all add: Cons m)
    then show ?thesis unfolding m Cons by (rule jparse_object)
  qed
next
  case (8 v vs)
  then obtain m where m: "n = Suc m" by (cases n) auto
  have v: "jparse m (jdump v @ r') = Some (v, r')" if "no_digit r'" for r'
    using 8(4) that by (intro 8(1)) (simp_all add: m)
  show ?case
  proof (cases "vs = []")
    case True
    then show ?thesis by (simp add: m v)
  next
    case False
    then have "jparse_items m (jitems vs @ CHR '']'' # r) = Some (vs, r)"
      using 8(4) by (intro 8(2)) (simp_all add: m)
    then show ?thesis using False by (simp add: m v)
  qed
next
  case (10 k v kvs)
  then obtain m where m: "n = Suc m" by (cases n) auto
  have v: "jparse m (jdump v @ r') = Some (v, r')" if "no_digit r'" for r'
    using 10(4) that by (intro 10(1)) (simp_all add: m)
  show ?case
  proof (cases "kvs = []")
    case True
    then show ?thesis by (simp add: m v jquote_def junquote_jquote)
  next
    case False
    then have "jparse_members m (jmembers kvs @ CHR ''}'' # r) = Some (kvs, r)"
      using 10(4) by (intro 10(2)) (simp_all add: m)
    then show ?thesis using False by (simp add: m v jquote_def junquote_jquote)
  qed
qed simp_all

lemma jload_jdump: "jload (jdump (JObj kvs)) = Some (JObj kvs)"
  using jparse_jdump(1) [where v = "JObj kvs" and r = "[]" and n = "2 * length (jdump (JObj kvs)) + 2"]
  unfolding jload_def by simp

subsection \<open>The library\<close>

definition jtext :: "json jansson" where
  "jtext = \<lparr>json_object = JObj [],
     json_object_set = (\<lambda>k v obj. case obj of JObj kvs \<Rightarrow> JObj (filter (\<lambda>kv. fst kv \<noteq> k) kvs @ [(k, v)]) | _ \<Rightarrow> obj),
     json_object_get = (\<lambda>obj k. case obj of Some (JObj kvs) \<Rightarrow> map_of (rev kvs) k | _ \<Rightarrow> None),
     json_string = (\<lambda>s. if ascii_text s then Some (JStr s) else None),
     json_string_value = (\<lambda>v. case v of Some (JStr s) \<Rightarrow> Some s | _ \<Rightarrow> None),
     json_integer = JInt,
     json_integer_value = (\<lambda>v. case v of Some (JInt i) \<Rightarrow> i | _ \<Rightarrow> 0),
     json_boolean = JBool, json_null = JNull, json_array = JArr [],
     json_array_append = (\<lambda>v a. case a of JArr vs \<Rightarrow> JArr (vs @ [v]) | _ \<Rightarrow> a),
     json_array_elements = (\<lambda>a. case a of Some (JArr vs) \<Rightarrow> vs | _ \<Rightarrow> []),
     json_is_object = (\<lambda>v. case v of JObj _ \<Rightarrow> True | _ \<Rightarrow> False),
     json_is_string = (\<lambda>v. case v of JStr _ \<Rightarrow> True | _ \<Rightarrow> False),
     json_is_integer = (\<lambda>v. case v of JInt _ \<Rightarrow> True | _ \<Rightarrow> False),
     json_is_array = (\<lambda>v. case v of JArr _ \<Rightarrow> True | _ \<Rightarrow> False),
     json_is_null = (\<lambda>v. v = JNull), json_is_true = (\<lambda>v. v = JBool True),
     json_dumps = jdump, json_loads = jload\<rparr>"

lemma map_of_filter_ne: "map_of (rev (filter (\<lambda>kv. fst kv \<noteq> k) kvs)) k' =
    (if k = k' then None else map_of (rev kvs) k')"
  by (auto simp: map_of_eq_None_iff simp flip: rev_filter)
    (induction kvs rule: rev_induct; auto)

interpretation jtext: jansson_library jtext
proof
  fix k v obj k'
  show "json_is_object jtext obj \<Longrightarrow>
      json_object_get jtext (Some (json_object_set jtext k v obj)) k' =
        (if k = k' then Some v else json_object_get jtext (Some obj) k')"
    by (cases obj) (auto simp: jtext_def map_of_filter_ne)
  show "json_is_object jtext obj \<Longrightarrow> json_loads jtext (json_dumps jtext obj) = Some obj"
    by (cases obj) (simp_all add: jtext_def jload_jdump del: jdump.simps)
qed (auto simp: jtext_def split: json.splits if_splits)

end
