(* ===== verification/NatNeg.thy ===== *)
theory NatNeg
  imports Buffer NetAddress Jansson
begin

text \<open>
  The NAT negotiation service (\<open>natneg/server\<close>, \<open>natneg/tasks\<close>): it turns the datagrams of game clients into
  JSON messages for the service that matches them, and that service's messages into datagrams. A
  \<open>NatNegPacket\<close> is packed; the members of its union overlap, so the union is its 61 bytes and a member is
  a read of them. What the uninitialised packet on the stack holds is a parameter (73 bytes). Logging is
  left out; the JSON library, \<open>inet_addr\<close> and \<open>inet_ntop\<close> are parameters.
\<close>

section \<open>Packets\<close>

definition NNMagicData :: "byte list" where
  "NNMagicData = [0xFD, 0xFC, 0x1E, 0x66, 0x6A, 0xB2]"

record NatNegPacket =
  nn_magic :: "byte list"
  nn_version :: byte
  nn_packettype :: byte
  nn_cookie :: u32         \<comment> \<open>as it lies in memory, in network order\<close>
  nn_union :: "byte list"

abbreviation "NATNEG_MAGIC_LEN \<equiv> 6 :: nat"
abbreviation "BASEPACKET_SIZE \<equiv> 12 :: int"
abbreviation "INITPACKET_SIZE \<equiv> 21 :: int"
abbreviation "REPORTPACKET_SIZE \<equiv> 73 :: int"
abbreviation "CONNECTPACKET_SIZE \<equiv> 20 :: int"
abbreviation "PREINITPACKET_SIZE \<equiv> 18 :: int"

abbreviation "NN_INIT \<equiv> 0 :: byte"
abbreviation "NN_INITACK \<equiv> 1 :: byte"
abbreviation "NN_ERTTEST \<equiv> 2 :: byte"
abbreviation "NN_ERTACK \<equiv> 3 :: byte"
abbreviation "NN_CONNECT \<equiv> 5 :: byte"
abbreviation "NN_CONNECT_ACK \<equiv> 6 :: byte"
abbreviation "NN_CONNECT_PING \<equiv> 7 :: byte"
abbreviation "NN_ADDRESS_CHECK \<equiv> 10 :: byte"
abbreviation "NN_ADDRESS_REPLY \<equiv> 11 :: byte"
abbreviation "NN_NATIFY_REQUEST \<equiv> 12 :: byte"
abbreviation "NN_REPORT \<equiv> 13 :: byte"
abbreviation "NN_REPORT_ACK \<equiv> 14 :: byte"
abbreviation "NN_PREINIT \<equiv> 15 :: byte"
abbreviation "NN_PREINIT_ACK \<equiv> 16 :: byte"
abbreviation "NN_PREINIT_READY \<equiv> 2 :: byte"

text \<open>The packet's memory, and the packet a piece of memory is.\<close>

definition packet_bytes :: "NatNegPacket \<Rightarrow> byte list" where
  "packet_bytes p = nn_magic p @ [nn_version p, nn_packettype p] @ le_bytes 4 (unat (nn_cookie p)) @ nn_union p"

definition packet_of :: "byte list \<Rightarrow> NatNegPacket" where
  "packet_of m = \<lparr>nn_magic = take 6 m, nn_version = m ! 6, nn_packettype = m ! 7,
     nn_cookie = word_of_nat (le_val (take 4 (drop 8 m))), nn_union = take 61 (drop 12 m)\<rparr>"

text \<open>Reads and writes of union members.\<close>

definition member :: "nat \<Rightarrow> nat \<Rightarrow> NatNegPacket \<Rightarrow> nat" where
  "member i n p = le_val (take n (drop i (nn_union p)))"

definition set_bytes :: "nat \<Rightarrow> byte list \<Rightarrow> NatNegPacket \<Rightarrow> NatNegPacket" where
  "set_bytes i bs p = p\<lparr>nn_union := take i (nn_union p) @ bs @ drop (i + length bs) (nn_union p)\<rparr>"

definition Init_porttype :: "NatNegPacket \<Rightarrow> byte" where
  "Init_porttype p = word_of_nat (member 0 1 p)"

definition Init_clientindex :: "NatNegPacket \<Rightarrow> byte" where
  "Init_clientindex p = word_of_nat (member 1 1 p)"

definition Init_usegameport :: "NatNegPacket \<Rightarrow> byte" where
  "Init_usegameport p = word_of_nat (member 2 1 p)"

definition Init_localip :: "NatNegPacket \<Rightarrow> u32" where
  "Init_localip p = word_of_nat (member 3 4 p)"

definition Init_localport :: "NatNegPacket \<Rightarrow> u16" where
  "Init_localport p = word_of_nat (member 7 2 p)"

definition set_Init_address :: "u32 \<Rightarrow> u16 \<Rightarrow> NatNegPacket \<Rightarrow> NatNegPacket" where
  "set_Init_address a pt p = set_bytes 7 (le_bytes 2 (unat pt)) (set_bytes 3 (le_bytes 4 (unat a)) p)"

definition packetSizeFromType :: "byte \<Rightarrow> byte \<Rightarrow> int" where
  "packetSizeFromType t v =
     (if t = NN_PREINIT \<or> t = NN_PREINIT_ACK then PREINITPACKET_SIZE
      else if t = NN_ADDRESS_REPLY \<or> t = NN_NATIFY_REQUEST \<or> t = NN_ERTTEST \<or> t = NN_INIT \<or>
          t = NN_INITACK \<or> t = NN_CONNECT_ACK
        then (if v = 1 then INITPACKET_SIZE - 6 else INITPACKET_SIZE)
      else if t = NN_CONNECT_PING \<or> t = NN_CONNECT then CONNECTPACKET_SIZE
      else if t = NN_REPORT \<or> t = NN_REPORT_ACK then REPORTPACKET_SIZE
      else 0) - BASEPACKET_SIZE"

section \<open>What the service does\<close>

datatype nn_action =
    SendUDPPacket Address "byte list"
  | SubmitJson string

record 'j nn_env =
  nn_json :: "'j jansson"
  nn_aton :: "string \<Rightarrow> u32"
  nn_ntop :: "u32 \<Rightarrow> string"
  nn_hostname :: string
  nn_stack :: "byte list"
  nn_drivers :: "Address list"    \<comment> \<open>the addresses of the server's drivers\<close>

definition SendPacket :: "Address \<Rightarrow> NatNegPacket \<Rightarrow> nn_action list option" where
  "SendPacket dest packet =
     (let size = nat (packetSizeFromType (nn_packettype packet) (nn_version packet) + BASEPACKET_SIZE);
          p = packet\<lparr>nn_magic := NNMagicData\<rparr> in
      do { b \<leftarrow> WriteBuffer (take size (packet_bytes p)) (Buffer_alloc size);
           Some [SendUDPPacket dest (map the (contents b))] })"

section \<open>Handlers of datagrams\<close>

definition handle_address_check_packet :: "Address \<Rightarrow> NatNegPacket \<Rightarrow> nn_action list option" where
  "handle_address_check_packet from_address packet =
     do { pt \<leftarrow> port from_address;
          SendPacket from_address (set_Init_address (ip from_address) pt (packet\<lparr>nn_packettype := NN_ADDRESS_REPLY\<rparr>)) }"

definition handle_report_packet :: "Address \<Rightarrow> NatNegPacket \<Rightarrow> nn_action list option" where
  "handle_report_packet from_address packet = SendPacket from_address (packet\<lparr>nn_packettype := NN_REPORT_ACK\<rparr>)"

text \<open>
  The log call of \<open>handle_preinit_packet\<close> has one argument less than its format has conversions: undefined
  behaviour. The reader never calls it.
\<close>

definition handle_preinit_packet :: "Address \<Rightarrow> NatNegPacket \<Rightarrow> nn_action list option" where
  "handle_preinit_packet from_address packet = None"

text \<open>The text of an address as a JSON string.\<close>

definition json_address :: "'j nn_env \<Rightarrow> Address \<Rightarrow> 'j option option" where
  "json_address E a = map_option (json_string (nn_json E)) (Address_ToString (nn_ntop E) False a)"

definition json_cookie :: "'j nn_env \<Rightarrow> NatNegPacket \<Rightarrow> 'j" where
  "json_cookie E packet = json_integer (nn_json E) (sint (ntohl (nn_cookie packet)))"

definition json_byte :: "'j nn_env \<Rightarrow> byte \<Rightarrow> 'j option" where
  "json_byte E b = Some (json_integer (nn_json E) (uint b))"

text \<open>The members every message starts with.\<close>

definition base_members :: "'j nn_env \<Rightarrow> Address \<Rightarrow> Address \<Rightarrow> (string \<times> 'j option) list option" where
  "base_members E driver_address from_address =
     do { a \<leftarrow> json_address E from_address;
          d \<leftarrow> json_address E driver_address;
          Some [(''address'', a), (''driver_address'', d), (''hostname'', json_string (nn_json E) (nn_hostname E))] }"


text \<open>A JSON object with the given members is handed to the broker.\<close>

definition submit :: "'j nn_env \<Rightarrow> (string \<times> 'j option) list \<Rightarrow> nn_action list" where
  "submit E kvs = [SubmitJson (json_dumps (nn_json E) (json_members (nn_json E) kvs (json_object (nn_json E))))]"

definition private_address :: "NatNegPacket \<Rightarrow> Address" where
  "private_address packet = Address_new (Init_localip packet) (htons (Init_localport packet))"

definition get_init_object ::
  "'j nn_env \<Rightarrow> Address \<Rightarrow> Address \<Rightarrow> NatNegPacket \<Rightarrow> string \<Rightarrow> (string \<times> 'j option) list option" where
  "get_init_object E driver from_address packet gamename =
     do { base \<leftarrow> base_members E driver from_address;
          pa \<leftarrow> json_address E (private_address packet);
          Some (base @ [(''gamename'', json_string (nn_json E) (c_string gamename)),
            (''version'', json_byte E (nn_version packet)),
            (''type'', json_string (nn_json E) ''init''),
            (''cookie'', Some (json_cookie E packet)),
            (''data'', Some (json_members (nn_json E)
               [(''porttype'', json_byte E (Init_porttype packet)),
                (''clientindex'', json_byte E (Init_clientindex packet)),
                (''use_gameport'', json_byte E (Init_usegameport packet)),
                (''private_address'', pa)] (json_object (nn_json E))))]) }"

definition handle_init_packet ::
  "'j nn_env \<Rightarrow> Address \<Rightarrow> Address \<Rightarrow> NatNegPacket \<Rightarrow> string \<Rightarrow> nn_action list option" where
  "handle_init_packet E driver from_address packet gamename =
     map_option (submit E) (get_init_object E driver from_address packet gamename)"

definition get_connect_ack_object ::
  "'j nn_env \<Rightarrow> Address \<Rightarrow> Address \<Rightarrow> NatNegPacket \<Rightarrow> (string \<times> 'j option) list option" where
  "get_connect_ack_object E driver from_address packet =
     do { base \<leftarrow> base_members E driver from_address;
          Some (base @ [(''version'', json_byte E (nn_version packet)),
            (''type'', json_string (nn_json E) ''connect_ack''),
            (''cookie'', Some (json_cookie E packet)),
            (''clientindex'', json_byte E (Init_clientindex packet))]) }"

definition handle_connect_ack_packet ::
  "'j nn_env \<Rightarrow> Address \<Rightarrow> Address \<Rightarrow> NatNegPacket \<Rightarrow> nn_action list option" where
  "handle_connect_ack_packet E driver from_address packet =
     map_option (submit E) (get_connect_ack_object E driver from_address packet)"

definition get_ert_ack_object ::
  "'j nn_env \<Rightarrow> Address \<Rightarrow> Address \<Rightarrow> NatNegPacket \<Rightarrow> (string \<times> 'j option) list option" where
  "get_ert_ack_object E driver from_address packet =
     do { base \<leftarrow> base_members E driver from_address;
          Some (base @ [(''cookie'', Some (json_cookie E packet)),
            (''type'', json_string (nn_json E) ''ert_ack'')]) }"

definition handle_ert_ack_packet ::
  "'j nn_env \<Rightarrow> Address \<Rightarrow> Address \<Rightarrow> NatNegPacket \<Rightarrow> nn_action list option" where
  "handle_ert_ack_packet E driver from_address packet =
     map_option (submit E) (get_ert_ack_object E driver from_address packet)"

definition get_natify_object ::
  "'j nn_env \<Rightarrow> Address \<Rightarrow> Address \<Rightarrow> NatNegPacket \<Rightarrow> (string \<times> 'j option) list option" where
  "get_natify_object E driver from_address packet =
     do { base \<leftarrow> base_members E driver from_address;
          pa \<leftarrow> json_address E (private_address packet);
          Some (base @ [(''version'', json_byte E (nn_version packet)),
            (''type'', json_string (nn_json E) ''natify''),
            (''cookie'', Some (json_cookie E packet)),
            (''data'', Some (json_members (nn_json E)
               [(''porttype'', json_byte E (Init_porttype packet)), (''private_address'', pa)]
               (json_object (nn_json E))))]) }"

definition handle_natify_packet ::
  "'j nn_env \<Rightarrow> Address \<Rightarrow> Address \<Rightarrow> NatNegPacket \<Rightarrow> nn_action list option" where
  "handle_natify_packet E driver from_address packet =
     map_option (submit E) (get_natify_object E driver from_address packet)"

section \<open>Reading a datagram\<close>

text \<open>\<open>ReadBuffer(&packet.Packet, packetSize)\<close>: the size, an \<open>int\<close>, becomes a \<open>size_t\<close>.\<close>

definition read_union :: "int \<Rightarrow> NatNegPacket \<Rightarrow> buffer \<Rightarrow> (NatNegPacket \<times> buffer) option" where
  "read_union packetSize packet b =
     do { (bs, b) \<leftarrow> ReadBuffer (unat (word_of_int packetSize :: u64)) b;
          Some (case bs of None \<Rightarrow> packet | Some bs \<Rightarrow> set_bytes 0 bs packet, b) }"

text \<open>The cursor that is set after an address check and a natify request is not read any more.\<close>

definition dispatch_packet ::
  "'j nn_env \<Rightarrow> Address \<Rightarrow> Address \<Rightarrow> NatNegPacket \<Rightarrow> buffer \<Rightarrow> nn_action list option" where
  "dispatch_packet E driver from_address packet b =
     (let t = nn_packettype packet; packetSize = packetSizeFromType t (nn_version packet) in
      if t = NN_INIT then do {
        (packet, b) \<leftarrow> read_union packetSize packet b;
        (gamename, b) \<leftarrow> if 1 < nn_version packet then ReadNTS b else Some ([], b);
        handle_init_packet E driver from_address packet (map (\<lambda>w. char_of (unat w)) gamename) }
      else if t = NN_CONNECT_ACK then do {
        (packet, b) \<leftarrow> read_union packetSize packet b;
        handle_connect_ack_packet E driver from_address packet }
      else if t = NN_ADDRESS_CHECK then do {
        (packet, b) \<leftarrow> read_union packetSize packet b;
        handle_address_check_packet from_address packet }
      else if t = NN_REPORT then do {
        (packet, b) \<leftarrow> read_union packetSize packet b;
        handle_report_packet from_address packet }
      else if t = NN_NATIFY_REQUEST then do {
        (packet, b) \<leftarrow> read_union packetSize packet b;
        handle_natify_packet E driver from_address packet }
      else if t = NN_ERTACK then do {
        (packet, b) \<leftarrow> read_union packetSize packet b;
        handle_ert_ack_packet E driver from_address packet }
      else Some [])"

text \<open>A short datagram leaves the bytes of the magic as they were on the stack.\<close>

definition on_udp_read :: "'j nn_env \<Rightarrow> Address \<Rightarrow> Address \<Rightarrow> byte list \<Rightarrow> nn_action list option" where
  "on_udp_read E driver from_address data =
     (if data = [] then Some []
      else do {
        b \<leftarrow> WriteBuffer data Buffer_new;
        (bs, b) \<leftarrow> ReadBuffer NATNEG_MAGIC_LEN (resetReadCursor b);
        let packet = packet_of (nn_stack E);
        let packet = (case bs of None \<Rightarrow> packet | Some bs \<Rightarrow> packet\<lparr>nn_magic := bs\<rparr>);
        if nn_magic packet \<noteq> NNMagicData then Some []
        else do {
          (v, b) \<leftarrow> ReadByte b;
          (t, b) \<leftarrow> ReadByte b;
          (c, b) \<leftarrow> ReadInt b;
          dispatch_packet E driver from_address
            ((set_bytes 0 (replicate 9 0) packet)\<lparr>nn_version := v, nn_packettype := t, nn_cookie := c\<rparr>) b } })"

section \<open>Messages from the matching service\<close>

definition findDriverByAddress :: "'j nn_env \<Rightarrow> Address \<Rightarrow> Address option" where
  "findDriverByAddress E a = find (\<lambda>d. Address_eq d a) (nn_drivers E)"

definition json_word :: "'j nn_env \<Rightarrow> 'j option \<Rightarrow> string \<Rightarrow> 'w::len word" where
  "json_word E root k = word_of_int (json_integer_value (nn_json E) (json_object_get (nn_json E) root k))"

definition read_amqp_message :: "'j nn_env \<Rightarrow> 'j option \<Rightarrow> NatNegPacket \<Rightarrow> NatNegPacket" where
  "read_amqp_message E root packet =
     (let t = nn_packettype packet in
      if t = NN_ERTTEST \<or> t = NN_INITACK then
        (let gp = json_object_get (nn_json E) root ''use_gameport'' in
         set_Init_address (json_word E root ''localip'') (json_word E root ''localport'')
           (set_bytes 0 [json_word E root ''porttype'', json_word E root ''client_index'',
              if (case gp of None \<Rightarrow> False | Some v \<Rightarrow> json_is_true (nn_json E) v) \<or>
                 json_integer_value (nn_json E) gp \<noteq> 0 then 1 else 0] packet))
      else if t = NN_CONNECT then
        set_bytes 0 (le_bytes 4 (unat (json_word E root ''remote_ip'' :: u32)) @
          le_bytes 2 (unat (htons (json_word E root ''remote_port''))) @
          [json_word E root ''got_your_data'', json_word E root ''finished'']) packet
      else packet)"

text \<open>The text of a JSON string as a \<open>std::string\<close>, which no null pointer makes.\<close>

definition json_text :: "'j nn_env \<Rightarrow> 'j option \<Rightarrow> string option" where
  "json_text E v = json_string_value (nn_json E) v"

definition message_packettype :: "string \<Rightarrow> byte" where
  "message_packettype type_str =
     (let is = (\<lambda>s. map tolower type_str = s) in
      if is ''connect'' then NN_CONNECT
      else if is ''ert'' then NN_ERTTEST
      else if is ''preinit_ack'' then NN_PREINIT_ACK
      else if is ''init_ack'' then NN_INITACK
      else if is ''report_ack'' then NN_REPORT_ACK
      else NN_INITACK)"

definition Handle_HandleRecvMessage :: "'j nn_env \<Rightarrow> string \<Rightarrow> (bool \<times> nn_action list) option" where
  "Handle_HandleRecvMessage E message =
     (let get = (\<lambda>root. json_object_get (nn_json E) root) in
      case json_loads (nn_json E) message of None \<Rightarrow> Some (False, [])
      | Some root \<Rightarrow>
        (case get (Some root) ''type'' of None \<Rightarrow> Some (True, [])
         | Some ty \<Rightarrow> do {
             _ \<leftarrow> (case get (Some root) ''gamename'' of None \<Rightarrow> Some [] | Some g \<Rightarrow> json_text E (Some g));
             (case get (Some root) ''version'' of None \<Rightarrow> Some (True, [])
              | Some v \<Rightarrow> do {
                  let c = (json_word E (Some root) ''cookie'' :: i32);
                  driver_text \<leftarrow> json_text E (get (Some root) ''driver_address'');
                  to_text \<leftarrow> json_text E (get (Some root) ''address'');
                  let to_address = Address_parse (nn_aton E) to_text;
                  case findDriverByAddress E (Address_parse (nn_aton E) driver_text) of
                    None \<Rightarrow> Some (True, [])
                  | Some driver \<Rightarrow> do {
                      type_str \<leftarrow> json_text E (Some ty);
                      let packet = (packet_of (nn_stack E))\<lparr>nn_packettype := message_packettype type_str,
                        nn_version := json_word E (Some root) ''version'', nn_cookie := ntohl c\<rparr>;
                      acts \<leftarrow> SendPacket to_address (read_amqp_message E (get (Some root) ''data'') packet);
                      Some (True, acts) } }) }))"

section \<open>Reading and sending bytes\<close>

text \<open>Writing to a block of its own size sends exactly the bytes.\<close>

lemma SendPacket_bytes:
  "SendPacket dest packet = Some [SendUDPPacket dest
     (take (nat (packetSizeFromType (nn_packettype packet) (nn_version packet) + BASEPACKET_SIZE))
       (packet_bytes (packet\<lparr>nn_magic := NNMagicData\<rparr>)))]"
proof -
  let ?n = "nat (packetSizeFromType (nn_packettype packet) (nn_version packet) + BASEPACKET_SIZE)"
  let ?bs = "take ?n (packet_bytes (packet\<lparr>nn_magic := NNMagicData\<rparr>))"
  have n: "?n \<le> 73" by (simp add: packetSizeFromType_def)
  have "length ?bs \<le> ?n" by simp
  also note n
  finally have len: "length ?bs < 2 ^ 64" by simp
  obtain b where "WriteBuffer ?bs (Buffer_alloc ?n) = Some b" "map the (contents b) = ?bs"
    using datagram_buffer [OF len] by blast
  then show ?thesis by (simp add: SendPacket_def Let_def)
qed

text \<open>A datagram with the magic and a full header is dispatched on its type.\<close>

lemma on_udp_read_header:
  assumes data: "data = NNMagicData @ [v, t] @ c @ rest" and c: "length c = 4" and len: "length data < 2 ^ 64"
  shows "\<exists>b. readable data b \<and> rd b = 12 \<and> on_udp_read E driver from_address data =
    dispatch_packet E driver from_address
      ((set_bytes 0 (replicate 9 0) ((packet_of (nn_stack E))\<lparr>nn_magic := NNMagicData\<rparr>))
        \<lparr>nn_version := v, nn_packettype := t, nn_cookie := word_of_nat (le_val c)\<rparr>) b"
proof -
  obtain b where b: "WriteBuffer data Buffer_new = Some b" "readable data (resetReadCursor b)"
      "rd (resetReadCursor b) = 0"
    using datagram_buffer [OF len, of 1492] by (auto simp: Buffer_new_def)
  let ?b = "resetReadCursor b"
  have l: "length data = 12 + length rest" using c by (simp add: data NNMagicData_def)
  let ?b1 = "IncReadCursor 6 ?b" let ?b2 = "IncReadCursor 1 ?b1"
  let ?b3 = "IncReadCursor 1 ?b2" let ?b4 = "IncReadCursor 4 ?b3"
  have r1: "readable data ?b1" "rd ?b1 = 6" using readable_IncReadCursor [OF b(2), of 6] b(3) l by simp_all
  have r2: "readable data ?b2" "rd ?b2 = 7" using readable_IncReadCursor [OF r1(1), of 1] r1(2) l by simp_all
  have r3: "readable data ?b3" "rd ?b3 = 8" using readable_IncReadCursor [OF r2(1), of 1] r2(2) l by simp_all
  have r4: "readable data ?b4" "rd ?b4 = 12" using readable_IncReadCursor [OF r3(1), of 4] r3(2) l by simp_all
  have m: "ReadBuffer 6 ?b = Some (Some NNMagicData, ?b1)"
    using ReadBuffer_readable [OF b(2), of 6] b(3) l by (simp add: data NNMagicData_def)
  have v: "ReadByte ?b1 = Some (v, ?b2)"
    using read_num_readable [OF r1(1), of 1] r1(2) l by (simp add: ReadByte_def data NNMagicData_def)
  have t: "ReadByte ?b2 = Some (t, ?b3)"
    using read_num_readable [OF r2(1), of 1] r2(2) l by (simp add: ReadByte_def data NNMagicData_def)
  have i: "ReadInt ?b3 = Some (word_of_nat (le_val c), ?b4)"
    using read_num_readable [OF r3(1), of 4] r3(2) l c by (simp add: ReadInt_def data NNMagicData_def)
  have ne: "data \<noteq> []" by (simp add: data NNMagicData_def)
  show ?thesis
    using r4 by (intro exI [of _ ?b4]) (simp add: on_udp_read_def ne b(1) m v t i Let_def del: One_nat_def)
qed


lemma read_union_readable:
  assumes "readable data b" and "0 \<le> n" "n < 2 ^ 63"
  shows "read_union n packet b =
    (if rd b + nat n \<le> length data
     then Some (set_bytes 0 (take (nat n) (drop (rd b) data)) packet, IncReadCursor (nat n) b)
     else Some (packet, b))"
proof -
  have "unat (word_of_int n :: u64) = nat n"
    using assms(2,3) by (simp add: unsigned_of_int take_bit_int_eq_self)
  then show ?thesis
    using ReadBuffer_readable [OF assms(1), of "nat n"] ReadBuffer_short [OF assms(1), of "nat n"]
    by (auto simp: read_union_def)
qed

text \<open>No datagram is as long as a negative size read as a \<open>size_t\<close>.\<close>

lemma read_union_negative:
  assumes "readable data b" and "length data < 2 ^ 63"
  shows "read_union (- 12) packet b = Some (packet, b)"
proof -
  have "unat (word_of_int (- 12) :: u64) = 2 ^ 64 - 12" by simp
  then show ?thesis
    using ReadBuffer_short [OF assms(1), of "2 ^ 64 - 12"] assms(2) by (simp add: read_union_def)
qed

section \<open>Properties\<close>

lemma packet_bytes_header:
  "nn_magic p = NNMagicData \<Longrightarrow> packet_bytes p =
     NNMagicData @ [nn_version p, nn_packettype p] @ le_bytes 4 (unat (nn_cookie p)) @ nn_union p"
  by (simp add: packet_bytes_def)

lemma length_le4 [simp]: "length c = 4 \<Longrightarrow> length (NNMagicData @ [v, t] @ c) = 12"
  by (simp add: NNMagicData_def)

lemma take_header:
  "length c = 4 \<Longrightarrow> take (12 + n) (NNMagicData @ [v, t] @ c @ u) = NNMagicData @ [v, t] @ c @ take n u"
  using take_append [of "12 + n" "NNMagicData @ [v, t] @ c" u] by (simp add: NNMagicData_def)

text \<open>An address check is answered to its sender with the address it came from. Its own size is missing in
  \<open>packetSizeFromType\<close>, so its port type and client index are never read: the answer always has zeros there.
\<close>

theorem address_check_answered:
  assumes "data = NNMagicData @ [v, NN_ADDRESS_CHECK] @ c @ rest" and c: "length c = 4"
    and len: "length data < 2 ^ 63" and port: "port from_address = Some pt"
  shows "on_udp_read E driver from_address data =
    Some [SendUDPPacket from_address (NNMagicData @ [v, NN_ADDRESS_REPLY] @ c @ [0, 0, 0] @
      (if v = 1 then [] else le_bytes 4 (unat (ip from_address)) @ le_bytes 2 (unat pt)))]"
proof -
  let ?u = "set_bytes 0 (replicate 9 0) ((packet_of (nn_stack E))\<lparr>nn_magic := NNMagicData\<rparr>)"
  let ?p = "?u\<lparr>nn_version := v, nn_packettype := NN_ADDRESS_CHECK, nn_cookie := word_of_nat (le_val c)\<rparr>"
  obtain b where b: "readable data b" and
    run: "on_udp_read E driver from_address data = dispatch_packet E driver from_address ?p b"
    using on_udp_read_header [OF assms(1) c] len by fastforce
  have z: "replicate 9 0 = [0, 0, 0, 0, 0, 0, 0, 0, 0 :: byte]" by (simp add: numeral_eq_Suc)
  have "dispatch_packet E driver from_address ?p b = handle_address_check_packet from_address ?p"
    using read_union_negative [OF b len] by (simp add: dispatch_packet_def packetSizeFromType_def)
  also have "\<dots> = Some [SendUDPPacket from_address (NNMagicData @ [v, NN_ADDRESS_REPLY] @ c @ [0, 0, 0] @
      (if v = 1 then [] else le_bytes 4 (unat (ip from_address)) @ le_bytes 2 (unat pt)))]"
    using take_header [OF c, of 3] take_header [OF c, of 9] le_bytes_word [OF c]
    by (auto simp: handle_address_check_packet_def port SendPacket_bytes packetSizeFromType_def
        packet_bytes_header set_Init_address_def set_bytes_def z)
  finally show ?thesis using run by simp
qed

theorem address_check_answered_witness:
  "on_udp_read \<lparr>nn_json = jtext, nn_aton = quad_aton, nn_ntop = quad_ntop, nn_hostname = [], nn_stack = [],
       nn_drivers = []\<rparr> Address_default \<lparr>ip = 0x0100007F, port = Some 0x5C11\<rparr>
       [0xFD, 0xFC, 0x1E, 0x66, 0x6A, 0xB2, 3, 10, 1, 2, 3, 4, 1, 1, 1] =
     Some [SendUDPPacket \<lparr>ip = 0x0100007F, port = Some 0x5C11\<rparr>
       [0xFD, 0xFC, 0x1E, 0x66, 0x6A, 0xB2, 3, 11, 1, 2, 3, 4, 0, 0, 0, 0x7F, 0, 0, 1, 0x11, 0x5C]]"
  by (subst address_check_answered [where v = 3 and c = "[1, 2, 3, 4]" and rest = "[1, 1, 1]" and pt = "0x5C11"])
    (simp_all add: NNMagicData_def le_bytes_cells)

text \<open>C4. A report is acknowledged with its own bytes. A report that is too short for its fields is acknowledged with
  nine zeros and 52 bytes of whatever the stack held: memory of the server reaches the sender.
\<close>

theorem report_acknowledged:
  assumes "data = NNMagicData @ [v, NN_REPORT] @ c @ rest" and c: "length c = 4"
    and len: "length data < 2 ^ 63" and stack: "length (nn_stack E) = 73"
  shows "on_udp_read E driver from_address data =
    Some [SendUDPPacket from_address (NNMagicData @ [v, NN_REPORT_ACK] @ c @
      (if 61 \<le> length rest then take 61 rest else replicate 9 0 @ drop 21 (nn_stack E)))]"
proof -
  let ?u = "set_bytes 0 (replicate 9 0) ((packet_of (nn_stack E))\<lparr>nn_magic := NNMagicData\<rparr>)"
  let ?p = "?u\<lparr>nn_version := v, nn_packettype := NN_REPORT, nn_cookie := word_of_nat (le_val c)\<rparr>"
  let ?q = "if 61 \<le> length rest then set_bytes 0 (take 61 rest) ?p else ?p"
  obtain b where b: "readable data b" "rd b = 12" and
    run: "on_udp_read E driver from_address data = dispatch_packet E driver from_address ?p b"
    using on_udp_read_header [OF assms(1) c] len by fastforce
  have d: "length data = 12 + length rest" "drop 12 data = rest"
    using c by (simp_all add: assms(1) NNMagicData_def)
  have "\<exists>b'. read_union 61 ?p b = Some (?q, b')"
    using read_union_readable [OF b(1), of 61 ?p] b(2) d by (cases "61 \<le> length rest") auto
  then have "dispatch_packet E driver from_address ?p b = handle_report_packet from_address ?q"
    by (auto simp: dispatch_packet_def packetSizeFromType_def)
  also have "\<dots> = Some [SendUDPPacket from_address (NNMagicData @ [v, NN_REPORT_ACK] @ c @
      (if 61 \<le> length rest then take 61 rest else replicate 9 0 @ drop 21 (nn_stack E)))]"
    using take_header [OF c, of 61] le_bytes_word [OF c] stack
    by (auto simp: handle_report_packet_def SendPacket_bytes packetSizeFromType_def
        packet_bytes_header set_bytes_def packet_of_def)
  finally show ?thesis using run by simp
qed

theorem report_acknowledged_witness:
  "on_udp_read \<lparr>nn_json = jtext, nn_aton = quad_aton, nn_ntop = quad_ntop, nn_hostname = [],
       nn_stack = replicate 21 0 @ replicate 52 7, nn_drivers = []\<rparr> Address_default Address_default
       (NNMagicData @ [3, 13] @ [1, 2, 3, 4] @ []) =
     Some [SendUDPPacket Address_default (NNMagicData @ [3, 14, 1, 2, 3, 4] @ replicate 9 0 @ replicate 52 7)]"
  by (subst report_acknowledged [where v = 3 and c = "[1, 2, 3, 4]" and rest = "[]"])
    (simp_all add: NNMagicData_def)

text \<open>A JSON object that names a client, a socket of the gateway, a protocol version and a cookie.\<close>

definition names_client :: "'j nn_env \<Rightarrow> 'j \<Rightarrow> Address \<Rightarrow> Address \<Rightarrow> byte \<Rightarrow> byte list \<Rightarrow> bool" where
  "names_client E j client driver v c \<longleftrightarrow>
     (let get = json_object_get (nn_json E) (Some j);
          address = (\<lambda>k. map_option (Address_parse (nn_aton E)) (json_string_value (nn_json E) (get k))) in
      address ''address'' = Some client \<and> address ''driver_address'' = Some driver \<and>
      get ''version'' \<noteq> None \<and> json_word E (Some j) ''version'' = v \<and>
      ntohl (json_word E (Some j) ''cookie'') = (word_of_nat (le_val c) :: u32))"

text \<open>What an init acknowledgement holds after its cookie, from the \<open>data\<close> of the message.\<close>

definition init_ack_body :: "'j nn_env \<Rightarrow> 'j \<Rightarrow> byte list" where
  "init_ack_body E j =
     (let data = json_object_get (nn_json E) (Some j) ''data''; gp = json_object_get (nn_json E) data ''use_gameport'';
          flag = (case gp of None \<Rightarrow> False | Some v \<Rightarrow> json_is_true (nn_json E) v) \<or> json_integer_value (nn_json E) gp \<noteq> 0 in
      [json_word E data ''porttype'', json_word E data ''client_index'', if flag then 1 else 0] @
      le_bytes 4 (unat (json_word E data ''localip'' :: u32)) @ le_bytes 2 (unat (json_word E data ''localport'' :: u16)))"

definition init_ack :: "'j nn_env \<Rightarrow> 'j \<Rightarrow> bool" where
  "init_ack E j \<longleftrightarrow>
     (let get = json_object_get (nn_json E) (Some j) in
      json_string_value (nn_json E) (get ''type'') = Some ''init_ack'' \<and>
      (get ''gamename'' = None \<or> json_string_value (nn_json E) (get ''gamename'') \<noteq> None))"

lemma nn_address_ascii:
  assumes "inet aton ntop" and "port a = Some p"
  shows "\<exists>t. Address_ToString ntop False a = Some t \<and> ascii_text t \<and> Address_parse aton t = a"
proof -
  let ?t = "ntop (ip a) @ CHR '':'' # dec_nat (unat (htons p))"
  have "list_all (\<lambda>c. isdigit c \<or> c = CHR ''.'') (ntop (ip a))" by (rule inet.ntop_chars [OF assms(1)])
  moreover have "list_all isdigit (dec_nat (unat (htons p)))"
    using dec_nat_digits by (auto simp: list_all_iff)
  ultimately have "ascii_text ?t" by (auto simp: ascii_text_def list_all_iff isdigit_def)
  moreover have t: "Address_ToString ntop False a = Some ?t" using assms(2) by (simp add: Address_ToString_def)
  ultimately show ?thesis using inet.parse_ToString [OF assms(1,2) t] by blast
qed

lemma init_object_members:
  assumes J: "jansson_library (nn_json E)" and I: "inet (nn_aton E) (nn_ntop E)"
    and "port driver = Some dp" and "port from_address = Some fp"
  shows "\<exists>kvs obj a d. get_init_object E driver from_address packet gamename = Some kvs \<and>
    obj = json_members (nn_json E) kvs (json_object (nn_json E)) \<and> json_is_object (nn_json E) obj \<and>
    json_object_get (nn_json E) (Some obj) ''address'' = Some a \<and>
    json_object_get (nn_json E) (Some obj) ''driver_address'' = Some d \<and>
    map_option (Address_parse (nn_aton E)) (json_string_value (nn_json E) (Some a)) = Some from_address \<and>
    map_option (Address_parse (nn_aton E)) (json_string_value (nn_json E) (Some d)) = Some driver \<and>
    json_object_get (nn_json E) (Some obj) ''version'' =
      Some (json_integer (nn_json E) (uint (nn_version packet))) \<and>
    json_object_get (nn_json E) (Some obj) ''cookie'' = Some (json_cookie E packet)"
proof -
  obtain ta where ta: "Address_ToString (nn_ntop E) False from_address = Some ta" "ascii_text ta"
      "Address_parse (nn_aton E) ta = from_address"
    using nn_address_ascii [OF I assms(4)] by blast
  obtain td where td: "Address_ToString (nn_ntop E) False driver = Some td" "ascii_text td"
      "Address_parse (nn_aton E) td = driver"
    using nn_address_ascii [OF I assms(3)] by blast
  obtain a where a: "json_string (nn_json E) ta = Some a"
    using jansson_library.string(1) [OF J ta(2)] by auto
  obtain d where d: "json_string (nn_json E) td = Some d"
    using jansson_library.string(1) [OF J td(2)] by auto
  have vals: "json_string_value (nn_json E) (Some a) = Some ta" "json_string_value (nn_json E) (Some d) = Some td"
    using jansson_library.string(2) [OF J a] jansson_library.string(2) [OF J d] by simp_all
  obtain pa where pa: "json_address E (private_address packet) = Some pa"
    by (auto simp: json_address_def private_address_def Address_new_def Address_ToString_def)
  obtain kvs where kvs: "get_init_object E driver from_address packet gamename = Some kvs"
    by (simp add: get_init_object_def base_members_def json_address_def ta td pa [unfolded json_address_def])
  have dist: "distinct (map fst kvs)" and
    look: "map_of kvs ''address'' = Some (Some a)" "map_of kvs ''driver_address'' = Some (Some d)"
      "map_of kvs ''version'' = Some (json_byte E (nn_version packet))"
      "map_of kvs ''cookie'' = Some (Some (json_cookie E packet))"
    using kvs by (auto simp: get_init_object_def base_members_def json_address_def ta td a d
        pa [unfolded json_address_def])
  let ?obj = "json_members (nn_json E) kvs (json_object (nn_json E))"
  have isobj: "json_is_object (nn_json E) (json_object (nn_json E))"
    by (rule jansson_library.is_object(1) [OF J])
  note get = jansson_library.get_members [OF J isobj dist]
  show ?thesis
    by (rule exI [of _ kvs], rule exI [of _ ?obj], rule exI [of _ a], rule exI [of _ d])
      (simp add: kvs get look vals ta td json_byte_def jansson_library.is_object_members [OF J isobj])
qed


lemma dispatch_init:
  assumes "nn_packettype p = NN_INIT" and "1 < nn_version p" and "read_union 9 p b = Some (q, b1)"
    and "nn_version q = nn_version p" and "ReadNTS b1 = Some (game, b2)"
  shows "dispatch_packet E driver from_address p b =
    handle_init_packet E driver from_address q (map (\<lambda>w. char_of (unat w)) game)"
proof -
  have "packetSizeFromType NN_INIT (nn_version p) = 9" using assms(2) by (auto simp: packetSizeFromType_def)
  then show ?thesis using assms by (simp add: dispatch_packet_def Let_def)
qed

lemma init_datagram:
  assumes data: "data = NNMagicData @ [v, NN_INIT] @ c @ ini @ game @ [0] @ after"
    and c: "length c = 4" and "length ini = 9" and "0 \<notin> set game" and "1 < v" and len: "length data < 2 ^ 63"
  shows "\<exists>packet. nn_version packet = v \<and> nn_cookie packet = word_of_nat (le_val c) \<and>
    on_udp_read E driver from_address data =
      handle_init_packet E driver from_address packet (map (\<lambda>w. char_of (unat w)) game)"
proof -
  let ?u = "set_bytes 0 (replicate 9 0) ((packet_of (nn_stack E))\<lparr>nn_magic := NNMagicData\<rparr>)"
  let ?p = "?u\<lparr>nn_version := v, nn_packettype := NN_INIT, nn_cookie := word_of_nat (le_val c)\<rparr>"
  obtain b where b: "readable data b" "rd b = 12" and
    run: "on_udp_read E driver from_address data = dispatch_packet E driver from_address ?p b"
    using on_udp_read_header [OF data c] len by fastforce
  have d: "length data = 22 + length game + length after" "drop 12 data = ini @ game @ 0 # after"
    using c assms(3) by (simp_all add: data NNMagicData_def)
  let ?b = "IncReadCursor 9 b" let ?q = "set_bytes 0 ini ?p"
  have u: "read_union 9 ?p b = Some (?q, ?b)"
    using read_union_readable [OF b(1), of 9 ?p] b(2) d assms(3) by simp
  have r: "readable data ?b" "rd ?b = 21" using readable_IncReadCursor [OF b(1), of 9] b(2) d by simp_all
  have "drop 21 data = drop 9 (drop 12 data)" by simp
  also have "\<dots> = game @ 0 # after" using assms(3) by (simp only: d) simp
  finally have "drop 21 data = game @ 0 # after" .
  then have n: "ReadNTS ?b = Some (game, IncReadCursor (length game + 1) ?b)"
    using ReadNTS_readable [OF r(1), of game after] r(2) assms(4) by simp
  have q: "nn_version ?q = v" "nn_cookie ?q = word_of_nat (le_val c)" by (simp_all add: set_bytes_def)
  have "dispatch_packet E driver from_address ?p b =
      handle_init_packet E driver from_address ?q (map (\<lambda>w. char_of (unat w)) game)"
    by (rule dispatch_init [OF _ _ u _ n]) (simp_all add: set_bytes_def assms(5))
  with q show ?thesis unfolding run by (intro exI [of _ ?q] conjI)
qed

lemma find_driver: "driver \<in> set (nn_drivers E) \<Longrightarrow> \<exists>d. findDriverByAddress E driver = Some d"
  by (cases "findDriverByAddress E driver") (auto simp: findDriverByAddress_def find_None_iff Address_eq_def)

lemma sent_init_ack:
  assumes "nn_packettype packet = NN_INITACK" and "1 < nn_version packet"
  shows "SendPacket dest (read_amqp_message E (json_object_get (nn_json E) (Some j) ''data'') packet) =
    Some [SendUDPPacket dest (NNMagicData @ [nn_version packet, NN_INITACK] @
      le_bytes 4 (unat (nn_cookie packet)) @ init_ack_body E j)]"
proof -
  let ?r = "read_amqp_message E (json_object_get (nn_json E) (Some j) ''data'') packet"
  have r: "nn_version ?r = nn_version packet" "nn_packettype ?r = NN_INITACK" "nn_cookie ?r = nn_cookie packet"
    by (auto simp: read_amqp_message_def Let_def assms(1) set_Init_address_def set_bytes_def)
  have body: "take 9 (nn_union ?r) = init_ack_body E j"
    by (simp add: read_amqp_message_def Let_def assms(1) set_Init_address_def set_bytes_def init_ack_body_def)
  have sz: "packetSizeFromType NN_INITACK (nn_version packet) = 9"
    using assms(2) by (auto simp: packetSizeFromType_def)
  show ?thesis
    using take_header [of "le_bytes 4 (unat (nn_cookie packet))" 9] r sz
    by (simp add: SendPacket_bytes packet_bytes_header body)
qed

lemma json_cookie_value:
  assumes "jansson_library (nn_json E)"
  shows "word_of_int (json_integer_value (nn_json E) (Some (json_cookie E packet))) = ntohl (nn_cookie packet)"
proof -
  let ?w = "ntohl (nn_cookie packet)"
  have "- (2 ^ 63) \<le> sint ?w" "sint ?w < 2 ^ 63"
    using sint_greater_eq [of ?w] sint_less [of ?w] by simp_all
  then show ?thesis by (simp add: json_cookie_def jansson_library.integer(1) [OF assms])
qed

lemma json_version:
  assumes "jansson_library (nn_json E)"
  shows "word_of_int (json_integer_value (nn_json E) (Some (json_integer (nn_json E) (uint (v :: byte))))) = v"
proof -
  have "- (2 ^ 63) \<le> uint v" "uint v < 2 ^ 63" using uint_lt2p [of v] by (simp_all add: order_trans [OF _ unsigned_greater_eq])
  then show ?thesis by (simp add: jansson_library.integer(1) [OF assms])
qed

lemma init_ack_delivered:
  assumes J: "jansson_library (nn_json E)" and c: "length c = 4" "1 < v"
    and loads: "json_loads (nn_json E) message = Some reply" and ack: "init_ack E reply"
    and names: "names_client E reply client socket v c" and socket: "socket \<in> set (nn_drivers E)"
  shows "Handle_HandleRecvMessage E message =
      Some (True, [SendUDPPacket client (NNMagicData @ [v, NN_INITACK] @ c @ init_ack_body E reply)])"
proof -
  let ?get = "json_object_get (nn_json E) (Some reply)"
  have type: "json_string_value (nn_json E) (?get ''type'') = Some ''init_ack''"
    and game: "?get ''gamename'' = None \<or> json_string_value (nn_json E) (?get ''gamename'') \<noteq> None"
    using ack by (simp_all add: init_ack_def Let_def)
  obtain ty where ty: "?get ''type'' = Some ty"
    using type jansson_library.string(3) [OF J] by (cases "?get ''type''") auto
  obtain ver where ver: "?get ''version'' = Some ver" using names by (auto simp: names_client_def Let_def)
  obtain ta td where texts: "json_string_value (nn_json E) (?get ''address'') = Some ta"
      "json_string_value (nn_json E) (?get ''driver_address'') = Some td" and
    addrs: "Address_parse (nn_aton E) ta = client" "Address_parse (nn_aton E) td = socket"
    using names by (auto simp: names_client_def Let_def)
  have words: "json_word E (Some reply) ''version'' = v"
    "ntohl (json_word E (Some reply) ''cookie'') = (word_of_nat (le_val c) :: u32)"
    using names by (simp_all add: names_client_def Let_def)
  obtain dr where dr: "findDriverByAddress E socket = Some dr" using find_driver [OF socket] by blast
  let ?p = "(packet_of (nn_stack E))\<lparr>nn_packettype := NN_INITACK, nn_version := v,
    nn_cookie := word_of_nat (le_val c)\<rparr>"
  have kind: "message_packettype ''init_ack'' = NN_INITACK"
    by (simp add: message_packettype_def tolower_def isupper_def)
  obtain g where g: "(case ?get ''gamename'' of None \<Rightarrow> Some [] | Some g \<Rightarrow> json_text E (Some g)) = Some g"
    using game by (cases "?get ''gamename''") (auto simp: json_text_def)
  have "Handle_HandleRecvMessage E message =
      map_option (Pair True) (SendPacket client (read_amqp_message E (?get ''data'') ?p))"
    using type by (simp add: Handle_HandleRecvMessage_def loads ty ver g json_text_def texts addrs dr
        words kind map_conv_bind_option comp_def)
  then show ?thesis
    using sent_init_ack [of ?p client E reply] c(2) le_bytes_word [OF c(1)] by simp
qed

text \<open>C3. An init datagram of a version above 1 is handed to the matching service as a JSON text that names the sender,
  the socket it came to, the version and the cookie. The service is not in this repository; a message from it of type
  \<open>init_ack\<close> that names a client, a socket that listens, a version above 1 and a cookie (as one that copies these members
  of the submitted text does), with no game name or a text for it, makes the gateway send the client the 21 bytes
  of an init acknowledgement with this version, this cookie and the fields of its \<open>data\<close>, and nothing else.
\<close>

theorem init_acknowledged:
  assumes J: "jansson_library (nn_json E)" and I: "inet (nn_aton E) (nn_ntop E)"
    and data: "data = NNMagicData @ [v, NN_INIT] @ c @ ini @ game @ [0] @ after"
    and c: "length c = 4" "length ini = 9" "0 \<notin> set game" "1 < v" "length data < 2 ^ 63"
    and driver: "driver \<in> set (nn_drivers E)" "port driver = Some dp" and "port from_address = Some fp"
  shows "(\<exists>text obj. on_udp_read E driver from_address data = Some [SubmitJson text] \<and>
      json_loads (nn_json E) text = Some obj \<and> names_client E obj from_address driver v c) \<and>
    (\<forall>message reply client socket. json_loads (nn_json E) message = Some reply \<and> init_ack E reply \<and>
        names_client E reply client socket v c \<and> socket \<in> set (nn_drivers E) \<longrightarrow>
       Handle_HandleRecvMessage E message =
         Some (True, [SendUDPPacket client (NNMagicData @ [v, NN_INITACK] @ c @ init_ack_body E reply)]))"
proof (intro conjI allI impI)
  obtain packet where packet: "nn_version packet = v" "nn_cookie packet = word_of_nat (le_val c)" and
    run: "on_udp_read E driver from_address data =
      handle_init_packet E driver from_address packet (map (\<lambda>w. char_of (unat w)) game)"
    using init_datagram [OF data c] by blast
  obtain kvs obj a d where kvs: "get_init_object E driver from_address packet (map (\<lambda>w. char_of (unat w)) game) = Some kvs"
    and obj: "obj = json_members (nn_json E) kvs (json_object (nn_json E))" "json_is_object (nn_json E) obj"
    and got: "json_object_get (nn_json E) (Some obj) ''address'' = Some a"
      "json_object_get (nn_json E) (Some obj) ''driver_address'' = Some d"
      "map_option (Address_parse (nn_aton E)) (json_string_value (nn_json E) (Some a)) = Some from_address"
      "map_option (Address_parse (nn_aton E)) (json_string_value (nn_json E) (Some d)) = Some driver"
      "json_object_get (nn_json E) (Some obj) ''version'' = Some (json_integer (nn_json E) (uint (nn_version packet)))"
      "json_object_get (nn_json E) (Some obj) ''cookie'' = Some (json_cookie E packet)"
    using init_object_members [OF J I driver(2) assms(11), of packet "map (\<lambda>w. char_of (unat w)) game"] by blast
  let ?text = "json_dumps (nn_json E) obj"
  have submitted: "on_udp_read E driver from_address data = Some [SubmitJson ?text]"
    by (simp add: run handle_init_packet_def kvs submit_def obj(1))
  have loads: "json_loads (nn_json E) ?text = Some obj"
    by (rule jansson_library.loads_dumps [OF J obj(2)])
  have "names_client E obj from_address driver v c"
    using got(3,4) by (simp add: names_client_def json_word_def got(1,2,5,6) json_version [OF J] json_cookie_value [OF J] packet)
  with submitted loads show "\<exists>text obj. on_udp_read E driver from_address data = Some [SubmitJson text] \<and>
      json_loads (nn_json E) text = Some obj \<and> names_client E obj from_address driver v c" by blast
next
  fix message reply client socket
  assume "json_loads (nn_json E) message = Some reply \<and> init_ack E reply \<and>
    names_client E reply client socket v c \<and> socket \<in> set (nn_drivers E)"
  then show "Handle_HandleRecvMessage E message =
      Some (True, [SendUDPPacket client (NNMagicData @ [v, NN_INITACK] @ c @ init_ack_body E reply)])"
    using init_ack_delivered [OF J c(1,4)] by blast
qed


text \<open>A client, and the message that acknowledges it.\<close>

definition one_client_env :: "json nn_env" where
  "one_client_env = \<lparr>nn_json = jtext, nn_aton = quad_aton, nn_ntop = quad_ntop, nn_hostname = ''nn'', nn_stack = [],
     nn_drivers = [Address_default]\<rparr>"

definition one_client_ack :: json where
  "one_client_ack =
     (let address = json_string jtext (the (Address_ToString quad_ntop False Address_default)) in
      json_members jtext
        [(''type'', json_string jtext ''init_ack''), (''address'', address), (''driver_address'', address),
         (''version'', Some (json_integer jtext 3)), (''cookie'', Some (json_integer jtext 9))] (json_object jtext))"

lemma one_client_ack:
  "json_loads jtext (json_dumps jtext one_client_ack) = Some one_client_ack" "init_ack one_client_env one_client_ack"
  "names_client one_client_env one_client_ack Address_default Address_default 3 [0, 0, 0, 9]"
proof -
  have o: "json_is_object jtext (json_object jtext)" by (rule jtext.is_object(1))
  obtain t where t: "Address_ToString quad_ntop False Address_default = Some t" "ascii_text t"
      "Address_parse quad_aton t = Address_default"
    using nn_address_ascii [OF quad.inet_axioms, of Address_default 0] by (auto simp: Address_default_def)
  have a: "ascii_text ''init_ack''" by (simp add: of_char_def)
  obtain x where x: "json_string jtext t = Some x" using jtext.string(1) [OF t(2)] by auto
  obtain y where y: "json_string jtext ''init_ack'' = Some y" using jtext.string(1) [OF a] by auto
  note ack = one_client_ack_def [unfolded t(1) option.sel x y Let_def]
  have get: "json_object_get jtext (Some one_client_ack) k =
      map_of [(''type'', y), (''address'', x), (''driver_address'', x), (''version'', json_integer jtext 3),
        (''cookie'', json_integer jtext 9)] k" for k
    unfolding ack by (simp add: jtext.get_members [OF o])
  have c: "(ntohl 9 :: u32) = word_of_nat (le_val [0, 0, 0, 9])"
    by (simp add: ntohl_def le_bytes_cells)
  show "json_loads jtext (json_dumps jtext one_client_ack) = Some one_client_ack"
    unfolding ack by (rule jtext.loads_dumps [OF jtext.is_object_members [OF o]])
  show "init_ack one_client_env one_client_ack"
    by (simp add: init_ack_def one_client_env_def get jtext.string(2) [OF y])
  show "names_client one_client_env one_client_ack Address_default Address_default 3 [0, 0, 0, 9]"
    using c by (simp add: names_client_def one_client_env_def get jtext.string(2) [OF x] t(3) json_word_def)
qed

theorem init_acknowledged_witness:
  "(\<exists>text. on_udp_read one_client_env Address_default Address_default
      (NNMagicData @ [3, NN_INIT] @ [0, 0, 0, 9] @ [1, 0, 1, 127, 0, 0, 1, 0, 80] @ [103] @ [0] @ []) =
     Some [SubmitJson text]) \<and>
   Handle_HandleRecvMessage one_client_env (json_dumps jtext one_client_ack) =
     Some (True, [SendUDPPacket Address_default (NNMagicData @ [3, NN_INITACK] @ [0, 0, 0, 9] @
       init_ack_body one_client_env one_client_ack)])"
proof -
  have J: "jansson_library (nn_json one_client_env)" "inet (nn_aton one_client_env) (nn_ntop one_client_env)"
    using jtext.jansson_library_axioms quad.inet_axioms by (simp_all add: one_client_env_def)
  have d: "nn_json one_client_env = jtext" "Address_default \<in> set (nn_drivers one_client_env)"
    "port Address_default = Some 0" by (simp_all add: one_client_env_def Address_default_def)
  have n: "length [0, 0, 0, 9 :: byte] = 4" "length [1, 0, 1, 127, 0, 0, 1, 0, 80 :: byte] = 9"
    "0 \<notin> set [103 :: byte]" "1 < (3 :: byte)"
    "length (NNMagicData @ [3, NN_INIT] @ [0, 0, 0, 9] @ [1, 0, 1, 127, 0, 0, 1, 0, 80] @ [103] @ [0] @ []) < 2 ^ 63"
    by (simp_all add: NNMagicData_def)
  note both = init_acknowledged [OF J refl n d(2,3,3)]
  from conjunct1 [OF both] conjunct2 [OF both] one_client_ack d(2) show ?thesis unfolding d(1) by blast
qed

end
