(* ===== verification/GameData.thy ===== *)
theory GameData
  imports Redis Strings
begin

text \<open>
  The games the services know (\<open>core/OS/OpenSpy.h\<close>, \<open>OpenSpy.cpp\<close>): a game's data in the Redis database of
  games, found by its name or its number. Each database of the Redis server is a value of its own; which one
  a connection has selected is left out, since every function selects the one it reads.
\<close>

record GameData =
  game_id :: i32
  queryport :: i32
  gamename :: string
  game_description :: string
  secretkey :: string
  disabled_services :: byte
  backendflags :: i32
  popular_values :: "string list"
  push_keys :: "(string, byte) smap"

definition new_game :: GameData where
  "new_game = \<lparr>game_id = 0, queryport = 0, gamename = [], game_description = [], secretkey = [],
     disabled_services = 0, backendflags = 0, popular_values = [], push_keys = []\<rparr>"

text \<open>A reply that is not a string leaves its field as it was.\<close>

definition reply_text :: "string option \<Rightarrow> string \<Rightarrow> string" where
  "reply_text r old = (case r of None \<Rightarrow> old | Some s \<Rightarrow> s)"

definition reply_int :: "string option \<Rightarrow> i32 \<Rightarrow> i32" where
  "reply_int r old = (case r of None \<Rightarrow> old | Some s \<Rightarrow> atoi s)"

definition GetGameByRedisKey :: "'r redis \<Rightarrow> string \<Rightarrow> 'r \<Rightarrow> GameData" where
  "GetGameByRedisKey R key games =
     (let field = (\<lambda>f. r_hget R key f games); game = new_game in
      game\<lparr>game_id := reply_int (field ''gameid'') (game_id game),
        secretkey := reply_text (field ''secretkey'') (secretkey game),
        game_description := reply_text (field ''description'') (game_description game),
        gamename := reply_text (field ''gamename'') (gamename game),
        disabled_services := (case field ''disabled_services'' of None \<Rightarrow> disabled_services game | Some s \<Rightarrow> ucast (atoi s)),
        queryport := reply_int (field ''queryport'') (queryport game),
        backendflags := reply_int (field ''backendflags'') 0\<rparr>)"

definition GetGameByName :: "'r redis \<Rightarrow> string \<Rightarrow> 'r \<Rightarrow> GameData" where
  "GetGameByName R from_gamename games =
     (case r_get R (str_tolower (c_string from_gamename)) games of
        None \<Rightarrow> new_game | Some key \<Rightarrow> GetGameByRedisKey R key games)"

definition GetGameByID :: "'r redis \<Rightarrow> i32 \<Rightarrow> 'r \<Rightarrow> GameData" where
  "GetGameByID R gameid games =
     (case r_get R (''gameid_'' @ dec_int gameid) games of
        None \<Rightarrow> new_game | Some key \<Rightarrow> GetGameByRedisKey R key games)"

end
