(* ===== verification/QrTasks.thy ===== *)
theory QrTasks
  imports GameData GameSpy NetAddress
begin

text \<open>
  The tasks of the heartbeat service (\<open>qr/tasks\<close>): registering game servers in Redis, keeping them alive,
  checking their answers to challenges and announcing them to the other services. A task works on the
  database of servers, the broker's messages and the datagrams sent; its callback gives the datagrams. Redis,
  the clock, \<open>rand\<close> and the texts of addresses are parameters; \<open>None\<close> is undefined behaviour.
\<close>

section \<open>Data\<close>

record ServerInfo =
  m_address :: Address
  m_keys :: "(string, string) smap"
  m_player_keys :: "(string, string list) smap"
  m_team_keys :: "(string, string list) smap"
  info_id :: i32

definition new_info :: ServerInfo where
  "new_info = \<lparr>m_address = Address_default, m_keys = [], m_player_keys = [], m_team_keys = [], info_id = 0\<rparr>"

record MMTaskResponse =
  rs_from_address :: Address
  query_address :: Address
  rs_instance_key :: u32
  game_data :: GameData
  error_message :: "string option"
  challenge :: string

type_synonym datagrams = "(Address \<times> byte list) list"

datatype EMMPushRequestType = GetGameInfoByGameName | Heartbeat | Heartbeat_ClearExistingKeys
  | ValidateServer | Keepalive | ClientMessageAck

record MMPushRequest =
  server :: ServerInfo
  rq_gamename :: string
  from_address :: Address
  v2_instance_key :: u32
  driver_address :: Address       \<comment> \<open>\<open>driver->GetAddress()\<close>\<close>
  qr_version :: i32
  request_type :: EMMPushRequestType
  callback :: "MMTaskResponse \<Rightarrow> datagrams option"

record 'r qr_env =
  servers_db :: "'r redis"
  games :: 'r                     \<comment> \<open>the database of games\<close>
  aton :: "string \<Rightarrow> u32"
  ntop :: "u32 \<Rightarrow> string"
  host_name :: string
  clock :: i32                    \<comment> \<open>\<open>tv_sec\<close> cut by \<open>%d\<close>\<close>
  random_at :: "nat \<Rightarrow> nat"       \<comment> \<open>the results of \<open>rand()\<close> in turn\<close>

record 'r qr_state =
  qdb :: 'r
  events :: "(string \<times> string) list"     \<comment> \<open>routing key and message\<close>
  sent :: datagrams

definition new_response :: "MMPushRequest \<Rightarrow> MMTaskResponse" where
  "new_response request = \<lparr>rs_from_address = from_address request, query_address = Address_default,
     rs_instance_key = v2_instance_key request, game_data = new_game, error_message = None, challenge = []\<rparr>"

definition call_back :: "MMPushRequest \<Rightarrow> MMTaskResponse \<Rightarrow> 'r qr_state \<Rightarrow> 'r qr_state option" where
  "call_back request response s = map_option (\<lambda>ds. s\<lparr>sent := sent s @ ds\<rparr>) (callback request response)"

definition sendAMQPMessage :: "string \<Rightarrow> string \<Rightarrow> 'r qr_state \<Rightarrow> 'r qr_state" where
  "sendAMQPMessage routing_key message s = s\<lparr>events := events s @ [(routing_key, message)]\<rparr>"

definition qr_redis :: "'r qr_env \<Rightarrow> redis_cmd list \<Rightarrow> 'r qr_state \<Rightarrow> 'r qr_state" where
  "qr_redis E cmds s = s\<lparr>qdb := run_all (servers_db E) cmds (qdb s)\<rparr>"

abbreviation "MM_PUSH_EXPIRE_TIME \<equiv> 600 :: nat"
abbreviation "MM_IGNORE_TIME_SECS \<equiv> 60 :: nat"
abbreviation "MM_QRV1_NUM_BURST_REQS \<equiv> 3 :: i32"
abbreviation "QR2_OPTION_USE_QUERY_CHALLENGE \<equiv> 128 :: i32"
abbreviation "V2_CHALLENGE_LEN \<equiv> 20 :: nat"

definition mm_server_event_routingkey :: string where "mm_server_event_routingkey = ''server.event''"

text \<open>Every address here has a port: it comes from a socket, or from an IP and a port.\<close>

definition port_number :: "Address \<Rightarrow> u16" where
  "port_number a = (case GetPort a of None \<Rightarrow> 0 | Some p \<Rightarrow> p)"

text \<open>\<open>ToString(true) << "-" << GetPort()\<close>.\<close>

definition ip_port :: "'r qr_env \<Rightarrow> Address \<Rightarrow> string" where
  "ip_port E a = ntop E (ip a) @ ''-'' @ dec_nat (unat (port_number a))"

section \<open>Keys of players and teams (shared.cpp)\<close>

definition isTeamString :: "string \<Rightarrow> bool" where
  "isTeamString s = (let n = length s in if n < 2 then False else s ! (n - 2) = CHR ''_'' \<and> s ! (n - 1) = CHR ''t'')"

text \<open>The position of the last underscore; the text before it and the number after it.\<close>

definition find_last_underscore :: "string \<Rightarrow> nat option" where
  "find_last_underscore key =
     (let n = length (takeWhile (\<lambda>c. c \<noteq> CHR ''_'') (rev key)) in
      if n = length key then None else Some (length key - 1 - n))"

definition isPlayerString :: "string \<Rightarrow> (string \<times> i32) option" where
  "isPlayerString key =
     (case find_last_underscore key of None \<Rightarrow> None
      | Some i \<Rightarrow>
          if i = 0 then None
          else let numeric_portion = drop (i + 1) key in
            if list_all isdigit numeric_portion then Some (take i key, atoi numeric_portion) else None)"

section \<open>Looking servers up (shared.cpp, Heartbeat.cpp)\<close>

definition GetServerID :: "'r qr_env \<Rightarrow> 'r qr_state \<Rightarrow> i32 \<times> 'r qr_state" where
  "GetServerID E s = (let (n, d) = redis_incr (servers_db E) ''QRID'' (qdb s) in (n, s\<lparr>qdb := d\<rparr>))"

definition TryFindServerID :: "'r qr_env \<Rightarrow> Address \<Rightarrow> 'r qr_state \<Rightarrow> i32" where
  "TryFindServerID E address s =
     (let R = servers_db E; map_str = ''IPMAP_'' @ ip_port E address in
      if r_exists R map_str (qdb s) then
        (case r_hget R (c_string (reply_text (r_get R map_str (qdb s)) [])) ''id'' (qdb s) of
           None \<Rightarrow> -1 | Some v \<Rightarrow> atoi v)
      else -1)"

definition GetQueryAddressForServer :: "'r qr_env \<Rightarrow> string \<Rightarrow> 'r qr_state \<Rightarrow> Address" where
  "GetQueryAddressForServer E server_key s =
     (let field = (\<lambda>f. r_hget (servers_db E) server_key f (qdb s));
          wan_port = (case field ''wan_port'' of None \<Rightarrow> 0 | Some v \<Rightarrow> (ucast (atoi v) :: u16))
      in Address_parse (aton E) (reply_text (field ''wan_ip'') [] @ '':'' @ dec_nat (unat wan_port)))"

definition isServerDeleted :: "'r qr_env \<Rightarrow> string \<Rightarrow> bool \<Rightarrow> 'r qr_state \<Rightarrow> bool" where
  "isServerDeleted E server_key ignoreChallengeExists s =
     (let field = (\<lambda>f. r_hget (servers_db E) server_key f (qdb s));
          ret = (case field ''deleted'' of None \<Rightarrow> -1 | Some v \<Rightarrow> atoi v);
          challenge_exists = (\<not> ignoreChallengeExists \<and> field ''challenge'' \<noteq> None)
      in ret = 1 \<and> \<not> challenge_exists)"

definition GetNumHeartbeats :: "'r qr_env \<Rightarrow> string \<Rightarrow> 'r qr_state \<Rightarrow> i32" where
  "GetNumHeartbeats E server_key s = int_of (r_hget (servers_db E) server_key ''num_updates'' (qdb s))"

definition IncrNumHeartbeats :: "'r qr_env \<Rightarrow> string \<Rightarrow> 'r qr_state \<Rightarrow> i32 \<times> 'r qr_state" where
  "IncrNumHeartbeats E server_key s =
     (let (n, d) = redis_hincr (servers_db E) server_key ''num_updates'' (qdb s) in (n, s\<lparr>qdb := d\<rparr>))"

definition GetServerKeyBy_InstanceKey_Address :: "'r qr_env \<Rightarrow> u32 \<Rightarrow> Address \<Rightarrow> 'r qr_state \<Rightarrow> string" where
  "GetServerKeyBy_InstanceKey_Address E instance_key address s =
     (let ipmap_str = ''IPINSTMAP_'' @ dec_nat (unat instance_key) @ ''-'' @ ip_port E address;
          server_key = c_string (reply_text (r_get (servers_db E) ipmap_str (qdb s)) [])
      in if server_key \<noteq> [] \<and> isServerDeleted E server_key False s then [] else server_key)"

definition GetNewServerKey :: "'r qr_env \<Rightarrow> Address \<Rightarrow> string \<Rightarrow> 'r qr_state \<Rightarrow> string \<times> i32 \<times> 'r qr_state" where
  "GetNewServerKey E address game s =
     (let found = TryFindServerID E address s;
          (sid, s) = (if found = -1 then GetServerID E s else (found, s))
      in (game @ '':'' @ dec_int sid @ '':'', sid, s))"

definition GetNewServerKey_FromRequest ::
  "'r qr_env \<Rightarrow> MMPushRequest \<Rightarrow> string \<Rightarrow> 'r qr_state \<Rightarrow> string \<times> i32 \<times> 'r qr_state" where
  "GetNewServerKey_FromRequest E request game s = GetNewServerKey E (m_address (server request)) game s"

definition Get_QR1_Stored_Address_ServerKey :: "'r qr_env \<Rightarrow> MMPushRequest \<Rightarrow> 'r qr_state \<Rightarrow> string" where
  "Get_QR1_Stored_Address_ServerKey E request s =
     strip_quotes (c_string (reply_text (r_get (servers_db E) (''QR1MAP_'' @ ip_port E (from_address request)) (qdb s)) []))"

definition GetServerKey_FromRequest :: "'r qr_env \<Rightarrow> MMPushRequest \<Rightarrow> 'r qr_state \<Rightarrow> string" where
  "GetServerKey_FromRequest E request s =
     (let key = (if qr_version request = 1 then Get_QR1_Stored_Address_ServerKey E request s else []) in
      if key = [] then GetServerKeyBy_InstanceKey_Address E (v2_instance_key request) (from_address request) s else key)"

text \<open>The throttle of version 1, which \<open>CheckServerKey_HasRecentHeartbeat\<close> does not call.\<close>

definition CheckServerKey_HasRecentHeartbeat_V1 :: "'r qr_env \<Rightarrow> string \<Rightarrow> 'r qr_state \<Rightarrow> bool \<times> 'r qr_state" where
  "CheckServerKey_HasRecentHeartbeat_V1 E server_key s =
     (if server_key = [] then (False, s)
      else
        (let hbtime_key = server_key @ ''_hbblock'';
             keyExists = (case r_get (servers_db E) hbtime_key (qdb s) of None \<Rightarrow> False
               | Some v \<Rightarrow> MM_QRV1_NUM_BURST_REQS \<le>s atoi v)
         in (keyExists, if keyExists then s
               else qr_redis E [INCR hbtime_key, EXPIRE hbtime_key MM_IGNORE_TIME_SECS] s)))"

definition CheckServerKey_HasRecentHeartbeat :: "MMPushRequest \<Rightarrow> string \<Rightarrow> bool" where
  "CheckServerKey_HasRecentHeartbeat request server_key = False"

section \<open>Writing a server down (Heartbeat.cpp)\<close>

definition upper_hex :: "nat \<Rightarrow> char" where
  "upper_hex d = char_of (if d < 10 then 48 + d else 55 + d)"

definition hex_chars :: string where "hex_chars = ''0123456789abcdef''"

text \<open>\<open>%08X\<close> and \<open>%04X\<close> of numbers of that many digits.\<close>

primrec hex_text :: "nat \<Rightarrow> nat \<Rightarrow> string" where
  "hex_text 0 v = []"
| "hex_text (Suc w) v = hex_text w (v div 16) @ [upper_hex (v mod 16)]"

definition GenerateChallenge :: "'r qr_env \<Rightarrow> GameData \<Rightarrow> Address \<Rightarrow> string" where
  "GenerateChallenge E game addr =
     (let r = random_at E; c = gen_random r V2_CHALLENGE_LEN;
          c = (if backendflags game AND QR2_OPTION_USE_QUERY_CHALLENGE \<noteq> 0
               then c[6 := hex_chars ! (r 20 mod 8 + 8)] else c[6 := hex_chars ! (r 20 mod 8)]);
          c = c[7 := hex_chars ! (r 21 mod 16)]
      in take 8 c @ hex_text 8 (unat (ntohl (ip addr))) @ hex_text 4 (unat (port_number addr)))"

definition WriteLastHeartbeatTime ::
  "'r qr_env \<Rightarrow> string \<Rightarrow> Address \<Rightarrow> u32 \<Rightarrow> Address \<Rightarrow> 'r qr_state \<Rightarrow> 'r qr_state" where
  "WriteLastHeartbeatTime E server_key addr instance_key from_addr s =
     qr_redis E
       ([HSET server_key ''last_heartbeat'' (dec_int (clock E))] @
        (if instance_key = 0 then
           EXPIRE (''QR1MAP_'' @ ip_port E addr) MM_PUSH_EXPIRE_TIME #
           (if port_number addr \<noteq> port_number from_addr
            then [EXPIRE (''QR1MAP_'' @ ip_port E from_addr) MM_PUSH_EXPIRE_TIME] else [])
         else []) @
        [EXPIRE (''IPMAP_'' @ ip_port E addr) MM_PUSH_EXPIRE_TIME,
         EXPIRE (''IPINSTMAP_'' @ dec_nat (unat instance_key) @ ''-'' @ ip_port E addr) MM_PUSH_EXPIRE_TIME,
         EXPIRE server_key MM_PUSH_EXPIRE_TIME,
         EXPIRE (server_key @ ''custkeys'') MM_PUSH_EXPIRE_TIME]) s"

text \<open>
  The values of players or teams, regrouped by their number: a value of \<open>key\<close> at position \<open>i\<close> goes to the
  hash \<open>prefix i\<close>.
\<close>

definition transpose_key ::
  "string \<Rightarrow> string \<times> string list \<Rightarrow> (string, (string \<times> string) list) smap \<Rightarrow> (string, (string \<times> string) list) smap" where
  "transpose_key prefix p transposed_keys =
     fold (\<lambda>(i, v) m.
         if v = [] then m
         else let k = prefix @ dec_nat i; (old, m) = smap_index [] k m in smap_put k (old @ [(fst p, v)]) m)
       (enumerate 0 (snd p)) transposed_keys"

definition transposed ::
  "string \<Rightarrow> (string, string list) smap \<Rightarrow> (string, string list) smap \<Rightarrow> (string, (string \<times> string) list) smap" where
  "transposed server_key players teams =
     fold (transpose_key (server_key @ ''custkeys_team_'')) teams
       (fold (transpose_key (server_key @ ''custkeys_player_'')) players [])"

definition c_pair :: "string \<times> string \<Rightarrow> string \<times> string" where
  "c_pair = map_prod c_string c_string"

text \<open>The commands for one hash of a player or team; its empty values are left out.\<close>

definition transposed_cmds :: "string \<times> (string \<times> string) list \<Rightarrow> redis_cmd list" where
  "transposed_cmds p =
     (if snd p = [] then []
      else [HMSET (fst p) (map c_pair (filter (\<lambda>kv. snd kv \<noteq> []) (snd p))), EXPIRE (fst p) MM_PUSH_EXPIRE_TIME])"

definition WriteServerData ::
  "'r qr_env \<Rightarrow> string \<Rightarrow> ServerInfo \<Rightarrow> u32 \<Rightarrow> Address \<Rightarrow> 'r qr_state \<Rightarrow> 'r qr_state" where
  "WriteServerData E server_key info instance_key from_addr s =
     (let addr = m_address info;
          s = qr_redis E
            ([SET (''IPMAP_'' @ ip_port E addr) server_key] @
             (if instance_key = 0 then
                SET (''QR1MAP_'' @ ip_port E addr) server_key #
                (if port_number addr \<noteq> port_number from_addr
                 then [SET (''QR1MAP_'' @ ip_port E from_addr) server_key] else [])
              else []) @
             [SET (''IPINSTMAP_'' @ dec_nat (unat instance_key) @ ''-'' @ ip_port E addr) server_key,
              HSET server_key ''instance_key'' (dec_nat (unat instance_key))] @
             (if m_keys info = [] then [] else [HMSET (server_key @ ''custkeys'') (map c_pair (m_keys info))]) @
             concat (map transposed_cmds (transposed server_key (m_player_keys info) (m_team_keys info)))) s
      in WriteLastHeartbeatTime E server_key addr instance_key from_addr s)"

definition SetServerDeleted :: "'r qr_env \<Rightarrow> string \<Rightarrow> bool \<Rightarrow> bool \<Rightarrow> 'r qr_state \<Rightarrow> 'r qr_state" where
  "SetServerDeleted E server_key deleted reset_hbcount s =
     qr_redis E (HSET server_key ''deleted'' (if deleted then ''1'' else ''0'') #
       (if reset_hbcount then [HDEL server_key ''num_updates''] else [])) s"

definition SetServerInitialInfo ::
  "'r qr_env \<Rightarrow> string option \<Rightarrow> string \<Rightarrow> GameData \<Rightarrow> string \<Rightarrow> Address \<Rightarrow> i32 \<Rightarrow> Address \<Rightarrow> 'r qr_state \<Rightarrow> 'r qr_state option" where
  "SetServerInitialInfo E driver_text server_key game_info challenge_response addr sid from_addr s =
     map_option (\<lambda>driver.
       qr_redis E
         [HMSET server_key
            [(''driver_address'', driver), (''driver_hostname'', host_name E),
             (''qr_port'', dec_nat (unat (port_number from_addr))),
             (''wan_port'', dec_nat (unat (port_number addr))),
             (''wan_ip'', ntop E (ip addr)), (''gameid'', dec_int (game_id game_info)),
             (''gamename'', c_string (gamename game_info)), (''id'', dec_int sid),
             (''challenge'', challenge_response)],
          ZADD (c_string (gamename game_info)) server_key] s) driver_text"

text \<open>
  \<open>ClearServerCustKeys\<close>: the reply of \<open>SCAN\<close> is read as if each key were followed by a value, so every
  second key is skipped. No request asks for it.
\<close>

partial_function (option) clear_loop :: "'r qr_env \<Rightarrow> string \<Rightarrow> i32 \<Rightarrow> 'r qr_state \<Rightarrow> 'r qr_state option" where
  "clear_loop E pat cursor s =
     (let (c, ks) = r_scan_match (servers_db E) pat cursor (qdb s);
          s = qr_redis E (map (\<lambda>k. DEL (c_string k)) (evens ks)) s
      in if atoi c = 0 then Some s else clear_loop E pat (atoi c) s)"

definition ClearServerCustKeys :: "'r qr_env \<Rightarrow> string \<Rightarrow> 'r qr_state \<Rightarrow> 'r qr_state option" where
  "ClearServerCustKeys E server_key s = clear_loop E (server_key @ ''custkeys*'') 0 s"

section \<open>The tasks\<close>

text \<open>The first heartbeat of a server: it is written down as deleted, and challenged.\<close>

definition register_server ::
  "'r qr_env \<Rightarrow> MMPushRequest \<Rightarrow> MMTaskResponse \<Rightarrow> 'r qr_state \<Rightarrow> 'r qr_state option" where
  "register_server E request response s =
     (case smap_find (m_keys (server request)) ''gamename'' of
        None \<Rightarrow> call_back request (response\<lparr>error_message := Some ''No gamename supplied''\<rparr>) s
      | Some game \<Rightarrow>
          let game_info = GetGameByName (servers_db E) game (games E) in
          if secretkey game_info = [] then
            call_back request (response\<lparr>error_message := Some ''No such gamename''\<rparr>) s
          else do {
            let (server_key, sid, s) = GetNewServerKey_FromRequest E request game s;
            let challenge_string = GenerateChallenge E game_info (from_address request);
            resp \<leftarrow> gsseckey (string_bytes challenge_string) (string_bytes (secretkey game_info)) 0;
            let resp = c_string (response_chars resp);
            let resp = (if qr_version request = 1 then take 8 resp else resp);
            let challenge_string = (if qr_version request = 1 then take 8 challenge_string else challenge_string);
            s \<leftarrow> (if request_type request = Heartbeat_ClearExistingKeys then ClearServerCustKeys E server_key s
                  else Some s);
            let s = WriteServerData E server_key (server request) (v2_instance_key request) (from_address request) s;
            let s = SetServerDeleted E server_key True (qr_version request \<noteq> 1) s;
            s \<leftarrow> SetServerInitialInfo E (Address_ToString (ntop E) False (driver_address request)) server_key game_info
                   resp (m_address (server request)) sid (from_address request) s;
            call_back request (response\<lparr>challenge := challenge_string\<rparr>) s })"

definition update_server ::
  "'r qr_env \<Rightarrow> MMPushRequest \<Rightarrow> MMTaskResponse \<Rightarrow> i32 \<Rightarrow> string \<Rightarrow> 'r qr_state \<Rightarrow> 'r qr_state option" where
  "update_server E request response statechanged server_key s =
     (if statechanged = 2 then
        call_back request response
          (sendAMQPMessage mm_server_event_routingkey (bslash # ''del'' @ bslash # c_string server_key)
            (SetServerDeleted E server_key True True s))
      else do {
        s \<leftarrow> (if request_type request = Heartbeat_ClearExistingKeys then ClearServerCustKeys E server_key s
              else Some s);
        let (hb_count, s) = IncrNumHeartbeats E server_key s;
        let msg = (if hb_count = 1 \<and> qr_version request = 1 then bslash # ''new'' @ bslash # c_string server_key
                   else bslash # ''update'' @ bslash # c_string server_key);
        let s = WriteServerData E server_key (server request) (v2_instance_key request) (from_address request) s;
        call_back request response (sendAMQPMessage mm_server_event_routingkey msg s) })"

definition PerformHeartbeat :: "'r qr_env \<Rightarrow> MMPushRequest \<Rightarrow> 'r qr_state \<Rightarrow> 'r qr_state option" where
  "PerformHeartbeat E request s =
     (let response = (new_response request)\<lparr>query_address := m_address (server request)\<rparr>;
          statechanged = (case smap_find (m_keys (server request)) ''statechanged'' of None \<Rightarrow> 1 | Some v \<Rightarrow> atoi v);
          server_key = GetServerKey_FromRequest E request s
      in if statechanged = 1 \<and> CheckServerKey_HasRecentHeartbeat request server_key then call_back request response s
         else if server_key = [] \<or> statechanged = 3 \<or> isServerDeleted E server_key True s
         then register_server E request response s
         else update_server E request response statechanged server_key s)"

definition PerformKeepalive :: "'r qr_env \<Rightarrow> MMPushRequest \<Rightarrow> 'r qr_state \<Rightarrow> 'r qr_state option" where
  "PerformKeepalive E request s =
     (let response = (new_response request)\<lparr>challenge := rq_gamename request\<rparr>;
          server_key = GetServerKey_FromRequest E request s
      in if server_key = [] then call_back request (response\<lparr>error_message := Some ''No server registered''\<rparr>) s
         else call_back request response
           (WriteLastHeartbeatTime E server_key (from_address request) (v2_instance_key request) (from_address request) s))"

text \<open>The data of the game is looked up and not put into the answer.\<close>

definition PerformGetGameInfo :: "'r qr_env \<Rightarrow> MMPushRequest \<Rightarrow> 'r qr_state \<Rightarrow> 'r qr_state option" where
  "PerformGetGameInfo E request s =
     (let game_info = GetGameByName (servers_db E) (rq_gamename request) (games E) in
      call_back request (new_response request) s)"

definition GetCalculatedChallenge :: "'r qr_env \<Rightarrow> string \<Rightarrow> 'r qr_state \<Rightarrow> string" where
  "GetCalculatedChallenge E server_key s =
     (case r_hget (servers_db E) server_key ''challenge'' (qdb s) of None \<Rightarrow> [] | Some v \<Rightarrow> strip_quotes (c_string v))"

definition PerformValidate :: "'r qr_env \<Rightarrow> MMPushRequest \<Rightarrow> 'r qr_state \<Rightarrow> 'r qr_state option" where
  "PerformValidate E request s =
     (let response = new_response request; server_key = GetServerKey_FromRequest E request s in
      if server_key = [] then call_back request (response\<lparr>error_message := Some ''Server not registered''\<rparr>) s
      else
        (let response = response\<lparr>query_address := GetQueryAddressForServer E server_key s, challenge := server_key\<rparr>;
             expected_challenge = GetCalculatedChallenge E server_key s;
             chopped_challenge = take (length expected_challenge) (rq_gamename request)
         in if expected_challenge \<noteq> chopped_challenge then
              call_back request (response\<lparr>error_message := Some ''Invalid challenge response''\<rparr>) s
            else if isServerDeleted E server_key True s then
              (let s = SetServerDeleted E server_key False (qr_version request \<noteq> 1) s;
                   s = (if qr_version request \<noteq> 1 then
                          sendAMQPMessage mm_server_event_routingkey (bslash # ''new'' @ bslash # c_string server_key)
                            (snd (IncrNumHeartbeats E server_key s))
                        else s)
               in call_back request response s)
            else if qr_version request = 1 then Some s
            else call_back request response s))"

end
