(* ===== verification/QrDriver.thy ===== *)
theory QrDriver
  imports QrTasks KVReader Jansson
begin

text \<open>
  The driver of the heartbeat service (\<open>qr/server\<close>): it reads the datagrams of game servers, in the text
  protocol of version 1 and the binary one of version 2, into requests for the tasks, and answers them in
  the tasks' callbacks. The driver's address is an argument; the JSON library and the decoder of base64 are
  parameters. A handler returns the request it hands over, if any; \<open>None\<close> is undefined behaviour.
\<close>

abbreviation "PACKET_CHALLENGE \<equiv> 1 :: byte"
abbreviation "PACKET_HEARTBEAT \<equiv> 3 :: byte"
abbreviation "PACKET_ADDERROR \<equiv> 4 :: byte"
abbreviation "PACKET_CLIENT_MESSAGE \<equiv> 6 :: byte"
abbreviation "PACKET_CLIENT_MESSAGE_ACK \<equiv> 7 :: byte"
abbreviation "PACKET_KEEPALIVE \<equiv> 8 :: byte"
abbreviation "PACKET_AVAILABLE \<equiv> 9 :: byte"
abbreviation "PACKET_CLIENT_REGISTERED \<equiv> 10 :: byte"
abbreviation "QR_MAGIC_1 \<equiv> 0xFE :: byte"
abbreviation "QR_MAGIC_2 \<equiv> 0xFD :: byte"
abbreviation "REQUEST_KEY_LEN \<equiv> 4 :: nat"

section \<open>Sending\<close>

definition send_fields :: "Address \<Rightarrow> field list \<Rightarrow> datagrams option" where
  "send_fields dest fs = map_option (\<lambda>bs. [(dest, bs)]) (message_bytes fs)"

definition send_text :: "Address \<Rightarrow> string \<Rightarrow> datagrams option" where
  "send_text dest msg =
     do { b \<leftarrow> WriteBuffer (string_bytes msg) Buffer_new; Some [(dest, map the (contents b))] }"

definition send_v2_error :: "Address \<Rightarrow> u32 \<Rightarrow> byte \<Rightarrow> string \<Rightarrow> datagrams option" where
  "send_v2_error dest instance_key error_code msg =
     send_fields dest [FByte QR_MAGIC_1, FByte QR_MAGIC_2, FByte PACKET_ADDERROR, FInt instance_key,
       FByte error_code, FNTS (string_bytes msg)]"

text \<open>Errors are not sent in version 1: the function returns after logging.\<close>

definition send_v1_error :: "Address \<Rightarrow> string \<Rightarrow> datagrams option" where
  "send_v1_error dest msg = Some []"

definition send_client_message :: "i32 \<Rightarrow> Address \<Rightarrow> u32 \<Rightarrow> u32 \<Rightarrow> byte list \<Rightarrow> datagrams option" where
  "send_client_message v to_address instance_key message_key message =
     (if v = 2 then
        do { b \<leftarrow> write_fields [FByte QR_MAGIC_1, FByte QR_MAGIC_2, FByte PACKET_CLIENT_MESSAGE, FInt instance_key,
               FInt message_key] Buffer_new;
             b \<leftarrow> WriteBuffer message b;
             Some [(to_address, map the (contents b))] }
      else Some [])"

definition perform_v1_key_scan :: "Address \<Rightarrow> datagrams option" where
  "perform_v1_key_scan dest = send_text dest (bslash # ''status'' @ [bslash])"

section \<open>Callbacks\<close>

definition both :: "datagrams option \<Rightarrow> datagrams option \<Rightarrow> datagrams option" where
  "both a b = do { x \<leftarrow> a; y \<leftarrow> b; Some (x @ y) }"

definition on_v1_heartbeat_processed :: "MMTaskResponse \<Rightarrow> datagrams option" where
  "on_v1_heartbeat_processed response =
     (let to_both = (\<lambda>send. both (send (query_address response))
            (if \<not> Address_eq (rs_from_address response) (query_address response)
             then send (rs_from_address response) else Some []))
      in case error_message response of Some e \<Rightarrow> send_v1_error (rs_from_address response) e
      | None \<Rightarrow>
          if challenge response \<noteq> [] then to_both (\<lambda>a. send_text a (bslash # ''secure'' @ bslash # challenge response))
          else to_both perform_v1_key_scan)"

definition on_v1_heartbeat_data_processed :: "MMTaskResponse \<Rightarrow> datagrams option" where
  "on_v1_heartbeat_data_processed response =
     (case error_message response of Some e \<Rightarrow> send_v1_error (rs_from_address response) e | None \<Rightarrow> Some [])"

definition on_v1_secure_processed :: "MMTaskResponse \<Rightarrow> datagrams option" where
  "on_v1_secure_processed response =
     (case error_message response of Some e \<Rightarrow> send_v1_error (rs_from_address response) e
      | None \<Rightarrow> perform_v1_key_scan (query_address response))"

definition on_v1_echo_processed :: "MMTaskResponse \<Rightarrow> datagrams option" where
  "on_v1_echo_processed response =
     (if error_message response \<noteq> None then Some []
      else send_text (rs_from_address response) (bslash # ''echo'' @ bslash # challenge response))"

definition on_v2_heartbeat_processed :: "MMTaskResponse \<Rightarrow> datagrams option" where
  "on_v2_heartbeat_processed response =
     (case error_message response of
        Some e \<Rightarrow> send_v2_error (rs_from_address response) (rs_instance_key response) 1 e
      | None \<Rightarrow>
          if challenge response \<noteq> [] then
            send_fields (rs_from_address response) [FByte QR_MAGIC_1, FByte QR_MAGIC_2, FByte PACKET_CHALLENGE,
              FInt (rs_instance_key response), FNTS (string_bytes (challenge response))]
          else Some [])"

definition on_got_v2_challenge_response :: "MMTaskResponse \<Rightarrow> datagrams option" where
  "on_got_v2_challenge_response response =
     (case error_message response of
        Some e \<Rightarrow> send_v2_error (rs_from_address response) (rs_instance_key response) 1 e
      | None \<Rightarrow> send_fields (rs_from_address response) [FByte QR_MAGIC_1, FByte QR_MAGIC_2,
          FByte PACKET_CLIENT_REGISTERED, FInt (rs_instance_key response)])"

definition on_v2_keepalive_processed :: "i32 \<Rightarrow> MMTaskResponse \<Rightarrow> datagrams option" where
  "on_v2_keepalive_processed tv_sec response =
     (if error_message response \<noteq> None then Some []
      else send_fields (rs_from_address response) [FByte QR_MAGIC_1, FByte QR_MAGIC_2, FByte PACKET_KEEPALIVE,
        FInt (rs_instance_key response), FInt tv_sec])"

text \<open>\<open>disabled_services\<close> is a \<open>char\<close>, extended with its sign.\<close>

definition on_got_v2_available_data :: "MMTaskResponse \<Rightarrow> datagrams option" where
  "on_got_v2_available_data response =
     send_fields (rs_from_address response) [FByte QR_MAGIC_1, FByte QR_MAGIC_2, FByte PACKET_AVAILABLE,
       FInt (ntohl (scast (disabled_services (game_data response))))]"

section \<open>Version 1\<close>

text \<open>
  The value of a player: appended when the number is not below the number of values so far, else stored at
  it. A negative number is an index outside the vector.
\<close>

definition put_numbered :: "i32 \<Rightarrow> string \<Rightarrow> string list \<Rightarrow> string list option" where
  "put_numbered n v vs =
     (if int (length vs) \<le> sint n then Some (vs @ [v])
      else if sint n < 0 then None else Some (vs[nat (sint n) := v]))"

fun v1_heartbeat_keys :: "kv_pairs \<Rightarrow> ServerInfo \<Rightarrow> ServerInfo option" where
  "v1_heartbeat_keys [] info = Some info"
| "v1_heartbeat_keys ((k, v) # kvs) info =
     (case isPlayerString k of
        Some (variable_name, player_id) \<Rightarrow>
          (let (old, m) = smap_index [] variable_name (m_player_keys info) in
           do { vs \<leftarrow> put_numbered player_id v old;
                v1_heartbeat_keys kvs (info\<lparr>m_player_keys := smap_put variable_name vs m\<rparr>) })
      | None \<Rightarrow>
          if k = ''final'' then Some info
          else v1_heartbeat_keys kvs (info\<lparr>m_keys := smap_put k v (m_keys info)\<rparr>))"

definition new_request :: "Address \<Rightarrow> Address \<Rightarrow> i32 \<Rightarrow> u32 \<Rightarrow> EMMPushRequestType \<Rightarrow>
    (MMTaskResponse \<Rightarrow> datagrams option) \<Rightarrow> MMPushRequest" where
  "new_request driver addr v instance_key ty cb =
     \<lparr>server = new_info, rq_gamename = [], from_address = addr, v2_instance_key = instance_key,
      driver_address = driver, qr_version = v, request_type = ty, callback = cb\<rparr>"

definition handle_v1_heartbeat_data :: "Address \<Rightarrow> Address \<Rightarrow> kv_pairs \<Rightarrow> MMPushRequest option" where
  "handle_v1_heartbeat_data driver addr reader =
     do { info \<leftarrow> v1_heartbeat_keys reader (new_info\<lparr>m_address := addr\<rparr>);
          Some ((new_request driver addr 1 0 Heartbeat on_v1_heartbeat_data_processed)\<lparr>server := info\<rparr>) }"

definition handle_v1_heartbeat :: "Address \<Rightarrow> Address \<Rightarrow> kv_pairs \<Rightarrow> MMPushRequest option" where
  "handle_v1_heartbeat driver addr reader =
     (let query = Address_new (ip addr) (ucast (GetValueInt reader ''heartbeat''));
          query = (if GetPort query = Some 0 then query\<lparr>port := port addr\<rparr> else query);
          keys = foldl (\<lambda>m (k, v). smap_put k v m) [] (tl reader)
      in Some ((new_request driver addr 1 0 Heartbeat on_v1_heartbeat_processed)
           \<lparr>server := new_info\<lparr>m_address := query, m_keys := keys\<rparr>\<rparr>))"

definition handle_v1_validate :: "Address \<Rightarrow> Address \<Rightarrow> kv_pairs \<Rightarrow> MMPushRequest option" where
  "handle_v1_validate driver addr reader =
     Some ((new_request driver addr 1 0 ValidateServer on_v1_secure_processed)
       \<lparr>rq_gamename := GetValue reader ''validate''\<rparr>)"

definition handle_v1_echo :: "Address \<Rightarrow> Address \<Rightarrow> kv_pairs \<Rightarrow> MMPushRequest option" where
  "handle_v1_echo driver addr reader =
     Some ((new_request driver addr 1 0 Keepalive on_v1_echo_processed)\<lparr>rq_gamename := GetValueByIdx reader 0\<rparr>)"

definition handle_v1_packet :: "Address \<Rightarrow> Address \<Rightarrow> string \<Rightarrow> MMPushRequest option" where
  "handle_v1_packet driver addr input =
     (case KVReader input bslash nul [] of
        Done data_parser \<Rightarrow>
          (let message_type = GetKeyByIdx data_parser 0 in
           if message_type = ''heartbeat'' then handle_v1_heartbeat driver addr data_parser
           else if message_type = ''validate'' then handle_v1_validate driver addr data_parser
           else if message_type = ''echo'' then handle_v1_echo driver addr data_parser
           else handle_v1_heartbeat_data driver addr data_parser)
      | _ \<Rightarrow> None)"

section \<open>Version 2\<close>

text \<open>Keys and values in turn, up to an empty key. The first value of a key is kept, an empty one is not.\<close>

partial_function (option) v2_keys ::
  "bool \<Rightarrow> string \<Rightarrow> (string, string) smap \<Rightarrow> buffer \<Rightarrow> ((string, string) smap \<times> buffer) option" where
  "v2_keys odd_turn key keys b =
     do { (x, b) \<leftarrow> read_text b;
          if \<not> odd_turn then (if x = [] then Some (keys, b) else v2_keys True x keys b)
          else v2_keys False key (if x \<noteq> [] \<and> smap_find keys key = None then smap_put key x keys else keys) b }"

partial_function (option) v2_names :: "string list \<Rightarrow> buffer \<Rightarrow> (string list \<times> buffer) option" where
  "v2_names names b =
     (if readRemaining b = 0 then Some (names, b)
      else do { (x, b) \<leftarrow> read_text b; if x = [] then Some (names, b) else v2_names (names @ [x]) b })"

definition put_player :: "nat \<Rightarrow> string \<Rightarrow> string list \<Rightarrow> string list" where
  "put_player player x vs = (if length vs \<le> player then vs @ [x] else vs[player := x])"

definition put_value :: "string \<Rightarrow> nat \<Rightarrow> string \<Rightarrow> ServerInfo \<Rightarrow> ServerInfo" where
  "put_value name player x info =
     (if isTeamString name then
        (let (old, m) = smap_index [] name (m_team_keys info)
         in info\<lparr>m_team_keys := smap_put name (put_player player x old) m\<rparr>)
      else
        (let (old, m) = smap_index [] name (m_player_keys info)
         in info\<lparr>m_player_keys := smap_put name (put_player player x old) m\<rparr>))"

text \<open>The values, row by row; the first argument is \<open>num_values_t\<close>.\<close>

primrec v2_values :: "nat \<Rightarrow> string list \<Rightarrow> nat \<Rightarrow> nat \<Rightarrow> ServerInfo \<Rightarrow> buffer \<Rightarrow> (ServerInfo \<times> buffer) option" where
  "v2_values 0 names i player info b = Some (info, b)"
| "v2_values (Suc n) names i player info b =
     (if length names \<le> i then None
      else do { (x, b) \<leftarrow> read_text b;
                let (i', player') = (if length names \<le> i + 1 then (0, player + 1) else (i + 1, player));
                v2_values n names i' player' (put_value (names ! i) player x info) b })"

partial_function (option) v2_tables :: "ServerInfo \<Rightarrow> buffer \<Rightarrow> (ServerInfo \<times> buffer) option" where
  "v2_tables info b =
     do { (w, b) \<leftarrow> ReadShort b;
          let num_values = htons w;
          if num_values = 0 \<or> readRemaining b \<le> 3 then Some (info, b)
          else do { (names, b) \<leftarrow> v2_names [] b;
                    (info, b) \<leftarrow> v2_values (unat num_values * length names mod 2 ^ 32) names 0 0 info b;
                    v2_tables info b } }"

definition handle_v2_heartbeat :: "Address \<Rightarrow> Address \<Rightarrow> u32 \<Rightarrow> buffer \<Rightarrow> MMPushRequest option" where
  "handle_v2_heartbeat driver addr instance_key b =
     do { (keys, b) \<leftarrow> v2_keys False [] [] b;
          (info, b) \<leftarrow> v2_tables (new_info\<lparr>m_address := addr, m_keys := keys\<rparr>) b;
          Some ((new_request driver addr 2 instance_key Heartbeat on_v2_heartbeat_processed)\<lparr>server := info\<rparr>) }"

definition handle_v2_available :: "Address \<Rightarrow> Address \<Rightarrow> u32 \<Rightarrow> buffer \<Rightarrow> MMPushRequest option" where
  "handle_v2_available driver addr instance_key b =
     do { (game, b) \<leftarrow> read_text b;
          Some ((new_request driver addr 2 instance_key GetGameInfoByGameName on_got_v2_available_data)
            \<lparr>rq_gamename := game\<rparr>) }"

definition handle_v2_challenge :: "Address \<Rightarrow> Address \<Rightarrow> u32 \<Rightarrow> buffer \<Rightarrow> MMPushRequest option" where
  "handle_v2_challenge driver addr instance_key b =
     do { (resp, b) \<leftarrow> read_text b;
          Some ((new_request driver addr 2 instance_key ValidateServer on_got_v2_challenge_response)
            \<lparr>rq_gamename := resp\<rparr>) }"

definition handle_v2_keepalive :: "i32 \<Rightarrow> Address \<Rightarrow> Address \<Rightarrow> u32 \<Rightarrow> MMPushRequest option" where
  "handle_v2_keepalive tv_sec driver addr instance_key =
     Some (new_request driver addr 2 instance_key Keepalive (on_v2_keepalive_processed tv_sec))"

text \<open>There is no callback: the task tests the pointer.\<close>

definition handle_v2_client_message_ack :: "Address \<Rightarrow> Address \<Rightarrow> u32 \<Rightarrow> buffer \<Rightarrow> MMPushRequest option" where
  "handle_v2_client_message_ack driver addr instance_key b =
     do { (key, b) \<leftarrow> ReadInt b;
          Some ((new_request driver addr 2 instance_key ClientMessageAck (\<lambda>r. Some []))
            \<lparr>server := new_info\<lparr>info_id := key\<rparr>\<rparr>) }"

definition handle_v2_packet :: "i32 \<Rightarrow> Address \<Rightarrow> Address \<Rightarrow> buffer \<Rightarrow> MMPushRequest option option" where
  "handle_v2_packet tv_sec driver addr b =
     do { (ty, b) \<leftarrow> ReadByte b;
          if readRemaining b < REQUEST_KEY_LEN then Some None
          else do {
            (instance_key, b) \<leftarrow> ReadInt b;
            if ty = PACKET_AVAILABLE then map_option Some (handle_v2_available driver addr instance_key b)
            else if ty = PACKET_HEARTBEAT then map_option Some (handle_v2_heartbeat driver addr instance_key b)
            else if ty = PACKET_CHALLENGE then map_option Some (handle_v2_challenge driver addr instance_key b)
            else if ty = PACKET_KEEPALIVE then map_option Some (handle_v2_keepalive tv_sec driver addr instance_key)
            else if ty = PACKET_CLIENT_MESSAGE_ACK
              then map_option Some (handle_v2_client_message_ack driver addr instance_key b)
            else Some None } }"

definition on_udp_read :: "i32 \<Rightarrow> Address \<Rightarrow> Address \<Rightarrow> byte list \<Rightarrow> MMPushRequest option option" where
  "on_udp_read tv_sec driver addr data =
     (case data of [] \<Rightarrow> Some None
      | b0 # _ \<Rightarrow> do {
          b \<leftarrow> WriteBuffer data Buffer_new;
          if b0 = 0x5C then map_option Some (handle_v1_packet driver addr (response_chars data))
          else handle_v2_packet tv_sec driver addr (resetReadCursor b) })"

section \<open>Messages\<close>

definition PerformClientMessageAck ::
  "'j jansson \<Rightarrow> 'r qr_env \<Rightarrow> MMPushRequest \<Rightarrow> 'r qr_state \<Rightarrow> 'r qr_state option" where
  "PerformClientMessageAck J E request s =
     do { driver \<leftarrow> Address_ToString (ntop E) False (driver_address request);
          addr \<leftarrow> Address_ToString (ntop E) False (from_address request);
          let send_obj = json_members J
            [(''instance_key'', Some (json_integer J (uint (v2_instance_key request)))),
             (''version'', Some (json_integer J 2)),
             (''identifier'', Some (json_integer J (sint (info_id (server request))))),
             (''hostname'', json_string J (host_name E)),
             (''driver_address'', json_string J driver),
             (''from_address'', json_string J addr)] (json_object J);
          call_back request (new_response request)
            (sendAMQPMessage ''client-messages.acks'' (json_dumps J send_obj) s) }"

text \<open>The dispatch of the thread pool. Every task has a Redis connection.\<close>

definition PerformUVWorkRequest ::
  "'j jansson \<Rightarrow> 'r qr_env \<Rightarrow> MMPushRequest \<Rightarrow> 'r qr_state \<Rightarrow> 'r qr_state option" where
  "PerformUVWorkRequest J E request s =
     (case request_type request of
        GetGameInfoByGameName \<Rightarrow> PerformGetGameInfo E request s
      | Heartbeat \<Rightarrow> PerformHeartbeat E request s
      | Heartbeat_ClearExistingKeys \<Rightarrow> PerformHeartbeat E request s
      | ValidateServer \<Rightarrow> PerformValidate E request s
      | Keepalive \<Rightarrow> PerformKeepalive E request s
      | ClientMessageAck \<Rightarrow> PerformClientMessageAck J E request s)"

definition findDriverByAddress :: "Address list \<Rightarrow> Address \<Rightarrow> Address option" where
  "findDriverByAddress drivers a = find (\<lambda>d. Address_eq d a) drivers"

text \<open>An integer member, or 0.\<close>

definition json_int_member :: "'j jansson \<Rightarrow> 'j \<Rightarrow> string \<Rightarrow> i32" where
  "json_int_member J root k =
     (case json_object_get J (Some root) k of
        Some v \<Rightarrow> if json_is_integer J v then word_of_int (json_integer_value J (Some v)) else 0
      | None \<Rightarrow> 0)"

definition Handle_QRMessage ::
  "'j jansson \<Rightarrow> 'r qr_env \<Rightarrow> (string \<Rightarrow> byte list option) \<Rightarrow> Address list \<Rightarrow> string \<Rightarrow> (bool \<times> datagrams) option" where
  "Handle_QRMessage J E unbase64 drivers message =
     (let get = (\<lambda>root. json_object_get J (Some root)); string_member = (\<lambda>root k. json_string_value J (get root k)) in
      case json_loads J message of None \<Rightarrow> Some (False, [])
      | Some root \<Rightarrow> do {
          let should_process = (case get root ''hostname'' of None \<Rightarrow> True
            | Some h \<Rightarrow> \<not> json_is_string J h \<or>
                map tolower (host_name E) = map tolower (reply_text (json_string_value J (Some h)) []));
          let version = json_int_member J root ''version'';
          let instance_key = json_int_member J root ''instance_key'';
          let message_key = json_int_member J root ''identifier'';
          let base64_string = (case get root ''message'' of None \<Rightarrow> []
            | Some m \<Rightarrow> if json_is_string J m then reply_text (json_string_value J (Some m)) [] else []);
          data \<leftarrow> unbase64 base64_string;
          if should_process \<and> get root ''driver_address'' \<noteq> None then do {
            driver_text \<leftarrow> string_member root ''driver_address'';
            to_text \<leftarrow> string_member root ''to_address'';
            case findDriverByAddress drivers (Address_parse (aton E) driver_text) of None \<Rightarrow> Some (True, [])
            | Some d \<Rightarrow>
                (case get root ''type'' of None \<Rightarrow> Some (True, [])
                 | Some ty \<Rightarrow> do {
                     type_str \<leftarrow> json_string_value J (Some ty);
                     if map tolower type_str = ''client_message'' \<and> version = 2 then
                       map_option (Pair True) (send_client_message version (Address_parse (aton E) to_text)
                         instance_key message_key data)
                     else Some (True, []) }) }
          else Some (True, []) })"

section \<open>Which commands can list a server\<close>

text \<open>
  A server is in the lists while the field \<open>deleted\<close> of its hash is \<open>0\<close>. The hash is the value of a key that
  ends in a colon; every other key a task writes ends otherwise.
\<close>

definition listed :: "'r redis \<Rightarrow> string \<Rightarrow> 'r \<Rightarrow> bool" where
  "listed R k d \<longleftrightarrow> r_hget R k ''deleted'' d = Some ''0''"

definition server_name :: "string \<Rightarrow> bool" where
  "server_name k \<longleftrightarrow> k \<noteq> [] \<and> last k = CHR '':''"

fun unlisting :: "string \<Rightarrow> redis_cmd \<Rightarrow> bool" where
  "unlisting k (SET k' v) \<longleftrightarrow> k' \<noteq> k"
| "unlisting k (DEL k') \<longleftrightarrow> True"
| "unlisting k (EXPIRE k' t) \<longleftrightarrow> 0 < t"
| "unlisting k (HMSET k' fvs) \<longleftrightarrow> k' \<noteq> k \<or> map_of (rev fvs) ''deleted'' \<noteq> Some ''0''"
| "unlisting k (HDEL k' f) \<longleftrightarrow> True"
| "unlisting k (ZADD k' m) \<longleftrightarrow> k' \<noteq> k"
| "unlisting k (ZREM k' m) \<longleftrightarrow> k' \<noteq> k"
| "unlisting k (INCR k') \<longleftrightarrow> k' \<noteq> k"
| "unlisting k (HINCR k' f) \<longleftrightarrow> f \<noteq> ''deleted''"

context redis_server begin

lemma unlisting_run: "unlisting k c \<Longrightarrow> \<not> listed R k d \<Longrightarrow> \<not> listed R k (run R c d)"
  by (cases "cmd_key c = k"; cases c)
    (auto simp: listed_def frame expire del hset hdel hincr split: option.splits)

lemma unlisting_run_all: "list_all (unlisting k) cs \<Longrightarrow> \<not> listed R k d \<Longrightarrow> \<not> listed R k (run_all R cs d)"
  by (induction cs arbitrary: d) (auto simp: unlisting_run)

end

subsection \<open>The commands of the tasks\<close>

lemma last_dec_nat: "last (dec_nat n) \<noteq> CHR '':''"
  using dec_nat_digits [of "last (dec_nat n)" n] by (auto simp: isdigit_def)

lemma last_ip_port: "ip_port E a \<noteq> []" "last (ip_port E a) \<noteq> CHR '':''"
  by (simp_all add: ip_port_def last_dec_nat)

lemma not_server_name:
  "\<not> server_name (s @ dec_nat n)" "\<not> server_name (s @ ip_port E a)"
  "\<not> server_name (s @ ''custkeys'')" "\<not> server_name (s @ t @ ip_port E a)"
  "\<not> server_name (s @ t @ u @ ip_port E a)"
  by (simp_all add: server_name_def last_ip_port last_dec_nat)

lemma server_name_ne: "server_name k \<Longrightarrow> \<not> server_name k' \<Longrightarrow> k' \<noteq> k"
  by auto

lemma unlisting_heartbeat_time:
  "list_all (unlisting k)
     ([HSET server_key ''last_heartbeat'' t] @
        (if b then EXPIRE x MM_PUSH_EXPIRE_TIME # (if b' then [EXPIRE y MM_PUSH_EXPIRE_TIME] else []) else []) @
        [EXPIRE z MM_PUSH_EXPIRE_TIME, EXPIRE u MM_PUSH_EXPIRE_TIME, EXPIRE v MM_PUSH_EXPIRE_TIME,
         EXPIRE w MM_PUSH_EXPIRE_TIME])"
  by auto

definition numbered :: "string \<Rightarrow> bool" where
  "numbered k \<longleftrightarrow> (\<exists>s n. k = s @ dec_nat n)"

lemma numbered_not_server: "numbered k \<Longrightarrow> \<not> server_name k"
  by (auto simp: numbered_def not_server_name)

definition all_numbered :: "(string, 'v) smap \<Rightarrow> bool" where
  "all_numbered m \<longleftrightarrow> (\<forall>x \<in> fst ` set m. numbered x)"

lemma all_numbered_put: "all_numbered m \<Longrightarrow> numbered k \<Longrightarrow> all_numbered (smap_put k v m)"
  by (simp only: all_numbered_def fst_set_smap_put) blast

lemma transpose_key_numbered:
  assumes "all_numbered m"
  shows "all_numbered (transpose_key prefix q m)"
proof -
  have k: "numbered (prefix @ dec_nat i)" for i by (auto simp: numbered_def)
  have "all_numbered (fold (\<lambda>(i, v) m. if v = [] then m
       else let k = prefix @ dec_nat i; (old, m) = smap_index [] k m in smap_put k (old @ [(fst q, v)]) m) xs m)" for xs
    using assms
  proof (induction xs arbitrary: m)
    case (Cons x xs)
    obtain i v where x: "x = (i, v)" by (cases x)
    have "all_numbered (let k = prefix @ dec_nat i; (old, m) = smap_index [] k m
        in smap_put k (old @ [(fst q, v)]) m)"
      using Cons.prems k [of i] by (simp add: smap_index_def Let_def all_numbered_put split: option.splits)
    with Cons show ?case by (simp add: x)
  qed simp
  then show ?thesis by (simp add: transpose_key_def)
qed

lemma transposed_numbered: "p \<in> set (transposed server_key players teams) \<Longrightarrow> numbered (fst p)"
proof -
  have fold: "all_numbered (fold (transpose_key prefix) qs m)"
    if "all_numbered m" for prefix and qs :: "(string \<times> string list) list"
      and m :: "(string, (string \<times> string) list) smap"
    using that
  proof (induction qs arbitrary: m)
    case (Cons q qs)
    show ?case using Cons.IH [OF transpose_key_numbered [OF Cons.prems]] by simp
  qed simp
  assume "p \<in> set (transposed server_key players teams)"
  moreover have "all_numbered (transposed server_key players teams)"
    unfolding transposed_def by (intro fold) (simp add: all_numbered_def)
  ultimately show ?thesis by (simp add: all_numbered_def)
qed

lemma unlisting_transposed:
  assumes "server_name k"
  shows "list_all (unlisting k) (concat (map transposed_cmds (transposed server_key players teams)))"
proof -
  have "unlisting k c" if "p \<in> set (transposed server_key players teams)" "c \<in> set (transposed_cmds p)" for p c
    using that numbered_not_server [OF transposed_numbered [OF that(1)]] assms
    by (auto simp: transposed_cmds_def split: if_splits)
  then show ?thesis by (auto simp: list_all_iff)
qed

text \<open>Each writing operation leaves an unlisted server unlisted.\<close>

context redis_server begin

lemma unlisted_redis:
  assumes "servers_db E = R" and "list_all (unlisting k) cs" and "\<not> listed R k (qdb s)"
  shows "\<not> listed R k (qdb (qr_redis E cs s))"
  using unlisting_run_all [OF assms(2,3)] by (simp add: qr_redis_def assms(1))

lemma unlisted_last_heartbeat:
  "servers_db E = R \<Longrightarrow> \<not> listed R k (qdb s) \<Longrightarrow> \<not> listed R k (qdb (WriteLastHeartbeatTime E sk a i f s))"
  unfolding WriteLastHeartbeatTime_def by (rule unlisted_redis [OF _ unlisting_heartbeat_time])

lemma unlisted_server_data:
  assumes "servers_db E = R" and k: "server_name k" and "\<not> listed R k (qdb s)"
  shows "\<not> listed R k (qdb (WriteServerData E sk info i f s))"
proof -
  have ne: "x @ ip_port E a \<noteq> k" "x @ y @ z @ ip_port E a \<noteq> k" "x @ ''custkeys'' \<noteq> k" for x y z a
    using k not_server_name(2) [of x E a] not_server_name(5) [of x y z E a] not_server_name(3) [of x]
    by blast+
  show ?thesis
    unfolding WriteServerData_def Let_def
    by (intro unlisted_last_heartbeat [OF assms(1)] unlisted_redis [OF assms(1) _ assms(3)])
      (simp add: ne unlisting_transposed [OF k] del: append_Cons append_Nil)
qed

lemma unlisted_deleted:
  "servers_db E = R \<Longrightarrow> \<not> listed R k (qdb s) \<Longrightarrow> \<not> listed R k (qdb (SetServerDeleted E sk True h s))"
  unfolding SetServerDeleted_def by (rule unlisted_redis) auto

lemma unlisted_initial_info:
  assumes "servers_db E = R" and "\<not> listed R k (qdb s)" and "c_string (gamename game_info) \<noteq> k"
    and "SetServerInitialInfo E d sk game_info resp a sid f s = Some s'"
  shows "\<not> listed R k (qdb s')"
  using assms(3,4) unlisted_redis [OF assms(1) _ assms(2)]
  by (auto simp: SetServerInitialInfo_def)

lemma unlisted_clear_loop:
  assumes "clear_loop E pat cursor s = Some s'" and "servers_db E = R" and "\<not> listed R k (qdb s)"
  shows "\<not> listed R k (qdb s')"
proof -
  define P where "P = (\<lambda>(E :: 'r qr_env) (pat :: string) (cursor :: i32) (s :: 'r qr_state) (s' :: 'r qr_state).
    servers_db E = R \<longrightarrow> \<not> listed R k (qdb s) \<longrightarrow> \<not> listed R k (qdb s'))"
  have "P E pat cursor s s'"
  proof (rule clear_loop.raw_induct [OF _ assms(1)])
    fix loop :: "'r qr_env \<Rightarrow> string \<Rightarrow> i32 \<Rightarrow> 'r qr_state \<Rightarrow> 'r qr_state option" and E pat cursor s s'
    assume IH: "\<And>pat cursor s b y. loop pat cursor s b = Some y \<Longrightarrow> P pat cursor s b y"
      and body: "(let (c, ks) = r_scan_match (servers_db E) pat cursor (qdb s);
          s = qr_redis E (map (\<lambda>k. DEL (c_string k)) (evens ks)) s
        in if atoi c = 0 then Some s else loop E pat (atoi c) s) = Some s'"
    obtain c ks where scan: "r_scan_match (servers_db E) pat cursor (qdb s) = (c, ks)"
      by (cases "r_scan_match (servers_db E) pat cursor (qdb s)")
    let ?s = "qr_redis E (map (\<lambda>k. DEL (c_string k)) (evens ks)) s"
    have s: "\<not> listed R k (qdb ?s)" if "servers_db E = R" "\<not> listed R k (qdb s)"
      by (rule unlisted_redis [OF that(1) _ that(2)]) (simp add: list_all_iff)
    show "P E pat cursor s s'"
    proof (cases "atoi c = 0")
      case True
      then have "s' = ?s" using body scan by (simp add: Let_def)
      then show ?thesis using s by (simp add: P_def)
    next
      case False
      then have "loop E pat (atoi c) ?s = Some s'" using body scan by (simp add: Let_def)
      then have "P E pat (atoi c) ?s s'" by (rule IH)
      then show ?thesis using s by (simp add: P_def)
    qed
  qed
  then show ?thesis using assms(2,3) by (simp add: P_def)
qed

lemma unlisted_new_key:
  assumes "servers_db E = R" and "server_name k" and "\<not> listed R k (qdb s)"
    and "GetNewServerKey_FromRequest E request game s = (sk, sid, s')"
  shows "\<not> listed R k (qdb s')"
proof -
  have "\<not> listed R k (run R (INCR ''QRID'') (qdb s))"
    using assms(2,3) by (intro unlisting_run) (auto simp: server_name_def)
  then show ?thesis
    using assms(1,3,4)
    by (auto simp: GetNewServerKey_FromRequest_def GetNewServerKey_def GetServerID_def redis_incr_def Let_def
        split: if_splits)
qed

lemma unlisted_call_back:
  "call_back request response s = Some s' \<Longrightarrow> \<not> listed R k (qdb s) \<Longrightarrow> \<not> listed R k (qdb s')"
  by (auto simp: call_back_def)

lemma unlisted_incr:
  assumes "servers_db E = R" and "\<not> listed R k (qdb s)"
  shows "\<not> listed R k (qdb (snd (IncrNumHeartbeats E sk s)))"
proof -
  have "\<not> listed R k (run R (HINCR sk ''num_updates'') (qdb s))"
    using assms(2) by (intro unlisting_run) auto
  then show ?thesis by (simp add: IncrNumHeartbeats_def redis_hincr_def Let_def assms(1))
qed

lemma unlisted_event: "\<not> listed R k (qdb s) \<Longrightarrow> \<not> listed R k (qdb (sendAMQPMessage r m s))"
  by (simp add: sendAMQPMessage_def)

end

section \<open>Properties\<close>

text \<open>A request shows a server's secret: its text starts with the response the server's hash holds.\<close>

definition shows_secret :: "'r qr_env \<Rightarrow> string \<Rightarrow> MMPushRequest \<Rightarrow> 'r qr_state \<Rightarrow> bool" where
  "shows_secret E k request s \<longleftrightarrow> request_type request = ValidateServer \<and>
     GetServerKey_FromRequest E request s = k \<and>
     take (length (GetCalculatedChallenge E k s)) (rq_gamename request) = GetCalculatedChallenge E k s"

context redis_server begin

lemma unlisted_register:
  assumes R: "servers_db E = R" and k: "server_name k" and u: "\<not> listed R k (qdb s)"
    and games: "\<And>name. c_string (gamename (GetGameByName R name (games E))) \<noteq> k"
    and run: "register_server E request response s = Some s'"
  shows "\<not> listed R k (qdb s')"
proof (cases "smap_find (m_keys (server request)) ''gamename''")
  case None
  then show ?thesis using run unlisted_call_back [OF _ u] by (auto simp: register_server_def)
next
  case (Some game)
  let ?g = "GetGameByName R game (games E)"
  show ?thesis
  proof (cases "secretkey ?g = []")
    case True
    then show ?thesis using run Some unlisted_call_back [OF _ u] by (auto simp: register_server_def R)
  next
    case False
    obtain sk sid s1 where key: "GetNewServerKey_FromRequest E request game s = (sk, sid, s1)"
      by (cases "GetNewServerKey_FromRequest E request game s") auto
    have u1: "\<not> listed R k (qdb s1)" by (rule unlisted_new_key [OF R k u key])
    obtain s2 resp ch d s3 where
      s2: "(if request_type request = Heartbeat_ClearExistingKeys then ClearServerCustKeys E sk s1 else Some s1) = Some s2"
      and s3: "SetServerInitialInfo E d sk ?g resp (m_address (server request)) sid (from_address request)
        (SetServerDeleted E sk True (qr_version request \<noteq> 1)
          (WriteServerData E sk (server request) (v2_instance_key request) (from_address request) s2)) = Some s3"
      and cb: "call_back request (response\<lparr>challenge := ch\<rparr>) s3 = Some s'"
      using run False Some by (auto simp: register_server_def R key Let_def split: bind_splits)
    have u2: "\<not> listed R k (qdb s2)"
      using s2 u1 unlisted_clear_loop [OF _ R u1] by (auto simp: ClearServerCustKeys_def split: if_splits)
    have "\<not> listed R k (qdb s3)"
      by (rule unlisted_initial_info [OF R _ games s3]) (intro unlisted_deleted unlisted_server_data R k u2)
    then show ?thesis by (rule unlisted_call_back [OF cb])
  qed
qed

lemma unlisted_update:
  assumes R: "servers_db E = R" and k: "server_name k" and u: "\<not> listed R k (qdb s)"
    and run: "update_server E request response statechanged sk s = Some s'"
  shows "\<not> listed R k (qdb s')"
proof (cases "statechanged = 2")
  case True
  then show ?thesis using run unlisted_call_back [OF _ unlisted_event [OF unlisted_deleted [OF R u]]]
    by (auto simp: update_server_def)
next
  case False
  obtain s2 where
    s2: "(if request_type request = Heartbeat_ClearExistingKeys then ClearServerCustKeys E sk s else Some s) = Some s2"
    and "\<exists>msg. call_back request response (sendAMQPMessage mm_server_event_routingkey msg
        (WriteServerData E sk (server request) (v2_instance_key request) (from_address request)
          (snd (IncrNumHeartbeats E sk s2)))) = Some s'"
    using run False by (auto simp: update_server_def Let_def split: bind_splits prod.splits)
  moreover have "\<not> listed R k (qdb s2)"
    using s2 u unlisted_clear_loop [OF _ R u] by (auto simp: ClearServerCustKeys_def split: if_splits)
  ultimately show ?thesis
    using unlisted_call_back [OF _ unlisted_event [OF unlisted_server_data [OF R k unlisted_incr [OF R]]]] by blast
qed

lemma task_lists:
  assumes R: "servers_db E = R" and k: "server_name k" and u: "\<not> listed R k (qdb s)"
    and games: "\<And>name. c_string (gamename (GetGameByName R name (games E))) \<noteq> k"
    and run: "PerformUVWorkRequest J E request s = Some s'" and l: "listed R k (qdb s')"
  shows "shows_secret E k request s"
proof (cases "request_type request")
  case Heartbeat
  then have hb: "PerformHeartbeat E request s = Some s'" using run by (simp add: PerformUVWorkRequest_def)
  show ?thesis using hb unlisted_register [OF R k u games] unlisted_update [OF R k u] unlisted_call_back [OF _ u] l
    by (auto simp: PerformHeartbeat_def Let_def split: if_splits)
next
  case Heartbeat_ClearExistingKeys
  then have hb: "PerformHeartbeat E request s = Some s'" using run by (simp add: PerformUVWorkRequest_def)
  show ?thesis using hb unlisted_register [OF R k u games] unlisted_update [OF R k u] unlisted_call_back [OF _ u] l
    by (auto simp: PerformHeartbeat_def Let_def split: if_splits)
next
  case GetGameInfoByGameName
  then show ?thesis using run l unlisted_call_back [OF _ u]
    by (auto simp: PerformUVWorkRequest_def PerformGetGameInfo_def Let_def)
next
  case Keepalive
  then show ?thesis using run l unlisted_call_back [OF _ u] unlisted_call_back [OF _ unlisted_last_heartbeat [OF R u]]
    by (auto simp: PerformUVWorkRequest_def PerformKeepalive_def Let_def split: if_splits)
next
  case ClientMessageAck
  then show ?thesis using run l unlisted_call_back [OF _ unlisted_event [OF u]]
    by (auto simp: PerformUVWorkRequest_def PerformClientMessageAck_def Let_def split: bind_splits)
next
  case ValidateServer
  let ?sk = "GetServerKey_FromRequest E request s"
  let ?e = "GetCalculatedChallenge E ?sk s"
  have v: "PerformValidate E request s = Some s'" using run ValidateServer by (simp add: PerformUVWorkRequest_def)
  show ?thesis
  proof (cases "?sk = [] \<or> ?e \<noteq> take (length ?e) (rq_gamename request) \<or> \<not> isServerDeleted E ?sk True s")
    case True
    then show ?thesis using v l unlisted_call_back [OF _ u] u
      by (auto simp: PerformValidate_def Let_def split: if_splits)
  next
    case False
    have "?sk = k"
    proof (rule ccontr)
      assume ne: "?sk \<noteq> k"
      have d: "\<not> listed R k (qdb (SetServerDeleted E ?sk False h s))" for h
        unfolding SetServerDeleted_def by (rule unlisted_redis [OF R _ u]) (simp add: ne)
      show False
        using v l False unlisted_call_back [OF _ d] unlisted_call_back [OF _ unlisted_event [OF unlisted_incr [OF R d]]]
        by (auto simp: PerformValidate_def Let_def split: if_splits)
    qed
    then show ?thesis using False ValidateServer by (auto simp: shows_secret_def)
  qed
qed

end

text \<open>A history of tasks: each runs at its own moment, with the clock and the random numbers of that moment.\<close>

definition at_moment :: "i32 \<times> (nat \<Rightarrow> nat) \<Rightarrow> 'r qr_env \<Rightarrow> 'r qr_env" where
  "at_moment m E = E\<lparr>clock := fst m, random_at := snd m\<rparr>"

lemma at_moment_simps [simp]:
  "servers_db (at_moment m E) = servers_db E" "games (at_moment m E) = games E"
  by (simp_all add: at_moment_def)

fun run_requests :: "'j jansson \<Rightarrow> 'r qr_env \<Rightarrow> ((i32 \<times> (nat \<Rightarrow> nat)) \<times> MMPushRequest) list \<Rightarrow> 'r qr_state \<Rightarrow>
    'r qr_state option" where
  "run_requests J E [] s = Some s"
| "run_requests J E ((m, r) # rs) s = Option.bind (PerformUVWorkRequest J (at_moment m E) r s) (run_requests J E rs)"

text \<open>C1. A game server gets into the lists only by showing its secret: in every history of tasks that starts with
  the server not listed and ends with it listed, there is a request from the server's address whose text starts
  with the response to the challenge that the server's hash held at that moment. No heartbeat, whatever keys
  it carries, and no other request lists a server. (The server's key ends in a colon, as every key the program makes, and
  is not the name of a game: names of games and keys of servers are keys of the same database.)
\<close>

theorem listed_servers_validated:
  assumes R: "redis_server (servers_db E)" and k: "server_name k"
    and games: "\<And>name. c_string (gamename (GetGameByName (servers_db E) name (games E))) \<noteq> k"
    and run: "run_requests J E reqs s = Some s'" and u: "\<not> listed (servers_db E) k (qdb s)"
    and l: "listed (servers_db E) k (qdb s')"
  shows "\<exists>before m r after t. reqs = before @ (m, r) # after \<and> run_requests J E before s = Some t \<and>
    shows_secret (at_moment m E) k r t"
  using run u l
proof (induction reqs arbitrary: s)
  case Nil
  then show ?case by simp
next
  case (Cons mr rs)
  obtain m r where mr: "mr = (m, r)" by (cases mr)
  obtain t where t: "PerformUVWorkRequest J (at_moment m E) r s = Some t" "run_requests J E rs t = Some s'"
    using Cons.prems(1) by (auto simp: mr split: bind_splits)
  show ?case
  proof (cases "listed (servers_db E) k (qdb t)")
    case True
    have "shows_secret (at_moment m E) k r s"
      by (rule redis_server.task_lists [OF R at_moment_simps(1) k Cons.prems(2) _ t(1) True]) (simp add: games)
    then show ?thesis
      by (intro exI [of _ "[]"] exI [of _ m] exI [of _ r] exI [of _ rs] exI [of _ s]) (simp add: mr)
  next
    case False
    obtain before n q after v where "rs = before @ (n, q) # after" "run_requests J E before t = Some v"
        "shows_secret (at_moment n E) k q v"
      using Cons.IH [OF t(2) False Cons.prems(3)] by blast
    then show ?thesis using t(1)
      by (intro exI [of _ "mr # before"] exI [of _ n] exI [of _ q] exI [of _ after] exI [of _ v]) (simp add: mr)
  qed
qed


text \<open>A small world for the examples: one server, challenged and not yet listed.\<close>

definition example_env :: "kvdb qr_env" where
  "example_env = \<lparr>servers_db = kv_redis, games = kv_empty, aton = (\<lambda>_. 0), ntop = (\<lambda>_. ''h''), host_name = ''qr'',
     clock = 0, random_at = id\<rparr>"

definition example_state :: "kvdb qr_state" where
  "example_state = \<lparr>qdb = kv_empty\<lparr>kv_hash := (\<lambda>_. [])(''g:1:'' := [(''deleted'', ''1''), (''challenge'', ''abc'')]),
       kv_string := (\<lambda>_. None)(''IPINSTMAP_5-h-0'' := Some ''g:1:'')\<rparr>, events = [], sent = []\<rparr>"

definition example_validation :: MMPushRequest where
  "example_validation = (new_request Address_default Address_default 2 5 ValidateServer on_got_v2_challenge_response)
     \<lparr>rq_gamename := ''abcd''\<rparr>"

lemma dec_nat_small: "n < 10 \<Longrightarrow> dec_nat n = [digit_char n]"
  by (subst dec_nat.simps) simp

lemmas example_defs = example_env_def example_state_def example_validation_def new_request_def Address_default_def

lemma example_key: "GetServerKey_FromRequest example_env example_validation example_state = ''g:1:''"
proof -
  have h: "htons 0 = 0" by (simp add: htons_def)
  have k: "''IPINSTMAP_'' @ dec_nat (unat (5 :: u32)) @ ''-'' @ ip_port example_env Address_default = ''IPINSTMAP_5-h-0''"
    by (simp add: ip_port_def example_env_def port_number_def GetPort_def Address_default_def h dec_nat_small digit_char_def) code_simp
  show ?thesis
    unfolding GetServerKey_FromRequest_def GetServerKeyBy_InstanceKey_Address_def
    using k by (simp add: example_validation_def new_request_def Let_def example_state_def example_env_def kv_redis_def
        reply_text_def isServerDeleted_def kv_empty_def c_string_def nul_def)
qed

lemma example_challenge: "GetCalculatedChallenge example_env ''g:1:'' example_state = ''abc''"
  by (simp add: GetCalculatedChallenge_def example_env_def example_state_def kv_redis_def kv_empty_def strip_quotes_def
      c_string_def nul_def)

lemma example_deleted: "isServerDeleted example_env ''g:1:'' True example_state"
  by (simp add: isServerDeleted_def example_env_def example_state_def kv_redis_def kv_empty_def Let_def
      atoi_def strtol10_def isspace_def isdigit_def digit_val_def c_string_def nul_def)

lemma example_run: "\<exists>s'. PerformValidate example_env example_validation example_state = Some s' \<and>
    listed kv_redis ''g:1:'' (qdb s')"
proof -
  have "rq_gamename example_validation = ''abcd''" "qr_version example_validation = 2"
    "callback example_validation = on_got_v2_challenge_response" by (simp_all add: example_validation_def new_request_def)
  then show ?thesis
    by (simp add: PerformValidate_def example_key example_challenge example_deleted Let_def call_back_def
        on_got_v2_challenge_response_def send_fields_def new_response_def listed_def sendAMQPMessage_def
        IncrNumHeartbeats_def redis_hincr_def SetServerDeleted_def qr_redis_def)
      (simp add: example_env_def example_state_def kv_redis_def kv_empty_def update_conv' delete_conv')
qed

theorem listed_servers_validated_witness:
  "\<exists>before m r after t. [((0, id), example_validation)] = before @ (m, r) # after \<and>
     run_requests jtext example_env before example_state = Some t \<and> shows_secret (at_moment m example_env) ''g:1:'' r t"
proof -
  have R: "redis_server (servers_db example_env)" using kv.redis_server_axioms by (simp add: example_env_def)
  have g: "c_string (gamename (GetGameByName (servers_db example_env) name (games example_env))) \<noteq> ''g:1:''" for name
    by (simp add: GetGameByName_def example_env_def kv_redis_def kv_empty_def new_game_def)
  obtain s' where s': "PerformValidate example_env example_validation example_state = Some s'"
    "listed kv_redis ''g:1:'' (qdb s')" using example_run by blast
  have ty: "request_type example_validation = ValidateServer" by (simp add: example_validation_def new_request_def)
  show ?thesis
  proof (rule listed_servers_validated [OF R _ g, where s' = s'])
    show "server_name ''g:1:''" by (simp add: server_name_def)
    have "at_moment (0, id) example_env = example_env" by (simp add: at_moment_def example_env_def)
    then show "run_requests jtext example_env [((0, id), example_validation)] example_state = Some s'"
      using s'(1) by (simp add: PerformUVWorkRequest_def ty)
    show "\<not> listed (servers_db example_env) ''g:1:'' (qdb example_state)"
      by (simp add: listed_def example_env_def example_state_def kv_redis_def kv_empty_def)
    show "listed (servers_db example_env) ''g:1:'' (qdb s')" using s'(2) by (simp add: example_env_def)
  qed
qed

subsection \<open>What survives the other commands\<close>

definition quiet :: "string \<Rightarrow> redis_cmd \<Rightarrow> bool" where
  "quiet k c \<longleftrightarrow> cmd_key c \<noteq> k \<or> (case c of EXPIRE _ t \<Rightarrow> 0 < t | _ \<Rightarrow> False)"

fun keeps :: "string \<Rightarrow> string \<Rightarrow> redis_cmd \<Rightarrow> bool" where
  "keeps k f (EXPIRE k' t) \<longleftrightarrow> 0 < t"
| "keeps k f (HMSET k' fvs) \<longleftrightarrow> k' \<noteq> k \<or> f \<notin> fst ` set fvs"
| "keeps k f (HDEL k' f') \<longleftrightarrow> k' \<noteq> k \<or> f' \<noteq> f"
| "keeps k f (HINCR k' f') \<longleftrightarrow> k' \<noteq> k \<or> f' \<noteq> f"
| "keeps k f c \<longleftrightarrow> cmd_key c \<noteq> k"

lemma quiet_expire [simp]: "quiet k (EXPIRE k' t) \<longleftrightarrow> k' \<noteq> k \<or> 0 < t"
  by (simp add: quiet_def)

lemma map_of_rev_None: "f \<notin> fst ` set xs \<Longrightarrow> map_of (rev xs) f = None"
  by (simp add: map_of_eq_None_iff)

lemma quiet_ne: "cmd_key c \<noteq> k \<Longrightarrow> quiet k c"
  by (simp add: quiet_def)

context redis_server begin

lemma quiet_get: "list_all (quiet k) cs \<Longrightarrow> r_get R k (run_all R cs d) = r_get R k d"
proof (induction cs arbitrary: d)
  case (Cons c cs)
  then have "r_get R k (run R c d) = r_get R k d"
    by (cases "cmd_key c = k"; cases c) (auto simp: quiet_def frame expire)
  with Cons show ?case by simp
qed simp

lemma quiet_members: "list_all (quiet k) cs \<Longrightarrow> zmembers R k (run_all R cs d) = zmembers R k d"
proof (induction cs arbitrary: d)
  case (Cons c cs)
  then have "zmembers R k (run R c d) = zmembers R k d"
    by (cases "cmd_key c = k"; cases c) (auto simp: quiet_def zmembers_frame zmembers_expire)
  with Cons show ?case by simp
qed simp

lemma keeps_hget: "list_all (keeps k f) cs \<Longrightarrow> r_hget R k f (run_all R cs d) = r_hget R k f d"
proof (induction cs arbitrary: d)
  case (Cons c cs)
  have "r_hget R k f (run R c d) = r_hget R k f d"
  proof (cases "cmd_key c = k")
    case True
    with Cons.prems show ?thesis
      by (cases c) (auto simp: expire hset hdel hincr map_of_rev_None)
  qed (simp add: frame)
  with Cons show ?case by simp
qed simp

end

text \<open>The keys of a server's own hashes hold a colon, the keys of the address maps do not.\<close>

lemma server_key_colon: "p \<in> set (transposed_cmds q) \<Longrightarrow> cmd_key p = fst q"
  by (auto simp: transposed_cmds_def split: if_splits)

definition prefixed :: "string \<Rightarrow> string \<Rightarrow> bool" where
  "prefixed sk k \<longleftrightarrow> (\<exists>t. k = sk @ t)"

definition all_prefixed :: "string \<Rightarrow> (string, 'v) smap \<Rightarrow> bool" where
  "all_prefixed sk m \<longleftrightarrow> (\<forall>x \<in> fst ` set m. prefixed sk x)"

lemma all_prefixed_put: "all_prefixed sk m \<Longrightarrow> prefixed sk k \<Longrightarrow> all_prefixed sk (smap_put k v m)"
  by (simp only: all_prefixed_def fst_set_smap_put) blast

lemma transpose_key_prefixed:
  assumes "all_prefixed sk m"
  shows "all_prefixed sk (transpose_key (sk @ t) q m)"
proof -
  have k: "prefixed sk (sk @ t @ dec_nat i)" for i by (auto simp: prefixed_def)
  have "all_prefixed sk (fold (\<lambda>(i, v) m. if v = [] then m
       else let k = (sk @ t) @ dec_nat i; (old, m) = smap_index [] k m in smap_put k (old @ [(fst q, v)]) m) xs m)" for xs
    using assms
  proof (induction xs arbitrary: m)
    case (Cons x xs)
    obtain i v where x: "x = (i, v)" by (cases x)
    have "all_prefixed sk (let k = (sk @ t) @ dec_nat i; (old, m) = smap_index [] k m
        in smap_put k (old @ [(fst q, v)]) m)"
      using Cons.prems k [of i] by (simp add: smap_index_def Let_def all_prefixed_put split: option.splits)
    with Cons show ?case by (simp add: x)
  qed simp
  then show ?thesis by (simp add: transpose_key_def)
qed

lemma transposed_prefixed: "all_prefixed sk (transposed sk players teams)"
proof -
  have fold: "all_prefixed sk (fold (transpose_key (sk @ t)) qs m)"
    if "all_prefixed sk m" for t and qs :: "(string \<times> string list) list" and m :: "(string, (string \<times> string) list) smap"
    using that
  proof (induction qs arbitrary: m)
    case (Cons q qs)
    show ?case using Cons.IH [OF transpose_key_prefixed [OF Cons.prems]] by simp
  qed simp
  show ?thesis unfolding transposed_def by (intro fold) (simp add: all_prefixed_def)
qed

lemma quiet_transposed:
  assumes "CHR '':'' \<in> set sk" and "CHR '':'' \<notin> set k"
  shows "list_all (quiet k) (concat (map transposed_cmds (transposed sk players teams)))"
proof -
  have "quiet k c" if "p \<in> set (transposed sk players teams)" "c \<in> set (transposed_cmds p)" for p c
  proof (rule quiet_ne)
    have "prefixed sk (fst p)" using transposed_prefixed [of sk players teams] that(1) by (auto simp: all_prefixed_def)
    then have "CHR '':'' \<in> set (cmd_key c)" using assms(1) server_key_colon [OF that(2)] by (auto simp: prefixed_def)
    then show "cmd_key c \<noteq> k" using assms(2) by metis
  qed
  then show ?thesis by (auto simp: list_all_iff)
qed

definition ipinstmap :: "'r qr_env \<Rightarrow> u32 \<Rightarrow> Address \<Rightarrow> string" where
  "ipinstmap E i a = ''IPINSTMAP_'' @ dec_nat (unat i) @ ''-'' @ ip_port E a"

text \<open>The keys of the database that are no servers and no games.\<close>

definition map_keys :: "'r qr_env \<Rightarrow> u32 \<Rightarrow> Address \<Rightarrow> string list" where
  "map_keys E i a = [''QRID'', ''IPMAP_'' @ ip_port E a, ''QR1MAP_'' @ ip_port E a, ipinstmap E i a]"

lemma qdb_qr_redis: "qdb (qr_redis E cs s) = run_all (servers_db E) cs (qdb s)"
  by (simp add: qr_redis_def)

lemma length_hex_text [simp]: "length (hex_text w v) = w"
  by (induction w arbitrary: v) auto

lemma length_GenerateChallenge: "length (GenerateChallenge E g a) = 20"
  by (simp add: GenerateChallenge_def Let_def gen_random_def)

text \<open>After the data is written, the instance key and address lead to the server.\<close>

context redis_server begin

lemma server_data_get:
  assumes R: "servers_db E = R" and sk: "CHR '':'' \<in> set sk"
    and colon: "CHR '':'' \<notin> set (ipinstmap E i (m_address info))"
  shows "r_get R (ipinstmap E i (m_address info)) (qdb (WriteServerData E sk info i f s)) = Some sk"
proof -
  let ?k = "ipinstmap E i (m_address info)"
  have ne: "sk \<noteq> ?k" "sk @ ''custkeys'' \<noteq> ?k" using sk colon by (metis, metis Un_iff set_append)
  let ?post = "[HSET sk ''instance_key'' (dec_nat (unat i))] @
     (if m_keys info = [] then [] else [HMSET (sk @ ''custkeys'') (map c_pair (m_keys info))]) @
     concat (map transposed_cmds (transposed sk (m_player_keys info) (m_team_keys info)))"
  have post: "list_all (quiet ?k) ?post"
    using ne quiet_transposed [OF sk colon] by (auto intro: quiet_ne)
  let ?pre = "[SET (''IPMAP_'' @ ip_port E (m_address info)) sk] @
     (if i = 0 then SET (''QR1MAP_'' @ ip_port E (m_address info)) sk #
        (if port_number (m_address info) \<noteq> port_number f then [SET (''QR1MAP_'' @ ip_port E f) sk] else [])
      else [])"
  have w: "WriteServerData E sk info i f s =
      WriteLastHeartbeatTime E sk (m_address info) i f (qr_redis E (?pre @ [SET ?k sk] @ ?post) s)"
    by (simp add: WriteServerData_def Let_def ipinstmap_def)
  have "r_get R ?k (run_all R (?pre @ [SET ?k sk] @ ?post) d) = Some sk" for d
    using quiet_get [OF post] set_get by (simp only: run_all_simps)
  moreover have "list_all (quiet ?k)
     ([HSET sk ''last_heartbeat'' t] @
        (if b then EXPIRE x MM_PUSH_EXPIRE_TIME # (if b' then [EXPIRE y MM_PUSH_EXPIRE_TIME] else []) else []) @
        [EXPIRE z MM_PUSH_EXPIRE_TIME, EXPIRE u MM_PUSH_EXPIRE_TIME, EXPIRE v MM_PUSH_EXPIRE_TIME,
         EXPIRE w MM_PUSH_EXPIRE_TIME])" for t b x b' y z u v w
    using ne(1) by (auto intro: quiet_ne)
  ultimately show ?thesis
    unfolding w by (simp only: WriteLastHeartbeatTime_def qdb_qr_redis R quiet_get)
qed

lemma server_data_members:
  assumes R: "servers_db E = R" and sk: "CHR '':'' \<in> set sk" and z: "CHR '':'' \<notin> set z"
    and "z \<notin> set (map_keys E i f)" and info: "m_address info = f"
  shows "zmembers R z (qdb (WriteServerData E sk info i f s)) = zmembers R z (qdb s)"
proof -
  have ne: "sk \<noteq> z" "sk @ ''custkeys'' \<noteq> z" using sk z by (metis, metis Un_iff set_append)
  have m: "''IPMAP_'' @ ip_port E f \<noteq> z" "''QR1MAP_'' @ ip_port E f \<noteq> z"
    "''IPINSTMAP_'' @ dec_nat (unat i) @ ''-'' @ ip_port E f \<noteq> z"
    using assms(4) by (auto simp: map_keys_def ipinstmap_def)
  note m' = m [simplified]
  show ?thesis
    unfolding WriteServerData_def Let_def WriteLastHeartbeatTime_def qdb_qr_redis R info
    using ne m' quiet_transposed [OF sk z] by (intro trans [OF quiet_members quiet_members]) (auto simp: quiet_ne)
qed

lemma registered_members:
  assumes R: "servers_db E = R" and "c_string (gamename g) \<noteq> sk"
    and "SetServerInitialInfo E d sk g resp a sid f (SetServerDeleted E sk True h s) = Some s'"
  shows "zmembers R (c_string (gamename g)) (qdb s') = insert sk (zmembers R (c_string (gamename g)) (qdb s))"
  using assms(2,3)
  by (cases h; auto simp: SetServerInitialInfo_def SetServerDeleted_def qr_redis_def R zadd zmembers_frame)

lemma new_key_members:
  assumes R: "servers_db E = R" and "GetNewServerKey_FromRequest E hb name s = (k, sid, s0)" and "z \<noteq> ''QRID''"
  shows "zmembers R z (qdb s0) = zmembers R z (qdb s)"
  using assms(2,3) by (auto simp: GetNewServerKey_FromRequest_def GetNewServerKey_def GetServerID_def Let_def
      redis_incr_def R zmembers_frame split: if_splits)

lemma registered_hash:
  assumes R: "servers_db E = R" and "c_string (gamename g) \<noteq> sk"
    and "SetServerInitialInfo E d sk g resp a sid f (SetServerDeleted E sk True h s) = Some s'"
  shows "r_hget R sk ''deleted'' (qdb s') = Some ''1''" and "r_hget R sk ''challenge'' (qdb s') = Some resp"
    and "r_hget R sk ''wan_ip'' (qdb s') = Some (ntop E (ip a))"
    and "r_hget R sk ''wan_port'' (qdb s') = Some (dec_nat (unat (port_number a)))"
  using assms(2,3) by (auto simp: SetServerInitialInfo_def SetServerDeleted_def qr_redis_def R frame hset hdel)

lemma registered_map:
  assumes R: "servers_db E = R" and "c_string (gamename g) \<noteq> k" and "sk \<noteq> k"
    and "SetServerInitialInfo E d sk g resp a sid f (SetServerDeleted E sk True h s) = Some s'"
  shows "r_get R k (qdb s') = r_get R k (qdb s)"
  using assms(2-4) by (auto simp: SetServerInitialInfo_def SetServerDeleted_def qr_redis_def R frame)

text \<open>A listed server after validation.\<close>

lemma validated_listed:
  assumes R: "servers_db E = R"
  shows "listed R sk (qdb (snd (IncrNumHeartbeats E sk (SetServerDeleted E sk False h s))))"
  by (simp add: listed_def IncrNumHeartbeats_def redis_hincr_def SetServerDeleted_def qr_redis_def Let_def R hincr hset hdel)

lemma validated_keeps:
  assumes R: "servers_db E = R"
  shows "f \<noteq> ''deleted'' \<Longrightarrow> f \<noteq> ''num_updates'' \<Longrightarrow>
      r_hget R sk f (qdb (snd (IncrNumHeartbeats E sk (SetServerDeleted E sk False h s)))) = r_hget R sk f (qdb s)"
    and "z \<noteq> sk \<Longrightarrow>
      zmembers R z (qdb (snd (IncrNumHeartbeats E sk (SetServerDeleted E sk False h s)))) = zmembers R z (qdb s)"
  by (simp_all add: IncrNumHeartbeats_def redis_hincr_def SetServerDeleted_def qr_redis_def Let_def R hincr hset hdel
      zmembers_frame)

end

text \<open>The answer a server gives: the response to the challenge, as the game knows it.\<close>

definition right_response :: "'r qr_env \<Rightarrow> GameData \<Rightarrow> Address \<Rightarrow> string option" where
  "right_response E g a = map_option (\<lambda>r. c_string (response_chars r))
     (gsseckey (string_bytes (GenerateChallenge E g a)) (string_bytes (secretkey g)) 0)"

lemma right_response_plain:
  assumes "right_response E g a = Some resp" and "secretkey g \<noteq> []"
  shows "c_string resp = resp" and "strip_quotes resp = resp"
proof -
  let ?src = "string_bytes (GenerateChallenge E g a)" and ?key = "string_bytes (secretkey g)"
  have "length ?src = 20" using length_GenerateChallenge [of E g a] by (simp add: string_bytes_def)
  then obtain r where r: "gsseckey ?src ?key 0 = Some r" "set r \<subseteq> set sk_alphabet"
    using gsseckey_fits [of ?key ?src 0] assms(2) by (auto simp: string_bytes_def)
  then have resp: "resp = c_string (response_chars r)" using assms(1) by (auto simp: right_response_def)
  then show "c_string resp = resp" by simp
  have "CHR 0x22 \<notin> set (response_chars r)"
  proof
    assume "CHR 0x22 \<in> set (response_chars r)"
    then obtain b where "b \<in> set sk_alphabet" "char_of (unat b) = CHR 0x22" using r(2) by (auto simp: response_chars_def)
    moreover have "list_all (\<lambda>b. char_of (unat b) \<noteq> CHR 0x22) sk_alphabet" by code_simp
    ultimately show False by (auto simp: list_all_iff)
  qed
  then have "CHR 0x22 \<notin> set resp" by (auto simp: resp c_string_def dest: set_takeWhileD)
  then show "strip_quotes resp = resp" by (cases resp) (auto simp: strip_quotes_def)
qed

text \<open>The validation of a server that is registered and not yet listed.\<close>

lemma validate_new:
  assumes "GetServerKey_FromRequest E v t = k" and "k \<noteq> []" and "nul \<notin> set k"
    and "GetCalculatedChallenge E k t = rq_gamename v" and "isServerDeleted E k True t"
    and "qr_version v = 2" and "callback v = on_got_v2_challenge_response"
  shows "\<exists>u. PerformValidate E v t = Some u \<and>
    qdb u = qdb (snd (IncrNumHeartbeats E k (SetServerDeleted E k False True t))) \<and>
    events u = events t @ [(mm_server_event_routingkey, bslash # ''new'' @ bslash # k)] \<and>
    sent u = sent t @ [(from_address v, [0xFE, 0xFD, 10] @ le_bytes 4 (unat (v2_instance_key v)))]"
  using assms
  by (simp add: PerformValidate_def Let_def call_back_def on_got_v2_challenge_response_def send_fields_def
      new_response_def sendAMQPMessage_def)
    (simp add: IncrNumHeartbeats_def redis_hincr_def SetServerDeleted_def qr_redis_def Let_def)

text \<open>The first heartbeat of a server.\<close>

lemma register_new:
  assumes hb: "qr_version hb = 2" "callback hb = on_v2_heartbeat_processed" "request_type hb = Heartbeat"
      "m_address (server hb) = from_address hb" "port (driver_address hb) \<noteq> None"
    and game: "smap_find (m_keys (server hb)) ''gamename'' = Some name"
      "g = GetGameByName (servers_db E) name (games E)" "secretkey g \<noteq> []"
    and resp: "right_response E g (from_address hb) = Some resp" and unknown: "GetServerKey_FromRequest E hb s = []"
    and key: "GetNewServerKey_FromRequest E hb name s = (k, sid, s0)"
  shows "\<exists>t u d. SetServerInitialInfo E d k g resp (from_address hb) sid (from_address hb) (SetServerDeleted E k True True
      (WriteServerData E k (server hb) (v2_instance_key hb) (from_address hb) s0)) = Some t \<and>
    PerformHeartbeat E hb s = Some u \<and> qdb u = qdb t \<and> events u = events s \<and>
    sent u = sent s @ [(from_address hb, [0xFE, 0xFD, 1] @ le_bytes 4 (unat (v2_instance_key hb)) @
       string_bytes (GenerateChallenge E g (from_address hb)) @ [0])]"
proof -
  have s0: "events s0 = events s" "sent s0 = sent s"
    using key by (auto simp: GetNewServerKey_FromRequest_def GetNewServerKey_def GetServerID_def Let_def
        split: if_splits prod.splits)
  obtain r where r: "gsseckey (string_bytes (GenerateChallenge E g (from_address hb))) (string_bytes (secretkey g)) 0 = Some r"
      "resp = c_string (response_chars r)"
    using resp by (auto simp: right_response_def)
  obtain d where d: "Address_ToString (ntop E) False (driver_address hb) = Some d"
    using hb(5) by (auto simp: Address_ToString_def)
  obtain t where t: "SetServerInitialInfo E (Some d) k g resp (from_address hb) sid (from_address hb)
      (SetServerDeleted E k True True
        (WriteServerData E k (server hb) (v2_instance_key hb) (from_address hb) s0)) = Some t"
    by (simp add: SetServerInitialInfo_def)
  have keep: "events t = events s" "sent t = sent s"
    using t s0 by (auto simp: SetServerInitialInfo_def SetServerDeleted_def qr_redis_def WriteServerData_def
        WriteLastHeartbeatTime_def Let_def)
  have ch: "GenerateChallenge E g (from_address hb) \<noteq> []"
    using length_GenerateChallenge [of E g "from_address hb"] by auto
  let ?u = "t\<lparr>sent := sent s @ [(from_address hb, [0xFE, 0xFD, 1] @
      le_bytes 4 (unat (v2_instance_key hb)) @ string_bytes (GenerateChallenge E g (from_address hb)) @ [0])]\<rparr>"
  have "PerformHeartbeat E hb s = Some ?u"
    using hb game r d t key unknown ch keep
    by (simp add: PerformHeartbeat_def CheckServerKey_HasRecentHeartbeat_def register_server_def
        Let_def call_back_def on_v2_heartbeat_processed_def send_fields_def new_response_def)
  then show ?thesis using t keep(1)
    by - (rule exI [of _ t], rule exI [of _ ?u], rule exI [of _ "Some d"], simp)
qed

text \<open>A first heartbeat and the right answer to its challenge.\<close>

lemma registration:
  assumes R: "redis_server (servers_db E)"
    and hb: "qr_version hb = 2" "callback hb = on_v2_heartbeat_processed" "request_type hb = Heartbeat"
      "m_address (server hb) = from_address hb" "port (driver_address hb) \<noteq> None"
    and game: "smap_find (m_keys (server hb)) ''gamename'' = Some name"
      "g = GetGameByName (servers_db E) name (games E)" "secretkey g \<noteq> []"
    and unknown: "GetServerKey_FromRequest E hb s = []"
    and names: "nul \<notin> set name" "CHR '':'' \<notin> set (c_string (gamename g))" "c_string (gamename g) \<noteq> inst"
      "inst = ipinstmap E (v2_instance_key hb) (from_address hb)" "CHR '':'' \<notin> set inst"
    and v: "request_type v = ValidateServer" "qr_version v = 2" "callback v = on_got_v2_challenge_response"
      "from_address v = from_address hb" "v2_instance_key v = v2_instance_key hb"
      "right_response E g (from_address hb) = Some (rq_gamename v)"
  shows "\<exists>s1 s2 k. PerformUVWorkRequest J E hb s = Some s1 \<and>
    sent s1 = sent s @ [(from_address hb, [0xFE, 0xFD, 1] @ le_bytes 4 (unat (v2_instance_key hb)) @
       string_bytes (GenerateChallenge E g (from_address hb)) @ [0])] \<and>
    PerformUVWorkRequest J E v s1 = Some s2 \<and> listed (servers_db E) k (qdb s2) \<and> nul \<notin> set k \<and>
    GetServerKey_FromRequest E v s1 = k \<and>
    r_hget (servers_db E) k ''wan_ip'' (qdb s2) = Some (ntop E (ip (from_address hb))) \<and>
    r_hget (servers_db E) k ''wan_port'' (qdb s2) = Some (dec_nat (unat (port_number (from_address hb)))) \<and>
    (c_string (gamename g) \<notin> set (map_keys E (v2_instance_key hb) (from_address hb)) \<longrightarrow>
      zmembers (servers_db E) (c_string (gamename g)) (qdb s2) =
        insert k (zmembers (servers_db E) (c_string (gamename g)) (qdb s))) \<and>
    events s2 = events s @ [(mm_server_event_routingkey, bslash # ''new'' @ bslash # k)] \<and>
    sent s2 = sent s1 @ [(from_address hb, [0xFE, 0xFD, 10] @ le_bytes 4 (unat (v2_instance_key hb)))]"
proof -
  let ?R = "servers_db E" and ?i = "v2_instance_key hb" and ?a = "from_address hb"
  obtain k sid s0 where key: "GetNewServerKey_FromRequest E hb name s = (k, sid, s0)"
    by (cases "GetNewServerKey_FromRequest E hb name s") auto
  have k: "CHR '':'' \<in> set k" "nul \<notin> set k"
    using key names(1) by (auto simp: GetNewServerKey_FromRequest_def GetNewServerKey_def Let_def nul_def
        dest: nul_notin_dec_int [unfolded nul_def, THEN notE] split: if_splits prod.splits)
  obtain t u d where t: "SetServerInitialInfo E d k g (rq_gamename v) ?a sid ?a (SetServerDeleted E k True True
      (WriteServerData E k (server hb) ?i ?a s0)) = Some t"
    and u: "PerformHeartbeat E hb s = Some u" "qdb u = qdb t" "events u = events s"
      "sent u = sent s @ [(?a, [0xFE, 0xFD, 1] @ le_bytes 4 (unat ?i) @ string_bytes (GenerateChallenge E g ?a) @ [0])]"
    using register_new [OF hb game v(6) unknown key] by blast
  have ne: "c_string (gamename g) \<noteq> k" "k \<noteq> inst" using k(1) names(2,5) by metis+
  note hash = redis_server.registered_hash [OF R refl ne(1) t]
  have "r_get ?R inst (qdb t) = r_get ?R inst (qdb (WriteServerData E k (server hb) ?i ?a s0))"
    by (rule redis_server.registered_map [OF R refl names(3) ne(2) t])
  also have "\<dots> = Some k"
    using redis_server.server_data_get [OF R refl k(1), of ?i "server hb" ?a s0] names(4,5) hb(4) by simp
  finally have inst: "r_get ?R inst (qdb t) = Some k" .
  have vkey: "GetServerKey_FromRequest E v u = k"
    using inst hash k(2) names(4) v(2,4,5)
    by (simp add: GetServerKey_FromRequest_def GetServerKeyBy_InstanceKey_Address_def ipinstmap_def reply_text_def
        isServerDeleted_def Let_def u(2))
  have exp: "GetCalculatedChallenge E k u = rq_gamename v"
    using hash(2) right_response_plain [OF v(6) game(3)] by (simp add: GetCalculatedChallenge_def u(2))
  have del: "isServerDeleted E k True u"
    using hash(1) by (simp add: isServerDeleted_def Let_def atoi_def strtol10_def isspace_def isdigit_def digit_val_def
        c_string_def nul_def u(2))
  have "k \<noteq> []" using k(1) by auto
  from validate_new [OF vkey this k(2) exp del v(2,3)] obtain w where w: "PerformValidate E v u = Some w"
    "qdb w = qdb (snd (IncrNumHeartbeats E k (SetServerDeleted E k False True u)))"
    "events w = events u @ [(mm_server_event_routingkey, bslash # ''new'' @ bslash # k)]"
    "sent w = sent u @ [(?a, [0xFE, 0xFD, 10] @ le_bytes 4 (unat ?i))]" using v(4,5) by auto
  have "listed ?R k (qdb w)" unfolding w(2) by (rule redis_server.validated_listed [OF R refl])
  moreover have "r_hget ?R k ''wan_ip'' (qdb w) = Some (ntop E (ip ?a))"
      "r_hget ?R k ''wan_port'' (qdb w) = Some (dec_nat (unat (port_number ?a)))"
    unfolding w(2) using redis_server.validated_keeps(1) [OF R refl] hash(3,4) u(2) by simp_all
  moreover have "zmembers ?R (c_string (gamename g)) (qdb w) = insert k (zmembers ?R (c_string (gamename g)) (qdb s))"
    if z: "c_string (gamename g) \<notin> set (map_keys E ?i ?a)"
  proof -
    have "zmembers ?R (c_string (gamename g)) (qdb w) = insert k (zmembers ?R (c_string (gamename g))
        (qdb (WriteServerData E k (server hb) ?i ?a s0)))"
      unfolding w(2) redis_server.validated_keeps(2) [OF R refl ne(1)] u(2)
      by (rule redis_server.registered_members [OF R refl ne(1) t])
    also have "\<dots> = insert k (zmembers ?R (c_string (gamename g)) (qdb s0))"
      using redis_server.server_data_members [OF R refl k(1) names(2) z hb(4)] by simp
    finally show ?thesis
      using redis_server.new_key_members [OF R refl key] z by (simp add: map_keys_def)
  qed
  ultimately show ?thesis
    using u w v(1) hb(3) k(2) vkey
    by (intro exI [of _ u] exI [of _ w] exI [of _ k]) (simp add: PerformUVWorkRequest_def)
qed

text \<open>C2. A server that is not known and sends a heartbeat of protocol version 2 with the name of a known game is
  challenged; when it then answers with the right response, in a datagram of version 2 from the same address with the
  same instance key, it is registered, listed and announced as new, and the answer goes back to it. (The text that maps
  instance key and address to the server has no colon and is no game's name, and the game's name has no colon.)
\<close>

theorem registration_completes:
  assumes R: "redis_server (servers_db E)"
    and hb: "qr_version hb = 2" "callback hb = on_v2_heartbeat_processed" "request_type hb = Heartbeat"
      "m_address (server hb) = from_address hb" "port (driver_address hb) \<noteq> None"
    and game: "smap_find (m_keys (server hb)) ''gamename'' = Some name"
      "g = GetGameByName (servers_db E) name (games E)" "secretkey g \<noteq> []"
    and unknown: "GetServerKey_FromRequest E hb s = []"
    and names: "nul \<notin> set name" "CHR '':'' \<notin> set (c_string (gamename g))" "c_string (gamename g) \<noteq> inst"
      "inst = ipinstmap E (v2_instance_key hb) (from_address hb)" "CHR '':'' \<notin> set inst"
    and v: "request_type v = ValidateServer" "qr_version v = 2" "callback v = on_got_v2_challenge_response"
      "from_address v = from_address hb" "v2_instance_key v = v2_instance_key hb"
      "right_response E g (from_address hb) = Some (rq_gamename v)"
  shows "\<exists>s1 s2 k. PerformUVWorkRequest J E hb s = Some s1 \<and>
    sent s1 = sent s @ [(from_address hb, [0xFE, 0xFD, 1] @ le_bytes 4 (unat (v2_instance_key hb)) @
       string_bytes (GenerateChallenge E g (from_address hb)) @ [0])] \<and>
    PerformUVWorkRequest J E v s1 = Some s2 \<and> listed (servers_db E) k (qdb s2) \<and>
    events s2 = events s @ [(mm_server_event_routingkey, bslash # ''new'' @ bslash # k)] \<and>
    sent s2 = sent s1 @ [(from_address hb, [0xFE, 0xFD, 10] @ le_bytes 4 (unat (v2_instance_key hb)))]"
  using registration [OF R hb game unknown names v, of J] by blast

text \<open>One game, the first heartbeat of one of its servers, and the answer to its challenge.\<close>

definition one_game_env :: "kvdb qr_env" where
  "one_game_env = example_env\<lparr>games := kv_empty\<lparr>kv_hash := (\<lambda>_. [])(''1'' := [(''gamename'', ''g''), (''secretkey'', ''K'')]),
       kv_string := (\<lambda>_. None)(''g'' := Some ''1'')\<rparr>\<rparr>"

definition no_servers :: "kvdb qr_state" where
  "no_servers = \<lparr>qdb = kv_empty, events = [], sent = []\<rparr>"

definition first_heartbeat :: MMPushRequest where
  "first_heartbeat = (new_request Address_default Address_default 2 5 Heartbeat on_v2_heartbeat_processed)
     \<lparr>server := new_info\<lparr>m_keys := [(''gamename'', ''g'')]\<rparr>\<rparr>"

definition its_answer :: MMPushRequest where
  "its_answer = example_validation\<lparr>rq_gamename :=
     the (right_response one_game_env (GetGameByName kv_redis ''g'' (games one_game_env)) Address_default)\<rparr>"

lemma one_game: "GetGameByName kv_redis ''g'' (games one_game_env) = new_game\<lparr>gamename := ''g'', secretkey := ''K''\<rparr>"
  by (simp add: GetGameByName_def GetGameByRedisKey_def one_game_env_def kv_redis_def kv_empty_def str_tolower_def
      c_string_def nul_def reply_text_def reply_int_def new_game_def) code_simp

lemma one_game_response:
  "\<exists>resp. right_response one_game_env (GetGameByName kv_redis ''g'' (games one_game_env)) Address_default = Some resp"
proof -
  let ?g = "new_game\<lparr>gamename := ''g'', secretkey := ''K''\<rparr>"
  show ?thesis
    using gsseckey_fits [of "string_bytes ''K''" "string_bytes (GenerateChallenge one_game_env ?g Address_default)" 0]
      length_GenerateChallenge [of one_game_env ?g Address_default]
    unfolding right_response_def one_game by (auto simp: string_bytes_def)
qed

lemma example_inst: "ipinstmap one_game_env 5 Address_default = ''IPINSTMAP_5-h-0''"
proof -
  have h: "htons 0 = 0" by (simp add: htons_def)
  show ?thesis
    by (simp add: ipinstmap_def ip_port_def one_game_env_def example_env_def port_number_def GetPort_def
        Address_default_def h dec_nat_small digit_char_def) code_simp
qed

lemma one_game_facts:
  defines "g \<equiv> GetGameByName (servers_db one_game_env) ''g'' (games one_game_env)"
  shows "redis_server (servers_db one_game_env)"
    and "qr_version first_heartbeat = 2" "callback first_heartbeat = on_v2_heartbeat_processed"
      "request_type first_heartbeat = Heartbeat" "m_address (server first_heartbeat) = from_address first_heartbeat"
      "port (driver_address first_heartbeat) \<noteq> None"
    and "smap_find (m_keys (server first_heartbeat)) ''gamename'' = Some ''g''"
    and "secretkey g \<noteq> []" "GetServerKey_FromRequest one_game_env first_heartbeat no_servers = []"
    and "nul \<notin> set ''g''" "CHR '':'' \<notin> set (c_string (gamename g))" "c_string (gamename g) \<noteq> ''IPINSTMAP_5-h-0''"
      "''IPINSTMAP_5-h-0'' = ipinstmap one_game_env (v2_instance_key first_heartbeat) (from_address first_heartbeat)"
      "CHR '':'' \<notin> set ''IPINSTMAP_5-h-0''"
    and "request_type its_answer = ValidateServer" "qr_version its_answer = 2"
      "callback its_answer = on_got_v2_challenge_response" "from_address its_answer = from_address first_heartbeat"
      "v2_instance_key its_answer = v2_instance_key first_heartbeat"
      "right_response one_game_env g (from_address first_heartbeat) = Some (rq_gamename its_answer)"
proof -
  have db: "servers_db one_game_env = kv_redis" by (simp add: one_game_env_def example_env_def)
  obtain resp where resp: "right_response one_game_env (GetGameByName kv_redis ''g'' (games one_game_env)) Address_default = Some resp"
    using one_game_response by blast
  have hb: "qr_version first_heartbeat = 2" "callback first_heartbeat = on_v2_heartbeat_processed"
    "request_type first_heartbeat = Heartbeat" "m_address (server first_heartbeat) = Address_default"
    "driver_address first_heartbeat = Address_default" "from_address first_heartbeat = Address_default"
    "m_keys (server first_heartbeat) = [(''gamename'', ''g'')]" "v2_instance_key first_heartbeat = 5"
    by (simp_all add: first_heartbeat_def new_request_def new_info_def)
  have v: "request_type its_answer = ValidateServer" "qr_version its_answer = 2"
    "callback its_answer = on_got_v2_challenge_response" "from_address its_answer = Address_default"
    "v2_instance_key its_answer = 5" "rq_gamename its_answer = resp"
    by (simp_all add: its_answer_def example_validation_def new_request_def resp)
  show "GetServerKey_FromRequest one_game_env first_heartbeat no_servers = []"
    by (simp add: GetServerKey_FromRequest_def GetServerKeyBy_InstanceKey_Address_def hb Let_def no_servers_def kv_empty_def
        reply_text_def db kv_redis_def c_string_def)
  show "redis_server (servers_db one_game_env)" using kv.redis_server_axioms db by simp
  show "smap_find (m_keys (server first_heartbeat)) ''gamename'' = Some ''g''" by (simp add: hb smap_find_def)
  show "m_address (server first_heartbeat) = from_address first_heartbeat"
    "port (driver_address first_heartbeat) \<noteq> None" by (simp_all add: hb Address_default_def)
  show "secretkey g \<noteq> []" "nul \<notin> set ''g''" "CHR '':'' \<notin> set (c_string (gamename g))"
    "c_string (gamename g) \<noteq> ''IPINSTMAP_5-h-0''" "CHR '':'' \<notin> set ''IPINSTMAP_5-h-0''"
    "''IPINSTMAP_5-h-0'' = ipinstmap one_game_env (v2_instance_key first_heartbeat) (from_address first_heartbeat)"
    by (simp_all add: g_def db one_game nul_def c_string_def hb example_inst)
  show "from_address its_answer = from_address first_heartbeat"
    "v2_instance_key its_answer = v2_instance_key first_heartbeat"
    "right_response one_game_env g (from_address first_heartbeat) = Some (rq_gamename its_answer)"
    by (simp_all add: g_def hb v db resp)
qed (simp_all add: first_heartbeat_def its_answer_def example_validation_def new_request_def)

theorem registration_completes_witness:
  "\<exists>s1 s2 k. PerformUVWorkRequest jtext one_game_env first_heartbeat no_servers = Some s1 \<and>
     PerformUVWorkRequest jtext one_game_env its_answer s1 = Some s2 \<and> listed (servers_db one_game_env) k (qdb s2)"
  using registration_completes [OF one_game_facts(1-7) refl one_game_facts(8-20), where J = jtext] by blast

subsection \<open>Player numbers\<close>

lemma last_underscore:
  assumes "CHR ''_'' \<notin> set num"
  shows "find_last_underscore (name @ CHR ''_'' # num) = Some (length name)"
  using assms by (simp add: find_last_underscore_def Let_def takeWhile_append)

lemma player_of_number:
  assumes "name \<noteq> []" and "n < 2 ^ 63"
  shows "isPlayerString (name @ CHR ''_'' # dec_nat n) = Some (name, word_of_nat n)"
proof -
  have "CHR ''_'' \<notin> set (dec_nat n)" using dec_nat_digits by (force simp: isdigit_def)
  moreover have "atoi (dec_nat n) = word_of_nat n"
    using assms(2) by (simp add: atoi_def strtol10_dec_nat nul_notin_dec_nat)
  ultimately show ?thesis
    using assms(1) dec_nat_digits by (auto simp: isPlayerString_def last_underscore Let_def list_all_iff)
qed

text \<open>C5. 
  A heartbeat of version 1 whose first key is a name, an underscore and a number from \<open>2 ^ 31\<close> to
  \<open>2 ^ 32 - 1\<close> is undefined behaviour: \<open>atoi\<close> makes the number negative, it passes the test of the size and is
  an index before the start of the vector. Anyone can send such a datagram.
\<close>

theorem negative_player_number:
  assumes "name \<noteq> []" and "2 ^ 31 \<le> n" and "n < 2 ^ 32"
  shows "handle_v1_heartbeat_data driver addr ((name @ CHR ''_'' # dec_nat n, v) # kvs) = None"
proof -
  have "(word_of_int (int n - 2 ^ 32) :: i32) = word_of_nat n" by simp
  moreover have "sint (word_of_int (int n - 2 ^ 32) :: i32) = int n - 2 ^ 32"
    using assms(2,3) by (simp add: signed_of_int signed_take_bit_int_eq_self_iff del: of_int_diff)
  ultimately have "sint (word_of_nat n :: i32) = int n - 2 ^ 32" by (simp only:)
  then have neg: "sint (word_of_nat n :: i32) < 0" using assms(3) by simp
  have p: "isPlayerString (name @ CHR ''_'' # dec_nat n) = Some (name, word_of_nat n)"
    using player_of_number [OF assms(1), of n] assms(3) by simp
  show ?thesis
    unfolding handle_v1_heartbeat_data_def v1_heartbeat_keys.simps p option.case prod.case
    using neg by (simp add: put_numbered_def split: prod.splits)
qed

theorem negative_player_number_witness:
  "handle_v1_heartbeat_data Address_default Address_default [(''score_4294967295'', ''1'')] = None"
proof -
  have "dec_nat 4294967295 = ''4294967295''" by (simp add: dec_nat.simps digit_char_def) code_simp
  moreover have "handle_v1_heartbeat_data Address_default Address_default
      [(''score'' @ CHR ''_'' # dec_nat 4294967295, ''1'')] = None"
    by (rule negative_player_number) simp_all
  ultimately show ?thesis by (simp only: append.simps)
qed

end
