(* ===== verification/SbTasks.thy ===== *)
theory SbTasks
  imports GameData NetAddress FilterEval
begin

text \<open>
  The queries of the server browser (\<open>serverbrowsing/tasks\<close>): lists of servers and groups out of Redis, single
  servers by key or address, games, messages to servers, and the broker's news of servers. A task gives the
  results it hands to its peer, in order. Redis, base64 and the texts of addresses are parameters; lost
  connections are not modelled. \<open>None\<close> is undefined behaviour, an exception or a scan that never ends.
\<close>

section \<open>Data (tasks.h)\<close>

record Server =
  wan_address :: Address
  lan_address :: Address
  icmp_address :: Address
  allow_unsolicited_udp :: bool
  game :: GameData
  kvFields :: "(string, string) smap"
  kvPlayers :: "(int, (string, string) smap) smap"
  kvTeams :: "(int, (string, string) smap) smap"
  server_key :: string
  server_id :: i32
  deleted :: bool

definition new_server :: Server where
  "new_server = \<lparr>wan_address = Address_default, lan_address = Address_default, icmp_address = Address_default,
     allow_unsolicited_udp = False, game = new_game, kvFields = [], kvPlayers = [], kvTeams = [],
     server_key = [], server_id = 0, deleted = False\<rparr>"

record ServerListQuery =
  requested_fields :: "string list"
  captured_basic_fields :: "string list"
  found :: "Server list"            \<comment> \<open>\<open>list\<close>\<close>
  first_set :: bool
  last_set :: bool

definition new_query :: ServerListQuery where
  "new_query = \<lparr>requested_fields = [], captured_basic_fields = [], found = [], first_set = False, last_set = False\<rparr>"

text \<open>The constructor leaves \<open>source_ip\<close> without a value.\<close>

record sServerListReq =
  protocol_version :: byte
  encoding_version :: byte
  game_version :: u32
  req_filter :: string
  field_list :: "string list"
  source_ip :: "u32 option"
  max_results :: u32
  send_groups :: bool
  push_updates :: bool
  no_server_list :: bool
  no_list_cache :: bool
  send_fields_for_all :: bool
  send_compressed :: bool
  m_for_game :: GameData
  m_from_game :: GameData
  m_for_gamename :: string
  m_from_gamename :: string
  all_keys :: bool
  all_player_keys :: bool
  all_team_keys :: bool
  include_deleted :: bool

definition new_list_req :: sServerListReq where
  "new_list_req = \<lparr>protocol_version = 0, encoding_version = 0, game_version = 0, req_filter = [], field_list = [],
     source_ip = None, max_results = 0, send_groups = False, push_updates = False, no_server_list = False,
     no_list_cache = False, send_fields_for_all = False, send_compressed = True, m_for_game = new_game,
     m_from_game = new_game, m_for_gamename = [], m_from_gamename = [], all_keys = False,
     all_player_keys = False, all_team_keys = False, include_deleted = False\<rparr>"

datatype EMMQueryRequestType = EMMQueryRequestType_GetServers | EMMQueryRequestType_GetGroups
  | EMMQueryRequestType_GetServerByKey | EMMQueryRequestType_GetServerByIP | EMMQueryRequestType_SubmitData
  | EMMQueryRequestType_GetGameInfoByGameName | EMMQueryRequestType_GetGameInfoPairByGameName

record MMQueryRequest =
  rq_type :: EMMQueryRequestType
  rq_req :: sServerListReq
  rq_buffer :: "byte list"
  rq_from :: Address
  rq_to :: Address
  rq_address :: Address
  rq_key :: string
  gamenames :: "string \<times> string"

definition new_query_request :: MMQueryRequest where
  "new_query_request = \<lparr>rq_type = EMMQueryRequestType_GetServers, rq_req = new_list_req, rq_buffer = [],
     rq_from = Address_default, rq_to = Address_default, rq_address = Address_default, rq_key = [],
     gamenames = ([], [])\<rparr>"

text \<open>The databases of games and groups are only read.\<close>

record 'r sb_env =
  sb_redis :: "'r redis"
  sb_games :: 'r
  sb_groups :: 'r
  sb_aton :: "string \<Rightarrow> u32"
  sb_ntop :: "u32 \<Rightarrow> string"
  sb_base64 :: "byte list \<Rightarrow> string"

section \<open>Reading hashes\<close>

definition hmget :: "'r redis \<Rightarrow> string \<Rightarrow> string list \<Rightarrow> 'r \<Rightarrow> string option list" where
  "hmget R k kvs db = map (\<lambda>f. r_hget R (c_string k) (c_string f) db) kvs"

text \<open>
  \<open>HGETALL\<close> with the key inside the format: blanks split it, and more or fewer than one word is an
  error without elements; a percent sign starts a directive that has no argument.
\<close>

definition hgetall_format :: "'r redis \<Rightarrow> string \<Rightarrow> 'r \<Rightarrow> (string \<times> string) list option" where
  "hgetall_format R k db =
     (if CHR ''%'' \<in> set (c_string k) then None
      else case filter (\<lambda>w. w \<noteq> []) (split (c_string k) CHR '' '') of
          [w] \<Rightarrow> Some (pairs (r_hgetall R w db))
        | _ \<Rightarrow> Some [])"

definition load_basic :: "(string \<Rightarrow> u32) \<Rightarrow> nat \<Rightarrow> string \<Rightarrow> Server \<Rightarrow> Server" where
  "load_basic inet_addr i s server =
     (if i = 0 then (if atoi s \<noteq> 0 then server\<lparr>deleted := True\<rparr> else server)
      else if i = 1 then server\<lparr>game := (game server)\<lparr>game_id := atoi s\<rparr>\<rparr>
      else if i = 2 then server\<lparr>server_id := atoi s\<rparr>
      else if i = 3 then server\<lparr>wan_address := (wan_address server)\<lparr>port := Some (ucast (atoi s))\<rparr>\<rparr>
      else if i = 4 then server\<lparr>wan_address := (wan_address server)\<lparr>ip := inet_addr (c_string s)\<rparr>\<rparr>
      else if i = 5 then server\<lparr>icmp_address := (icmp_address server)\<lparr>ip := inet_addr (c_string s)\<rparr>\<rparr>
      else if i = 6 then server\<lparr>allow_unsolicited_udp := atoi s \<noteq> 0\<rparr>
      else if i = 7 then server\<lparr>kvFields := smap_put ''country'' (c_string s) (kvFields server)\<rparr>
      else server)"

definition LoadBasicServerInfo :: "(string \<Rightarrow> u32) \<Rightarrow> Server \<Rightarrow> string option list \<Rightarrow> bool \<times> Server" where
  "LoadBasicServerInfo inet_addr server reply =
     (let server = fold (\<lambda>(i, r) sv. case r of None \<Rightarrow> sv | Some s \<Rightarrow> load_basic inet_addr i s sv)
            (enumerate 0 reply) server
      in (ip (wan_address server) \<noteq> 0, server))"

definition put_field :: "string \<times> string \<Rightarrow> Server \<Rightarrow> Server" where
  "put_field p server = server\<lparr>kvFields := smap_put (c_string (fst p)) (c_string (snd p)) (kvFields server)\<rparr>"

definition LoadCustomServerInfo :: "Server \<Rightarrow> string list \<Rightarrow> string option list \<Rightarrow> Server" where
  "LoadCustomServerInfo server custom_lookup_keys reply =
     fold (\<lambda>(k, r) sv. case r of None \<Rightarrow> sv
         | Some v \<Rightarrow> sv\<lparr>kvFields := smap_put k (c_string v) (kvFields sv)\<rparr>)
       (zip custom_lookup_keys reply) server"

definition LoadCustomServerInfo_AllKeys :: "Server \<Rightarrow> (string \<times> string) list \<Rightarrow> Server" where
  "LoadCustomServerInfo_AllKeys server reply = fold put_field reply server"

section \<open>Players and teams\<close>

partial_function (option) numbered_keys :: "(string \<Rightarrow> bool) \<Rightarrow> string \<Rightarrow> nat \<Rightarrow> nat option" where
  "numbered_keys present prefix i =
     (if present (prefix @ dec_nat i) then numbered_keys present prefix (i + 1) else Some i)"

definition put_numbered_field ::
  "int \<Rightarrow> string \<times> string \<Rightarrow> (int, (string, string) smap) smap \<Rightarrow> (int, (string, string) smap) smap" where
  "put_numbered_field x p m =
     (let (inner, m) = smap_index [] x m in smap_put x (smap_put (c_string (fst p)) (c_string (snd p)) inner) m)"

primrec load_numbered :: "'r redis \<Rightarrow> string \<Rightarrow> 'r \<Rightarrow> nat list \<Rightarrow>
    (int, (string, string) smap) smap \<Rightarrow> (int, (string, string) smap) smap option" where
  "load_numbered R prefix db [] m = Some m"
| "load_numbered R prefix db (i # is) m =
     do { kvs \<leftarrow> hgetall_format R (prefix @ dec_nat i) db;
          load_numbered R prefix db is (fold (put_numbered_field (int i)) kvs m) }"

definition LoadCustomInfo_AllPlayerKeys :: "'r redis \<Rightarrow> string \<Rightarrow> 'r \<Rightarrow> Server \<Rightarrow> Server option" where
  "LoadCustomInfo_AllPlayerKeys R k db server =
     do { let prefix = k @ ''custkeys_player_'';
          idx \<leftarrow> numbered_keys (\<lambda>n. r_exists R (c_string n) db) prefix 0;
          m \<leftarrow> load_numbered R prefix db [0..<idx] (kvPlayers server);
          Some (server\<lparr>kvPlayers := m\<rparr>) }"

definition LoadCustomInfo_AllTeamKeys :: "'r redis \<Rightarrow> string \<Rightarrow> 'r \<Rightarrow> Server \<Rightarrow> Server option" where
  "LoadCustomInfo_AllTeamKeys R k db server =
     do { let prefix = k @ ''custkeys_team_'';
          idx \<leftarrow> numbered_keys (\<lambda>n. r_exists R (c_string n) db) prefix 0;
          m \<leftarrow> load_numbered R prefix db [0..<idx] (kvTeams server);
          Some (server\<lparr>kvTeams := m\<rparr>) }"

section \<open>Lists of servers (GetServers.cpp)\<close>

definition basic_lookup_keys :: "string list" where
  "basic_lookup_keys = [''deleted'', ''gameid'', ''id'', ''wan_port'', ''wan_ip'', ''icmp_address'',
     ''allow_unsolicited_udp'', ''country'']"

text \<open>The keys to look up and the tokens of the filter.\<close>

definition BuildServerListRequestData :: "sServerListReq \<Rightarrow> nat \<Rightarrow> (string list \<times> CToken list) option" where
  "BuildServerListRequestData req peer_version =
     do { token_list \<leftarrow> filterToTokenList (c_string (req_filter req));
          Some (field_list req @ map m_str (filter (\<lambda>t. m_type t = EToken_Variable) token_list) @
              (if peer_version = 2 then [''localport'', ''localip0'', ''natneg''] else []), token_list) }"

definition room :: "sServerListReq \<Rightarrow> ServerListQuery \<Rightarrow> bool" where
  "room req query \<longleftrightarrow> length (found query) < unat (max_results req) \<or> max_results req = 0"

definition keep_server :: "Server \<Rightarrow> ServerListQuery \<Rightarrow> ServerListQuery" where
  "keep_server server query = query\<lparr>found := found query @ [server]\<rparr>"

text \<open>One server: the query, and the keys to be taken out of the game's set.\<close>

definition append_entry :: "'r sb_env \<Rightarrow> sServerListReq \<Rightarrow> string list \<Rightarrow> CToken list \<Rightarrow> 'r \<Rightarrow> string \<Rightarrow>
    ServerListQuery \<times> string list \<Rightarrow> (ServerListQuery \<times> string list) option" where
  "append_entry E req lookup_keys token_list db k st =
     (let (query, keys_to_delete) = st; R = sb_redis E;
          (valid, server) = LoadBasicServerInfo (sb_aton E) new_server (hmget R k basic_lookup_keys db)
      in if \<not> valid then Some (query, keys_to_delete @ [k])
         else if include_deleted req \<or> \<not> deleted server then
           do { let server = (if lookup_keys \<noteq> []
                  then LoadCustomServerInfo server lookup_keys (hmget R (k @ ''custkeys'') lookup_keys db) else server);
                let server = server\<lparr>kvFields := smap_put ''backend_id'' k (kvFields server), server_key := k,
                  game := m_for_game req\<rparr>;
                (matches, kvs) \<leftarrow> filterMatches token_list (kvFields server);
                Some (if matches \<and> room req query then keep_server (server\<lparr>kvFields := kvs\<rparr>) query else query,
                  keys_to_delete) }
         else Some (query, keys_to_delete))"

primrec each_entry :: "(string \<Rightarrow> 's \<Rightarrow> 's option) \<Rightarrow> string list \<Rightarrow> 's \<Rightarrow> 's option" where
  "each_entry f [] s = Some s"
| "each_entry f (k # ks) s = Option.bind (f k s) (each_entry f ks)"

text \<open>Servers without an address are taken out of the set of the game.\<close>

definition remove_dead :: "'r redis \<Rightarrow> sServerListReq \<Rightarrow> string list \<Rightarrow> 'r \<Rightarrow> 'r" where
  "remove_dead R req keys_to_delete db =
     (if gamename (m_for_game req) \<noteq> [] \<and> keys_to_delete \<noteq> []
      then run_all R (map (\<lambda>k. ZREM (c_string (gamename (m_for_game req))) (c_string k)) keys_to_delete) db
      else db)"

definition capture :: "Server \<Rightarrow> string list \<Rightarrow> string list" where
  "capture server captured =
     foldl (\<lambda>cs f. if f \<in> set cs then cs else cs @ [f]) captured (map fst (kvFields server))"

definition append_entry_all :: "'r sb_env \<Rightarrow> sServerListReq \<Rightarrow> CToken list \<Rightarrow> bool \<Rightarrow> 'r \<Rightarrow> string \<Rightarrow>
    ServerListQuery \<times> string list \<Rightarrow> (ServerListQuery \<times> string list) option" where
  "append_entry_all E req token_list do_populate db k st =
     (let (query, keys_to_delete) = st; R = sb_redis E;
          (valid, server) = LoadBasicServerInfo (sb_aton E) new_server (hmget R k basic_lookup_keys db)
      in do { custom \<leftarrow> hgetall_format R (k @ ''custkeys'') db;
           if \<not> valid then Some (query, keys_to_delete @ [k])
           else if \<not> include_deleted req \<and> deleted server then Some (query, keys_to_delete)
           else do {
             let server = LoadCustomServerInfo_AllKeys server custom;
             let server = server\<lparr>kvFields := smap_put ''backend_id'' k (kvFields server), server_key := k\<rparr>;
             let query = (if do_populate
               then query\<lparr>captured_basic_fields := capture server (captured_basic_fields query)\<rparr> else query);
             (matches, kvs) \<leftarrow> filterMatches token_list (kvFields server);
             let server = server\<lparr>kvFields := kvs\<rparr>;
             if matches \<and> room req query then do {
               server \<leftarrow> (if all_player_keys req then LoadCustomInfo_AllPlayerKeys R k db server else Some server);
               server \<leftarrow> (if all_team_keys req then LoadCustomInfo_AllTeamKeys R k db server else Some server);
               Some (keep_server server query, keys_to_delete) }
             else Some (query, keys_to_delete) } })"

definition AppendServerEntries_AllKeys ::
  "'r sb_env \<Rightarrow> string list \<Rightarrow> sServerListReq \<Rightarrow> ServerListQuery \<times> 'r \<Rightarrow> (ServerListQuery \<times> 'r) option" where
  "AppendServerEntries_AllKeys E keys req st =
     do { let (query, db) = st;
          (lookup_keys, token_list) \<leftarrow> BuildServerListRequestData req 0;
          (query', dead) \<leftarrow> each_entry (append_entry_all E req token_list (captured_basic_fields query = []) db) keys
             (query, []);
          Some (query', remove_dead (sb_redis E) req dead db) }"

definition AppendServerEntries ::
  "'r sb_env \<Rightarrow> string list \<Rightarrow> sServerListReq \<Rightarrow> nat \<Rightarrow> ServerListQuery \<times> 'r \<Rightarrow> (ServerListQuery \<times> 'r) option" where
  "AppendServerEntries E keys req peer_version st =
     (if keys = [] then Some st
      else if all_keys req then AppendServerEntries_AllKeys E keys req st
      else do { let (query, db) = st;
           (lookup_keys, token_list) \<leftarrow> BuildServerListRequestData req peer_version;
           (query, dead) \<leftarrow> each_entry (append_entry E req lookup_keys token_list db) keys (query, []);
           Some (query, remove_dead (sb_redis E) req dead db) })"

text \<open>A part of the list goes to the peer when it has servers or is the last; the first such is marked.\<close>

definition add_part :: "ServerListQuery \<Rightarrow> ServerListQuery list \<Rightarrow> ServerListQuery list" where
  "add_part query parts =
     (if found query \<noteq> [] \<or> last_set query then parts @ [query\<lparr>first_set := (parts = [])\<rparr>] else parts)"

partial_function (option) servers_loop :: "'r sb_env \<Rightarrow> sServerListReq \<Rightarrow> nat \<Rightarrow> i32 \<Rightarrow>
    ServerListQuery list \<Rightarrow> 'r \<Rightarrow> (ServerListQuery list \<times> 'r) option" where
  "servers_loop E req peer_version cursor parts db =
     (let (c, xs) = r_zscan (sb_redis E) (c_string (str_tolower (gamename (m_for_game req)))) cursor db
      in Option.bind (AppendServerEntries E (map c_string (evens xs)) req peer_version
             (new_query\<lparr>requested_fields := field_list req\<rparr>, db))
         (\<lambda>(query, db). let parts = add_part (query\<lparr>last_set := (atoi c = 0)\<rparr>) parts in
            if atoi c = 0 then Some (parts, db) else servers_loop E req peer_version (atoi c) parts db))"

definition GetServers :: "'r sb_env \<Rightarrow> sServerListReq \<Rightarrow> nat \<Rightarrow> 'r \<Rightarrow> (ServerListQuery list \<times> 'r) option" where
  "GetServers E req peer_version db = servers_loop E req peer_version 0 [] db"

section \<open>Lists of groups (GetGroups.cpp)\<close>

definition load_group :: "nat \<Rightarrow> string \<Rightarrow> Server \<Rightarrow> Server" where
  "load_group i s server =
     (let put = (\<lambda>f sv. sv\<lparr>kvFields := smap_put f (c_string s) (kvFields sv)\<rparr>) in
      if i = 0 then server\<lparr>game := (game server)\<lparr>game_id := atoi s\<rparr>\<rparr>
      else if i = 1 then put ''groupid'' (server\<lparr>wan_address := (wan_address server)\<lparr>ip := ntohl (atoi s)\<rparr>\<rparr>)
      else if i = 2 then put ''maxwaiting'' server
      else if i = 3 then put ''hostname'' server
      else if i = 4 then put ''password'' server
      else if i = 5 then put ''numwaiting'' server
      else if i = 6 then put ''numservers'' server
      else server)"

definition LoadBasicGroupInfo :: "Server \<Rightarrow> string option list \<Rightarrow> Server" where
  "LoadBasicGroupInfo server reply =
     fold (\<lambda>(i, r) sv. case r of None \<Rightarrow> sv | Some s \<Rightarrow> load_group i s sv) (enumerate 0 reply) server"

definition group_lookup_keys :: "string list" where
  "group_lookup_keys = [''gameid'', ''groupid'', ''maxwaiting'', ''hostname'', ''password'', ''numwaiting'', ''numservers'']"

definition group_entry ::
  "sServerListReq \<Rightarrow> CToken list \<Rightarrow> Server \<Rightarrow> ServerListQuery \<Rightarrow> ServerListQuery option" where
  "group_entry req token_list server query =
     do { (matches, kvs) \<leftarrow> filterMatches token_list (kvFields server);
          Some (if matches \<and> room req query then keep_server (server\<lparr>kvFields := kvs\<rparr>) query else query) }"

definition AppendGroupEntries_AllKeys ::
  "'r sb_env \<Rightarrow> string list \<Rightarrow> sServerListReq \<Rightarrow> CToken list \<Rightarrow> ServerListQuery \<Rightarrow> ServerListQuery option" where
  "AppendGroupEntries_AllKeys E keys req token_list query =
     each_entry (\<lambda>k query. group_entry req token_list
         (LoadCustomServerInfo_AllKeys
           (LoadBasicGroupInfo new_server (hmget (sb_redis E) k group_lookup_keys (sb_groups E)))
           (pairs (r_hgetall (sb_redis E) (c_string (k @ ''custkeys'')) (sb_groups E)))) query)
       keys query"

definition AppendGroupEntries ::
  "'r sb_env \<Rightarrow> string list \<Rightarrow> sServerListReq \<Rightarrow> CToken list \<Rightarrow> ServerListQuery \<Rightarrow> ServerListQuery option" where
  "AppendGroupEntries E keys req token_list query =
     (let lookup_keys = field_list req @ map m_str (filter (\<lambda>t. m_type t = EToken_Variable) token_list) in
      each_entry (\<lambda>k query. group_entry req token_list
         (LoadCustomServerInfo
           (LoadBasicGroupInfo new_server (hmget (sb_redis E) k group_lookup_keys (sb_groups E)))
           lookup_keys (hmget (sb_redis E) (k @ ''custkeys'') lookup_keys (sb_groups E))) query)
       keys query)"

partial_function (option) groups_loop ::
  "'r sb_env \<Rightarrow> sServerListReq \<Rightarrow> CToken list \<Rightarrow> i32 \<Rightarrow> ServerListQuery list \<Rightarrow> ServerListQuery list option" where
  "groups_loop E req token_list cursor parts =
     (let (c, xs) = r_zscan (sb_redis E) (c_string (str_tolower (gamename (m_for_game req)))) cursor (sb_groups E);
          query = new_query\<lparr>last_set := (atoi c = 0)\<rparr>
      in Option.bind ((if all_keys req then AppendGroupEntries_AllKeys else AppendGroupEntries)
             E (map c_string (evens xs)) req token_list query)
         (\<lambda>query. let parts = add_part query parts in
            if atoi c = 0 then Some parts else groups_loop E req token_list (atoi c) parts))"

definition GetGroups :: "'r sb_env \<Rightarrow> sServerListReq \<Rightarrow> ServerListQuery list option" where
  "GetGroups E req =
     do { token_list \<leftarrow> filterToTokenList (c_string (req_filter req)); groups_loop E req token_list 0 [] }"

section \<open>Single servers (GetServerByKey.cpp, GetServerByIP.cpp)\<close>

definition AppendServerEntry_AllKeys :: "'r sb_env \<Rightarrow> string \<Rightarrow> bool \<Rightarrow> bool \<Rightarrow>
    ServerListQuery \<times> 'r \<Rightarrow> (ServerListQuery \<times> 'r) option" where
  "AppendServerEntry_AllKeys E k with_deleted all_player_and_team_keys st =
     AppendServerEntries_AllKeys E [k] (new_list_req\<lparr>all_keys := True, include_deleted := with_deleted,
       all_player_keys := all_player_and_team_keys, all_team_keys := all_player_and_team_keys\<rparr>) st"

definition GetServerByKey :: "'r sb_env \<Rightarrow> string \<Rightarrow> bool \<Rightarrow> bool \<Rightarrow> 'r \<Rightarrow> Server option option" where
  "GetServerByKey E k with_deleted all_player_and_team_keys db =
     do { (ret, db) \<leftarrow> AppendServerEntry_AllKeys E k with_deleted all_player_and_team_keys (new_query, db);
          Some (case found ret of [] \<Rightarrow> None | server # _ \<Rightarrow> Some server) }"

definition PerformGetServerByKey :: "'r sb_env \<Rightarrow> MMQueryRequest \<Rightarrow> 'r \<Rightarrow> ServerListQuery option" where
  "PerformGetServerByKey E request db =
     map_option fst (AppendServerEntry_AllKeys E (rq_key request) False True (new_query, db))"

definition ipmap_key :: "'r sb_env \<Rightarrow> Address \<Rightarrow> string" where
  "ipmap_key E a = ''IPMAP_'' @ sb_ntop E (ip a) @ ''-'' @
     dec_nat (unat (case GetPort a of None \<Rightarrow> 0 | Some p \<Rightarrow> p))"

definition GetServerByIP :: "'r sb_env \<Rightarrow> Address \<Rightarrow> bool \<Rightarrow> bool \<Rightarrow> 'r \<Rightarrow> Server option option" where
  "GetServerByIP E a with_deleted all_player_and_team_keys db =
     (case r_get (sb_redis E) (ipmap_key E a) db of
        None \<Rightarrow> Some None
      | Some k \<Rightarrow> GetServerByKey E (c_string k) with_deleted all_player_and_team_keys db)"

definition PerformGetServerByIP :: "'r sb_env \<Rightarrow> MMQueryRequest \<Rightarrow> 'r \<Rightarrow> ServerListQuery option" where
  "PerformGetServerByIP E request db =
     do { let req = rq_req request;
          server \<leftarrow> GetServerByIP E (rq_address request) (include_deleted req)
            (all_player_keys req \<and> all_team_keys req) db;
          Some (case server of None \<Rightarrow> new_query | Some s \<Rightarrow> new_query\<lparr>found := [s]\<rparr>) }"

section \<open>Messages to servers and games\<close>

text \<open>For the two games of the patch only NAT negotiation messages pass.\<close>

definition natneg_message :: "byte list \<Rightarrow> bool" where
  "natneg_message bs \<longleftrightarrow> length bs = 10 \<and> take 6 bs = [0xFD, 0xFC, 0x1E, 0x66, 0x6A, 0xB2]"

definition PerformSubmitData :: "'r sb_env \<Rightarrow> MMQueryRequest \<Rightarrow> string option" where
  "PerformSubmitData E request =
     (let gid = game_id (m_for_game (rq_req request));
          port_text = (\<lambda>a. dec_nat (unat (case GetPort a of None \<Rightarrow> 0 | Some p \<Rightarrow> p)))
      in if (gid = 1420 \<or> gid = 2999) \<and> \<not> natneg_message (rq_buffer request) then None
         else Some (c_string (bslash # ''send_msg'' @ bslash # ''REMOVED'' @
           bslash # sb_ntop E (ip (rq_from request)) @ bslash # port_text (rq_from request) @
           bslash # sb_ntop E (ip (rq_to request)) @ bslash # port_text (rq_to request) @
           bslash # sb_base64 E (rq_buffer request))))"

definition PerformGetGameInfoByGameName :: "'r sb_env \<Rightarrow> MMQueryRequest \<Rightarrow> GameData" where
  "PerformGetGameInfoByGameName E request = GetGameByName (sb_redis E) (fst (gamenames request)) (sb_games E)"

definition PerformGetGameInfoPairByGameName :: "'r sb_env \<Rightarrow> MMQueryRequest \<Rightarrow> GameData \<times> GameData" where
  "PerformGetGameInfoPairByGameName E request =
     (GetGameByName (sb_redis E) (fst (gamenames request)) (sb_games E),
      GetGameByName (sb_redis E) (snd (gamenames request)) (sb_games E))"

section \<open>Dispatch (tasks.cpp) and news (HandleServerEventMsg.cpp)\<close>

text \<open>What a task hands to its peer, and the message it sends to the broker.\<close>

datatype sb_answer =
    Retrieved_servers sServerListReq "ServerListQuery list"
  | Retrieved_groups sServerListReq "ServerListQuery list"
  | Retrieved_info ServerListQuery
  | Recieved_game GameData
  | Recieved_games GameData GameData
  | Submitted "string option"

definition PerformUVWorkRequest :: "'r sb_env \<Rightarrow> nat \<Rightarrow> MMQueryRequest \<Rightarrow> 'r \<Rightarrow> (sb_answer \<times> 'r) option" where
  "PerformUVWorkRequest E peer_version request db =
     (case rq_type request of
        EMMQueryRequestType_GetServers \<Rightarrow>
          map_option (\<lambda>(parts, db). (Retrieved_servers (rq_req request) parts, db))
            (GetServers E (rq_req request) peer_version db)
      | EMMQueryRequestType_GetGroups \<Rightarrow>
          map_option (\<lambda>parts. (Retrieved_groups (rq_req request) parts, db)) (GetGroups E (rq_req request))
      | EMMQueryRequestType_GetServerByKey \<Rightarrow>
          map_option (\<lambda>q. (Retrieved_info q, db)) (PerformGetServerByKey E request db)
      | EMMQueryRequestType_GetServerByIP \<Rightarrow>
          map_option (\<lambda>q. (Retrieved_info q, db)) (PerformGetServerByIP E request db)
      | EMMQueryRequestType_SubmitData \<Rightarrow> Some (Submitted (PerformSubmitData E request), db)
      | EMMQueryRequestType_GetGameInfoByGameName \<Rightarrow>
          Some (Recieved_game (PerformGetGameInfoByGameName E request), db)
      | EMMQueryRequestType_GetGameInfoPairByGameName \<Rightarrow>
          (let (a, b) = PerformGetGameInfoPairByGameName E request in Some (Recieved_games a b, db)))"

datatype server_event = Delete_server Server | New_server Server | Update_server Server

definition Handle_ServerEventMsg :: "'r sb_env \<Rightarrow> string \<Rightarrow> 'r \<Rightarrow> server_event option option" where
  "Handle_ServerEventMsg E message db =
     do { vec \<leftarrow> KeyStringToVector message False bslash;
          (case vec of
             msg_type # k # _ \<Rightarrow>
               do { gameserver \<leftarrow> GetServerByKey E k (msg_type = ''del'') False db;
                    Some (Option.bind gameserver (\<lambda>s.
                      if msg_type = ''del'' then Some (Delete_server s)
                      else if msg_type = ''new'' then Some (New_server s)
                      else if msg_type = ''update'' then Some (Update_server s)
                      else None)) }
           | _ \<Rightarrow> Some None) }"

section \<open>What a list holds\<close>

text \<open>The server behind a key as the list has it; nothing for a deleted one or one the filter refuses.\<close>

definition named_entry ::
  "'r sb_env \<Rightarrow> sServerListReq \<Rightarrow> string list \<Rightarrow> CToken list \<Rightarrow> 'r \<Rightarrow> string \<Rightarrow> Server option option" where
  "named_entry E req lookup_keys token_list db k =
     (let server = snd (LoadBasicServerInfo (sb_aton E) new_server (hmget (sb_redis E) k basic_lookup_keys db));
          full = (if lookup_keys \<noteq> []
            then LoadCustomServerInfo server lookup_keys (hmget (sb_redis E) (k @ ''custkeys'') lookup_keys db) else server);
          named = full\<lparr>kvFields := smap_put ''backend_id'' k (kvFields full), server_key := k, game := m_for_game req\<rparr>
      in if \<not> include_deleted req \<and> deleted server then Some None
         else map_option (\<lambda>(ok, kvs). if ok then Some (named\<lparr>kvFields := kvs\<rparr>) else None)
                (filterMatches token_list (kvFields named)))"

text \<open>The same for a list that asks for all keys, with the keys of players and teams where it asks for them.\<close>

definition with_numbered :: "'r redis \<Rightarrow> sServerListReq \<Rightarrow> 'r \<Rightarrow> string \<Rightarrow> Server \<Rightarrow> Server option" where
  "with_numbered R req db k server =
     do { server \<leftarrow> (if all_player_keys req then LoadCustomInfo_AllPlayerKeys R k db server else Some server);
          if all_team_keys req then LoadCustomInfo_AllTeamKeys R k db server else Some server }"

definition all_keys_entry ::
  "'r sb_env \<Rightarrow> sServerListReq \<Rightarrow> CToken list \<Rightarrow> 'r \<Rightarrow> string \<Rightarrow> Server option option" where
  "all_keys_entry E req token_list db k =
     (let server = snd (LoadBasicServerInfo (sb_aton E) new_server (hmget (sb_redis E) k basic_lookup_keys db))
      in do { custom \<leftarrow> hgetall_format (sb_redis E) (k @ ''custkeys'') db;
              let full = LoadCustomServerInfo_AllKeys server custom;
              let named = full\<lparr>kvFields := smap_put ''backend_id'' k (kvFields full), server_key := k\<rparr>;
              if \<not> include_deleted req \<and> deleted server then Some None
              else do {
                (ok, kvs) \<leftarrow> filterMatches token_list (kvFields named);
                if ok then map_option Some (with_numbered (sb_redis E) req db k (named\<lparr>kvFields := kvs\<rparr>)) else Some None } })"

definition listed_entry ::
  "'r sb_env \<Rightarrow> sServerListReq \<Rightarrow> string list \<Rightarrow> CToken list \<Rightarrow> 'r \<Rightarrow> string \<Rightarrow> Server option option" where
  "listed_entry E req lookup_keys token_list db k =
     (if all_keys req then all_keys_entry E req token_list db k
      else named_entry E req lookup_keys token_list db k)"

definition alive :: "'r sb_env \<Rightarrow> 'r \<Rightarrow> string \<Rightarrow> bool" where
  "alive E db k \<longleftrightarrow> fst (LoadBasicServerInfo (sb_aton E) new_server (hmget (sb_redis E) k basic_lookup_keys db))"

definition the_entry ::
  "'r sb_env \<Rightarrow> sServerListReq \<Rightarrow> string list \<Rightarrow> CToken list \<Rightarrow> 'r \<Rightarrow> string \<Rightarrow> Server option" where
  "the_entry E req lookup_keys token_list db k = the (listed_entry E req lookup_keys token_list db k)"

lemma append_entry_alive:
  assumes "alive E db k" and "named_entry E req lk tk db k = Some r" and "max_results req = 0"
  shows "\<exists>q'. append_entry E req lk tk db k (q, dead) = Some (q', dead) \<and>
    found q' = found q @ (case r of None \<Rightarrow> [] | Some sv \<Rightarrow> [sv])"
proof -
  obtain valid server where load: "LoadBasicServerInfo (sb_aton E) new_server (hmget (sb_redis E) k basic_lookup_keys db) = (valid, server)"
    by (cases "LoadBasicServerInfo (sb_aton E) new_server (hmget (sb_redis E) k basic_lookup_keys db)")
  show ?thesis
    using assms by (auto simp: append_entry_def named_entry_def alive_def load Let_def room_def keep_server_def
        split: if_splits prod.splits)
qed

lemma append_entry_all_alive:
  assumes "alive E db k" and "all_keys_entry E req tk db k = Some r" and "max_results req = 0"
  shows "\<exists>q'. append_entry_all E req tk populate db k (q, dead) = Some (q', dead) \<and>
    found q' = found q @ (case r of None \<Rightarrow> [] | Some sv \<Rightarrow> [sv])"
proof -
  obtain valid server where load: "LoadBasicServerInfo (sb_aton E) new_server (hmget (sb_redis E) k basic_lookup_keys db) = (valid, server)"
    by (cases "LoadBasicServerInfo (sb_aton E) new_server (hmget (sb_redis E) k basic_lookup_keys db)")
  show ?thesis
    using assms by (auto simp: append_entry_all_def all_keys_entry_def with_numbered_def alive_def load Let_def room_def
        keep_server_def split: bind_splits if_splits prod.splits)
qed

lemma each_entry_alive:
  assumes "\<And>k q dead. k \<in> set keys \<Longrightarrow> \<exists>q'. f k (q, dead) = Some (q', dead) \<and>
      found q' = found q @ (case entry k of None \<Rightarrow> [] | Some sv \<Rightarrow> [sv])"
  shows "\<exists>q'. each_entry f keys (q, dead) = Some (q', dead) \<and> found q' = found q @ List.map_filter entry keys"
  using assms
proof (induction keys arbitrary: q)
  case (Cons k keys)
  obtain q1 where q1: "f k (q, dead) = Some (q1, dead)"
      "found q1 = found q @ (case entry k of None \<Rightarrow> [] | Some sv \<Rightarrow> [sv])"
    using Cons.prems [of k q dead] by auto
  obtain q' where "each_entry f keys (q1, dead) = Some (q', dead)" "found q' = found q1 @ List.map_filter entry keys"
    using Cons.IH [of q1] Cons.prems by auto
  with q1 show ?case by (auto simp: List.map_filter_simps split: option.splits)
qed (simp add: List.map_filter_simps)

lemma AppendServerEntries_alive:
  assumes "BuildServerListRequestData req v = Some (lk, tk)"
    and ok: "\<And>k. k \<in> set keys \<Longrightarrow> alive E db k \<and> listed_entry E req lk tk db k \<noteq> None" and "max_results req = 0"
  shows "\<exists>q'. AppendServerEntries E keys req v (q, db) = Some (q', db) \<and>
    found q' = found q @ List.map_filter (the_entry E req lk tk db) keys"
proof (cases "keys = []")
  case False
  have entry: "listed_entry E req lk tk db k = Some (the_entry E req lk tk db k)" if "k \<in> set keys" for k
    using ok [OF that] by (auto simp: the_entry_def)
  show ?thesis
  proof (cases "all_keys req")
    case True
    have "\<exists>lk0. BuildServerListRequestData req 0 = Some (lk0, tk)"
      using assms(1) by (auto simp: BuildServerListRequestData_def split: bind_splits)
    then obtain lk0 where b: "BuildServerListRequestData req 0 = Some (lk0, tk)" by blast
    have "\<exists>q'. each_entry (append_entry_all E req tk (captured_basic_fields q = []) db) keys (q, []) = Some (q', []) \<and>
        found q' = found q @ List.map_filter (the_entry E req lk tk db) keys"
      by (intro each_entry_alive append_entry_all_alive [OF _ _ assms(3)])
        (use ok entry True in \<open>auto simp: listed_entry_def\<close>)
    with True False b show ?thesis
      by (auto simp: AppendServerEntries_def AppendServerEntries_AllKeys_def remove_dead_def)
  next
    case named: False
    have "\<exists>q'. each_entry (append_entry E req lk tk db) keys (q, []) = Some (q', []) \<and>
        found q' = found q @ List.map_filter (the_entry E req lk tk db) keys"
      by (intro each_entry_alive append_entry_alive [OF _ _ assms(3)])
        (use ok entry named in \<open>auto simp: listed_entry_def\<close>)
    with named False assms(1) show ?thesis
      by (auto simp: AppendServerEntries_def remove_dead_def)
  qed
qed (simp add: AppendServerEntries_def List.map_filter_simps)

text \<open>Parts: only the first is marked as the first, only the last as the last.\<close>

definition marked :: "ServerListQuery list \<Rightarrow> bool" where
  "marked parts \<longleftrightarrow> parts \<noteq> [] \<and> list_all (\<lambda>q. \<not> last_set q) (butlast parts) \<and> last_set (last parts) \<and>
     first_set (hd parts) \<and> list_all (\<lambda>q. \<not> first_set q) (tl parts)"

definition marked_so_far :: "ServerListQuery list \<Rightarrow> bool" where
  "marked_so_far parts \<longleftrightarrow> list_all (\<lambda>q. \<not> last_set q) parts \<and>
     (parts \<noteq> [] \<longrightarrow> first_set (hd parts)) \<and> list_all (\<lambda>q. \<not> first_set q) (tl parts)"

lemma add_part_marks:
  assumes "marked_so_far parts"
  shows "last_set q \<Longrightarrow> marked (add_part q parts)" and "\<not> last_set q \<Longrightarrow> marked_so_far (add_part q parts)"
  using assms by (cases parts; auto simp: marked_def marked_so_far_def add_part_def)+

lemma add_part_found: "concat (map found (add_part q parts)) = concat (map found parts) @ found q"
  by (auto simp: add_part_def)

lemma evens_append: "even (length xs) \<Longrightarrow> evens (xs @ ys) = evens xs @ evens ys"
  by (induction xs rule: evens.induct) auto

lemma map_filter_append: "List.map_filter f (xs @ ys) = List.map_filter f xs @ List.map_filter f ys"
  by (simp add: List.map_filter_def)

lemma set_map_filter: "set (List.map_filter f xs) = {y. \<exists>x \<in> set xs. f x = Some y}"
  by (force simp: List.map_filter_def)

text \<open>One round of the loop, when every server of the batch is alive.\<close>

lemma servers_loop_round:
  assumes "r_zscan (sb_redis E) (c_string (str_tolower (gamename (m_for_game req)))) cursor db = (c, ys)"
    and req: "BuildServerListRequestData req v = Some (lk, tk)" "max_results req = 0"
    and ok: "\<And>k. k \<in> set (evens ys) \<Longrightarrow> alive E db (c_string k) \<and> listed_entry E req lk tk db (c_string k) \<noteq> None"
  obtains q where "last_set q \<longleftrightarrow> atoi c = 0"
    "found q = List.map_filter (the_entry E req lk tk db) (map c_string (evens ys))"
    "servers_loop E req v cursor parts db =
       (if atoi c = 0 then Some (add_part q parts, db) else servers_loop E req v (atoi c) (add_part q parts) db)"
proof -
  let ?q = "new_query\<lparr>requested_fields := field_list req\<rparr>"
  let ?f = "List.map_filter (the_entry E req lk tk db) (map c_string (evens ys))"
  have "\<exists>q. AppendServerEntries E (map c_string (evens ys)) req v (?q, db) = Some (q, db) \<and> found q = found ?q @ ?f"
    using ok by (intro AppendServerEntries_alive [OF req(1) _ req(2)]) auto
  then obtain q where q: "AppendServerEntries E (map c_string (evens ys)) req v (?q, db) = Some (q, db)" "found q = ?f"
    by (auto simp: new_query_def)
  then have "servers_loop E req v cursor parts db =
      (let p = add_part (q\<lparr>last_set := (atoi c = 0)\<rparr>) parts in
       if atoi c = 0 then Some (p, db) else servers_loop E req v (atoi c) p db)"
    by (subst servers_loop.simps) (simp add: assms(1) Let_def)
  then show thesis
    by (intro that [of "q\<lparr>last_set := (atoi c = 0)\<rparr>"]) (simp_all add: Let_def q(2))
qed

lemma servers_loop_scan:
  assumes R: "redis_server (sb_redis E)"
    and req: "BuildServerListRequestData req v = Some (lk, tk)" "max_results req = 0"
    and "scan_loop f cursor acc = Some xs"
    and "f = (\<lambda>c. r_zscan (sb_redis E) (c_string (str_tolower (gamename (m_for_game req)))) c db)"
    and "even (length acc)"
    and "\<And>k. k \<in> set (evens xs) \<Longrightarrow> alive E db (c_string k) \<and> listed_entry E req lk tk db (c_string k) \<noteq> None"
  shows "(\<exists>zs. xs = acc @ zs) \<and> (\<forall>parts. marked_so_far parts \<longrightarrow>
    concat (map found parts) = List.map_filter (the_entry E req lk tk db) (map c_string (evens acc)) \<longrightarrow>
    (\<exists>parts'. servers_loop E req v cursor parts db = Some (parts', db) \<and> marked parts' \<and>
      concat (map found parts') = List.map_filter (the_entry E req lk tk db) (map c_string (evens xs))))"
  using assms(4-)
proof (induction f cursor acc xs rule: scan_loop.raw_induct [rotated, consumes 1, case_names 1])
  case (1 loop f cursor acc xs)
  let ?entries = "\<lambda>xs. List.map_filter (the_entry E req lk tk db) (map c_string (evens xs))"
  let ?scan = "r_zscan (sb_redis E) (c_string (str_tolower (gamename (m_for_game req)))) cursor db"
  obtain c ys where c: "?scan = (c, ys)" by (cases ?scan)
  have step: "(if atoi c = 0 then Some (acc @ ys) else loop f (atoi c) (acc @ ys)) = Some xs"
    using 1(2) c unfolding fun_cong [OF 1(3), of cursor] by (simp add: Let_def)
  have even: "even (length (acc @ ys))"
    using 1(4) redis_server.scan_pairs [OF R, of _ cursor db] c by (metis even_add length_append snd_conv)
  note evens = evens_append [OF 1(4), of ys]
  have IH: "(\<exists>zs. xs = (acc @ ys) @ zs) \<and> (atoi c \<noteq> 0 \<longrightarrow> (\<forall>parts. marked_so_far parts \<longrightarrow>
      concat (map found parts) = ?entries (acc @ ys) \<longrightarrow>
      (\<exists>parts'. servers_loop E req v (atoi c) parts db = Some (parts', db) \<and> marked parts' \<and>
        concat (map found parts') = ?entries xs)))"
  proof (cases "atoi c = 0")
    case False
    with step have "loop f (atoi c) (acc @ ys) = Some xs" by simp
    from 1(1) [OF this 1(3) even 1(5)] show ?thesis by blast
  qed (use step in simp)
  then obtain zs where xs: "xs = (acc @ ys) @ zs" by blast
  have "k \<in> set (evens ys) \<Longrightarrow> k \<in> set (evens xs)" for k
    unfolding xs evens_append [OF even] evens by simp
  then have ok: "\<And>k. k \<in> set (evens ys) \<Longrightarrow> alive E db (c_string k) \<and> listed_entry E req lk tk db (c_string k) \<noteq> None"
    using 1(5) by blast
  have "\<exists>parts'. servers_loop E req v cursor parts db = Some (parts', db) \<and> marked parts' \<and>
      concat (map found parts') = ?entries xs"
    if parts: "marked_so_far parts" "concat (map found parts) = ?entries acc" for parts
  proof -
    obtain q where q: "last_set q \<longleftrightarrow> atoi c = 0" "found q = ?entries ys"
      "servers_loop E req v cursor parts db =
         (if atoi c = 0 then Some (add_part q parts, db) else servers_loop E req v (atoi c) (add_part q parts) db)"
      by (rule servers_loop_round [OF c req ok])
    have f: "concat (map found (add_part q parts)) = ?entries (acc @ ys)"
      using parts(2) q(2) by (simp add: add_part_found evens map_filter_append)
    show ?thesis
      using IH step q(1,3) f add_part_marks [OF parts(1), of q] by (cases "atoi c = 0") auto
  qed
  with xs show ?case by auto
qed

text \<open>Without a filter every server that is not deleted is listed.\<close>

definition basic_server :: "'r sb_env \<Rightarrow> 'r \<Rightarrow> string \<Rightarrow> Server" where
  "basic_server E db k = snd (LoadBasicServerInfo (sb_aton E) new_server (hmget (sb_redis E) k basic_lookup_keys db))"

lemma custom_info_keeps_address:
  "wan_address (LoadCustomServerInfo server ks reply) = wan_address server"
proof -
  have "wan_address (fold (\<lambda>(k, r) sv. case r of None \<Rightarrow> sv
      | Some v \<Rightarrow> sv\<lparr>kvFields := smap_put k (c_string v) (kvFields sv)\<rparr>) xs sv) = wan_address sv" for xs sv
    by (induction xs arbitrary: sv) (auto split: option.splits)
  then show ?thesis by (simp add: LoadCustomServerInfo_def)
qed

lemma listed_no_filter:
  "\<not> all_keys req \<Longrightarrow> listed_entry E req lk [] db k \<noteq> None"
  "\<not> all_keys req \<Longrightarrow> \<not> deleted (basic_server E db k) \<Longrightarrow>
     \<exists>server. listed_entry E req lk [] db k = Some (Some server) \<and> server_key server = k \<and>
       wan_address server = wan_address (basic_server E db k)"
  by (simp_all add: listed_entry_def named_entry_def basic_server_def filterMatches_def Let_def custom_info_keeps_address)

lemma GetServers_lists:
  assumes "redis_server (sb_redis E)"
    and "BuildServerListRequestData req v = Some (lk, tk)" "max_results req = 0"
    and "\<forall>k \<in> zmembers (sb_redis E) (c_string (str_tolower (gamename (m_for_game req)))) db.
      alive E db (c_string k) \<and> listed_entry E req lk tk db (c_string k) \<noteq> None"
  shows "\<exists>parts. GetServers E req v db = Some (parts, db) \<and> marked parts \<and>
    set (concat (map found parts)) =
      {server. \<exists>k \<in> zmembers (sb_redis E) (c_string (str_tolower (gamename (m_for_game req)))) db.
        listed_entry E req lk tk db (c_string k) = Some (Some server)}"
proof -
  let ?name = "c_string (str_tolower (gamename (m_for_game req)))"
  obtain xs where xs: "zset_scan (sb_redis E) ?name db = Some xs"
    using redis_server.scan(1) [OF assms(1)] by blast
  then have members: "zmembers (sb_redis E) ?name db = set (evens xs)" by (simp add: zmembers_def)
  have ok: "k \<in> set (evens xs) \<Longrightarrow> alive E db (c_string k) \<and> listed_entry E req lk tk db (c_string k) \<noteq> None" for k
    using assms(4) members by blast
  obtain parts where parts: "servers_loop E req v 0 [] db = Some (parts, db)" "marked parts"
    "concat (map found parts) = List.map_filter (the_entry E req lk tk db) (map c_string (evens xs))"
    using servers_loop_scan [OF assms(1-3) xs [unfolded zset_scan_def] refl _ ok, THEN conjunct2, THEN spec [of _ "[]"]]
    by (auto simp: marked_so_far_def List.map_filter_simps)
  have "the_entry E req lk tk db (c_string k) = r \<longleftrightarrow> listed_entry E req lk tk db (c_string k) = Some r"
    if "k \<in> set (evens xs)" for k r
    using ok [OF that] by (auto simp: the_entry_def)
  then have "set (concat (map found parts)) =
      {server. \<exists>k \<in> set (evens xs). listed_entry E req lk tk db (c_string k) = Some (Some server)}"
    unfolding parts(3) set_map_filter by auto
  then show ?thesis
    using parts(1,2) unfolding members GetServers_def by blast
qed

text \<open>C7. When every member of the game's set has an address and its load returns (the filter evaluates, and what the
  list asks for can be read), a list without limit, of named fields or of all keys, holds exactly the members that
  are not deleted (or all, when the list asks for deleted ones too) and that the filter lets through, each with the fields
  loaded for it, and of its parts only the first is marked as the first and only the last as the last.
\<close>

theorem GetServers_complete:
  assumes "redis_server (sb_redis E)"
    and "BuildServerListRequestData req v = Some (lk, tk)" "max_results req = 0"
    and "\<forall>k \<in> zmembers (sb_redis E) (c_string (str_tolower (gamename (m_for_game req)))) db.
      alive E db (c_string k) \<and> listed_entry E req lk tk db (c_string k) \<noteq> None"
  shows "\<exists>parts. GetServers E req v db = Some (parts, db) \<and> marked parts \<and>
    set (concat (map found parts)) =
      {server. \<exists>k \<in> zmembers (sb_redis E) (c_string (str_tolower (gamename (m_for_game req)))) db.
        listed_entry E req lk tk db (c_string k) = Some (Some server)}"
  using assms by (rule GetServers_lists)

definition browsed_db :: kvdb where
  "browsed_db = kv_empty\<lparr>kv_hash := (\<lambda>_. [])(''g:1:'' := [(''wan_ip'', ''h''), (''wan_port'', ''7'')]),
     kv_zset := (\<lambda>_. [])(''g'' := [''g:1:''])\<rparr>"

definition browsing_env :: "kvdb sb_env" where
  "browsing_env = \<lparr>sb_redis = kv_redis, sb_games = kv_empty, sb_groups = kv_empty, sb_aton = (\<lambda>_. 1),
     sb_ntop = (\<lambda>_. ''h''), sb_base64 = (\<lambda>_. [])\<rparr>"

definition browse_g :: sServerListReq where
  "browse_g = new_list_req\<lparr>m_for_game := new_game\<lparr>gamename := ''g''\<rparr>\<rparr>"

lemma browsed_member: "zmembers kv_redis ''g'' browsed_db = {''g:1:''}"
  by (simp add: zmembers_def kv_scans browsed_db_def kv_empty_def)

theorem GetServers_complete_witness:
  "\<exists>parts server. GetServers browsing_env browse_g 1 browsed_db = Some (parts, browsed_db) \<and> marked parts \<and>
     server \<in> set (concat (map found parts)) \<and> server_key server = ''g:1:''"
proof -
  have n: "c_string (str_tolower (gamename (m_for_game browse_g))) = ''g''" by code_simp
  have r: "sb_redis browsing_env = kv_redis" by (simp add: browsing_env_def)
  have b: "BuildServerListRequestData browse_g 1 = Some ([], [])" by code_simp
  have a: "alive browsing_env browsed_db ''g:1:''" by code_simp
  have q: "\<not> all_keys browse_g" "max_results browse_g = 0" by (simp_all add: browse_g_def new_list_req_def)
  have "\<not> deleted (basic_server browsing_env browsed_db ''g:1:'')" by code_simp
  from listed_no_filter(2) [OF q(1) this] obtain server where
    l: "listed_entry browsing_env browse_g [] [] browsed_db ''g:1:'' = Some (Some server)" "server_key server = ''g:1:''"
    by blast
  have k: "c_string ''g:1:'' = ''g:1:''" by code_simp
  show ?thesis
    using GetServers_complete [of browsing_env browse_g 1 "[]" "[]" browsed_db, OF _ b q(2)]
      kv.redis_server_axioms a l
    by (fastforce simp: r n browsed_member k)
qed

end
