(* ===== verification/SbPeer.thy ===== *)
theory SbPeer
  imports SbTasks
begin

text \<open>
  What both kinds of peers of the server browser share (\<open>server/SBPeer.cpp\<close>, and of \<open>core/OS/Net/NetPeer.cpp\<close>
  the sending): the game, the last list request, the requests handed to the thread pool or waiting for it, and
  the buffers to be sent. The socket is the list of bytes written to it; seconds of the clock and \<open>rand\<close> are
  parameters.
\<close>

record sb_peer =
  m_address :: Address
  m_version :: nat
  m_game :: GameData
  m_last_list_req :: sServerListReq
  m_last_list_req_token_list :: "CToken list"
  m_last_recv :: int
  m_last_ping :: int
  m_delete_flag :: bool
  m_timeout_flag :: bool
  m_socket_deleted :: bool
  m_close_when_sendbuffer_empty :: bool
  m_send_buffer :: "byte list list"
  written :: "byte list"
  m_pending_request_list :: "MMQueryRequest list"   \<comment> \<open>a stack, its top first\<close>
  queued :: "MMQueryRequest list"                   \<comment> \<open>handed to \<open>uv_queue_work\<close>\<close>

record peer_env =
  now :: int
  rand_at :: "nat \<Rightarrow> nat"
  inet_addr :: "string \<Rightarrow> u32"
  inet_ntop :: "u32 \<Rightarrow> string"

abbreviation "SB_PING_TIME \<equiv> 15 :: int"

definition Delete_peer :: "bool \<Rightarrow> 'a sb_peer_scheme \<Rightarrow> 'a sb_peer_scheme" where
  "Delete_peer timeout s = s\<lparr>m_timeout_flag := timeout, m_delete_flag := True\<rparr>"

definition append_send_buffer :: "byte list \<Rightarrow> bool \<Rightarrow> 'a sb_peer_scheme \<Rightarrow> 'a sb_peer_scheme" where
  "append_send_buffer bs close_after s =
     (if m_delete_flag s \<or> m_socket_deleted s then s
      else s\<lparr>m_send_buffer := m_send_buffer s @ [bs],
        m_close_when_sendbuffer_empty := close_after \<or> m_close_when_sendbuffer_empty s\<rparr>)"

text \<open>The buffers are written out together; when they are through, a peer that is to be closed is closed.\<close>

definition clear_send_buffer :: "'a sb_peer_scheme \<Rightarrow> 'a sb_peer_scheme" where
  "clear_send_buffer s =
     (if m_send_buffer s = [] then s
      else s\<lparr>written := written s @ concat (m_send_buffer s), m_send_buffer := []\<rparr>)"

definition write_callback :: "'a sb_peer_scheme \<Rightarrow> 'a sb_peer_scheme" where
  "write_callback s =
     (if m_close_when_sendbuffer_empty s then Delete_peer False (s\<lparr>m_socket_deleted := True\<rparr>) else s)"

definition AddRequest :: "MMQueryRequest \<Rightarrow> bool \<Rightarrow> 'a sb_peer_scheme \<Rightarrow> 'a sb_peer_scheme" where
  "AddRequest req skip_pending_queue s =
     (if skip_pending_queue then s\<lparr>queued := queued s @ [req]\<rparr>
      else s\<lparr>m_pending_request_list := req # m_pending_request_list s\<rparr>)"

definition FlushPendingRequests :: "'a sb_peer_scheme \<Rightarrow> 'a sb_peer_scheme" where
  "FlushPendingRequests s = s\<lparr>queued := queued s @ m_pending_request_list s, m_pending_request_list := []\<rparr>"

text \<open>The look at the server may add the filter's variables to its fields.\<close>

definition serverMatchesLastReq :: "Server \<Rightarrow> 'a sb_peer_scheme \<Rightarrow> (bool \<times> Server) option" where
  "serverMatchesLastReq server s =
     (if game_id (game server) = game_id (m_for_game (m_last_list_req s)) then
        if length (req_filter (m_last_list_req s)) = 0 then Some (True, server)
        else map_option (\<lambda>(ok, kvs). (ok, server\<lparr>kvFields := kvs\<rparr>))
               (filterMatches (m_last_list_req_token_list s) (kvFields server))
      else Some (False, server))"

definition new_sb_peer :: "peer_env \<Rightarrow> Address \<Rightarrow> nat \<Rightarrow> sb_peer" where
  "new_sb_peer E a v = \<lparr>m_address = a, m_version = v, m_game = new_game, m_last_list_req = new_list_req,
     m_last_list_req_token_list = [], m_last_recv = now E, m_last_ping = now E, m_delete_flag = False,
     m_timeout_flag = False, m_socket_deleted = False, m_close_when_sendbuffer_empty = False,
     m_send_buffer = [], written = [], m_pending_request_list = [], queued = []\<rparr>"

text \<open>The port as it is kept; every address here has one.\<close>

definition raw_port :: "Address \<Rightarrow> u16" where
  "raw_port a = (case port a of None \<Rightarrow> 0 | Some p \<Rightarrow> p)"

definition NTS :: "string \<Rightarrow> byte list" where
  "NTS s = string_bytes s @ [0]"

text \<open>The parts of a list are handed over one after the other.\<close>

primrec hand_parts :: "(ServerListQuery \<Rightarrow> 's \<Rightarrow> 's option) \<Rightarrow> ServerListQuery list \<Rightarrow> 's \<Rightarrow> 's option" where
  "hand_parts f [] s = Some s"
| "hand_parts f (q # qs) s = Option.bind (f q s) (hand_parts f qs)"

text \<open>An environment for the examples.\<close>

definition quad_env :: peer_env where
  "quad_env = \<lparr>now = 0, rand_at = (\<lambda>_. 0), inet_addr = quad_aton, inet_ntop = quad_ntop\<rparr>"

lemma append_send_buffer_open:
  "\<not> m_delete_flag s \<Longrightarrow> \<not> m_socket_deleted s \<Longrightarrow>
    m_send_buffer (append_send_buffer bs c s) = m_send_buffer s @ [bs]"
  by (simp add: append_send_buffer_def)

end
