(* ===== verification/V1Peer.thy ===== *)
theory V1Peer
  imports SbPeer Enctype1 KVReader
begin

text \<open>
  A peer of the first version of the server browser (\<open>server/V1Peer.cpp\<close>): cutting the stream at
  \<open>\final\\<close>, the login with its validation, the lists in plain or in one of the two encryption types, and the
  packets kept back while a game is looked up. \<open>None\<close> is undefined behaviour, an exception or a loop that never ends.
\<close>

section \<open>State\<close>

text \<open>
  The memory of the key of encryption type 2 means nothing before \<open>m_sent_crypt_key\<close>.
\<close>

record v1peer = sb_peer +
  m_validation :: string
  v1_challenge :: string
  m_enctype :: byte
  m_crypt_key_enctype2 :: crypt_key
  m_validated :: bool
  m_sent_crypt_key :: bool
  m_waiting_gamedata :: nat          \<comment> \<open>1: waiting, 2: the packets kept back are due\<close>
  m_waiting_packets :: "string list"
  m_sent_validation :: bool
  m_kv_accumulator :: string
  m_enctype1_accumulator :: "byte list"

section \<open>Sending\<close>

definition send_crypt_header :: "peer_env \<Rightarrow> v1peer \<Rightarrow> (byte list \<times> v1peer) option" where
  "send_crypt_header E s =
     (if m_sent_crypt_key s then Some ([], s)
      else (let cryptkey = map (\<lambda>x. word_of_nat (rand_at E x) :: byte) [0..<13]; key = string_bytes (secretkey (m_game s))
            in if length key > 13 then None
               else do { k \<leftarrow> init_crypt_key cryptkey (m_crypt_key_enctype2 s);
                 Some ([13 XOR 0xEC] @ map2 (XOR) cryptkey key @ drop (length key) cryptkey,
                   s\<lparr>m_sent_crypt_key := True, m_crypt_key_enctype2 := k\<rparr>) }))"

text \<open>A packet of encryption type 1 is kept until the peer is deleted.\<close>

definition SendPacket_Enctype1 :: "byte list \<Rightarrow> v1peer \<Rightarrow> v1peer" where
  "SendPacket_Enctype1 bs s = s\<lparr>m_enctype1_accumulator := m_enctype1_accumulator s @ bs\<rparr>"

definition Enctype1_FlushPackets :: "peer_env \<Rightarrow> v1peer \<Rightarrow> v1peer option" where
  "Enctype1_FlushPackets E s =
     do { b \<leftarrow> create_enctype1_buffer (string_bytes (v1_challenge s)) (m_enctype1_accumulator s) Buffer_new
            (\<lambda>i. word_of_nat (rand_at E i));
          packet \<leftarrow> those (contents b);
          Some (append_send_buffer packet True s) }"

definition SendPacket :: "peer_env \<Rightarrow> byte list \<Rightarrow> bool \<Rightarrow> bool \<Rightarrow> v1peer \<Rightarrow> v1peer option" where
  "SendPacket E buff attach_final skip_encryption s =
     (if m_delete_flag s then Some s
      else do {
        (header, s) \<leftarrow> (if m_validated s \<and> m_enctype s = 2 then send_crypt_header E s else Some ([], s));
        let body = buff @ (if attach_final then string_bytes final_str else []);
        let skip_encryption = skip_encryption \<or> secretkey (m_game s) = [];
        if \<not> skip_encryption \<and> m_enctype s = 1 then Some (SendPacket_Enctype1 (header @ body) s)
        else if \<not> skip_encryption \<and> m_enctype s = 2 then
          (if \<not> m_sent_crypt_key s then None
           else do { (crypted, k) \<leftarrow> crypt_docrypt (m_crypt_key_enctype2 s) body;
             Some (append_send_buffer (header @ crypted) attach_final (s\<lparr>m_crypt_key_enctype2 := k\<rparr>)) })
        else Some (append_send_buffer (header @ body) attach_final s) })"

definition Delete :: "peer_env \<Rightarrow> bool \<Rightarrow> v1peer \<Rightarrow> v1peer option" where
  "Delete E timeout s =
     (if m_delete_flag s then Some s
      else map_option (Delete_peer timeout) (if m_enctype s = 1 then Enctype1_FlushPackets E s else Some s))"

definition send_error :: "bool \<Rightarrow> string \<Rightarrow> v1peer \<Rightarrow> v1peer" where
  "send_error disconnect text s =
     append_send_buffer (string_bytes ((if disconnect then bslash # ''fatal'' @ bslash # ''1'' else []) @
       bslash # ''error'' @ bslash # text)) disconnect s"

definition send_validation :: "peer_env \<Rightarrow> v1peer \<Rightarrow> v1peer option" where
  "send_validation E s =
     SendPacket E (string_bytes (bslash # ''basic'' @ bslash # bslash # ''secure'' @ bslash # c_string (v1_challenge s)))
       False False (s\<lparr>m_sent_validation := True\<rparr>)"

definition new_v1peer :: "peer_env \<Rightarrow> crypt_key \<Rightarrow> Address \<Rightarrow> v1peer option" where
  "new_v1peer E uninit a =
     send_validation E (sb_peer.extend (new_sb_peer E a 1)
       (v1peer.fields [] (gen_random (rand_at E) 6) 0 uninit False False 0 [] False [] []))"

section \<open>Lists\<close>

definition field_cleanup :: "string \<Rightarrow> string" where
  "field_cleanup s = map (\<lambda>ch. if ch = bslash then CHR ''.'' else ch) s"

definition field_names :: "string list \<Rightarrow> string" where
  "field_names fs = bslash # ''fieldcount'' @ bslash # dec_nat (length fs) @ concat (map (\<lambda>f. bslash # f) fs)"

definition field_value :: "Server \<Rightarrow> string \<Rightarrow> string" where
  "field_value server f = (case smap_find (kvFields server) f of None \<Rightarrow> [] | Some v \<Rightarrow> v)"

definition info_row :: "peer_env \<Rightarrow> string list \<Rightarrow> Server \<Rightarrow> string option" where
  "info_row E fs server =
     do { t \<leftarrow> Address_ToString (inet_ntop E) False (wan_address server);
          let server = server\<lparr>kvFields := smap_put ''ip'' t (kvFields server)\<rparr>;
          Some (concat (map (\<lambda>f. bslash # field_cleanup (field_value server f)) fs)) }"

text \<open>Only the first part has the names and the address; the others have the values of the fields found in that part.\<close>

definition SendServerInfo :: "peer_env \<Rightarrow> ServerListQuery \<Rightarrow> v1peer \<Rightarrow> v1peer option" where
  "SendServerInfo E results s =
     do { let fs = (if first_set results then [''ip''] else []) @ captured_basic_fields results;
          s \<leftarrow> (if first_set results then SendPacket E (string_bytes (field_names fs)) False False s else Some s);
          rows \<leftarrow> those (map (info_row E fs) (found results));
          SendPacket E (string_bytes (concat rows)) (last_set results) False s }"

definition group_fields :: "string list" where
  "group_fields = [''groupid'', ''hostname'', ''numplayers'', ''maxwaiting'', ''numwaiting'', ''numservers'', ''password'',
     ''other'']"

definition group_row :: "Server \<Rightarrow> byte list" where
  "group_row server = concat (map (\<lambda>f.
     if f = ''other'' then 0x5C # concat (map (\<lambda>(k, v).
         1 # string_bytes (field_cleanup k) @ 1 # string_bytes (field_cleanup v))
       (filter (\<lambda>p. fst p \<notin> set group_fields) (kvFields server)))
     else 0x5C # string_bytes (field_cleanup (field_value server f))) group_fields)"

definition SendGroups :: "peer_env \<Rightarrow> ServerListQuery \<Rightarrow> v1peer \<Rightarrow> v1peer option" where
  "SendGroups E results s =
     do { s \<leftarrow> (if first_set results then SendPacket E (string_bytes (field_names group_fields)) False False s else Some s);
          SendPacket E (concat (map group_row (found results))) (last_set results) False s }"

definition list_entry :: "peer_env \<Rightarrow> bool \<Rightarrow> Server \<Rightarrow> byte list" where
  "list_entry E compressed server =
     (let a = wan_address server in
      if compressed then le_bytes 4 (unat (ip a)) @ le_bytes 2 (unat (htons (raw_port a)))
      else string_bytes (bslash # ''ip'' @ bslash # inet_ntop E (ip a) @ '':'' @ dec_nat (unat (raw_port a))))"

definition SendServers :: "peer_env \<Rightarrow> ServerListQuery \<Rightarrow> v1peer \<Rightarrow> v1peer option" where
  "SendServers E results s =
     SendPacket E (concat (map (list_entry E (send_compressed (m_last_list_req s))) (found results)))
       (last_set results) False s"

definition OnRetrievedServerInfo :: "peer_env \<Rightarrow> ServerListQuery \<Rightarrow> v1peer \<Rightarrow> v1peer option" where
  "OnRetrievedServerInfo E results s = SendServerInfo E results s"

definition OnRetrievedServers :: "peer_env \<Rightarrow> sServerListReq \<Rightarrow> ServerListQuery \<Rightarrow> v1peer \<Rightarrow> v1peer option" where
  "OnRetrievedServers E req results s =
     do { s \<leftarrow> (if all_keys req then SendServerInfo E results s else SendServers E results s);
          if last_set results then Delete E False s else Some s }"

definition OnRetrievedGroups :: "peer_env \<Rightarrow> ServerListQuery \<Rightarrow> v1peer \<Rightarrow> v1peer option" where
  "OnRetrievedGroups E results s =
     do { s \<leftarrow> SendGroups E results s; if last_set results then Delete E False s else Some s }"

section \<open>Requests\<close>

text \<open>The game is taken over before its validation is checked.\<close>

definition OnRecievedGameInfo :: "GameData \<Rightarrow> v1peer \<Rightarrow> v1peer option" where
  "OnRecievedGameInfo game_data s =
     (let s = s\<lparr>m_waiting_gamedata := 2\<rparr> in
      if c_string (secretkey game_data) = [] then Some (send_error True ''Invalid source gamename'' s)
      else do {
        let s = s\<lparr>m_game := game_data\<rparr>;
        realvalidate \<leftarrow> gsseckey (string_bytes (c_string (v1_challenge s))) (string_bytes (c_string (secretkey game_data)))
          (uint (m_enctype s));
        Some (if m_validated s then s
              else if c_string (response_chars realvalidate) = c_string (m_validation s) then s\<lparr>m_validated := True\<rparr>
              else send_error True ''Validation error'' s) })"

definition parsed :: "string \<Rightarrow> kv_pairs option" where
  "parsed data = (case KVReader data bslash nul [] of Undefined \<Rightarrow> None | Done kv \<Rightarrow> Some kv)"

definition handle_gamename :: "string \<Rightarrow> v1peer \<Rightarrow> v1peer option" where
  "handle_gamename data s =
     do { kv \<leftarrow> parsed data;
          Some (AddRequest (new_query_request\<lparr>rq_type := EMMQueryRequestType_GetGameInfoByGameName,
              gamenames := (GetValue kv ''gamename'', [])\<rparr>) True
            (s\<lparr>m_validation := GetValue kv ''validate'', m_waiting_gamedata := 1,
              m_enctype := ucast (GetValueInt kv ''enctype'')\<rparr>)) }"

text \<open>The peer waits from here on, but for a request that does not end the waiting.\<close>

definition handle_list :: "string \<Rightarrow> v1peer \<Rightarrow> v1peer option" where
  "handle_list data s =
     do { kv \<leftarrow> parsed data;
          if c_string (secretkey (m_game s)) = [] then Some (send_error True ''No source gamename registered'' s)
          else do {
            let mode = GetValue kv ''list'';
            let for_name = (if HasKey kv ''gamename'' then GetValue kv ''gamename'' else gamename (m_game s));
            let req = new_list_req\<lparr>m_for_gamename := for_name, m_from_game := m_game s,
              all_keys := mode = ''info2'' \<or> mode = ''groups'', send_groups := mode = ''groups'',
              send_compressed := mode = ''cmp'' \<or> mode = ''info2'' \<or> mode = ''groups'',
              req_filter := GetValue kv ''where'', m_for_game := new_game\<lparr>gamename := for_name\<rparr>\<rparr>;
            tokens \<leftarrow> filterToTokenList (c_string (req_filter req));
            Some (AddRequest (new_query_request\<lparr>gamenames := (for_name, []), rq_req := req,
                rq_type := if send_groups req then EMMQueryRequestType_GetGroups else EMMQueryRequestType_GetServers\<rparr>) True
              (s\<lparr>m_waiting_gamedata := 1, m_last_list_req := req, m_last_list_req_token_list := tokens\<rparr>)) } }"

definition skip_queryid :: "string \<Rightarrow> string" where
  "skip_queryid s =
     (let s = (if take 9 s = bslash # ''queryid'' @ [bslash] then
                 (let s = drop 9 s in case dropWhile (\<lambda>c. c \<noteq> bslash) s of [] \<Rightarrow> s | _ # r \<Rightarrow> r)
               else s)
      in if take 2 s = [CHR 0x0D, CHR 0x0A] then drop 2 s else s)"

definition handle_packet :: "peer_env \<Rightarrow> string \<Rightarrow> v1peer \<Rightarrow> v1peer option" where
  "handle_packet E data s =
     (if m_waiting_gamedata s = 1 then Some (s\<lparr>m_waiting_packets := m_waiting_packets s @ [data]\<rparr>)
      else do {
        let data = skip_queryid data;
        let data = (if \<not> m_validated s \<and> take 7 (c_string data) = bslash # ''basic'' @ [bslash] then drop 6 data else data);
        kv \<leftarrow> parsed data;
        if kv = [] then Delete E False s
        else do {
          let s = s\<lparr>m_last_recv := now E\<rparr>;
          let command = c_string (GetKeyByIdx kv 0);
          if command = ''gamename'' \<and> \<not> m_validated s then handle_gamename data s
          else if command = ''list'' then handle_list data s
          else Some s } })"

text \<open>
  The loop over the packets in the text not yet handled. What follows the last \<open>\final\\<close> is handled like a packet; the
  loop stops early at an empty one.
\<close>

function packet_turns :: "peer_env \<Rightarrow> string \<Rightarrow> v1peer \<Rightarrow> (string \<times> v1peer) option" where
  "packet_turns E unread s =
     (case find_sub final_str unread of
        None \<Rightarrow>
          (let partial_string = skip_queryid unread in
           if partial_string = [] then Some (unread, s) else map_option (Pair unread) (handle_packet E partial_string s))
      | Some i \<Rightarrow>
          (let partial_string = skip_queryid (take i unread) in
           if partial_string = [] then Some (drop (i + 7) unread, s)
           else case handle_packet E partial_string s of None \<Rightarrow> None
             | Some s \<Rightarrow> packet_turns E (drop (i + 7) unread) s))"
  by pat_completeness auto
termination
  by (relation "measure (\<lambda>(E, unread, s). length unread)") (auto dest!: find_sub_bound simp: final_str_def)

declare packet_turns.simps [simp del]

text \<open>What was handled but not ended is kept, unless what was kept before is longer than the new data.\<close>

definition on_stream_read :: "peer_env \<Rightarrow> string \<Rightarrow> v1peer \<Rightarrow> v1peer option" where
  "on_stream_read E data s =
     do { let recv_buf = m_kv_accumulator s @ data;
          (left, s) \<leftarrow> packet_turns E recv_buf (s\<lparr>m_kv_accumulator := []\<rparr>);
          let s = (if length recv_buf - length left < length data then s\<lparr>m_kv_accumulator := left\<rparr> else s);
          if length (m_kv_accumulator s) > MAX_UNPROCESSED_DATA then Delete E False s else Some s }"

section \<open>Time\<close>

partial_function (option) flushWaitingPackets :: "peer_env \<Rightarrow> v1peer \<Rightarrow> v1peer option" where
  "flushWaitingPackets E s =
     (case m_waiting_packets s of
        [] \<Rightarrow> Some s
      | cmd # cmds \<Rightarrow> Option.bind (handle_packet E cmd (s\<lparr>m_waiting_packets := cmds\<rparr>)) (flushWaitingPackets E))"

definition send_ping :: "peer_env \<Rightarrow> v1peer \<Rightarrow> v1peer" where
  "send_ping E s = (if now E - m_last_ping s > SB_PING_TIME then s\<lparr>m_last_ping := now E\<rparr> else s)"

definition think :: "peer_env \<Rightarrow> v1peer \<Rightarrow> v1peer option" where
  "think E s =
     (if m_delete_flag s then Some s
      else do {
        s \<leftarrow> (if m_waiting_gamedata s = 2 then flushWaitingPackets E (s\<lparr>m_waiting_gamedata := 0\<rparr>) else Some s);
        let s = send_ping E s;
        if now E - m_last_recv s > SB_PING_TIME * 2 then Delete E True s else Some s })"

section \<open>Answers of the tasks\<close>

definition v1_answer :: "peer_env \<Rightarrow> sb_answer \<Rightarrow> v1peer \<Rightarrow> v1peer option" where
  "v1_answer E answer s =
     (case answer of
        Retrieved_servers req parts \<Rightarrow> hand_parts (OnRetrievedServers E req) parts s
      | Retrieved_groups req parts \<Rightarrow> hand_parts (OnRetrievedGroups E) parts s
      | Retrieved_info q \<Rightarrow> OnRetrievedServerInfo E q s
      | Recieved_game g \<Rightarrow> OnRecievedGameInfo g s
      | Recieved_games a b \<Rightarrow> Some s
      | Submitted m \<Rightarrow> Some s)"

section \<open>Properties\<close>

subsection \<open>Packets kept back\<close>

text \<open>The first turns of the loop of \<open>flushWaitingPackets\<close>.\<close>

primrec flush_turns :: "peer_env \<Rightarrow> nat \<Rightarrow> v1peer \<Rightarrow> v1peer option" where
  "flush_turns E 0 s = Some s"
| "flush_turns E (Suc n) s =
     (case m_waiting_packets s of
        [] \<Rightarrow> Some s
      | cmd # cmds \<Rightarrow> Option.bind (handle_packet E cmd (s\<lparr>m_waiting_packets := cmds\<rparr>)) (flush_turns E n))"

lemma waiting_packet_returns:
  assumes "m_waiting_gamedata s = 1" and "m_waiting_packets s = cmd # cmds"
  shows "handle_packet E cmd (s\<lparr>m_waiting_packets := cmds\<rparr>) = Some (s\<lparr>m_waiting_packets := cmds @ [cmd]\<rparr>)"
  using assms by (simp add: handle_packet_def)

lemma flush_never_ends:
  "flushWaitingPackets E s = Some s' \<Longrightarrow> m_waiting_gamedata s = 1 \<Longrightarrow> m_waiting_packets s \<noteq> [] \<Longrightarrow> False"
proof (induction E s s' rule: flushWaitingPackets.raw_induct [rotated, consumes 1, case_names 1])
  case (1 loop E s s')
  then obtain cmd cmds where w: "m_waiting_packets s = cmd # cmds" by (cases "m_waiting_packets s") auto
  have "loop E (s\<lparr>m_waiting_packets := cmds @ [cmd]\<rparr>) = Some s'"
    using 1(2) unfolding w list.case waiting_packet_returns [OF 1(3) w] by simp
  from 1(1) [OF this] 1(3) show ?case by simp
qed

lemma flush_turns_wait:
  assumes "m_waiting_gamedata s = 1" and "m_waiting_packets s \<noteq> []"
  shows "\<exists>s'. flush_turns E n s = Some s' \<and> m_waiting_packets s' \<noteq> []"
  using assms
proof (induction n arbitrary: s)
  case (Suc n)
  then obtain cmd cmds where w: "m_waiting_packets s = cmd # cmds" by (cases "m_waiting_packets s") auto
  have "flush_turns E (Suc n) s = flush_turns E n (s\<lparr>m_waiting_packets := cmds @ [cmd]\<rparr>)"
    unfolding flush_turns.simps w list.case waiting_packet_returns [OF Suc.prems(1) w] by simp
  with Suc.IH [of "s\<lparr>m_waiting_packets := cmds @ [cmd]\<rparr>"] Suc.prems(1) show ?case by simp
qed simp

text \<open>A packet that asks for a list.\<close>

definition list_packet :: "string \<Rightarrow> bool" where
  "list_packet data \<longleftrightarrow> skip_queryid data = data \<and> take 7 (c_string data) \<noteq> bslash # ''basic'' @ [bslash] \<and>
     (case parsed data of None \<Rightarrow> False
      | Some kv \<Rightarrow> kv \<noteq> [] \<and> c_string (GetKeyByIdx kv 0) = ''list'' \<and>
          filterToTokenList (c_string (GetValue kv ''where'')) \<noteq> None)"

lemma list_packet_waits:
  assumes "list_packet data" and "m_waiting_gamedata s = 0" and "c_string (secretkey (m_game s)) \<noteq> []"
  shows "\<exists>s'. handle_packet E data s = Some s' \<and> m_waiting_gamedata s' = 1 \<and> m_waiting_packets s' = m_waiting_packets s"
  using assms by (auto simp: list_packet_def handle_packet_def handle_list_def Let_def AddRequest_def split: option.splits)

text \<open>C11. A client that sends a list request and anything after it while its game is still being looked up stops the server:
  once the game is known, the list request makes the peer wait again, so that the loop over the packets kept back puts
  the packet it takes out back in, for ever.
\<close>

theorem queued_list_hangs:
  assumes "\<not> m_delete_flag s" "m_waiting_gamedata s = 2" "c_string (secretkey (m_game s)) \<noteq> []"
    and "m_waiting_packets s = a # b # cmds" "list_packet a"
  shows "think E s = None \<and> (\<forall>n. \<exists>s'. flush_turns E n (s\<lparr>m_waiting_gamedata := 0\<rparr>) = Some s' \<and> m_waiting_packets s' \<noteq> [])"
proof -
  let ?s = "s\<lparr>m_waiting_gamedata := 0\<rparr>"
  let ?t = "?s\<lparr>m_waiting_packets := b # cmds\<rparr>"
  obtain t where t: "handle_packet E a ?t = Some t" "m_waiting_gamedata t = 1" "m_waiting_packets t = b # cmds"
    using list_packet_waits [OF assms(5), of ?t] assms(3) by auto
  have "flushWaitingPackets E ?s = flushWaitingPackets E t"
    using assms(4) t(1) by (subst flushWaitingPackets.simps) simp
  also have "\<dots> = None"
    using flush_never_ends [of E t] t(2,3) by (cases "flushWaitingPackets E t") auto
  finally have "think E s = None" using assms(1,2) by (simp add: think_def)
  moreover have "\<exists>s'. flush_turns E n ?s = Some s' \<and> m_waiting_packets s' \<noteq> []" for n
  proof (cases n)
    case (Suc m)
    have "flush_turns E (Suc m) ?s = flush_turns E m t" using assms(4) t(1) by simp
    then show ?thesis using flush_turns_wait [OF t(2), of E m] t(3) Suc by simp
  qed (use assms(4) in simp)
  ultimately show ?thesis by blast
qed

definition waiting_client :: v1peer where
  "waiting_client = sb_peer.extend ((new_sb_peer quad_env Address_default 1)\<lparr>m_game := new_game\<lparr>secretkey := ''K''\<rparr>\<rparr>)
     (v1peer.fields [] ''abcdef'' 0 zero_crypt_key False False 2
       [bslash # ''list'' @ bslash # ''cmp'', bslash # ''list'' @ bslash # ''cmp''] True [] [])"

theorem queued_list_hangs_witness: "think quad_env waiting_client = None"
proof -
  have "list_packet (bslash # ''list'' @ bslash # ''cmp'')" by code_simp
  then show ?thesis
    by (intro queued_list_hangs [THEN conjunct1])
      (simp_all add: waiting_client_def sb_peer.defs v1peer.defs new_sb_peer_def c_string_def nul_def new_game_def)
qed

subsection \<open>How a client reads a list\<close>

function read_entries :: "byte list \<Rightarrow> (u32 \<times> u16) list option" where
  "read_entries bs =
     (if bs = string_bytes final_str then Some []
      else if length bs < 6 then None
      else map_option ((#) (word_of_nat (le_val (take 4 bs)), htons (word_of_nat (le_val (take 2 (drop 4 bs))))))
             (read_entries (drop 6 bs)))"
  by pat_completeness auto
termination
  by (relation "measure length") auto

declare read_entries.simps [simp del]

text \<open>The three encryption types; the client's memory for the key of type 2 is \<open>uninit\<close>.\<close>

definition read_v1_list :: "byte \<Rightarrow> string \<Rightarrow> string \<Rightarrow> crypt_key \<Rightarrow> byte list \<Rightarrow> (u32 \<times> u16) list option" where
  "read_v1_list enctype secret chal uninit packet =
     do { bytes \<leftarrow>
            (if enctype = 1 then read_enctype1_packet (string_bytes chal) packet
             else if enctype = 2 then
               (case packet of [] \<Rightarrow> None
                | l # bs \<Rightarrow>
                    (let n = unat (l XOR 0xEC); mixed = take n bs; key = string_bytes secret in
                     do { k \<leftarrow> init_crypt_key (map2 (XOR) mixed key @ drop (length key) mixed) uninit;
                          map_option fst (crypt_docrypt k (drop n bs)) }))
             else Some packet);
          read_entries bytes }"

lemma length_list_entry: "length (list_entry E True sv) = 6"
  by (simp add: list_entry_def Let_def)

lemma length_final: "length (string_bytes final_str) = 7"
  by (simp add: string_bytes_def final_str_def)

lemma read_entries_list:
  "read_entries (concat (map (list_entry E True) svs) @ string_bytes final_str) =
     Some (map (\<lambda>sv. (ip (wan_address sv), raw_port (wan_address sv))) svs)"
proof (induction svs)
  case Nil
  then show ?case by (subst read_entries.simps) simp
next
  case (Cons sv svs)
  let ?rest = "concat (map (list_entry E True) svs) @ string_bytes final_str"
  let ?bs = "list_entry E True sv @ ?rest"
  have len: "length ?bs = 6 + length ?rest" "7 \<le> length ?rest"
    by (simp_all add: length_list_entry length_final)
  have ne: "?bs \<noteq> string_bytes final_str" 
  proof
    assume "?bs = string_bytes final_str"
    then have "length ?bs = 7" by (simp only: length_final)
    with len show False by simp
  qed
  have parts: "word_of_nat (le_val (take 4 ?bs)) = ip (wan_address sv)"
    "htons (word_of_nat (le_val (take 2 (drop 4 ?bs)))) = raw_port (wan_address sv)" "drop 6 ?bs = ?rest"
    by (simp_all add: list_entry_def Let_def le_val_word)
  have long: "\<not> length ?bs < 6" using len by simp
  have "read_entries ?bs = map_option ((#) (ip (wan_address sv), raw_port (wan_address sv))) (read_entries ?rest)"
    unfolding read_entries.simps [of ?bs] if_not_P [OF ne] if_not_P [OF long] parts by (rule refl)
  with Cons show ?case by simp
qed

lemma those_map_Some: "those (map Some xs) = Some xs"
  by (induction xs) simp_all

lemma unmix_key:
  fixes key secret :: "byte list"
  assumes "length secret \<le> length key"
  shows "map2 (XOR) (map2 (XOR) key secret @ drop (length secret) key) secret @
    drop (length secret) (map2 (XOR) key secret @ drop (length secret) key) = key"
  using assms
proof (induction secret arbitrary: key)
  case (Cons b secret)
  then obtain k ks where "key = k # ks" by (cases key) auto
  with Cons show ?case by simp
qed simp

text \<open>C12. The answer to a compressed list request of version 1 (\<open>cmp\<close>: only addresses and ports; not \<open>info2\<close>, not groups, not
  the list as text) that comes in one part reaches the client: whatever of the three encryption types it chose when it
  logged in, decrypting the packet and reading it up to the final marker gives the address and port of every server, and
  the peer is deleted once the packet is sent. The peer is validated and nothing was encrypted on its connection before,
  the game's secret key has 1 to 13 characters (a longer one overruns the key of type 2), and there are at most
  80000 servers.
\<close>

theorem v1_list_reaches_client:
  assumes ready: "\<not> m_delete_flag s" "\<not> m_socket_deleted s" "m_validated s" "\<not> m_sent_crypt_key s"
      "m_enctype1_accumulator s = []" "v1_challenge s \<noteq> []" "stacks_ok (m_crypt_key_enctype2 s)"
    and game: "secretkey (m_game s) \<noteq> []" "length (secretkey (m_game s)) \<le> 13"
    and list: "\<not> all_keys req" "send_compressed (m_last_list_req s)" "last_set q" "length (found q) \<le> 80000"
  shows "\<exists>s' packet. OnRetrievedServers E req q s = Some s' \<and> m_send_buffer s' = m_send_buffer s @ [packet] \<and>
    m_close_when_sendbuffer_empty s' \<and> m_delete_flag s' \<and>
    read_v1_list (m_enctype s) (secretkey (m_game s)) (v1_challenge s) (m_crypt_key_enctype2 s) packet =
      Some (map (\<lambda>sv. (ip (wan_address sv), raw_port (wan_address sv))) (found q))"
proof -
  define body where "body = concat (map (list_entry E True) (found q)) @ string_bytes final_str"
  have len: "length body \<le> 516000"
  proof -
    have "length (concat (map (list_entry E True) svs)) = 6 * length svs" for svs
      by (induction svs) (simp_all add: length_list_entry)
    then show ?thesis using list(4) by (simp add: body_def length_final)
  qed
  have entries: "read_entries body = Some (map (\<lambda>sv. (ip (wan_address sv), raw_port (wan_address sv))) (found q))"
    by (simp add: body_def read_entries_list)
  consider (one) "m_enctype s = 1" | (two) "m_enctype s = 2" | (plain) "m_enctype s \<noteq> 1" "m_enctype s \<noteq> 2" by blast
  then show ?thesis
  proof cases
    case one
    have "string_bytes (v1_challenge s) \<noteq> []" using ready(6) by (simp add: string_bytes_def)
    from enctype1_packet [OF this len] obtain b pkt where b: "create_enctype1_buffer (string_bytes (v1_challenge s)) body
        Buffer_new (\<lambda>i. word_of_nat (rand_at E i)) = Some b" "contents b = map Some pkt"
      "read_enctype1_packet (string_bytes (v1_challenge s)) pkt = Some body" by blast
    show ?thesis
      using one ready game list b entries
      by (intro exI [of _ "Delete_peer False (append_send_buffer pkt True (SendPacket_Enctype1 body s))"] exI [of _ pkt])
        (simp add: OnRetrievedServers_def SendServers_def SendPacket_def Delete_def Enctype1_FlushPackets_def
          SendPacket_Enctype1_def Delete_peer_def append_send_buffer_def those_map_Some read_v1_list_def
          body_def [symmetric])
  next
    case two
    define chal where "chal = map (\<lambda>x. word_of_nat (rand_at E x) :: byte) [0..<13]"
    let ?key = "string_bytes (secretkey (m_game s))"
    have lk: "length ?key \<le> length chal" "length chal = 13" using game(2) by (simp_all add: string_bytes_def chal_def)
    have "chal \<noteq> []" using lk(2) by auto
    from init_crypt_key_works [OF this ready(7)] obtain k where
      k: "init_crypt_key chal (m_crypt_key_enctype2 s) = Some k" "tree_ok k" by blast
    obtain ct k' where ct: "crypt_docrypt k body = Some (ct, k')" "crypt_docrypt k ct = Some (body, k')"
      using docrypt_works [OF k(2)] by blast
    let ?mixed = "map2 (XOR) chal ?key @ drop (length ?key) chal"
    have mixed: "length ?mixed = 13" using lk by simp
    have head: "send_crypt_header E s = Some (225 # ?mixed, s\<lparr>m_sent_crypt_key := True, m_crypt_key_enctype2 := k\<rparr>)"
      using ready(4) lk k(1) by (simp add: send_crypt_header_def chal_def [symmetric] Let_def)
    have n: "unat (225 XOR 0xEC :: byte) = 13" by simp
    have cut: "take 13 (?mixed @ ct) = ?mixed" "drop 13 (?mixed @ ct) = ct" using mixed by simp_all
    note key = unmix_key [OF lk(1)]
    have "read_v1_list 2 (secretkey (m_game s)) (v1_challenge s) (m_crypt_key_enctype2 s) (225 # ?mixed @ ct) =
        read_entries body"
      using key cut by (simp only: read_v1_list_def Let_def list.case n append_Cons) (simp add: k(1) ct(2))
    then show ?thesis
      using two ready game list entries head ct(1)
      by (intro exI [of _ "Delete_peer False (append_send_buffer (225 # ?mixed @ ct) True
            (s\<lparr>m_sent_crypt_key := True, m_crypt_key_enctype2 := k'\<rparr>))"] exI [of _ "225 # ?mixed @ ct"])
        (simp add: OnRetrievedServers_def SendServers_def SendPacket_def Delete_def Delete_peer_def append_send_buffer_def
          body_def [symmetric])
  next
    case plain
    then show ?thesis
      using ready game list entries
      by (intro exI [of _ "Delete_peer False (append_send_buffer body True s)"] exI [of _ body])
        (simp add: OnRetrievedServers_def SendServers_def SendPacket_def Delete_def Delete_peer_def append_send_buffer_def
          read_v1_list_def body_def [symmetric])
  qed
qed

definition logged_in_client :: "byte \<Rightarrow> v1peer" where
  "logged_in_client enctype = sb_peer.extend ((new_sb_peer quad_env Address_default 1)\<lparr>m_game := new_game\<lparr>secretkey := ''K''\<rparr>\<rparr>)
     (v1peer.fields [] ''abcdef'' enctype zero_crypt_key True False 0 [] True [] [])"

theorem v1_list_reaches_client_witness:
  "\<exists>s' packet. OnRetrievedServers quad_env new_list_req
      (new_query\<lparr>last_set := True, found := [new_server\<lparr>wan_address := Address_new 5 80\<rparr>]\<rparr>) (logged_in_client 2) = Some s' \<and>
    m_send_buffer s' = [packet] \<and> read_v1_list 2 ''K'' ''abcdef'' zero_crypt_key packet = Some [(5, htons 80)]"
proof -
  let ?q = "new_query\<lparr>last_set := True, found := [new_server\<lparr>wan_address := Address_new 5 80\<rparr>]\<rparr>"
  have s: "\<not> m_delete_flag (logged_in_client 2)" "\<not> m_socket_deleted (logged_in_client 2)" "m_validated (logged_in_client 2)"
    "\<not> m_sent_crypt_key (logged_in_client 2)" "m_enctype1_accumulator (logged_in_client 2) = []"
    "v1_challenge (logged_in_client 2) = ''abcdef''" "m_crypt_key_enctype2 (logged_in_client 2) = zero_crypt_key"
    "secretkey (m_game (logged_in_client 2)) = ''K''" "send_compressed (m_last_list_req (logged_in_client 2))"
    "m_send_buffer (logged_in_client 2) = []" "m_enctype (logged_in_client 2) = 2"
    by (simp_all add: logged_in_client_def sb_peer.defs v1peer.defs new_sb_peer_def new_game_def new_list_req_def)
  have z: "stacks_ok zero_crypt_key" by (simp add: stacks_ok_def zero_crypt_key_def)
  have r: "\<not> all_keys new_list_req" by (simp add: new_list_req_def)
  have a: "ip (Address_new 5 80) = 5" "raw_port (Address_new 5 80) = htons 80"
    by (simp_all add: Address_new_def raw_port_def)
  show ?thesis
    using v1_list_reaches_client [of "logged_in_client 2" new_list_req ?q quad_env] s z r by (auto simp: a)
qed

subsection \<open>The login\<close>

lemma response_plain:
  assumes "gsseckey src key e = Some r" "set r \<subseteq> set sk_alphabet" "r \<noteq> []"
  shows "c_string (response_chars r) \<noteq> []"
proof -
  obtain b r' where r: "r = b # r'" using assms(3) by (cases r) auto
  have "list_all (\<lambda>b. char_of (unat b) \<noteq> nul) sk_alphabet" by code_simp
  then have "char_of (unat b) \<noteq> nul" using assms(2) r by (auto simp: list_all_iff)
  then show ?thesis by (simp add: r response_chars_def c_string_def)
qed

text \<open>C13. A login that the network cuts in two before its validation fails: the first piece is handled as if it were all
  of it, with an empty validation, and when the game is known the client gets a validation error and is disconnected.
\<close>

theorem cut_login_rejected:
  assumes peer: "\<not> m_delete_flag s" "\<not> m_socket_deleted s" "\<not> m_validated s" "m_waiting_gamedata s = 0"
      "m_kv_accumulator s = []" "length (c_string (v1_challenge s)) = 6"
    and piece: "find_sub final_str piece = None" "piece \<noteq> []" "skip_queryid piece = piece" "length piece \<le> 5000"
      "take 7 (c_string piece) \<noteq> bslash # ''basic'' @ [bslash]"
    and login: "parsed piece = Some kv" "kv \<noteq> []" "c_string (GetKeyByIdx kv 0) = ''gamename''" "\<not> HasKey kv ''validate''"
    and game: "c_string (secretkey g) \<noteq> []"
  shows "\<exists>s1 s2. on_stream_read E piece s = Some s1 \<and> length (queued s1) = length (queued s) + 1 \<and>
    rq_type (last (queued s1)) = EMMQueryRequestType_GetGameInfoByGameName \<and>
    gamenames (last (queued s1)) = (GetValue kv ''gamename'', []) \<and>
    v1_answer E (Recieved_game g) s1 = Some s2 \<and> \<not> m_validated s2 \<and> m_close_when_sendbuffer_empty s2 \<and>
    m_send_buffer s2 = m_send_buffer s1 @
      [string_bytes (bslash # ''fatal'' @ bslash # ''1'' @ bslash # ''error'' @ bslash # ''Validation error'')]"
proof -
  let ?s = "s\<lparr>m_kv_accumulator := []\<rparr>"
  let ?rq = "new_query_request\<lparr>rq_type := EMMQueryRequestType_GetGameInfoByGameName,
    gamenames := (GetValue kv ''gamename'', [])\<rparr>"
  let ?t = "AddRequest ?rq True (?s\<lparr>m_last_recv := now E, m_validation := [], m_waiting_gamedata := 1,
    m_enctype := ucast (GetValueInt kv ''enctype'')\<rparr>)"
  have h: "handle_packet E piece ?s = Some ?t"
    using peer piece login
    by (simp add: handle_packet_def handle_gamename_def HasKey_def GetValue_def Let_def)
  have turns: "packet_turns E piece ?s = Some (piece, ?t)"
    using piece h by (simp add: packet_turns.simps Let_def)
  define s1 where "s1 = ?t\<lparr>m_kv_accumulator := piece\<rparr>"
  have read: "on_stream_read E piece s = Some s1"
    using peer(5) piece turns by (simp add: on_stream_read_def Let_def s1_def MAX_UNPROCESSED_DATA_def)
  have s1: "v1_challenge s1 = v1_challenge s" "m_validation s1 = []" "\<not> m_validated s1" "\<not> m_delete_flag s1"
    "\<not> m_socket_deleted s1" "queued s1 = queued s @ [?rq]"
    using peer by (simp_all add: s1_def AddRequest_def)
  obtain r where r: "gsseckey (string_bytes (c_string (v1_challenge s))) (string_bytes (c_string (secretkey g)))
      (uint (m_enctype s1)) = Some r" "c_string (response_chars r) \<noteq> []"
  proof -
    let ?src = "string_bytes (c_string (v1_challenge s))" and ?key = "string_bytes (c_string (secretkey g))"
    have "?key \<noteq> []" "length ?src = 6" using game peer(6) by (simp_all add: string_bytes_def)
    from gsseckey_fits [OF this(1), of ?src "uint (m_enctype s1)"] this(2) obtain r where
      "gsseckey ?src ?key (uint (m_enctype s1)) = Some r" "length r = 8" "set r \<subseteq> set sk_alphabet" by auto
    then show thesis using that [of r] response_plain [of ?src ?key "uint (m_enctype s1)" r] by (cases "r = []") auto
  qed
  show ?thesis
    using read s1 r game
    by (intro exI [of _ s1] exI [of _ "send_error True ''Validation error'' (s1\<lparr>m_waiting_gamedata := 2, m_game := g\<rparr>)"])
      (simp add: v1_answer_def OnRecievedGameInfo_def send_error_def append_send_buffer_def new_query_request_def c_string_def)
qed

definition fresh_client :: v1peer where
  "fresh_client = sb_peer.extend (new_sb_peer quad_env Address_default 1)
     (v1peer.fields [] ''abcdef'' 0 zero_crypt_key False False 0 [] True [] [])"

theorem cut_login_rejected_witness:
  "\<exists>s1 s2. on_stream_read quad_env (bslash # ''gamename'' @ bslash # ''g'') fresh_client = Some s1 \<and>
     v1_answer quad_env (Recieved_game (new_game\<lparr>secretkey := ''K''\<rparr>)) s1 = Some s2 \<and> m_close_when_sendbuffer_empty s2"
proof -
  let ?p = "bslash # ''gamename'' @ bslash # ''g''"
  have s: "\<not> m_delete_flag fresh_client" "\<not> m_socket_deleted fresh_client" "\<not> m_validated fresh_client"
    "m_waiting_gamedata fresh_client = 0" "m_kv_accumulator fresh_client = []" "length (c_string (v1_challenge fresh_client)) = 6"
    by (simp_all add: fresh_client_def sb_peer.defs v1peer.defs new_sb_peer_def c_string_def nul_def)
  have p: "find_sub final_str ?p = None" "?p \<noteq> []" "skip_queryid ?p = ?p" "length ?p \<le> 5000"
    "take 7 (c_string ?p) \<noteq> bslash # ''basic'' @ [bslash]" by code_simp+
  have l: "parsed ?p = Some [(''gamename'', ''g'')]" "[(''gamename'', ''g'')] \<noteq> []"
    "c_string (GetKeyByIdx [(''gamename'', ''g'')] 0) = ''gamename''" "\<not> HasKey [(''gamename'', ''g'')] ''validate''"
    by code_simp+
  have g: "c_string (secretkey (new_game\<lparr>secretkey := ''K''\<rparr>)) \<noteq> []" by (simp add: c_string_def nul_def)
  show ?thesis using cut_login_rejected [OF s p l g, of quad_env] by blast
qed

end
