(* ===== verification/V2Peer.thy ===== *)
theory V2Peer
  imports SbPeer SBCrypt
begin

text \<open>
  A peer of the second version of the server browser (\<open>server/V2Peer.cpp\<close>): cutting the stream into packets,
  the list requests, the encrypted lists in answer to them, and the pushes. A message is built as the bytes
  its buffer would hold, since writing to an \<open>OS::Buffer\<close> appends and never fails; reading goes through the
  buffer of the model. \<open>None\<close> is undefined behaviour or an exception.
\<close>

section \<open>State\<close>

record v2peer = sb_peer +
  m_sent_crypt_header :: bool
  m_challenge :: "byte option list"
  m_crypt_state :: GOACryptState
  m_sent_push_keys :: bool
  m_got_game_pair :: bool
  m_in_message :: bool
  m_read_buffer :: buffer
  m_read_remaining :: i32
  m_hp_msg_spam_count :: i32
  m_hp_msg_spam_last_msg_sent_to :: Address

definition zero_goa :: GOACryptState where
  "zero_goa = \<lparr>cards = replicate 256 0, rotor = 0, ratchet = 0, avalanche = 0, last_plain = 0, last_cipher = 0\<rparr>"

definition new_v2peer :: "peer_env \<Rightarrow> Address \<Rightarrow> v2peer" where
  "new_v2peer E a = sb_peer.extend (new_sb_peer E a 2)
     (v2peer.fields False (replicate 8 None) zero_goa False False False Buffer_new 0 0 Address_default)"

abbreviation (input) "LIST_CHALLENGE_LEN \<equiv> 8 :: nat"
abbreviation (input) "CRYPTCHAL_LEN \<equiv> 10 :: nat"
abbreviation (input) "SERVCHAL_LEN \<equiv> 25 :: nat"
abbreviation (input) "MAX_INCOMING_BUFFER_SIZE \<equiv> 1024 :: i32"
abbreviation (input) "QR2_USE_QUERY_CHALLENGE \<equiv> 128 :: i32"

section \<open>Sending\<close>

definition mark_flags :: "i32 \<Rightarrow> byte list \<Rightarrow> byte list" where
  "mark_flags flags cryptchal =
     (let w = htons (word_of_nat (le_val (take 2 cryptchal)));
          w = (if flags AND QR2_USE_QUERY_CHALLENGE \<noteq> 0 then w OR 128 else w AND NOT 128)
      in le_bytes 2 (unat (htons w)) @ drop 2 cryptchal)"

text \<open>The key's characters are signed; the product wraps at 32 bits.\<close>

definition mix_challenge :: "byte list \<Rightarrow> byte list \<Rightarrow> byte list \<Rightarrow> byte list" where
  "mix_challenge seckey servchal chal =
     fold (\<lambda>i c. let k = unat (word_of_nat i * scast (seckey ! (i mod length seckey)) :: u32) mod LIST_CHALLENGE_LEN
          in c[k := c ! k XOR (c ! (i mod LIST_CHALLENGE_LEN) XOR servchal ! i)])
       [0..<SERVCHAL_LEN] chal"

definition setupCryptHeader :: "peer_env \<Rightarrow> v2peer \<Rightarrow> (byte list \<times> v2peer) option" where
  "setupCryptHeader E s =
     (if None \<in> set (m_challenge s) \<or> secretkey (m_game s) = [] then None
      else do {
        let cryptchal = mark_flags (backendflags (m_game s)) (map (\<lambda>i. word_of_nat (rand_at E i)) [0..<CRYPTCHAL_LEN]);
        let servchal = map (\<lambda>i. word_of_nat (rand_at E i)) [CRYPTCHAL_LEN..<CRYPTCHAL_LEN + SERVCHAL_LEN];
        let chal = mix_challenge (string_bytes (secretkey (m_game s))) servchal (map the (m_challenge s));
        st \<leftarrow> GOACryptInit (m_crypt_state s) chal (word_of_nat LIST_CHALLENGE_LEN);
        Some ([word_of_nat CRYPTCHAL_LEN XOR 0xEC] @ cryptchal @ [word_of_nat SERVCHAL_LEN XOR 0xEA] @ servchal,
          s\<lparr>m_challenge := map Some chal, m_crypt_state := st\<rparr>) })"

definition SendPacket :: "peer_env \<Rightarrow> byte list \<Rightarrow> bool \<Rightarrow> v2peer \<Rightarrow> v2peer option" where
  "SendPacket E buff prepend_length s =
     (if m_delete_flag s then Some s
      else do {
        (header, s) \<leftarrow> (if \<not> m_sent_crypt_header s \<and> c_string (secretkey (m_game s)) \<noteq> []
          then map_option (\<lambda>(h, s). (h, s\<lparr>m_sent_crypt_header := True\<rparr>)) (setupCryptHeader E s)
          else Some ([], s));
        let len = (if prepend_length then le_bytes 2 (unat (htons (word_of_nat (length buff + 2)))) else []);
        let (crypted, st) = GOAEncrypt (m_crypt_state s) (len @ buff);
        Some (append_send_buffer (header @ crypted) False (s\<lparr>m_crypt_state := st\<rparr>)) })"

definition send_error :: "bool \<Rightarrow> string \<Rightarrow> v2peer \<Rightarrow> v2peer" where
  "send_error die text s = append_send_buffer (string_bytes text) die s"

section \<open>One server\<close>

abbreviation (input) "UNSOLICITED_UDP_FLAG \<equiv> 1 :: byte"
abbreviation (input) "PRIVATE_IP_FLAG \<equiv> 2 :: byte"
abbreviation (input) "CONNECT_NEGOTIATE_FLAG \<equiv> 4 :: byte"
abbreviation (input) "ICMP_IP_FLAG \<equiv> 8 :: byte"
abbreviation (input) "NONSTANDARD_PORT_FLAG \<equiv> 16 :: byte"
abbreviation (input) "NONSTANDARD_PRIVATE_PORT_FLAG \<equiv> 32 :: byte"
abbreviation (input) "HAS_KEYS_FLAG \<equiv> 64 :: byte"
abbreviation (input) "HAS_FULL_RULES_FLAG \<equiv> 128 :: byte"

abbreviation (input) "KEYTYPE_STRING \<equiv> 0 :: nat"
abbreviation (input) "KEYTYPE_BYTE \<equiv> 1 :: nat"
abbreviation (input) "KEYTYPE_SHORT \<equiv> 2 :: nat"

definition be16 :: "u16 \<Rightarrow> byte list" where
  "be16 w = le_bytes 2 (unat (htons w))"

definition nonstandard_port :: "Server \<Rightarrow> bool" where
  "nonstandard_port server \<longleftrightarrow> uint (raw_port (wan_address server)) \<noteq> sint (queryport (game server))"

definition wants_negotiation :: "Server \<Rightarrow> bool" where
  "wants_negotiation server \<longleftrightarrow> (case smap_find (kvFields server) ''natneg'' of None \<Rightarrow> False | Some v \<Rightarrow> atoi v = 1) \<and>
     \<not> allow_unsolicited_udp server"

definition local_port :: "Server \<Rightarrow> u16 option" where
  "local_port server = (case smap_find (kvFields server) ''localport'' of None \<Rightarrow> None
     | Some v \<Rightarrow> if queryport (game server) \<noteq> atoi v then Some (ucast (atoi v)) else None)"

definition keys_left_out :: "v2peer \<Rightarrow> Server \<Rightarrow> bool \<Rightarrow> bool \<Rightarrow> bool \<Rightarrow> bool" where
  "keys_left_out s server push full_keys no_keys \<longleftrightarrow> no_keys \<or>
     allow_unsolicited_udp server \<and> \<not> send_fields_for_all (m_last_list_req s) \<and>
     \<not> send_groups (m_last_list_req s) \<and> \<not> push \<and> \<not> full_keys"

definition flag :: "bool \<Rightarrow> byte \<Rightarrow> byte" where
  "flag b f = (if b then f else 0)"

definition server_flags :: "v2peer \<Rightarrow> Server \<Rightarrow> bool \<Rightarrow> bool \<Rightarrow> bool \<Rightarrow> byte" where
  "server_flags s server push full_keys no_keys =
     flag (nonstandard_port server) NONSTANDARD_PORT_FLAG OR
     flag (allow_unsolicited_udp server) UNSOLICITED_UDP_FLAG OR
     flag (wants_negotiation server) CONNECT_NEGOTIATE_FLAG OR
     flag (ip (icmp_address server) \<noteq> 0) ICMP_IP_FLAG OR
     flag (smap_find (kvFields server) ''localip0'' \<noteq> None) PRIVATE_IP_FLAG OR
     flag (local_port server \<noteq> None) NONSTANDARD_PRIVATE_PORT_FLAG OR
     (if keys_left_out s server push full_keys no_keys then 0
      else if full_keys then HAS_FULL_RULES_FLAG else HAS_KEYS_FLAG)"

definition find_value :: "string \<Rightarrow> string list \<Rightarrow> nat option" where
  "find_value v vs = (let n = length (takeWhile (\<lambda>x. x \<noteq> v) vs) in if n < length vs then Some n else None)"

text \<open>One value of the key list: an index into the popular values, or the value itself.\<close>

definition value_bytes :: "Server \<Rightarrow> bool \<Rightarrow> (string, nat) smap option \<Rightarrow> string \<Rightarrow> byte list" where
  "value_bytes server push optimized f =
     (let stored = smap_find (kvFields server) f;
          v = (case stored of None \<Rightarrow> [] | Some x \<Rightarrow> c_string x);
          popular = (if stored = None then None else find_value v (popular_values (game server)));
          ty = (case optimized of None \<Rightarrow> KEYTYPE_STRING
            | Some types \<Rightarrow> (case smap_find types f of None \<Rightarrow> KEYTYPE_STRING | Some t \<Rightarrow> t))
      in case popular of Some i \<Rightarrow> [word_of_nat i]
         | None \<Rightarrow> (if ty = KEYTYPE_STRING \<and> \<not> push then [0xFF] else []) @
             (if v = [] then [0]
              else if ty = KEYTYPE_BYTE then [ucast (atoi v)]
              else if ty = KEYTYPE_SHORT then be16 (ucast (atoi v))
              else if ty = KEYTYPE_STRING then NTS v
              else []))"

definition indexed_fields :: "(int, (string, string) smap) smap \<Rightarrow> byte list" where
  "indexed_fields m = concat (map (\<lambda>(i, kvs).
     concat (map (\<lambda>(k, v). NTS (k @ dec_nat (nat i)) @ NTS v) kvs)) m)"

definition full_rules :: "Server \<Rightarrow> byte list" where
  "full_rules server = concat (map (\<lambda>(k, v). NTS k @ NTS v) (kvFields server)) @
     indexed_fields (kvPlayers server) @ indexed_fields (kvTeams server) @ [0]"

definition server_bytes :: "peer_env \<Rightarrow> v2peer \<Rightarrow> Server \<Rightarrow> bool \<Rightarrow> bool \<Rightarrow> bool \<Rightarrow>
    (string, nat) smap option \<Rightarrow> bool \<Rightarrow> byte list" where
  "server_bytes E s server usepopularlist push full_keys optimized no_keys =
     (let flags = server_flags s server push full_keys no_keys;
          left_out = keys_left_out s server push full_keys no_keys
      in (if push then [2] else []) @ [flags] @ le_bytes 4 (unat (ip (wan_address server))) @
         (if nonstandard_port server then be16 (raw_port (wan_address server)) else []) @
         (case smap_find (kvFields server) ''localip0'' of None \<Rightarrow> []
          | Some v \<Rightarrow> le_bytes 4 (unat (inet_addr E (c_string v)))) @
         (case local_port server of None \<Rightarrow> [] | Some p \<Rightarrow> be16 p) @
         (if ip (icmp_address server) \<noteq> 0 then le_bytes 4 (unat (ip (icmp_address server))) else []) @
         (if \<not> left_out \<and> \<not> full_keys \<and> usepopularlist
          then concat (map (value_bytes server push optimized) (field_list (m_last_list_req s))) else []) @
         (if \<not> left_out \<and> full_keys then full_rules server else []))"

text \<open>
  With a buffer the server is appended to it; without one it is a packet of its own. A server whose address
  is \<open>-1\<close> is left out.
\<close>

definition sendServerData :: "peer_env \<Rightarrow> Server \<Rightarrow> bool \<Rightarrow> bool \<Rightarrow> byte list option \<Rightarrow> bool \<Rightarrow>
    (string, nat) smap option \<Rightarrow> bool \<Rightarrow> v2peer \<Rightarrow> (byte list option \<times> v2peer) option" where
  "sendServerData E server usepopularlist push sendBuffer full_keys optimized no_keys s =
     (if ip (wan_address server) = - 1 then Some (sendBuffer, s)
      else let bs = server_bytes E s server usepopularlist push full_keys optimized no_keys in
        case sendBuffer of
          Some buf \<Rightarrow> Some (Some (buf @ bs), s)
        | None \<Rightarrow> map_option (Pair None) (SendPacket E bs push s))"

section \<open>Lists\<close>

text \<open>
  \<open>WriteOptimizedField\<close>: \<open>strtol\<close> always sets \<open>pEnd\<close>, so \<open>is_digit\<close> stays false, the type is always that of
  strings and the highest value is not used; but looking each server's value up adds the field to the server.
\<close>

definition touch_field :: "string \<Rightarrow> Server \<Rightarrow> Server" where
  "touch_field f server = server\<lparr>kvFields := snd (smap_index [] f (kvFields server))\<rparr>"

definition WriteOptimizedField :: "string \<Rightarrow> Server list \<times> byte list \<times> (string, nat) smap \<Rightarrow>
    Server list \<times> byte list \<times> (string, nat) smap" where
  "WriteOptimizedField f st =
     (case st of (servers, buf, types) \<Rightarrow>
        (map (touch_field f) servers, buf @ [word_of_nat KEYTYPE_STRING] @ NTS f, smap_put f KEYTYPE_STRING types))"

primrec send_servers :: "peer_env \<Rightarrow> bool \<Rightarrow> bool \<Rightarrow> (string, nat) smap \<Rightarrow> Server list \<Rightarrow>
    byte list option \<Rightarrow> v2peer \<Rightarrow> (byte list option \<times> v2peer) option" where
  "send_servers E usepopularlist full types [] buf s = Some (buf, s)"
| "send_servers E usepopularlist full types (server # servers) buf s =
     Option.bind (sendServerData E server usepopularlist False buf full (Some types) False s)
       (\<lambda>(buf, s). send_servers E usepopularlist full types servers buf s)"

definition popular_bytes :: "bool \<Rightarrow> GameData \<Rightarrow> byte list" where
  "popular_bytes usepopularlist g =
     (if usepopularlist then [word_of_nat (length (popular_values g))] @ concat (map NTS (popular_values g)) else [0])"

text \<open>Later parts of a list have no head: their buffer is taken back after the servers went out one by one.\<close>

definition SendListQueryResp ::
  "peer_env \<Rightarrow> ServerListQuery \<Rightarrow> sServerListReq \<Rightarrow> bool \<Rightarrow> bool \<Rightarrow> v2peer \<Rightarrow> v2peer option" where
  "SendListQueryResp E servers list_req usepopularlist send_fullkeys s =
     do { src \<leftarrow> source_ip list_req;
          let head = le_bytes 4 (unat (if src \<noteq> 0 then src else ip (m_address s))) @
            be16 (ucast (queryport (m_for_game list_req)));
          (buf, s) \<leftarrow> (if no_server_list list_req then Some (head, s)
            else do {
              let (list, buf, types) = fold WriteOptimizedField (field_list list_req)
                (found servers, head @ [word_of_nat (length (field_list list_req))], []);
              let buf = buf @ popular_bytes usepopularlist (m_for_game list_req);
              (out, s) \<leftarrow> send_servers E usepopularlist send_fullkeys types list
                (if first_set servers then Some buf else None) s;
              let buf = (case out of None \<Rightarrow> [] | Some b \<Rightarrow> b);
              Some (if found servers = [] \<or> last_set servers then buf @ [0] @ le_bytes 4 0xFFFFFFFF else buf, s) });
          let s = s\<lparr>m_last_recv := now E\<rparr>;
          s \<leftarrow> (if buf \<noteq> [] then SendPacket E buf False s else Some s);
          Some (if last_set servers then s\<lparr>m_in_message := False\<rparr> else s) }"

definition SendPushKeys :: "peer_env \<Rightarrow> v2peer \<Rightarrow> v2peer option" where
  "SendPushKeys E s =
     (let keys = push_keys (m_from_game (m_last_list_req s)) in
      if keys = [] then Some s
      else SendPacket E ([1, word_of_nat (length keys)] @ concat (map (\<lambda>(k, t). t # NTS k) keys)) True s)"

definition OnRetrievedServers :: "peer_env \<Rightarrow> sServerListReq \<Rightarrow> ServerListQuery \<Rightarrow> v2peer \<Rightarrow> v2peer option" where
  "OnRetrievedServers E req results s =
     do { s \<leftarrow> SendListQueryResp E results req True (all_keys req) s;
          if \<not> m_sent_push_keys s \<and> last_set results then SendPushKeys E (s\<lparr>m_sent_push_keys := True\<rparr>) else Some s }"

definition OnRetrievedGroups :: "peer_env \<Rightarrow> sServerListReq \<Rightarrow> ServerListQuery \<Rightarrow> v2peer \<Rightarrow> v2peer option" where
  "OnRetrievedGroups E req results s = SendListQueryResp E results req True False s"

definition OnRetrievedServerInfo :: "peer_env \<Rightarrow> ServerListQuery \<Rightarrow> v2peer \<Rightarrow> v2peer option" where
  "OnRetrievedServerInfo E results s =
     (case found results of [] \<Rightarrow> Some s
      | server # _ \<Rightarrow> map_option snd (sendServerData E server False True None True None False s))"

section \<open>Requests\<close>

definition OnRecievedGameInfo :: "v2peer \<Rightarrow> v2peer" where
  "OnRecievedGameInfo s = s\<lparr>m_in_message := False\<rparr>"

definition OnRecievedGameInfoPair :: "peer_env \<Rightarrow> GameData \<Rightarrow> GameData \<Rightarrow> v2peer \<Rightarrow> v2peer option" where
  "OnRecievedGameInfoPair E game_data_first game_data_second s =
     (let last = (m_last_list_req s)\<lparr>m_from_game := game_data_first, m_for_game := game_data_second\<rparr>;
          s = s\<lparr>m_in_message := False, m_game := game_data_first, m_last_list_req := last\<rparr>
      in if c_string (secretkey (m_game s)) = [] then Some (send_error True ''Invalid source gamename'' s)
         else if c_string (secretkey (m_for_game last)) = [] then Some (send_error True ''Invalid target gamename'' s)
         else (let s = s\<lparr>m_got_game_pair := True\<rparr> in
           if \<not> no_server_list last then
             Some (AddRequest (new_query_request\<lparr>rq_req := last, rq_type :=
                 (if send_groups last then EMMQueryRequestType_GetGroups else EMMQueryRequestType_GetServers)\<rparr>) False
               (s\<lparr>m_in_message := True\<rparr>))
           else SendListQueryResp E (new_query\<lparr>requested_fields := field_list last\<rparr>) last True False s))"

definition option_set :: "u32 \<Rightarrow> u32 \<Rightarrow> bool" where
  "option_set options f \<longleftrightarrow> options AND f \<noteq> 0"

text \<open>A request that fails early keeps the defaults of what was not read, and is still processed.\<close>

definition ParseListRequest :: "buffer \<Rightarrow> v2peer \<Rightarrow> (sServerListReq \<times> v2peer) option" where
  "ParseListRequest buf s =
     do { (pv, buf) \<leftarrow> ReadByte buf;
          (ev, buf) \<leftarrow> ReadByte buf;
          (gv, buf) \<leftarrow> ReadInt buf;
          (for_name, buf) \<leftarrow> read_text buf;
          (from_name, buf) \<leftarrow> read_text buf;
          let req = new_list_req\<lparr>protocol_version := pv, encoding_version := ev, game_version := gv,
            m_for_gamename := for_name, m_from_gamename := from_name\<rparr>;
          if from_name = [] then Some (req, send_error True ''No from gamename'' s)
          else if for_name = [] then Some (req, send_error True ''No for gamename'' s)
          else do {
            (chal, buf) \<leftarrow> ReadBuffer LIST_CHALLENGE_LEN buf;
            let s = (case chal of None \<Rightarrow> s | Some bs \<Rightarrow> s\<lparr>m_challenge := map Some bs\<rparr>);
            (flt, buf) \<leftarrow> read_text buf;
            (key_list, buf) \<leftarrow> read_text buf;
            field_names \<leftarrow> KeyStringToVector key_list False bslash;
            (raw, buf) \<leftarrow> ReadInt buf;
            let options = ntohl raw;
            (src, buf) \<leftarrow> (if option_set options 8 then ReadInt buf else Some (0, buf));
            (results, buf) \<leftarrow> (if option_set options 128 then ReadInt buf else Some (0, buf));
            let req = req\<lparr>req_filter := flt, field_list := field_names, send_groups := option_set options 32,
              send_fields_for_all := option_set options 1, no_server_list := option_set options 2,
              push_updates := option_set options 4, no_list_cache := option_set options 64,
              source_ip := Some src, max_results := results\<rparr>;
            Some (if no_server_list req \<and> field_list req = []
              then req\<lparr>field_list := map fst (push_keys (m_for_game req))\<rparr> else req, s) } }"

definition ProcessListRequest :: "peer_env \<Rightarrow> buffer \<Rightarrow> v2peer \<Rightarrow> v2peer option" where
  "ProcessListRequest E buf s =
     do { (parsed, s) \<leftarrow> ParseListRequest buf s;
          let last = parsed\<lparr>m_from_game := m_from_game (m_last_list_req s), m_for_game := m_for_game (m_last_list_req s)\<rparr>;
          tokens \<leftarrow> filterToTokenList (c_string (req_filter last));
          let s = s\<lparr>m_last_list_req := last, m_last_list_req_token_list := tokens\<rparr>;
          if \<not> m_got_game_pair s \<or> gamename (m_for_game last) \<noteq> m_for_gamename last then
            Some (AddRequest (new_query_request\<lparr>rq_req := last, rq_type := EMMQueryRequestType_GetGameInfoPairByGameName,
                gamenames := (m_from_gamename last, m_for_gamename last)\<rparr>) True (s\<lparr>m_in_message := True\<rparr>))
          else OnRecievedGameInfoPair E (m_game s) (m_for_game last) s }"

abbreviation (input) "HACKER_PATCH_MSG_SPAM_CHECKER_DUPLICATE \<equiv> 5 :: i32"

text \<open>The test of the spam patch: whether the message is refused, and the new state.\<close>

definition spam_check :: "Address \<Rightarrow> v2peer \<Rightarrow> bool \<times> v2peer" where
  "spam_check send_to s =
     (if m_hp_msg_spam_count s = 0 \<or> \<not> Address_eq (m_hp_msg_spam_last_msg_sent_to s) send_to then
        (False, s\<lparr>m_hp_msg_spam_last_msg_sent_to := send_to, m_hp_msg_spam_count := 1\<rparr>)
      else if HACKER_PATCH_MSG_SPAM_CHECKER_DUPLICATE <s m_hp_msg_spam_count s then (True, s)
      else (False, s\<lparr>m_hp_msg_spam_count := m_hp_msg_spam_count s + 1\<rparr>))"

definition ProcessSendMessage :: "buffer \<Rightarrow> v2peer \<Rightarrow> v2peer option" where
  "ProcessSendMessage buf s =
     do { (addr, buf) \<leftarrow> ReadInt buf;
          (prt, buf) \<leftarrow> ReadShort buf;
          let send_to = \<lparr>ip = addr, port = Some prt\<rparr>;
          let (refused, s) = spam_check send_to s;
          if refused then Some s
          else do {
            msg \<leftarrow> load (rd buf) (readRemaining buf) buf;
            Some (AddRequest (new_query_request\<lparr>rq_type := EMMQueryRequestType_SubmitData, rq_from := m_address s,
                rq_to := send_to, rq_buffer := msg, rq_req := new_list_req\<lparr>m_for_game := m_game s\<rparr>\<rparr>) True s) } }"

definition ProcessInfoRequest :: "buffer \<Rightarrow> v2peer \<Rightarrow> v2peer option" where
  "ProcessInfoRequest buf s =
     do { (addr, buf) \<leftarrow> ReadInt buf;
          (prt, buf) \<leftarrow> ReadShort buf;
          Some (AddRequest (new_query_request\<lparr>rq_type := EMMQueryRequestType_GetServerByIP,
              rq_address := \<lparr>ip = addr, port = Some prt\<rparr>,
              rq_req := new_list_req\<lparr>all_keys := True, all_player_keys := True, all_team_keys := True,
                m_for_game := m_game s\<rparr>\<rparr>) True s) }"

definition handle_packet :: "peer_env \<Rightarrow> buffer \<Rightarrow> v2peer \<Rightarrow> v2peer option" where
  "handle_packet E buf s =
     do { (request_type, buf) \<leftarrow> ReadByte buf;
          let s = s\<lparr>m_last_recv := now E\<rparr>;
          if request_type = 0 then ProcessListRequest E buf s
          else if request_type = 2 then ProcessSendMessage buf s
          else if request_type = 1 then ProcessInfoRequest buf s
          else Some s }"

section \<open>Reading the stream\<close>

text \<open>
  One turn of the loop over the bytes that are left: a length of big-endian 16 bits that counts itself, then
  as much of the packet as there is. The comparisons with \<open>readRemaining()\<close> are unsigned.
\<close>

definition read_length :: "byte list \<Rightarrow> i32 \<Rightarrow> buffer \<Rightarrow> byte list \<times> i32 \<times> buffer" where
  "read_length bs r buf =
     (if r \<noteq> 0 then (bs, r, buf)
      else if length bs < 2 then (bs, - 2, resetCursors buf)
      else (drop 2 bs, ucast (htons (word_of_nat (le_val (take 2 bs)))) - 2, resetCursors buf))"

definition enough :: "i32 \<Rightarrow> byte list \<Rightarrow> bool" where
  "enough r bs \<longleftrightarrow> unat (scast r :: u64) \<le> length bs"

lemma read_length_shorter: "read_length bs r buf = (bs', r', buf') \<Longrightarrow> length bs' \<le> length bs"
  by (auto simp: read_length_def split: if_splits)

lemma turn_shorter:
  assumes "bs \<noteq> []" and "read_length bs r buf = (bs', r', buf')" and "enough r' bs'"
  shows "length bs' - unat (scast r' :: u64) < length bs"
proof (cases "r' = 0")
  case True
  then show ?thesis using assms by (auto simp: read_length_def split: if_splits)
next
  case False
  have "(scast r' :: u64) \<noteq> 0"
  proof
    assume z: "(scast r' :: u64) = 0"
    have "bit r' n = bit (scast r' :: u64) n" if "n < 32" for n using that by (auto simp: bit_simps)
    with z have "r' = 0" by (intro bit_word_eqI) simp
    then show False using False by simp
  qed
  then have "0 < unat (scast r' :: u64)" by (simp add: unat_gt_0)
  then show ?thesis using read_length_shorter [OF assms(2)] assms(3) False
    by (cases "bs' = []") (use assms(1) in \<open>auto simp: enough_def\<close>)
qed

function read_turns :: "peer_env \<Rightarrow> byte list \<Rightarrow> v2peer \<Rightarrow> v2peer option" where
  "read_turns E bs s =
     (if bs = [] then Some s
      else let (bs, r, buf) = read_length bs (m_read_remaining s) (m_read_buffer s) in
        if MAX_INCOMING_BUFFER_SIZE <s r
        then Some (Delete_peer False (s\<lparr>m_read_remaining := r, m_read_buffer := buf\<rparr>))
        else if enough r bs then
          do { let n = unat (scast r :: u64);
               buf \<leftarrow> WriteBuffer (take n bs) buf;
               s \<leftarrow> handle_packet E buf (s\<lparr>m_read_remaining := 0, m_read_buffer := buf\<rparr>);
               read_turns E (drop n bs) (s\<lparr>m_read_buffer := resetCursors (m_read_buffer s)\<rparr>) }
        else
          do { buf \<leftarrow> WriteBuffer bs buf;
               Some (s\<lparr>m_read_remaining := r - word_of_nat (length bs), m_read_buffer := buf\<rparr>) })"
  by pat_completeness auto
termination
  by (relation "measure (\<lambda>(E, bs, s). length bs)") (auto intro: turn_shorter [OF _ sym])

declare read_turns.simps [simp del]

definition on_stream_read :: "peer_env \<Rightarrow> byte list \<Rightarrow> v2peer \<Rightarrow> v2peer option" where
  "on_stream_read E data s = read_turns E data s"

section \<open>Time and news\<close>

definition send_ping :: "peer_env \<Rightarrow> v2peer \<Rightarrow> v2peer option" where
  "send_ping E s =
     (if m_in_message s \<or> now E - m_last_ping s \<le> SB_PING_TIME then Some s
      else SendPacket E [3, 3] True (s\<lparr>m_last_ping := now E\<rparr>))"

definition think :: "peer_env \<Rightarrow> v2peer \<Rightarrow> v2peer option" where
  "think E s =
     (if m_delete_flag s then Some s
      else do { s \<leftarrow> send_ping E s;
           Some (if now E - m_last_recv s > SB_PING_TIME * 2 then Delete_peer True s else s) })"

text \<open>The look may add fields to the server, which the next peer then sees.\<close>

definition informDeleteServers :: "peer_env \<Rightarrow> Server \<Rightarrow> v2peer \<Rightarrow> (Server \<times> v2peer) option" where
  "informDeleteServers E server s =
     (if \<not> push_updates (m_last_list_req s) \<or> m_in_message s then Some (server, s)
      else do { (ok, server) \<leftarrow> serverMatchesLastReq server s;
           s \<leftarrow> (if ok then SendPacket E ([4] @ le_bytes 4 (unat (ip (wan_address server))) @
             be16 (raw_port (wan_address server))) True s else Some s);
           Some (server, s) })"

definition informNewServers :: "peer_env \<Rightarrow> Server \<Rightarrow> v2peer \<Rightarrow> (Server \<times> v2peer) option" where
  "informNewServers E server s =
     (if \<not> push_updates (m_last_list_req s) \<or> m_in_message s then Some (server, s)
      else do { (ok, server) \<leftarrow> serverMatchesLastReq server s;
           s \<leftarrow> (if ok then map_option snd (sendServerData E server True True None False None False s) else Some s);
           Some (server, s) })"

definition informUpdateServers :: "peer_env \<Rightarrow> Server \<Rightarrow> v2peer \<Rightarrow> (Server \<times> v2peer) option" where
  "informUpdateServers E server s =
     (if \<not> push_updates (m_last_list_req s) \<or> m_in_message s then Some (server, s)
      else do { (ok, server) \<leftarrow> serverMatchesLastReq server s;
           s \<leftarrow> (if ok then map_option snd (sendServerData E server True True None False None False s) else Some s);
           Some (server, s) })"

section \<open>The results of the tasks\<close>

definition v2_answer :: "peer_env \<Rightarrow> sb_answer \<Rightarrow> v2peer \<Rightarrow> v2peer option" where
  "v2_answer E a s =
     (case a of
        Retrieved_servers req parts \<Rightarrow> hand_parts (OnRetrievedServers E req) parts s
      | Retrieved_groups req parts \<Rightarrow> hand_parts (OnRetrievedGroups E req) parts s
      | Retrieved_info q \<Rightarrow> OnRetrievedServerInfo E q s
      | Recieved_game g \<Rightarrow> Some (OnRecievedGameInfo s)
      | Recieved_games a b \<Rightarrow> OnRecievedGameInfoPair E a b s
      | Submitted m \<Rightarrow> Some s)"

section \<open>A length that is cut\<close>

primrec read_chunks :: "peer_env \<Rightarrow> byte list list \<Rightarrow> v2peer \<Rightarrow> v2peer option" where
  "read_chunks E [] s = Some s"
| "read_chunks E (c # cs) s = Option.bind (on_stream_read E c s) (read_chunks E cs)"

lemma sint_minus:
  assumes "- (2 ^ 31) \<le> sint (r :: i32) - int n" and "sint r < 0"
  shows "sint (r - word_of_nat n) = sint r - int n"
proof -
  have "r - word_of_nat n = word_of_int (sint r - int n)" by simp
  then have "sint (r - word_of_nat n) = signed_take_bit 31 (sint r - int n)"
    by (simp only: signed_of_int) simp
  then show ?thesis using assms by (simp add: signed_take_bit_int_eq_self)
qed

lemma negative_mod: "- (2 ^ 31) \<le> x \<Longrightarrow> x < 0 \<Longrightarrow> x mod 2 ^ 64 = x + 2 ^ 64" for x :: int
proof -
  assume x: "- (2 ^ 31) \<le> x" "x < 0"
  then have "0 \<le> x + 2 ^ 64" "x + 2 ^ 64 < 2 ^ 64" by simp_all
  then have "(x + 2 ^ 64) mod 2 ^ 64 = x + 2 ^ 64" by (rule mod_pos_pos_trivial)
  then show ?thesis by (simp only: mod_add_self2)
qed

lemma negative_not_enough:
  assumes "sint r < 0" and "length bs < 2 ^ 63"
  shows "\<not> enough r bs"
proof -
  have low: "- (2 ^ 31) \<le> sint r" using sint_greater_eq [of r] by simp
  have "uint (scast r :: u64) = sint r mod 2 ^ 64" by (simp only: scast_eq uint_word_of_int) simp
  then have n: "int (unat (scast r :: u64)) = sint r + 2 ^ 64" by (simp only: uint_nat negative_mod [OF low assms(1)])
  define u where "u = unat (scast r :: u64)"
  have "int u = sint r + 2 ^ 64" unfolding u_def by (rule n)
  with low have "2 ^ 63 \<le> u" by simp
  then show ?thesis unfolding enough_def u_def [symmetric] using assms(2) by simp
qed

lemma negative_turn:
  assumes r: "sint (m_read_remaining s) < 0" "- (2 ^ 31) \<le> sint (m_read_remaining s) - int (length bs)"
    and sink: "sink_ok (m_read_buffer s)"
  shows "\<exists>buf. on_stream_read E bs s = Some (s\<lparr>m_read_remaining := m_read_remaining s - word_of_nat (length bs),
      m_read_buffer := buf\<rparr>) \<and> sink_ok buf \<and> wr buf = wr (m_read_buffer s) + length bs \<and>
      sint (m_read_remaining s - word_of_nat (length bs)) = sint (m_read_remaining s) - int (length bs)"
proof -
  have len: "length bs < 2 ^ 63" using r by simp
  have nz: "m_read_remaining s \<noteq> 0" using r(1) by auto
  have small: "\<not> MAX_INCOMING_BUFFER_SIZE <s m_read_remaining s" using r(1) by (simp add: word_sless_alt)
  obtain buf where buf: "WriteBuffer bs (m_read_buffer s) = Some buf" "sink_ok buf"
      "wr buf = wr (m_read_buffer s) + length bs"
    using store_last_sink [OF sink, of bs] by (auto simp: WriteBuffer_def)
  show ?thesis
  proof (cases "bs = []")
    case True
    then show ?thesis using sink by (intro exI [of _ "m_read_buffer s"]) (simp add: on_stream_read_def read_turns.simps)
  next
    case False
    then have "on_stream_read E bs s = Some (s\<lparr>m_read_remaining := m_read_remaining s - word_of_nat (length bs),
        m_read_buffer := buf\<rparr>)"
      using negative_not_enough [OF r(1) len] small nz buf(1)
      by (simp add: on_stream_read_def read_turns.simps [of E bs s] read_length_def)
    then show ?thesis using buf sint_minus [OF r(2,1)] by (intro exI [of _ buf]) simp
  qed
qed

lemma negative_chunks:
  assumes "sint (m_read_remaining s) < 0" "- (2 ^ 31) \<le> sint (m_read_remaining s) - int (length (concat cs))"
    and "sink_ok (m_read_buffer s)"
  shows "\<exists>r buf. read_chunks E cs s = Some (s\<lparr>m_read_remaining := r, m_read_buffer := buf\<rparr>) \<and> sint r < 0 \<and>
      wr buf = wr (m_read_buffer s) + length (concat cs)"
  using assms
proof (induction cs arbitrary: s)
  case Nil
  then show ?case by (intro exI [of _ "m_read_remaining s"] exI [of _ "m_read_buffer s"]) simp
next
  case (Cons c cs)
  obtain buf where buf: "on_stream_read E c s = Some (s\<lparr>m_read_remaining := m_read_remaining s - word_of_nat (length c),
      m_read_buffer := buf\<rparr>)" "sink_ok buf" "wr buf = wr (m_read_buffer s) + length c"
      "sint (m_read_remaining s - word_of_nat (length c)) = sint (m_read_remaining s) - int (length c)"
    using negative_turn [OF Cons.prems(1) _ Cons.prems(3), of c E] Cons.prems(2) by auto
  let ?t = "s\<lparr>m_read_remaining := m_read_remaining s - word_of_nat (length c), m_read_buffer := buf\<rparr>"
  have "sint (m_read_remaining ?t) < 0" using buf(4) Cons.prems(1) by simp
  moreover have "- (2 ^ 31) \<le> sint (m_read_remaining ?t) - int (length (concat cs))"
    using buf(4) Cons.prems(2) by simp
  ultimately obtain r b where "read_chunks E cs ?t = Some (?t\<lparr>m_read_remaining := r, m_read_buffer := b\<rparr>)" "sint r < 0"
      "wr b = wr buf + length (concat cs)"
    using Cons.IH [of ?t] buf(2) by auto
  then show ?case using buf by (intro exI [of _ r] exI [of _ b]) simp
qed

text \<open>C9. 
  A packet whose first byte arrives alone ends the conversation: the length is taken to be 0, the count of
  missing bytes becomes -3, and whatever arrives afterwards, in whatever pieces, no packet is handled. The bytes
  are only collected in the read buffer, which grows with every one of them.
\<close>

theorem cut_length_loses_peer:
  assumes "m_read_remaining s = 0" and "sink_ok (m_read_buffer s)" and "length (concat chunks) < 2 ^ 31 - 3"
  shows "\<exists>r buf. read_chunks E ([x] # chunks) s = Some (s\<lparr>m_read_remaining := r, m_read_buffer := buf\<rparr>) \<and>
    sint r < 0 \<and> bytesWritten buf = 1 + length (concat chunks)"
proof -
  let ?b = "resetCursors (m_read_buffer s)"
  have sink: "sink_ok ?b" using assms(2) by (simp add: sink_ok_def resetCursors_def allocSize_def)
  have s2: "sint (- 2 :: i32) < 0" "sint (- 3 :: i32) = - 3" by simp_all
  obtain buf where buf: "WriteBuffer [x] ?b = Some buf" "sink_ok buf" "wr buf = 1"
    using store_last_sink [OF sink, of "[x]"] by (auto simp: WriteBuffer_def resetCursors_def)
  have first: "on_stream_read E [x] s = Some (s\<lparr>m_read_remaining := - 3, m_read_buffer := buf\<rparr>)"
    using assms(1) negative_not_enough [OF s2(1), of "[x]"] buf(1)
    by (simp add: on_stream_read_def read_turns.simps [of E "[x]" s] read_length_def word_sless_alt)
  have "- (2 ^ 31) \<le> sint (- 3 :: i32) - int (length (concat chunks))" using assms(3) by simp
  then obtain r b where "read_chunks E chunks (s\<lparr>m_read_remaining := - 3, m_read_buffer := buf\<rparr>) =
      Some (s\<lparr>m_read_remaining := r, m_read_buffer := b\<rparr>)" "sint r < 0" "wr b = 1 + length (concat chunks)"
    using negative_chunks [of "s\<lparr>m_read_remaining := - 3, m_read_buffer := buf\<rparr>" chunks E] buf by auto
  then show ?thesis using first by (intro exI [of _ r] exI [of _ b]) (simp add: bytesWritten_def)
qed

theorem cut_length_loses_peer_witness:
  "\<exists>r buf. read_chunks quad_env [[0], [3, 2]] (new_v2peer quad_env Address_default) =
      Some ((new_v2peer quad_env Address_default)\<lparr>m_read_remaining := r, m_read_buffer := buf\<rparr>) \<and> bytesWritten buf = 3"
  using cut_length_loses_peer [of "new_v2peer quad_env Address_default" "[[3, 2]]" quad_env 0]
  by (auto simp: new_v2peer_def sb_peer.defs v2peer.defs new_sb_peer_def sink_ok_def Buffer_new_def Buffer_alloc_def allocSize_def)

section \<open>The spam patch\<close>

primrec spam_verdicts :: "Address list \<Rightarrow> v2peer \<Rightarrow> bool list" where
  "spam_verdicts [] s = []"
| "spam_verdicts (a # as) s = (let (refused, s) = spam_check a s in refused # spam_verdicts as s)"

lemma spam_refused:
  assumes "m_hp_msg_spam_count s = 6" and "m_hp_msg_spam_last_msg_sent_to s = a"
  shows "spam_verdicts (replicate n a) s = replicate n True"
  using assms by (induction n) (simp_all add: spam_check_def Address_eq_def word_sless_alt)

lemma spam_counted:
  assumes "m_hp_msg_spam_count s = word_of_nat k" and "1 \<le> k" and "k \<le> 6" and "m_hp_msg_spam_last_msg_sent_to s = a"
  shows "spam_verdicts (replicate n a) s = replicate (min n (6 - k)) False @ replicate (n - (6 - k)) True"
  using assms
proof (induction "6 - k" arbitrary: k s n)
  case 0
  then show ?case using spam_refused [of s a n] by simp
next
  case (Suc m)
  have k: "word_of_nat k \<noteq> (0 :: i32)" "\<not> (5 :: i32) <s word_of_nat k"
  proof -
    have "k = 1 \<or> k = 2 \<or> k = 3 \<or> k = 4 \<or> k = 5" using Suc.hyps(2) Suc.prems(2) by arith
    then show "word_of_nat k \<noteq> (0 :: i32)" "\<not> (5 :: i32) <s word_of_nat k" by (elim disjE; simp add: word_sless_alt)+
  qed
  show ?case
  proof (cases n)
    case (Suc n')
    have "6 - k = Suc (6 - Suc k)" using Suc.hyps(2) by simp
    then show ?thesis
      using Suc Suc.hyps Suc.prems k Suc.hyps(1) [of "Suc k" "s\<lparr>m_hp_msg_spam_count := word_of_nat (Suc k)\<rparr>" n']
      by (simp add: spam_check_def Address_eq_def algebra_simps)
  qed simp
qed

text \<open>C10. 
  Of any number of messages a new peer sends to one address in a row, the first six are passed on and all
  others are refused.
\<close>

theorem spam_limit:
  assumes "m_hp_msg_spam_count s = 0"
  shows "spam_verdicts (replicate n a) s = replicate (min n 6) False @ replicate (n - 6) True"
proof (cases n)
  case (Suc n')
  let ?s = "s\<lparr>m_hp_msg_spam_last_msg_sent_to := a, m_hp_msg_spam_count := 1\<rparr>"
  have "spam_verdicts (replicate n a) s = False # spam_verdicts (replicate n' a) ?s"
    using assms Suc by (simp add: spam_check_def)
  moreover have "min (Suc n') 6 = Suc (min n' 5)" "Suc n' - 6 = n' - 5" by auto
  ultimately show ?thesis using spam_counted [of ?s 1 a n'] Suc by simp
qed simp

theorem spam_limit_witness:
  "spam_verdicts (replicate 8 Address_default) (new_v2peer quad_env Address_default) = [False, False, False, False, False, False, True, True]"
  using spam_limit [of "new_v2peer quad_env Address_default" 8 Address_default]
  by (simp add: new_v2peer_def sb_peer.defs v2peer.defs new_sb_peer_def numeral_eq_Suc)

section \<open>What a client reads\<close>

text \<open>
  The other end of the protocol: the reader of a list that a client is. It decrypts, and reads the head, the
  names of the keys, the popular values and the servers up to the one with address \<open>-1\<close>.
\<close>

definition read_nts :: "byte list \<Rightarrow> (string \<times> byte list) option" where
  "read_nts bs = (case dropWhile (\<lambda>b. b \<noteq> 0) bs of [] \<Rightarrow> None
     | _ # r \<Rightarrow> Some (response_chars (takeWhile (\<lambda>b. b \<noteq> 0) bs), r))"

definition read_u32 :: "byte list \<Rightarrow> (u32 \<times> byte list) option" where
  "read_u32 bs = (if length bs < 4 then None else Some (word_of_nat (le_val (take 4 bs)), drop 4 bs))"

definition read_be16 :: "byte list \<Rightarrow> (u16 \<times> byte list) option" where
  "read_be16 bs = (if length bs < 2 then None else Some (htons (word_of_nat (le_val (take 2 bs))), drop 2 bs))"

definition part_if :: "bool \<Rightarrow> (byte list \<Rightarrow> ('a \<times> byte list) option) \<Rightarrow> byte list \<Rightarrow> ('a option \<times> byte list) option" where
  "part_if c f bs = (if c then map_option (map_prod Some id) (f bs) else Some (None, bs))"

definition read_value :: "string list \<Rightarrow> byte list \<Rightarrow> (string \<times> byte list) option" where
  "read_value popular bs = (case bs of [] \<Rightarrow> None
     | b # r \<Rightarrow> if b = 0xFF then read_nts r
         else if unat b < length popular then Some (popular ! unat b, r) else None)"

primrec read_many :: "(byte list \<Rightarrow> ('a \<times> byte list) option) \<Rightarrow> nat \<Rightarrow> byte list \<Rightarrow> ('a list \<times> byte list) option" where
  "read_many f 0 bs = Some ([], bs)"
| "read_many f (Suc n) bs =
     do { (x, bs) \<leftarrow> f bs; (xs, bs) \<leftarrow> read_many f n bs; Some (x # xs, bs) }"

datatype listed_server = Listed_server byte u32 "u16 option" "u32 option" "u16 option" "u32 option" "string list option"

definition read_server :: "string list \<Rightarrow> nat \<Rightarrow> byte list \<Rightarrow> (listed_server \<times> byte list) option" where
  "read_server popular n bs = (case bs of [] \<Rightarrow> None
     | flags # bs \<Rightarrow>
         do { (a, bs) \<leftarrow> read_u32 bs;
              (p, bs) \<leftarrow> part_if (flags AND NONSTANDARD_PORT_FLAG \<noteq> 0) read_be16 bs;
              (la, bs) \<leftarrow> part_if (flags AND PRIVATE_IP_FLAG \<noteq> 0) read_u32 bs;
              (lp, bs) \<leftarrow> part_if (flags AND NONSTANDARD_PRIVATE_PORT_FLAG \<noteq> 0) read_be16 bs;
              (ic, bs) \<leftarrow> part_if (flags AND ICMP_IP_FLAG \<noteq> 0) read_u32 bs;
              (vs, bs) \<leftarrow> part_if (flags AND HAS_KEYS_FLAG \<noteq> 0) (read_many (read_value popular) n) bs;
              Some (Listed_server flags a p la lp ic vs, bs) })"

fun read_servers :: "nat \<Rightarrow> string list \<Rightarrow> nat \<Rightarrow> byte list \<Rightarrow> listed_server list option" where
  "read_servers 0 popular n bs = None"
| "read_servers (Suc k) popular n bs =
     (if take 4 (drop 1 bs) = [0xFF, 0xFF, 0xFF, 0xFF] then Some []
      else do { (sv, bs) \<leftarrow> read_server popular n bs; map_option ((#) sv) (read_servers k popular n bs) })"

definition read_count :: "byte list \<Rightarrow> (nat \<times> byte list) option" where
  "read_count bs = (case bs of [] \<Rightarrow> None | b # r \<Rightarrow> Some (unat b, r))"

definition read_list :: "byte list \<Rightarrow> (u32 \<times> u16 \<times> string list \<times> string list \<times> listed_server list) option" where
  "read_list bs =
     do { (a, bs) \<leftarrow> read_u32 bs;
          (p, bs) \<leftarrow> read_be16 bs;
          (n, bs) \<leftarrow> read_count bs;
          (names, bs) \<leftarrow> read_many (\<lambda>bs. case bs of [] \<Rightarrow> None | _ # r \<Rightarrow> read_nts r) n bs;
          (k, bs) \<leftarrow> read_count bs;
          (popular, bs) \<leftarrow> read_many read_nts k bs;
          svs \<leftarrow> read_servers (length bs) popular n bs;
          Some (a, p, names, popular, svs) }"

text \<open>The client of a connection whose header is still to come takes the server's challenge out of it and mixes it with
  its own challenge and the secret key of its game; from then on it follows the state of the cipher.\<close>

definition client_start :: "string \<Rightarrow> byte list \<Rightarrow> byte list \<Rightarrow> (GOACryptState \<times> byte list) option" where
  "client_start seckey challenge packet =
     do { (n, bs) \<leftarrow> (case packet of [] \<Rightarrow> None | b # bs \<Rightarrow> Some (unat (b XOR 0xEC), bs));
          (m, bs) \<leftarrow> (case drop n bs of [] \<Rightarrow> None | b # bs \<Rightarrow> Some (unat (b XOR 0xEA), bs));
          st \<leftarrow> GOACryptInit zero_goa (mix_challenge (string_bytes seckey) (take m bs) challenge) 8;
          Some (st, drop m bs) }"

definition client_session :: "v2peer \<Rightarrow> byte list \<Rightarrow> (GOACryptState \<times> byte list) option" where
  "client_session s packet =
     (if m_sent_crypt_header s then Some (m_crypt_state s, packet)
      else client_start (secretkey (m_game s)) (map the (m_challenge s)) packet)"

definition client_reads :: "v2peer \<Rightarrow> byte list \<Rightarrow> (u32 \<times> u16 \<times> string list \<times> string list \<times> listed_server list) option" where
  "client_reads s packet = do { (st, bs) \<leftarrow> client_session s packet; read_list (fst (GOADecrypt st bs)) }"

text \<open>A peer that can encrypt: the first answer needs the game's secret key and the client's challenge.\<close>

definition can_encrypt :: "v2peer \<Rightarrow> bool" where
  "can_encrypt s \<longleftrightarrow>
     (if m_sent_crypt_header s then goa_ok (m_crypt_state s)
      else c_string (secretkey (m_game s)) \<noteq> [] \<and> None \<notin> set (m_challenge s) \<and> length (m_challenge s) = 8)"

subsection \<open>Reading what was written\<close>

lemma response_chars_bytes: "response_chars (string_bytes s) = s"
proof -
  have "char_of (unat (word_of_nat (code c) :: byte)) = c" for c
    using code_less [of c] by (simp add: unat_of_nat)
  then show ?thesis by (simp add: response_chars_def string_bytes_def comp_def)
qed

lemma zero_in_string_bytes: "0 \<in> set (string_bytes s) \<longleftrightarrow> nul \<in> set s"
proof -
  have "(word_of_nat (code c) :: byte) = 0 \<longleftrightarrow> c = nul" for c
  proof -
    have "unat (word_of_nat (code c) :: byte) = code c" using code_less [of c] by (simp add: unat_of_nat)
    then have "(word_of_nat (code c) :: byte) = 0 \<longleftrightarrow> code c = code nul" by (simp add: nul_def flip: unat_eq_zero)
    also have "\<dots> \<longleftrightarrow> c = nul" by simp
    finally show ?thesis .
  qed
  then show ?thesis by (auto simp: string_bytes_def)
qed

lemma read_nts_NTS: "nul \<notin> set s \<Longrightarrow> read_nts (NTS s @ r) = Some (s, r)"
proof -
  assume "nul \<notin> set s"
  then have z: "b \<noteq> 0" if "b \<in> set (string_bytes s)" for b using that zero_in_string_bytes [of s] by metis
  then have "takeWhile (\<lambda>b. b \<noteq> 0) (string_bytes s @ 0 # r) = string_bytes s"
    "dropWhile (\<lambda>b. b \<noteq> 0) (string_bytes s @ 0 # r) = 0 # r"
    by (simp_all add: takeWhile_append dropWhile_append)
  then show ?thesis by (simp add: read_nts_def NTS_def response_chars_bytes)
qed

lemma read_u32_bytes: "read_u32 (le_bytes 4 (unat w) @ r) = Some (w, r)"
  using le_val_word(3) [of w] by (simp add: read_u32_def)

lemma read_be16_bytes: "read_be16 (be16 w @ r) = Some (w, r)"
  using le_val_word(2) [of "htons w"] by (simp add: read_be16_def be16_def)

lemma read_many_concat:
  assumes "\<And>x r. x \<in> set xs \<Longrightarrow> f (g x @ r) = Some (h x, r)"
  shows "read_many f (length xs) (concat (map g xs) @ r) = Some (map h xs, r)"
  using assms by (induction xs arbitrary: r) simp_all

definition value_text :: "Server \<Rightarrow> string \<Rightarrow> string" where
  "value_text server f = (case smap_find (kvFields server) f of None \<Rightarrow> [] | Some x \<Rightarrow> c_string x)"

lemma find_value_Some: "find_value v vs = Some i \<Longrightarrow> i < length vs \<and> vs ! i = v"
  by (auto simp: find_value_def Let_def split: if_splits dest: nth_length_takeWhile)

definition only_strings :: "(string, nat) smap \<Rightarrow> bool" where
  "only_strings types \<longleftrightarrow> (\<forall>p \<in> set types. snd p = KEYTYPE_STRING)"

lemma set_smap_put: "set (smap_put k v m) \<subseteq> insert (k, v) (set m)"
  by (induction k v m rule: smap_put.induct) auto

lemma only_strings_put: "only_strings types \<Longrightarrow> only_strings (smap_put f KEYTYPE_STRING types)"
  using set_smap_put [of f KEYTYPE_STRING types] by (fastforce simp: only_strings_def)

lemma only_strings_find: "only_strings types \<Longrightarrow> smap_find types f = Some t \<Longrightarrow> t = 0"
  by (force simp: only_strings_def smap_find_def dest: map_of_SomeD)

lemma read_value_bytes:
  assumes "popular_values (game server) = popular" and "length popular \<le> 255" and "only_strings types"
  shows "read_value popular (value_bytes server False (Some types) f @ r) = Some (value_text server f, r)"
proof -
  let ?v = "value_text server f"
  have ty: "(case smap_find types f of None \<Rightarrow> KEYTYPE_STRING | Some t \<Rightarrow> t) = 0"
    using only_strings_find [OF assms(3)] by (auto split: option.splits)
  have nul: "nul \<notin> set ?v" using nul_notin_c_string by (auto simp: value_text_def split: option.splits)
  show ?thesis
  proof (cases "if smap_find (kvFields server) f = None then None else find_value ?v popular")
    case None
    then have "value_bytes server False (Some types) f = 0xFF # NTS ?v"
      using assms(1) ty by (auto simp: value_bytes_def value_text_def Let_def NTS_def string_bytes_def split: option.splits if_splits)
    then show ?thesis using read_nts_NTS [OF nul] by (simp add: read_value_def)
  next
    case (Some i)
    then have i: "i < length popular" "popular ! i = ?v" using find_value_Some by (auto split: if_splits)
    have "value_bytes server False (Some types) f = [word_of_nat i]"
      using Some assms(1) by (auto simp: value_bytes_def value_text_def Let_def split: option.splits if_splits)
    moreover have "unat (word_of_nat i :: byte) = i" using i(1) assms(2) by (simp add: unat_of_nat)
    moreover from this have "(word_of_nat i :: byte) \<noteq> 0xFF" using i(1) assms(2) by auto
    ultimately show ?thesis using i by (simp add: read_value_def)
  qed
qed


text \<open>The flags are independent bits.\<close>

lemma flags_read:
  fixes b1 b2 b3 b4 b5 b6 b7 :: bool
  defines "w \<equiv> flag b1 16 OR flag b2 1 OR flag b3 4 OR flag b4 8 OR flag b5 2 OR flag b6 32 OR (if b7 then 0 else 64)"
  shows "w AND 16 \<noteq> 0 \<longleftrightarrow> b1" "w AND 2 \<noteq> 0 \<longleftrightarrow> b5" "w AND 32 \<noteq> 0 \<longleftrightarrow> b6" "w AND 8 \<noteq> 0 \<longleftrightarrow> b4"
    "w AND 64 \<noteq> 0 \<longleftrightarrow> \<not> b7"
  unfolding w_def flag_def by (cases b1; cases b2; cases b3; cases b4; cases b5; cases b6; cases b7; simp)+

definition shown :: "peer_env \<Rightarrow> v2peer \<Rightarrow> string list \<Rightarrow> Server \<Rightarrow> listed_server" where
  "shown E s names server = Listed_server (server_flags s server False False False) (ip (wan_address server))
     (if nonstandard_port server then Some (raw_port (wan_address server)) else None)
     (map_option (\<lambda>v. inet_addr E (c_string v)) (smap_find (kvFields server) ''localip0''))
     (local_port server)
     (if ip (icmp_address server) \<noteq> 0 then Some (ip (icmp_address server)) else None)
     (if keys_left_out s server False False False then None else Some (map (value_text server) names))"

lemma part_if_True: "f bs = Some (x, r) \<Longrightarrow> part_if True f bs = Some (Some x, r)"
  by (simp add: part_if_def)

lemma part_if_False: "part_if False f bs = Some (None, bs)"
  by (simp add: part_if_def)

lemma part_if_port:
  "part_if c read_be16 ((if c then be16 w else []) @ r) = Some (if c then Some w else None, r)"
  by (simp add: part_if_def read_be16_bytes)

lemma part_if_addr:
  "part_if c read_u32 ((if c then le_bytes 4 (unat w) else []) @ r) = Some (if c then Some w else None, r)"
  by (simp add: part_if_def read_u32_bytes)

lemma part_if_opt_addr:
  "part_if (x \<noteq> None) read_u32 ((case x of None \<Rightarrow> [] | Some v \<Rightarrow> le_bytes 4 (unat (h v))) @ r) = Some (map_option h x, r)"
  by (cases x) (simp_all add: part_if_def read_u32_bytes)

lemma part_if_opt_port:
  "part_if (x \<noteq> None) read_be16 ((case x of None \<Rightarrow> [] | Some p \<Rightarrow> be16 p) @ r) = Some (x, r)"
  by (cases x) (simp_all add: part_if_def read_be16_bytes)

lemma read_server_bytes:
  assumes "popular_values (game server) = popular" and "length popular \<le> 255" and "only_strings types"
    and "field_list (m_last_list_req s) = names"
  shows "read_server popular (length names) (server_bytes E s server True False False (Some types) False @ r) =
    Some (shown E s names server, r)"
proof -
  let ?fl = "server_flags s server False False False" and ?out = "keys_left_out s server False False False"
  have fl: "?fl AND 16 \<noteq> 0 \<longleftrightarrow> nonstandard_port server" "?fl AND 2 \<noteq> 0 \<longleftrightarrow> smap_find (kvFields server) ''localip0'' \<noteq> None"
    "?fl AND 32 \<noteq> 0 \<longleftrightarrow> local_port server \<noteq> None" "?fl AND 8 \<noteq> 0 \<longleftrightarrow> ip (icmp_address server) \<noteq> 0"
    "?fl AND 64 \<noteq> 0 \<longleftrightarrow> \<not> ?out"
    unfolding server_flags_def if_False by (rule flags_read)+
  have vals: "part_if (\<not> ?out) (read_many (read_value popular) (length names))
      ((if \<not> ?out then concat (map (value_bytes server False (Some types)) names) else []) @ r) =
      Some (if ?out then None else Some (map (value_text server) names), r)"
    using read_many_concat [of names "read_value popular" "value_bytes server False (Some types)" "value_text server" r]
      read_value_bytes [OF assms(1-3)] by (simp add: part_if_def)
  have bytes: "server_bytes E s server True False False (Some types) False @ r =
      ?fl # le_bytes 4 (unat (ip (wan_address server))) @
      (if nonstandard_port server then be16 (raw_port (wan_address server)) else []) @
      (case smap_find (kvFields server) ''localip0'' of None \<Rightarrow> [] | Some v \<Rightarrow> le_bytes 4 (unat (inet_addr E (c_string v)))) @
      (case local_port server of None \<Rightarrow> [] | Some p \<Rightarrow> be16 p) @
      (if ip (icmp_address server) \<noteq> 0 then le_bytes 4 (unat (ip (icmp_address server))) else []) @
      (if \<not> ?out then concat (map (value_bytes server False (Some types)) names) else []) @ r"
    using assms(4) by (simp add: server_bytes_def Let_def)
  show ?thesis
    unfolding bytes read_server_def list.case fl
    by (simp only: read_u32_bytes part_if_port part_if_opt_addr part_if_opt_port part_if_addr vals bind.bind_lunit
        prod.case shown_def)
qed

lemma end_mark: "le_bytes 4 0xFFFFFFFF = [0xFF, 0xFF, 0xFF, 0xFF]"
  by (simp add: le_bytes_cells)

lemma le_bytes_minus_1: "le_bytes 4 (unat w) = [0xFF, 0xFF, 0xFF, 0xFF] \<longleftrightarrow> w = (- 1 :: u32)"
proof -
  have "unat (0xFFFFFFFF :: u32) = 0xFFFFFFFF" by simp
  moreover have one: "(- 1 :: u32) = 0xFFFFFFFF" by simp
  ultimately have m: "le_bytes 4 (unat (- 1 :: u32)) = [0xFF, 0xFF, 0xFF, 0xFF]" by (simp only: end_mark)
  have "w = v" if "le_bytes 4 (unat w) = le_bytes 4 (unat v)" for v
    by (rule trans [OF le_val_word(3) [of w, symmetric] trans [OF arg_cong [OF that, of "\<lambda>bs. word_of_nat (le_val bs)"] le_val_word(3) [of v]]])
  then show ?thesis unfolding m [symmetric] by blast
qed

lemma length_concat_map: "(\<And>x. 1 \<le> length (f x)) \<Longrightarrow> length xs \<le> length (concat (map f xs))"
proof (induction xs)
  case (Cons x xs)
  have "1 + length xs \<le> length (f x) + length (concat (map f xs))"
    using Cons.prems [of x] Cons.IH [OF Cons.prems] by (rule add_mono)
  then show ?case by simp
qed simp

lemma server_bytes_start:
  "\<exists>t. server_bytes E s sv True False False types False =
     server_flags s sv False False False # le_bytes 4 (unat (ip (wan_address sv))) @ t"
  by (simp add: server_bytes_def Let_def)

lemma server_bytes_address:
  "take 4 (drop 1 (server_bytes E s sv True False False types False @ r)) = le_bytes 4 (unat (ip (wan_address sv)))"
  using server_bytes_start [of E s sv types] by fastforce

lemma read_servers_bytes:
  assumes "\<And>sv. sv \<in> set svs \<Longrightarrow> popular_values (game sv) = popular \<and> ip (wan_address sv) \<noteq> - 1"
    and "length popular \<le> 255" and "only_strings types" and "field_list (m_last_list_req s) = names"
    and "length svs < k"
  shows "read_servers k popular (length names)
      (concat (map (\<lambda>sv. server_bytes E s sv True False False (Some types) False) svs) @ [0, 0xFF, 0xFF, 0xFF, 0xFF]) =
    Some (map (shown E s names) svs)"
  using assms(1,5)
proof (induction svs arbitrary: k)
  case Nil
  then show ?case by (cases k) simp_all
next
  case (Cons sv svs)
  then obtain k' where k: "k = Suc k'" "length svs < k'" by (cases k) auto
  let ?rest = "concat (map (\<lambda>sv. server_bytes E s sv True False False (Some types) False) svs) @ [0, 0xFF, 0xFF, 0xFF, 0xFF]"
  have addr: "ip (wan_address sv) \<noteq> - 1" using Cons.prems(1) by simp
  have ne: "take 4 (drop 1 (server_bytes E s sv True False False (Some types) False @ ?rest)) \<noteq> [0xFF, 0xFF, 0xFF, 0xFF]"
    unfolding server_bytes_address le_bytes_minus_1 by (rule addr)
  have "popular_values (game sv) = popular" using Cons.prems(1) by simp
  note read = read_server_bytes [OF this assms(2-4), of E ?rest]
  have "read_servers k' popular (length names) ?rest = Some (map (shown E s names) svs)"
    using Cons.IH [of k'] Cons.prems(1) k(2) by simp
  then show ?case
    unfolding k(1) list.map(2) concat.simps append_assoc read_servers.simps if_not_P [OF ne] read by simp
qed

subsection \<open>The list\<close>

lemma write_fields_fold:
  assumes "only_strings types"
  shows "\<exists>types'. fold WriteOptimizedField names (svs, buf, types) =
      (map (fold touch_field names) svs, buf @ concat (map (\<lambda>f. 0 # NTS f) names), types') \<and> only_strings types'"
  using assms
proof (induction names arbitrary: svs buf types)
  case (Cons f names)
  obtain types' where "fold WriteOptimizedField names (map (touch_field f) svs, buf @ [0] @ NTS f, smap_put f KEYTYPE_STRING types) =
      (map (fold touch_field names) (map (touch_field f) svs), (buf @ [0] @ NTS f) @ concat (map (\<lambda>f. 0 # NTS f) names), types')"
      "only_strings types'"
    using Cons.IH [OF only_strings_put [OF Cons.prems]] by blast
  moreover have "WriteOptimizedField f (svs, buf, types) =
      (map (touch_field f) svs, buf @ [0] @ NTS f, smap_put f KEYTYPE_STRING types)"
    by (simp add: WriteOptimizedField_def)
  ultimately show ?case by (intro exI [of _ types']) (simp add: comp_def)
qed simp

lemma fold_touch_same:
  "game (fold touch_field names sv) = game sv" "wan_address (fold touch_field names sv) = wan_address sv"
  by (induction names arbitrary: sv) (simp_all add: touch_field_def)

lemma send_servers_buffer:
  "send_servers E True False types svs (Some buf) s = Some (Some (buf @ concat (map
     (\<lambda>sv. server_bytes E s sv True False False (Some types) False) (filter (\<lambda>sv. ip (wan_address sv) \<noteq> - 1) svs))), s)"
  by (induction svs arbitrary: buf) (simp_all add: sendServerData_def Let_def)

lemma client_decrypts:
  assumes "goa_ok st"
  shows "fst (GOADecrypt st (fst (GOAEncrypt st bs))) = bs"
proof -
  obtain c st' where c: "GOAEncrypt st bs = (c, st')" by (cases "GOAEncrypt st bs")
  have "crypt_run (\<lambda>st b. Some (GOAEncryptByte st b)) st bs = Some (c, st')"
    using GOAEncrypt_bytes [OF assms, of bs] c by simp
  from goa.run_dec_enc [OF this] have "Some (GOADecrypt st c) = Some (bs, st')" unfolding GOADecrypt_bytes .
  then show ?thesis using c by simp
qed

lemma length_mix_challenge [simp]: "length (mix_challenge k sc c) = length c"
proof -
  have "length (fold (\<lambda>i c. let k = f i in c[k := g i c k]) xs c) = length c"
    for f :: "nat \<Rightarrow> nat" and g :: "nat \<Rightarrow> byte list \<Rightarrow> nat \<Rightarrow> byte" and xs
    by (induction xs arbitrary: c) (simp_all add: Let_def)
  then show ?thesis unfolding mix_challenge_def by simp
qed

lemma length_mark_flags: "length c = 10 \<Longrightarrow> length (mark_flags f c) = 10"
  by (simp add: mark_flags_def Let_def)

text \<open>The header the program sends puts the client into the program's own state of the cipher.\<close>

lemma client_starts:
  assumes "secretkey (m_game s) \<noteq> []" "None \<notin> set (m_challenge s)" "length (m_challenge s) = 8"
  shows "\<exists>h c st. setupCryptHeader E s = Some (h, s\<lparr>m_challenge := c, m_crypt_state := st\<rparr>) \<and> goa_ok st \<and>
    (\<forall>bs. client_start (secretkey (m_game s)) (map the (m_challenge s)) (h @ bs) = Some (st, bs))"
proof -
  let ?cc = "mark_flags (backendflags (m_game s)) (map (\<lambda>i. word_of_nat (rand_at E i)) [0..<CRYPTCHAL_LEN])"
  let ?sc = "map (\<lambda>i. word_of_nat (rand_at E i)) [CRYPTCHAL_LEN..<CRYPTCHAL_LEN + SERVCHAL_LEN]"
  let ?chal = "mix_challenge (string_bytes (secretkey (m_game s))) ?sc (map the (m_challenge s))"
  have k: "unat (8 :: byte) \<le> length ?chal" using assms(3) by simp
  obtain st where st: "GOACryptInit (m_crypt_state s) ?chal 8 = Some st" "goa_ok st"
    using GOACryptInit_ok [OF k] by blast
  have any: "GOACryptInit zero_goa ?chal 8 = GOACryptInit (m_crypt_state s) ?chal 8"
    by (simp add: GOACryptInit_def split: option.split)
  let ?h = "[word_of_nat CRYPTCHAL_LEN XOR 0xEC] @ ?cc @ [word_of_nat SERVCHAL_LEN XOR 0xEA] @ ?sc"
  let ?s = "s\<lparr>m_challenge := map Some ?chal, m_crypt_state := st\<rparr>"
  have "setupCryptHeader E s = Some (?h, ?s)"
    using assms(1,2) st(1) by (simp add: setupCryptHeader_def Let_def)
  moreover have "client_start (secretkey (m_game s)) (map the (m_challenge s)) (?h @ bs) = Some (st, bs)" for bs
  proof -
    have l: "length ?cc = 10" "length ?sc = 25" by (simp_all add: length_mark_flags)
    have x: "unat ((word_of_nat CRYPTCHAL_LEN XOR 0xEC) XOR 0xEC :: byte) = 10"
      "unat ((word_of_nat SERVCHAL_LEN XOR 0xEA) XOR 0xEA :: byte) = 25" by simp_all
    have d: "drop 10 (?cc @ (b # r)) = b # r" for b r using l(1) by simp
    have t: "take 25 (?sc @ bs) = ?sc" "drop 25 (?sc @ bs) = bs" using l(2) by simp_all
    show ?thesis
      unfolding client_start_def append.simps append_assoc list.case bind.bind_lunit prod.case x d t any st(1) by simp
  qed
  ultimately show ?thesis using st(2) by blast
qed

text \<open>Whatever is sent, the client has it: on the first packet with the header, later without.\<close>

lemma client_gets_packet:
  assumes "\<not> m_delete_flag s" "can_encrypt s"
  shows "\<exists>packet s'. SendPacket E buf False s = Some (append_send_buffer packet False s') \<and>
    \<not> m_delete_flag s' \<and> m_socket_deleted s' = m_socket_deleted s \<and> m_send_buffer s' = m_send_buffer s \<and>
    client_session s packet \<noteq> None \<and>
    (\<forall>st bs. client_session s packet = Some (st, bs) \<longrightarrow> fst (GOADecrypt st bs) = buf)"
proof (cases "m_sent_crypt_header s")
  case True
  then show ?thesis
    using assms client_decrypts [of "m_crypt_state s" buf]
    by (intro exI [of _ "fst (GOAEncrypt (m_crypt_state s) buf)"]
        exI [of _ "s\<lparr>m_crypt_state := snd (GOAEncrypt (m_crypt_state s) buf)\<rparr>"])
      (simp add: SendPacket_def client_session_def can_encrypt_def split: prod.splits)
next
  case False
  then have key: "c_string (secretkey (m_game s)) \<noteq> []" "secretkey (m_game s) \<noteq> []"
    and chal: "None \<notin> set (m_challenge s)" "length (m_challenge s) = 8"
    using assms(2) by (auto simp: can_encrypt_def c_string_def)
  obtain h c st where h: "setupCryptHeader E s = Some (h, s\<lparr>m_challenge := c, m_crypt_state := st\<rparr>)" "goa_ok st" and
    start: "\<And>bs. client_start (secretkey (m_game s)) (map the (m_challenge s)) (h @ bs) = Some (st, bs)"
    using client_starts [OF key(2) chal, of E] by blast
  show ?thesis
    using assms(1) False key(1) start client_decrypts [OF h(2), of buf]
    by (intro exI [of _ "h @ fst (GOAEncrypt st buf)"]
        exI [of _ "s\<lparr>m_challenge := c, m_sent_crypt_header := True, m_crypt_state := snd (GOAEncrypt st buf)\<rparr>"])
      (simp add: SendPacket_def client_session_def h(1) split: prod.splits)
qed

text \<open>C8. 
  The answer to a list request as one part reaches the client, on the first packet of a connection (whose header sets
  up the cipher from the client's challenge and the secret key of its game, which must not be empty) as on a later
  one: the client that follows the cipher decrypts the packet and reads the client's address, the game's query port,
  the names of the keys asked for, the popular values, and every server whose address is not \<open>-1\<close> with its flags,
  addresses, ports and the values of its keys. The request is the peer's last one, names at most 255 keys (the
  count is a byte), its game has at most 255 popular values, and neither have a NUL inside.
\<close>

theorem list_reaches_client:
  assumes ready: "\<not> m_delete_flag s" "\<not> m_socket_deleted s" "can_encrypt s"
    and req: "source_ip req = Some src" "\<not> no_server_list req" "field_list (m_last_list_req s) = field_list req"
    and names: "length (field_list req) \<le> 255" "\<And>f. f \<in> set (field_list req) \<Longrightarrow> nul \<notin> set f"
    and popular: "length (popular_values (m_for_game req)) \<le> 255"
      "\<And>v. v \<in> set (popular_values (m_for_game req)) \<Longrightarrow> nul \<notin> set v"
    and servers: "first_set q" "last_set q"
      "\<And>sv. sv \<in> set (found q) \<Longrightarrow> popular_values (game sv) = popular_values (m_for_game req)"
  shows "\<exists>s' packet. SendListQueryResp E q req True False s = Some s' \<and> m_send_buffer s' = m_send_buffer s @ [packet] \<and>
    client_reads s packet = Some (if src \<noteq> 0 then src else ip (m_address s),
      ucast (queryport (m_for_game req)), field_list req, popular_values (m_for_game req),
      map (shown E s (field_list req) \<circ> fold touch_field (field_list req))
        (filter (\<lambda>sv. ip (wan_address sv) \<noteq> - 1) (found q)))"
proof -
  let ?ns = "field_list req" and ?ps = "popular_values (m_for_game req)"
  define a where "a = (if src \<noteq> 0 then src else ip (m_address s))"
  let ?p = "ucast (queryport (m_for_game req)) :: u16"
  let ?head = "le_bytes 4 (unat a) @ be16 ?p"
  have no_types: "only_strings []" by (simp add: only_strings_def)
  obtain types where t: "fold WriteOptimizedField ?ns (found q, ?head @ [word_of_nat (length ?ns)], []) =
      (map (fold touch_field ?ns) (found q), (?head @ [word_of_nat (length ?ns)]) @ concat (map (\<lambda>f. 0 # NTS f) ?ns), types)"
      "only_strings types"
    using write_fields_fold [of "[]" ?ns "found q" "?head @ [word_of_nat (length ?ns)]"] no_types by blast
  define svs where "svs = filter (\<lambda>sv. ip (wan_address sv) \<noteq> - 1) (map (fold touch_field ?ns) (found q))"
  let ?body = "concat (map (\<lambda>sv. server_bytes E s sv True False False (Some types) False) svs) @ [0, 0xFF, 0xFF, 0xFF, 0xFF]"
  define buf where "buf = ?head @ [word_of_nat (length ?ns)] @ concat (map (\<lambda>f. 0 # NTS f) ?ns) @
      [word_of_nat (length ?ps)] @ concat (map NTS ?ps) @ ?body"
  let ?s = "s\<lparr>m_last_recv := now E\<rparr>"
  have sess: "client_session ?s = client_session s" "can_encrypt ?s" "\<not> m_delete_flag ?s"
    using ready by (simp_all add: fun_eq_iff client_session_def can_encrypt_def)
  obtain packet s1 where send: "SendPacket E buf False ?s = Some (append_send_buffer packet False s1)"
      "\<not> m_delete_flag s1" "m_socket_deleted s1 = m_socket_deleted s" "m_send_buffer s1 = m_send_buffer s"
    and got: "client_session s packet \<noteq> None"
      "\<And>st bs. client_session s packet = Some (st, bs) \<Longrightarrow> fst (GOADecrypt st bs) = buf"
    using client_gets_packet [OF sess(3,2), of E buf] unfolding sess(1) by auto
  have "SendListQueryResp E q req True False s =
      Option.bind (SendPacket E buf False ?s) (\<lambda>s. Some (s\<lparr>m_in_message := False\<rparr>))"
    unfolding SendListQueryResp_def req(1) bind.bind_lunit Let_def a_def [symmetric] buf_def
    using req(2) servers(1,2) t(1) by (simp add: send_servers_buffer popular_bytes_def end_mark svs_def)
  then have "SendListQueryResp E q req True False s = Some ((append_send_buffer packet False s1)\<lparr>m_in_message := False\<rparr>)"
    by (simp only: send bind.bind_lunit)
  moreover have "client_reads s packet = Some (a, ?p, ?ns, ?ps, map (shown E s ?ns) svs)"
  proof -
    have cnt: "unat (word_of_nat (length ?ns) :: byte) = length ?ns" "unat (word_of_nat (length ?ps) :: byte) = length ?ps"
      using names(1) popular(1) by (simp_all add: unat_of_nat)
    have ns: "read_many (\<lambda>bs. case bs of [] \<Rightarrow> None | _ # r \<Rightarrow> read_nts r) (length ?ns)
        (concat (map (\<lambda>f. 0 # NTS f) ?ns) @ r) = Some (?ns, r)" for r
      using read_many_concat [of ?ns "\<lambda>bs. case bs of [] \<Rightarrow> None | _ # r \<Rightarrow> read_nts r" "\<lambda>f. 0 # NTS f" "\<lambda>f. f" r]
        names(2) read_nts_NTS by simp
    have ps: "read_many read_nts (length ?ps) (concat (map NTS ?ps) @ r) = Some (?ps, r)" for r
      using read_many_concat [of ?ps read_nts NTS "\<lambda>f. f" r] popular(2) read_nts_NTS by simp
    have len: "length svs < length ?body"
    proof -
      have "1 \<le> length (server_bytes E s sv True False False (Some types) False)" for sv
        by (simp add: server_bytes_def Let_def)
      then have "length svs \<le> length (concat (map (\<lambda>sv. server_bytes E s sv True False False (Some types) False) svs))"
        by (intro length_concat_map)
      then show ?thesis by simp
    qed
    have sv: "read_servers (length ?body) ?ps (length ?ns) ?body = Some (map (shown E s ?ns) svs)"
      using servers(3) by (intro read_servers_bytes popular(1) t(2) req(3) len) (auto simp: svs_def fold_touch_same)
    have "read_list buf = Some (a, ?p, ?ns, ?ps, map (shown E s ?ns) svs)"
      unfolding read_list_def buf_def
      by (simp add: read_u32_bytes read_be16_bytes read_count_def cnt ns ps sv del: length_append)
    then show ?thesis using got by (auto simp: client_reads_def)
  qed
  moreover have "map (shown E s ?ns) svs = map (shown E s ?ns \<circ> fold touch_field ?ns)
      (filter (\<lambda>sv. ip (wan_address sv) \<noteq> - 1) (found q))"
    by (simp add: svs_def filter_map comp_def fold_touch_same)
  ultimately show ?thesis
    using ready(2) send(2-4) unfolding a_def by (intro exI conjI) (auto simp: append_send_buffer_def)
qed


definition list_request :: sServerListReq where
  "list_request = new_list_req\<lparr>source_ip := Some 1, field_list := [''hostname'']\<rparr>"

definition listed_example :: Server where
  "listed_example = new_server\<lparr>wan_address := Address_new 5 80, kvFields := [(''hostname'', ''x'')]\<rparr>"

text \<open>A client of a game with a secret key that has sent its challenge and not had an answer yet.\<close>

definition listing_peer :: v2peer where
  "listing_peer = (new_v2peer quad_env Address_default)\<lparr>m_game := new_game\<lparr>secretkey := ''abcdef''\<rparr>,
     m_challenge := map Some [1, 2, 3, 4, 5, 6, 7, 8], m_last_list_req := list_request\<rparr>"

theorem list_reaches_client_witness:
  "\<not> m_sent_crypt_header listing_peer \<and>
   (\<exists>s' packet. SendListQueryResp quad_env (new_query\<lparr>first_set := True, last_set := True, found := [listed_example]\<rparr>)
      list_request True False listing_peer = Some s' \<and> m_send_buffer s' = [packet] \<and>
    client_reads listing_peer packet = Some (1, 0, [''hostname''], [],
      [Listed_server 80 5 (Some (htons 80)) None None None (Some [''x''])]))"
proof -
  let ?q = "new_query\<lparr>first_set := True, last_set := True, found := [listed_example]\<rparr>" and ?s = listing_peer
  have s: "\<not> m_delete_flag ?s" "\<not> m_socket_deleted ?s" "\<not> m_sent_crypt_header ?s"
    "m_last_list_req ?s = list_request" "m_send_buffer ?s = []" "m_game ?s = new_game\<lparr>secretkey := ''abcdef''\<rparr>"
    "m_challenge ?s = map Some [1, 2, 3, 4, 5, 6, 7, 8]"
    by (simp_all add: listing_peer_def new_v2peer_def sb_peer.defs v2peer.defs new_sb_peer_def)
  have e: "can_encrypt ?s" by (simp add: can_encrypt_def s c_string_def nul_def)
  have r: "source_ip list_request = Some 1" "\<not> no_server_list list_request" "field_list list_request = [''hostname'']"
    "popular_values (m_for_game list_request) = []" "queryport (m_for_game list_request) = 0"
    "send_fields_for_all list_request = False"
    by (simp_all add: list_request_def new_list_req_def new_game_def)
  have sv: "touch_field ''hostname'' listed_example = listed_example"
    by (simp add: touch_field_def listed_example_def smap_index_def smap_find_def)
  have kv: "kvFields listed_example = [(''hostname'', ''x'')]" "wan_address listed_example = Address_new 5 80"
    "queryport (game listed_example) = 0" "popular_values (game listed_example) = []"
    "icmp_address listed_example = Address_default" "\<not> allow_unsolicited_udp listed_example"
    by (simp_all add: listed_example_def new_server_def new_game_def)
  have port: "uint (htons 80) \<noteq> 0" by code_simp
  have n: "nonstandard_port listed_example" "local_port listed_example = None" "\<not> wants_negotiation listed_example"
    "\<not> keys_left_out ?s listed_example False False False" "raw_port (Address_new 5 80) = htons 80"
    using port kv by (simp_all add: nonstandard_port_def raw_port_def Address_new_def local_port_def wants_negotiation_def
        smap_find_def keys_left_out_def)
  have "server_flags ?s listed_example False False False = 80"
    using n kv by (simp add: server_flags_def flag_def smap_find_def Address_default_def)
  then have sh: "shown quad_env ?s [''hostname''] listed_example =
      Listed_server 80 5 (Some (htons 80)) None None None (Some [''x''])"
    using n kv by (simp add: shown_def smap_find_def Address_default_def Address_new_def value_text_def c_string_def nul_def)
  have live: "ip (wan_address listed_example) \<noteq> - 1" by (simp add: kv Address_new_def)
  obtain s' packet where "SendListQueryResp quad_env ?q list_request True False ?s = Some s'"
    "m_send_buffer s' = [packet]" "client_reads ?s packet = Some (1, 0, [''hostname''], [],
      map (shown quad_env ?s [''hostname''] \<circ> fold touch_field [''hostname''])
        (filter (\<lambda>sv. ip (wan_address sv) \<noteq> - 1) [listed_example]))"
    using list_reaches_client [of ?s list_request 1 ?q quad_env] s e r kv(4) by (auto simp: nul_def)
  then show ?thesis using live s(3) by (intro conjI exI [of _ s'] exI [of _ packet]) (simp_all add: sv sh)
qed

end
