(* ===== verification/SbDriver.thy ===== *)
theory SbDriver
  imports V1Peer V2Peer
begin

text \<open>
  The drivers of the server browser (\<open>server/SBDriver.cpp\<close>, \<open>SBServer.cpp\<close>, and the ticks of
  \<open>core/OS/Net/drivers/TCPDriver.cpp\<close>): the peers of a port with the number of references to each, and the news of
  servers that wait for the next tick. \<open>None\<close> is undefined behaviour or a loop that never ends.
\<close>

section \<open>Peers of both versions\<close>

datatype sb_any = First v1peer | Second v2peer

definition should_delete :: "sb_any \<Rightarrow> bool" where
  "should_delete p = (case p of First s \<Rightarrow> m_delete_flag s | Second s \<Rightarrow> m_delete_flag s)"

definition peer_think :: "peer_env \<Rightarrow> sb_any \<Rightarrow> sb_any option" where
  "peer_think E p = (case p of First s \<Rightarrow> map_option First (V1Peer.think E s) | Second s \<Rightarrow> map_option Second (V2Peer.think E s))"

text \<open>The first version takes no news.\<close>

definition inform ::
  "(Server \<Rightarrow> v2peer \<Rightarrow> (Server \<times> v2peer) option) \<Rightarrow> Server \<Rightarrow> sb_any \<Rightarrow> (Server \<times> sb_any) option" where
  "inform f server p =
     (case p of First s \<Rightarrow> Some (server, First s) | Second s \<Rightarrow> map_option (map_prod id Second) (f server s))"

definition CreatePeer :: "peer_env \<Rightarrow> crypt_key \<Rightarrow> Address \<Rightarrow> nat \<Rightarrow> sb_any option" where
  "CreatePeer E uninit a v =
     (if v = 1 then map_option First (new_v1peer E uninit a)
      else if v = 2 then Some (Second (new_v2peer E a)) else None)"

section \<open>One driver\<close>

record sb_driver =
  d_version :: nat
  d_peers :: "(nat \<times> sb_any) list"     \<comment> \<open>with their references, in the order of the list\<close>
  m_server_delete_queue :: "Server list"
  m_server_new_queue :: "Server list"
  m_server_update_queue :: "Server list"

definition on_new_connection :: "peer_env \<Rightarrow> crypt_key \<Rightarrow> Address \<Rightarrow> sb_driver \<Rightarrow> sb_driver option" where
  "on_new_connection E uninit a d =
     map_option (\<lambda>p. d\<lparr>d_peers := d_peers d @ [(1, p)]\<rparr>) (CreatePeer E uninit a (d_version d))"

definition AddDeleteServer :: "Server \<Rightarrow> sb_driver \<Rightarrow> sb_driver" where
  "AddDeleteServer serv d = d\<lparr>m_server_delete_queue := m_server_delete_queue d @ [serv]\<rparr>"

definition AddNewServer :: "Server \<Rightarrow> sb_driver \<Rightarrow> sb_driver" where
  "AddNewServer serv d = d\<lparr>m_server_new_queue := m_server_new_queue d @ [serv]\<rparr>"

definition AddUpdateServer :: "Server \<Rightarrow> sb_driver \<Rightarrow> sb_driver" where
  "AddUpdateServer serv d = d\<lparr>m_server_update_queue := m_server_update_queue d @ [serv]\<rparr>"

text \<open>A peer with no references is about to go; one to be deleted is taken off when only the driver refers to it.\<close>

definition TickOrDeleteClient :: "peer_env \<Rightarrow> nat \<times> sb_any \<Rightarrow> (nat \<times> sb_any) list option" where
  "TickOrDeleteClient E rp =
     (case rp of (r, p) \<Rightarrow>
        if r = 0 then Some [rp]
        else if should_delete p then Some (if r = 1 then [] else [rp])
        else map_option (\<lambda>p. [(r, p)]) (peer_think E p))"

primrec tick_peers :: "peer_env \<Rightarrow> (nat \<times> sb_any) list \<Rightarrow> (nat \<times> sb_any) list option" where
  "tick_peers E [] = Some []"
| "tick_peers E (rp # rps) = do { qs \<leftarrow> TickOrDeleteClient E rp; rest \<leftarrow> tick_peers E rps; Some (qs @ rest) }"

text \<open>All peers look at the same server, so a field that one look adds is there for the next.\<close>

primrec send_news :: "(Server \<Rightarrow> v2peer \<Rightarrow> (Server \<times> v2peer) option) \<Rightarrow> Server \<Rightarrow>
    (nat \<times> sb_any) list \<Rightarrow> (nat \<times> sb_any) list option" where
  "send_news f server [] = Some []"
| "send_news f server (rp # rps) =
     do { (server, p) \<leftarrow> inform f server (snd rp); rest \<leftarrow> send_news f server rps; Some ((fst rp, p) # rest) }"

primrec drain_queue :: "(Server \<Rightarrow> v2peer \<Rightarrow> (Server \<times> v2peer) option) \<Rightarrow> Server list \<Rightarrow>
    (nat \<times> sb_any) list \<Rightarrow> (nat \<times> sb_any) list option" where
  "drain_queue f [] ps = Some ps"
| "drain_queue f (serv # queue) ps = Option.bind (send_news f serv ps) (drain_queue f queue)"

definition TickConnections :: "peer_env \<Rightarrow> sb_driver \<Rightarrow> sb_driver option" where
  "TickConnections E d =
     do { ps \<leftarrow> tick_peers E (d_peers d);
          ps \<leftarrow> drain_queue (informDeleteServers E) (m_server_delete_queue d) ps;
          ps \<leftarrow> drain_queue (informNewServers E) (m_server_new_queue d) ps;
          ps \<leftarrow> drain_queue (informUpdateServers E) (m_server_update_queue d) ps;
          Some (d\<lparr>d_peers := ps, m_server_delete_queue := [], m_server_new_queue := [], m_server_update_queue := []\<rparr>) }"

section \<open>The server\<close>

text \<open>The broker's news go to every driver.\<close>

definition OnServerEvent :: "server_event \<Rightarrow> sb_driver list \<Rightarrow> sb_driver list" where
  "OnServerEvent e = map (case e of Delete_server s \<Rightarrow> AddDeleteServer s | New_server s \<Rightarrow> AddNewServer s
     | Update_server s \<Rightarrow> AddUpdateServer s)"

primrec server_tick :: "peer_env \<Rightarrow> sb_driver list \<Rightarrow> sb_driver list option" where
  "server_tick E [] = Some []"
| "server_tick E (d # ds) = do { d \<leftarrow> TickConnections E d; ds \<leftarrow> server_tick E ds; Some (d # ds) }"

section \<open>The order of news\<close>















subsection \<open>The other peers\<close>















end
