(* ===== verification/Spec2Isabelle.thy ===== *)
theory Spec2Isabelle
  imports Match Strings Buffer KVReader Cipher SBCrypt GameSpy GUtil Enctype1 FilterTree
    PeerchatTasks PeerchatUsermode NetAddress PeerchatDriver NatNeg QrDriver SbDriver
begin

text \<open>
  A model of the openspy-core servers (\<open>src/code\<close>), a re-implementation of the GameSpy services: the server
  browser and its query master, NAT negotiation, and the chat server, with the libraries they share.

  \<^bold>\<open>Parts.\<close> A game server sends heartbeats to the query master (\<open>qr\<close>), which challenges it, writes it into
  Redis and announces it over the message broker. A client asks the server browser (\<open>serverbrowsing\<close>) for the
  servers of a game; the browser reads them from Redis, filters them, encrypts the list, and pushes the
  broker's news. Client and server find each other through NAT negotiation (\<open>natneg\<close>), whose driver only
  translates between datagrams and messages of a back end. Players meet on the chat server (\<open>peerchat\<close>), whose peers
  hand requests to tasks that keep users and channels in Redis.

  \<^bold>\<open>Theories.\<close> Shared code: \<open>Prelude\<close> (types, generic lemmas, \<open>std::map\<close> as a sorted association list with its locale
  \<open>std_map\<close>), \<open>CLib\<close> (what is used of the C library), \<open>Strings\<close> and \<open>Match\<close> (\<open>core/OS/OpenSpy.cpp\<close>), \<open>Buffer\<close>,
  \<open>KVReader\<close>, \<open>LinkedList\<close>, \<open>NetAddress\<close>, \<open>GameData\<close> (files of these names under \<open>core/OS\<close>). Libraries that are not part
  of the repository: \<open>Jansson\<close> and \<open>Redis\<close>. Ciphers: \<open>Cipher\<close> (the interface), \<open>GameSpy\<close> (\<open>core/OS/gamespy\<close>),
  \<open>SBCrypt\<close>, \<open>GUtil\<close>, \<open>Enctype1\<close> (\<open>serverbrowsing/server\<close>). Server browser: \<open>FilterLex\<close>, \<open>FilterEval\<close>, \<open>FilterTree\<close>
  (\<open>serverbrowsing/filter\<close>), \<open>SbTasks\<close> (\<open>tasks\<close>), \<open>SbPeer\<close>, \<open>V1Peer\<close>, \<open>V2Peer\<close>, \<open>SbDriver\<close> (\<open>server\<close>). Query master: \<open>QrTasks\<close>,
  \<open>QrDriver\<close>. NAT negotiation: \<open>NatNeg\<close>. Chat: \<open>IrcNames\<close>, \<open>PeerchatQueue\<close>, \<open>PeerchatPeer\<close>, \<open>PeerchatModes\<close>,
  \<open>PeerchatCommands\<close>, \<open>PeerchatDriver\<close> (\<open>peerchat/server\<close>), \<open>PeerchatChannel\<close>, \<open>PeerchatTasks\<close>, \<open>PeerchatUsermode\<close>
  (\<open>peerchat/tasks\<close>). Definitions have the names of the functions they translate; a loop or a branch that is a
  definition of its own is named after what it does. A class is a record with the names of its members.

  \<^bold>\<open>Conventions.\<close> The value \<open>None\<close> of a fallible definition is undefined behaviour, an uncaught exception or, for
  a \<open>partial_function\<close>, a loop that does not end; every refusal the code itself makes is an ordinary value.
  Integers keep their width; signed sums that overflow are taken to wrap. Memory that was never written is an
  unknown cell (\<open>None\<close> in a buffer) and using it is undefined. Bytes a server sends are appended to a list of what was
  sent. Hosts are little-endian with a signed \<open>char\<close>. Parameters of the model are Redis, base64, the texts of
  addresses (\<open>inet_ntop\<close>, \<open>inet_addr\<close>), JSON, clocks, \<open>rand\<close>, fresh addresses of the allocator, local time and
  the account service; the properties that need their documented behaviour assume the locales \<open>redis_server\<close>,
  \<open>jansson_library\<close>, \<open>inet\<close>, \<open>allocator\<close>, each with an interpretation on a concrete instance. Redis is one
  database that does not lose its connection, forget keys or answer out of order; the database a connection has
  selected is the one its state belongs to.

  \<^bold>\<open>Termination.\<close> Loops over data are structural or have a measure: the matcher's steps, the filter's
  lexer, the key-value parser, the stream cutters. Scans of Redis and the loop over packets kept back are partial
  functions; that scans end is a law of \<open>redis_server\<close>, and that the other need not is a property. No definition
  has fuel, except \<open>read_servers\<close> of the client that reads a list, which gets the length of its input.

  \<^bold>\<open>Properties.\<close> Across the services: servers are listed only after they answered their challenge, one
  that registers completes, and is then found by clients of the server browser (this theory). Lists reach the client
  through every encryption, for both versions of the protocol; \<open>GetServers\<close> finds all of the game's servers that
  the filter, equal to its truth on expression trees, lets through. Ciphers: every pair of routines
  inverts the other, and copies of one algorithm agree. Texts: parsers and printers are inverse, the matcher decides
  glob patterns. Chat: modes change only with the right rank and as asked, the task queue keeps its
  order, the stream may be cut anywhere, messages reach the members of a channel. The rest show what goes wrong, each from input
  a client controls: hangs and peers lost in the two stream readers, undefined behaviour of decoders and handlers, wrong
  ranks and bans, and the order of news.

  \<^bold>\<open>Not modelled.\<close> The services \<open>GP\<close>, \<open>FESL\<close>, \<open>gamestats\<close>, \<open>search\<close>, \<open>cdkey\<close>, \<open>utmaster\<close> and \<open>SharedTasks\<close>: most of their
  code calls a web service through libcurl. The creation of channels, the numerics of a mode query and the
  web requests of usermodes in \<open>peerchat\<close>. Configuration, logging (also the log of a NAT report, which reads on past a
  game name without its NUL), libuv's handles, threads and mutexes (except the
  chat's task queue, where a race is modelled), TLS, \<open>main\<close> functions and test programs.
\<close>

section \<open>From the query master to the server browser\<close>

text \<open>
  The query master and the server browser share the database: what the one writes down about a server is what the
  other reads of it.
\<close>

lemma fold_load_basic:
  assumes "\<And>s. (0, Some s) \<in> set rs \<Longrightarrow> atoi s = 0" and "\<not> deleted sv"
  shows "\<not> deleted (fold (\<lambda>(i, r) sv. case r of None \<Rightarrow> sv | Some s \<Rightarrow> load_basic look i s sv) rs sv)"
  using assms
proof (induction rs arbitrary: sv)
  case (Cons p rs)
  obtain i r where p: "p = (i, r)" by (cases p)
  have "\<not> deleted (case r of None \<Rightarrow> sv | Some s \<Rightarrow> load_basic look i s sv)"
    using Cons.prems p by (cases r) (auto simp: load_basic_def)
  with Cons p show ?case by simp
qed simp

lemma listed_not_deleted:
  assumes "r_hget (sb_redis E) (c_string k) ''deleted'' d = Some ''0''"
  shows "\<not> deleted (basic_server E d k)"
proof -
  have "\<not> deleted new_server" by (simp add: new_server_def)
  moreover have "c_string ''deleted'' = ''deleted''" "atoi ''0'' = 0" by code_simp+
  ultimately show ?thesis
    unfolding basic_server_def LoadBasicServerInfo_def Let_def snd_conv
    using assms by (intro fold_load_basic) (auto simp: hmget_def basic_lookup_keys_def)
qed

lemma ip_read_is_alive:
  assumes "r_hget (sb_redis E) (c_string k) ''wan_ip'' d = Some t" and "sb_aton E (c_string t) \<noteq> 0"
  shows "alive E d k"
proof -
  have "c_string ''wan_ip'' = ''wan_ip''" by code_simp
  then show ?thesis
    using assms
    by (simp add: alive_def LoadBasicServerInfo_def Let_def hmget_def basic_lookup_keys_def load_basic_def
        split: option.splits)
qed

lemma read_addresses:
  assumes "r_hget (sb_redis E) (c_string k) ''wan_ip'' d = Some t" "nul \<notin> set t"
    and "r_hget (sb_redis E) (c_string k) ''wan_port'' d = Some (dec_nat (unat (p :: u16)))"
  shows "ip (wan_address (basic_server E d k)) = sb_aton E t"
    and "port (wan_address (basic_server E d k)) = Some p"
proof -
  have c: "c_string ''wan_ip'' = ''wan_ip''" "c_string ''wan_port'' = ''wan_port''" by code_simp+
  have "unat p < 2 ^ 31" using unat_less [of p] by simp
  then have a: "ucast (atoi (dec_nat (unat p))) = p" by (simp add: atoi_dec_nat_31 ucast_ucast_16_32)
  show "ip (wan_address (basic_server E d k)) = sb_aton E t"
    "port (wan_address (basic_server E d k)) = Some p"
    using assms c a
    by (simp_all add: basic_server_def LoadBasicServerInfo_def Let_def hmget_def basic_lookup_keys_def load_basic_def
        split: option.splits)
qed

text \<open>C6. A server that registers with a heartbeat of version 2 and answers its challenge (as in C2) is found by every
  client that then asks for named fields of the servers of its game without filter and limit: the list has an entry with
  the key that the query master keeps for the sender, and with the address and port the heartbeat came from, as far as
  the browser reads the text of an address back. This holds as long as the game's name is in small letters and no key of
  the address maps, and the server and the other members of the game's set have an address that is not read as zero.
\<close>

theorem registered_server_is_browsed:
  assumes R: "redis_server (servers_db E)"
    and hb: "qr_version hb = 2" "callback hb = on_v2_heartbeat_processed" "request_type hb = Heartbeat"
      "QrTasks.m_address (QrTasks.server hb) = from_address hb" "port (driver_address hb) \<noteq> None"
    and game: "smap_find (m_keys (QrTasks.server hb)) ''gamename'' = Some name"
      "g = GetGameByName (servers_db E) name (games E)" "secretkey g \<noteq> []"
    and unknown: "GetServerKey_FromRequest E hb s = []"
    and names: "nul \<notin> set name" "CHR '':'' \<notin> set (c_string (gamename g))" "c_string (gamename g) \<noteq> inst"
      "inst = ipinstmap E (v2_instance_key hb) (from_address hb)" "CHR '':'' \<notin> set inst"
    and v: "request_type v = ValidateServer" "qr_version v = 2" "callback v = on_got_v2_challenge_response"
      "from_address v = from_address hb" "v2_instance_key v = v2_instance_key hb"
      "right_response E g (from_address hb) = Some (rq_gamename v)"
    and not_a_map: "c_string (gamename g) \<notin> set (map_keys E (v2_instance_key hb) (from_address hb))"
    and sb: "sb_redis B = servers_db E" "nul \<notin> set (ntop E (ip (from_address hb)))"
      "sb_aton B (ntop E (ip (from_address hb))) \<noteq> 0"
    and req: "\<not> all_keys req" "max_results req = 0" "req_filter req = []"
      "c_string (str_tolower (gamename (m_for_game req))) = c_string (gamename g)"
  shows "\<exists>s1 s2 k. QrDriver.PerformUVWorkRequest J E hb s = Some s1 \<and>
    QrDriver.PerformUVWorkRequest J E v s1 = Some s2 \<and> GetServerKey_FromRequest E v s1 = k \<and>
    ((\<forall>k' \<in> zmembers (servers_db E) (c_string (gamename g)) (qdb s). alive B (qdb s2) (c_string k')) \<longrightarrow>
      (\<exists>parts sv. GetServers B req pv (qdb s2) = Some (parts, qdb s2) \<and>
        sv \<in> set (concat (map found parts)) \<and> server_key sv = k \<and>
        ip (wan_address sv) = sb_aton B (ntop E (ip (from_address hb))) \<and>
        port (wan_address sv) = Some (port_number (from_address hb))))"
proof -
  let ?z = "c_string (gamename g)"
  obtain s1 s2 k where k: "QrDriver.PerformUVWorkRequest J E hb s = Some s1"
    "QrDriver.PerformUVWorkRequest J E v s1 = Some s2" "listed (servers_db E) k (qdb s2)" "nul \<notin> set k"
    "r_hget (servers_db E) k ''wan_ip'' (qdb s2) = Some (ntop E (ip (from_address hb)))"
    "r_hget (servers_db E) k ''wan_port'' (qdb s2) = Some (dec_nat (unat (port_number (from_address hb))))"
    "GetServerKey_FromRequest E v s1 = k"
    "zmembers (servers_db E) ?z (qdb s2) = insert k (zmembers (servers_db E) ?z (qdb s))"
    using registration [OF R hb game unknown names v, of J] not_a_map by blast
  have ck: "c_string k = k" using k(4) by simp
  obtain lk where b: "BuildServerListRequestData req pv = Some (lk, [])"
    by (simp add: BuildServerListRequestData_def req(3) filterToTokenList_def lex_loop.simps c_string_def convertToRPN_def)
  have a: "alive B (qdb s2) (c_string k)"
    by (rule ip_read_is_alive [where t = "ntop E (ip (from_address hb))"]) (use k(5) ck sb in simp_all)
  note wan = read_addresses [of B k "qdb s2", unfolded sb(1) ck, OF k(5) sb(2) k(6)]
  have "\<not> deleted (basic_server B (qdb s2) k)"
    by (rule listed_not_deleted) (use k(3) ck sb(1) in \<open>simp add: listed_def\<close>)
  from listed_no_filter(2) [OF req(1) this, of lk] obtain sv where
    sv: "listed_entry B req lk [] (qdb s2) k = Some (Some sv)" "server_key sv = k"
      "ip (wan_address sv) = sb_aton B (ntop E (ip (from_address hb)))"
      "port (wan_address sv) = Some (port_number (from_address hb))"
    using wan by auto
  have "\<exists>parts sv. GetServers B req pv (qdb s2) = Some (parts, qdb s2) \<and>
      sv \<in> set (concat (map found parts)) \<and> server_key sv = k \<and>
      ip (wan_address sv) = sb_aton B (ntop E (ip (from_address hb))) \<and>
      port (wan_address sv) = Some (port_number (from_address hb))"
    if others: "\<forall>k' \<in> zmembers (servers_db E) ?z (qdb s). alive B (qdb s2) (c_string k')"
  proof -
    have "\<forall>k \<in> zmembers (sb_redis B) (c_string (str_tolower (gamename (m_for_game req)))) (qdb s2).
        alive B (qdb s2) (c_string k) \<and> listed_entry B req lk [] (qdb s2) (c_string k) \<noteq> None"
      using others a unfolding req(4) sb(1) k(8) by (simp add: listed_no_filter(1) [OF req(1)])
    from GetServers_lists [OF R [folded sb(1)] b req(2) this]
    obtain parts where "GetServers B req pv (qdb s2) = Some (parts, qdb s2)"
      "set (concat (map found parts)) = {sv. \<exists>k \<in> zmembers (servers_db E) ?z (qdb s2).
         listed_entry B req lk [] (qdb s2) (c_string k) = Some (Some sv)}"
      unfolding req(4) sb(1) by blast
    moreover have "listed_entry B req lk [] (qdb s2) (c_string k) = Some (Some sv)" using ck sv(1) by simp
    ultimately show ?thesis using k(8) sv(2-) by (intro exI [of _ parts] exI [of _ sv]) blast
  qed
  with k(1,2,7) show ?thesis by blast
qed

text \<open>One game and its first server.\<close>

theorem registered_server_is_browsed_witness:
  "\<exists>s1 s2 parts sv. QrDriver.PerformUVWorkRequest jtext one_game_env first_heartbeat no_servers = Some s1 \<and>
     QrDriver.PerformUVWorkRequest jtext one_game_env its_answer s1 = Some s2 \<and>
     GetServers browsing_env browse_g 1 (qdb s2) = Some (parts, qdb s2) \<and> sv \<in> set (concat (map found parts)) \<and>
     port (wan_address sv) = Some (port_number Address_default)"
proof -
  let ?g = "GetGameByName (servers_db one_game_env) ''g'' (games one_game_env)"
  have db: "servers_db one_game_env = kv_redis" by (simp add: one_game_env_def example_env_def)
  have b: "sb_redis browsing_env = servers_db one_game_env"
    "nul \<notin> set (ntop one_game_env (ip (from_address first_heartbeat)))"
    "sb_aton browsing_env (ntop one_game_env (ip (from_address first_heartbeat))) \<noteq> 0"
    "\<not> all_keys browse_g" "max_results browse_g = 0" "req_filter browse_g = []"
    "c_string (str_tolower (gamename (m_for_game browse_g))) = c_string (gamename ?g)"
    by (simp_all add: db one_game browsing_env_def browse_g_def new_list_req_def one_game_env_def example_env_def nul_def) code_simp
  have z: "c_string (gamename ?g) \<notin> set (map_keys one_game_env (v2_instance_key first_heartbeat) (from_address first_heartbeat))"
    by (simp add: db one_game map_keys_def ipinstmap_def c_string_def nul_def)
  have none: "zmembers (servers_db one_game_env) n (qdb no_servers) = {}" for n
    by (simp add: db zmembers_def kv_scans no_servers_def kv_empty_def)
  note facts = one_game_facts
  from registered_server_is_browsed [OF facts(1-7) refl facts(8-20) z b, where J = jtext and pv = 1]
  have "\<exists>s1 s2 parts sv. QrDriver.PerformUVWorkRequest jtext one_game_env first_heartbeat no_servers = Some s1 \<and>
      QrDriver.PerformUVWorkRequest jtext one_game_env its_answer s1 = Some s2 \<and>
      GetServers browsing_env browse_g 1 (qdb s2) = Some (parts, qdb s2) \<and> sv \<in> set (concat (map found parts)) \<and>
      port (wan_address sv) = Some (port_number (from_address first_heartbeat))"
    unfolding none by fast
  moreover have "from_address first_heartbeat = Address_default"
    by (simp add: first_heartbeat_def new_request_def)
  ultimately show ?thesis by simp
qed

end
